(* ===== verification/Prelude.thy ===== *)
theory Prelude
  imports Main "HOL-Library.Word" "HOL-Library.AList" "HOL-Library.Sublist"
begin

text \<open>
  What every component of the model shares: the Rust standard library's operations on strings
  and byte vectors that the sources call (a \<open>str\<close>, a \<open>String\<close> and a \<open>Vec<u8>\<close> are the list of
  their bytes), its integer parsing and printing, its \<open>HashMap\<close> as an association list with
  distinct keys, and the two generic interfaces of the development: a transition system with an
  invariant, and a reading of weighted sums over a map.
\<close>

named_theorems str_simps
  \<open>unfolding rules for the string operations of the Rust standard library\<close>

section \<open>Types\<close>

type_synonym bytes = "char list"
type_synonym time = nat
type_synonym ('k, 'v) hash_map = "('k \<times> 'v) list"

abbreviation byte :: "char \<Rightarrow> nat" where
  "byte c \<equiv> of_char c"

section \<open>ASCII characters\<close>

definition is_ascii_digit :: "char \<Rightarrow> bool" where
  "is_ascii_digit c \<longleftrightarrow> 48 \<le> byte c \<and> byte c \<le> 57"

definition ascii_lower :: "char \<Rightarrow> char" where
  "ascii_lower c = (if 65 \<le> byte c \<and> byte c \<le> 90 then char_of (byte c + 32) else c)"

definition ascii_upper :: "char \<Rightarrow> char" where
  "ascii_upper c = (if 97 \<le> byte c \<and> byte c \<le> 122 then char_of (byte c - 32) else c)"

definition to_ascii_lowercase :: "string \<Rightarrow> string" where
  "to_ascii_lowercase s = map ascii_lower s"

definition to_ascii_uppercase :: "string \<Rightarrow> string" where
  "to_ascii_uppercase s = map ascii_upper s"

definition eq_ignore_ascii_case :: "string \<Rightarrow> string \<Rightarrow> bool" where
  "eq_ignore_ascii_case a b \<longleftrightarrow> to_ascii_lowercase a = to_ascii_lowercase b"

lemma byte_char_of: "n < 256 \<Longrightarrow> byte (char_of n) = n"
  by simp

lemma ascii_lower_idem [simp]: "ascii_lower (ascii_lower c) = ascii_lower c"
proof (cases "65 \<le> byte c \<and> byte c \<le> 90")
  case True
  then have "byte (char_of (byte c + 32) :: char) = byte c + 32"
    by (intro byte_char_of) simp
  with True show ?thesis by (simp add: ascii_lower_def)
next
  case False
  then show ?thesis by (auto simp: ascii_lower_def)
qed

lemma to_ascii_lowercase_idem [simp]: "to_ascii_lowercase (to_ascii_lowercase s) = to_ascii_lowercase s"
  by (simp add: to_ascii_lowercase_def)

lemma to_ascii_lowercase_append [simp]:
  "to_ascii_lowercase (a @ b) = to_ascii_lowercase a @ to_ascii_lowercase b"
  by (simp add: to_ascii_lowercase_def)

lemma to_ascii_lowercase_Nil [simp]: "to_ascii_lowercase [] = []"
  by (simp add: to_ascii_lowercase_def)

lemma length_to_ascii_lowercase [simp]: "length (to_ascii_lowercase s) = length s"
  by (simp add: to_ascii_lowercase_def)

lemma to_ascii_lowercase_eq_Nil [simp]: "to_ascii_lowercase s = [] \<longleftrightarrow> s = []"
  by (simp add: to_ascii_lowercase_def)

section \<open>Prefixes, suffixes and searching\<close>

fun strip_prefix :: "'a list \<Rightarrow> 'a list \<Rightarrow> 'a list option" where
  "strip_prefix s [] = Some s"
| "strip_prefix [] (p # ps) = None"
| "strip_prefix (c # s) (p # ps) = (if c = p then strip_prefix s ps else None)"

definition starts_with :: "'a list \<Rightarrow> 'a list \<Rightarrow> bool" where
  "starts_with s p \<longleftrightarrow> strip_prefix s p \<noteq> None"

definition strip_suffix :: "'a list \<Rightarrow> 'a list \<Rightarrow> 'a list option" where
  "strip_suffix s p = map_option rev (strip_prefix (rev s) (rev p))"

definition ends_with :: "'a list \<Rightarrow> 'a list \<Rightarrow> bool" where
  "ends_with s p \<longleftrightarrow> starts_with (rev s) (rev p)"

fun find_sub :: "'a list \<Rightarrow> 'a list \<Rightarrow> nat option" where
  "find_sub [] p = (if p = [] then Some 0 else None)"
| "find_sub (c # s) p =
     (if starts_with (c # s) p then Some 0 else map_option Suc (find_sub s p))"

definition contains_sub :: "'a list \<Rightarrow> 'a list \<Rightarrow> bool" where
  "contains_sub s p \<longleftrightarrow> find_sub s p \<noteq> None"

lemma strip_prefix_Some_iff [simp]: "strip_prefix s p = Some r \<longleftrightarrow> s = p @ r"
  by (induction s p rule: strip_prefix.induct) auto

lemma strip_prefix_None_iff: "strip_prefix s p = None \<longleftrightarrow> (\<nexists>r. s = p @ r)"
  by (metis not_None_eq strip_prefix_Some_iff)

lemma strip_prefix_append [simp]: "strip_prefix (p @ r) p = Some r"
  by simp

lemma starts_with_iff: "starts_with s p \<longleftrightarrow> (\<exists>r. s = p @ r)"
  by (auto simp: starts_with_def strip_prefix_None_iff)

lemma starts_with_append [simp]: "starts_with (p @ r) p"
  by (auto simp: starts_with_iff)

lemma starts_with_Nil [simp]: "starts_with s []"
  by (auto simp: starts_with_iff)

lemma starts_with_Nil2 [simp]: "starts_with [] p \<longleftrightarrow> p = []"
  by (auto simp: starts_with_iff)

lemma starts_with_Cons [simp]: "starts_with (c # s) (p # ps) \<longleftrightarrow> c = p \<and> starts_with s ps"
  by (auto simp: starts_with_iff)

lemma starts_with_appendI: "starts_with s p \<Longrightarrow> starts_with (s @ t) p"
  by (auto simp: starts_with_iff)

lemma starts_with_append_short:
  "length p \<le> length s \<Longrightarrow> starts_with (s @ t) p \<longleftrightarrow> starts_with s p"
  unfolding starts_with_iff by (metis append_eq_append_conv_if append_take_drop_id append.assoc)

lemma starts_with_length: "starts_with s p \<Longrightarrow> length p \<le> length s"
  by (auto simp: starts_with_iff)

lemma ends_with_iff: "ends_with s p \<longleftrightarrow> (\<exists>r. s = r @ p)"
  unfolding ends_with_def starts_with_iff by (metis rev_append rev_rev_ident)

lemma find_sub_Some: "find_sub s p = Some i \<Longrightarrow> \<exists>r. s = take i s @ p @ r \<and> i + length p \<le> length s"
proof (induction s p arbitrary: i rule: find_sub.induct)
  case (1 p)
  then show ?case by (auto split: if_splits)
next
  case (2 c s p)
  show ?case
  proof (cases "starts_with (c # s) p")
    case True
    with 2 show ?thesis using starts_with_length [OF True] by (auto simp: starts_with_iff)
  next
    case False
    with 2 show ?thesis by auto
  qed
qed

lemma find_sub_leftmost: "find_sub (a @ p @ r) p = Some i \<Longrightarrow> i \<le> length a"
proof (induction a arbitrary: i)
  case Nil
  then show ?case using starts_with_append [of p r] by (cases "p @ r") auto
next
  case (Cons c a)
  then show ?case by (auto split: if_splits)
qed

lemma find_sub_complete: "\<exists>i. find_sub (a @ p @ r) p = Some i \<and> i \<le> length a"
proof (induction a)
  case Nil
  then show ?case using starts_with_append [of p r] by (cases "p @ r") auto
next
  case (Cons c a)
  then show ?case by auto
qed

lemma find_sub_None_iff: "find_sub s p = None \<longleftrightarrow> (\<nexists>a r. s = a @ p @ r)"
  by (metis find_sub_Some find_sub_complete not_None_eq)

lemma contains_sub_iff: "contains_sub s p \<longleftrightarrow> (\<exists>a r. s = a @ p @ r)"
  by (auto simp: contains_sub_def find_sub_None_iff)

section \<open>Splitting\<close>

fun split_char :: "'a \<Rightarrow> 'a list \<Rightarrow> 'a list list" where
  "split_char c [] = [[]]"
| "split_char c (x # xs) =
     (if x = c then [] # split_char c xs
      else (case split_char c xs of [] \<Rightarrow> [[x]] | w # ws \<Rightarrow> (x # w) # ws))"

text \<open>\<open>str::split_once\<close> with a character.\<close>

fun split_once :: "'a \<Rightarrow> 'a list \<Rightarrow> ('a list \<times> 'a list) option" where
  "split_once c [] = None"
| "split_once c (x # xs) =
     (if x = c then Some ([], xs) else map_option (\<lambda>(a, b). (x # a, b)) (split_once c xs))"

fun join_with :: "'a list \<Rightarrow> 'a list list \<Rightarrow> 'a list" where
  "join_with sep [] = []"
| "join_with sep [w] = w"
| "join_with sep (w # v # ws) = w @ sep @ join_with sep (v # ws)"

lemma split_char_not_Nil [simp]: "split_char c s \<noteq> []"
  by (cases s) (auto split: list.splits)

lemma split_char_parts: "w \<in> set (split_char c s) \<Longrightarrow> c \<notin> set w"
  by (induction s arbitrary: w) (auto split: if_splits list.splits)

lemma join_split_char: "join_with [c] (split_char c s) = s"
proof (induction s)
  case Nil
  then show ?case by simp
next
  case (Cons x xs)
  obtain w ws where "split_char c xs = w # ws"
    by (cases "split_char c xs") auto
  with Cons show ?case by (cases ws) auto
qed

lemma split_once_Some: "split_once c s = Some (a, b) \<Longrightarrow> s = a @ c # b \<and> c \<notin> set a"
  by (induction s arbitrary: a b) (auto split: if_splits)

lemma split_once_append [simp]: "c \<notin> set a \<Longrightarrow> split_once c (a @ c # b) = Some (a, b)"
  by (induction a) auto

lemma split_once_None_iff: "split_once c s = None \<longleftrightarrow> c \<notin> set s"
  by (induction s) auto

text \<open>\<open>str::lines\<close>: the pieces between line feeds, each without one carriage return before its line
  feed; a last piece without a line feed counts if it is not empty.\<close>

definition strip_cr :: "string \<Rightarrow> string" where
  "strip_cr l = (case strip_suffix l [CHR 0x0D] of Some r \<Rightarrow> r | None \<Rightarrow> l)"

definition str_lines :: "string \<Rightarrow> string list" where
  "str_lines s =
     (let parts = split_char (CHR 0x0A) s in
      map strip_cr (butlast parts) @ (if last parts = [] then [] else [last parts]))"

text \<open>\<open>str::replace\<close> with a character as the pattern.\<close>

definition replace_char :: "char \<Rightarrow> string \<Rightarrow> string \<Rightarrow> string" where
  "replace_char c r s = concat (map (\<lambda>x. if x = c then r else [x]) s)"

definition unlines :: "string list \<Rightarrow> string" where
  "unlines ls = concat (map (\<lambda>l. l @ [CHR 0x0A]) ls)"

definition plain_line :: "string \<Rightarrow> bool" where
  "plain_line l \<longleftrightarrow> CHR 0x0A \<notin> set l \<and> \<not> ends_with l [CHR 0x0D]"

lemma split_char_singleton: "c \<notin> set p \<Longrightarrow> split_char c p = [p]"
  by (induction p) auto

lemma split_char_append_sep: "split_char c (a @ c # b) = split_char c a @ split_char c b"
  by (induction a) (auto split: list.splits)

lemma split_char_unlines: "list_all plain_line ls \<Longrightarrow> split_char (CHR 0x0A) (unlines ls) = ls @ [[]]"
proof (induction ls)
  case (Cons l ls)
  have "split_char (CHR 0x0A) l = [l]"
    using Cons.prems by (simp add: plain_line_def split_char_singleton)
  then show ?case
    using Cons split_char_append_sep [of "CHR 0x0A" l "unlines ls"] by (simp add: unlines_def)
qed (simp add: unlines_def)

lemma strip_cr_plain: "plain_line l \<Longrightarrow> strip_cr l = l"
  by (cases "strip_suffix l [CHR 0x0D]")
    (auto simp: strip_cr_def plain_line_def ends_with_def strip_suffix_def starts_with_def)

lemma str_lines_unlines: "list_all plain_line ls \<Longrightarrow> str_lines (unlines ls) = ls"
  by (simp add: str_lines_def split_char_unlines map_idI list_all_iff strip_cr_plain)

section \<open>White space\<close>

text \<open>
  \<open>str::trim\<close> removes the characters with the Unicode property White_Space. On the bytes of a
  UTF-8 string these are the ASCII bytes 9--13 and 32 and the sequences below; \<open>ws_head\<close> is the
  number of bytes of a white-space character at the front of a string, \<open>ws_tail\<close> the same at the
  front of a reversed string.
\<close>

definition is_ascii_ws :: "nat \<Rightarrow> bool" where
  "is_ascii_ws n \<longleftrightarrow> (9 \<le> n \<and> n \<le> 13) \<or> n = 32"

definition ws2 :: "nat \<Rightarrow> nat \<Rightarrow> bool" where
  "ws2 a b \<longleftrightarrow> a = 194 \<and> (b = 133 \<or> b = 160)"

definition ws3 :: "nat \<Rightarrow> nat \<Rightarrow> nat \<Rightarrow> bool" where
  "ws3 a b c \<longleftrightarrow> (a = 225 \<and> b = 154 \<and> c = 128)
     \<or> (a = 226 \<and> b = 128 \<and> ((128 \<le> c \<and> c \<le> 138) \<or> c = 168 \<or> c = 169 \<or> c = 175))
     \<or> (a = 226 \<and> b = 129 \<and> c = 159)
     \<or> (a = 227 \<and> b = 128 \<and> c = 128)"

definition ws_head :: "string \<Rightarrow> nat" where
  "ws_head s = (case s of
     [] \<Rightarrow> 0
   | a # t \<Rightarrow> if is_ascii_ws (byte a) then 1 else (case t of
       [] \<Rightarrow> 0
     | b # u \<Rightarrow> if ws2 (byte a) (byte b) then 2 else (case u of
         [] \<Rightarrow> 0
       | c # _ \<Rightarrow> if ws3 (byte a) (byte b) (byte c) then 3 else 0)))"

definition ws_tail :: "string \<Rightarrow> nat" where
  "ws_tail s = (case s of
     [] \<Rightarrow> 0
   | a # t \<Rightarrow> if is_ascii_ws (byte a) then 1 else (case t of
       [] \<Rightarrow> 0
     | b # u \<Rightarrow> if ws2 (byte b) (byte a) then 2 else (case u of
         [] \<Rightarrow> 0
       | c # _ \<Rightarrow> if ws3 (byte c) (byte b) (byte a) then 3 else 0)))"

lemma ws_head_le: "ws_head s \<le> length s"
  by (auto simp: ws_head_def split: list.splits)

lemma ws_tail_le: "ws_tail s \<le> length s"
  by (auto simp: ws_tail_def split: list.splits)

function trim_start :: "string \<Rightarrow> string" where
  "trim_start s = (if ws_head s = 0 then s else trim_start (drop (ws_head s) s))"
  by pat_completeness auto
termination
proof (relation "measure length", goal_cases)
  case (2 s)
  then show ?case using ws_head_le [of s] by simp
qed simp

function trim_rev :: "string \<Rightarrow> string" where
  "trim_rev s = (if ws_tail s = 0 then s else trim_rev (drop (ws_tail s) s))"
  by pat_completeness auto
termination
proof (relation "measure length", goal_cases)
  case (2 s)
  then show ?case using ws_tail_le [of s] by simp
qed simp

declare trim_start.simps [simp del] trim_rev.simps [simp del]

definition trim_end :: "string \<Rightarrow> string" where
  "trim_end s = rev (trim_rev (rev s))"

definition trim :: "string \<Rightarrow> string" where
  "trim s = trim_end (trim_start s)"

lemma trim_start_suffix: "\<exists>w. s = w @ trim_start s"
proof (induction s rule: trim_start.induct)
  case (1 s)
  show ?case
  proof (cases "ws_head s = 0")
    case True
    then show ?thesis by (simp add: trim_start.simps [of s])
  next
    case False
    with 1 obtain w where "drop (ws_head s) s = w @ trim_start (drop (ws_head s) s)" by blast
    moreover have "trim_start s = trim_start (drop (ws_head s) s)"
      using False by (simp add: trim_start.simps [of s])
    ultimately have "s = (take (ws_head s) s @ w) @ trim_start s"
      by (metis append_take_drop_id append.assoc)
    then show ?thesis ..
  qed
qed

lemma trim_start_Nil [simp]: "trim_start [] = []"
  by (simp add: trim_start.simps ws_head_def)

lemma trim_Nil [simp]: "trim [] = []"
  by (simp add: trim_def trim_end_def trim_rev.simps ws_tail_def)

lemma ws_head_trim_start [simp]: "ws_head (trim_start s) = 0"
  by (induction s rule: trim_start.induct) (metis trim_start.simps)

lemma trim_start_idem [simp]: "trim_start (trim_start s) = trim_start s"
  by (subst trim_start.simps) simp

section \<open>Numbers\<close>

fun show_nat :: "nat \<Rightarrow> string" where
  "show_nat n = (if n < 10 then [char_of (48 + n)] else show_nat (n div 10) @ [char_of (48 + n mod 10)])"

declare show_nat.simps [simp del]

definition pad_zero :: "nat \<Rightarrow> string \<Rightarrow> string" where
  "pad_zero w s = replicate (w - length s) (CHR ''0'') @ s"

definition show_int :: "int \<Rightarrow> string" where
  "show_int i = (if i < 0 then CHR ''-'' # show_nat (nat (- i)) else show_nat (nat i))"

definition digits_value :: "string \<Rightarrow> nat" where
  "digits_value s = foldl (\<lambda>n c. 10 * n + (byte c - 48)) 0 s"

text \<open>\<open>str::parse\<close> at an unsigned type with the largest value \<open>hi\<close>: an optional plus sign,
  then one digit or more; anything else and an overflow is an error.\<close>

definition parse_uint :: "nat \<Rightarrow> string \<Rightarrow> nat option" where
  "parse_uint hi s =
     (let d = (case s of c # r \<Rightarrow> if c = CHR ''+'' then r else s | [] \<Rightarrow> []) in
      if d = [] \<or> \<not> list_all is_ascii_digit d then None
      else if digits_value d \<le> hi then Some (digits_value d) else None)"

definition u16_max :: nat where "u16_max = 65535"
definition u64_max :: nat where "u64_max = 18446744073709551615"
definition usize_max :: nat where "usize_max = 18446744073709551615"

lemma digits_value_append: "digits_value (a @ [c]) = 10 * digits_value a + (byte c - 48)"
  by (simp add: digits_value_def)

lemma show_nat_digits: "list_all is_ascii_digit (show_nat n)"
proof (induction n rule: show_nat.induct)
  case (1 n)
  have d: "is_ascii_digit (char_of (48 + m))" if "m < 10" for m :: nat
    using that by (simp add: is_ascii_digit_def byte_char_of)
  show ?case
    using 1 d [of n] d [of "n mod 10"] by (subst show_nat.simps) auto
qed

lemma show_nat_not_Nil [simp]: "show_nat n \<noteq> []"
  by (subst show_nat.simps) auto

lemma digits_value_show_nat [simp]: "digits_value (show_nat n) = n"
proof (induction n rule: show_nat.induct)
  case (1 n)
  show ?case
  proof (cases "n < 10")
    case True
    then show ?thesis by (subst show_nat.simps) (simp add: digits_value_def byte_char_of)
  next
    case False
    with 1 have "digits_value (show_nat (n div 10)) = n div 10" by simp
    with False show ?thesis
      by (subst show_nat.simps) (simp add: digits_value_append byte_char_of)
  qed
qed

lemma show_nat_hd: "hd (show_nat n) \<noteq> CHR ''+''"
proof -
  have "is_ascii_digit (hd (show_nat n))"
    using show_nat_digits [of n] show_nat_not_Nil [of n] by (cases "show_nat n") auto
  then show ?thesis by (auto simp: is_ascii_digit_def)
qed

lemma parse_show_nat: "n \<le> hi \<Longrightarrow> parse_uint hi (show_nat n) = Some n"
proof -
  assume "n \<le> hi"
  have "(case show_nat n of c # r \<Rightarrow> if c = CHR ''+'' then r else show_nat n | [] \<Rightarrow> []) = show_nat n"
    using show_nat_hd [of n] by (cases "show_nat n") auto
  with \<open>n \<le> hi\<close> show ?thesis by (simp add: parse_uint_def show_nat_digits)
qed

lemma parse_uint_le: "parse_uint hi s = Some n \<Longrightarrow> n \<le> hi"
  by (auto simp: parse_uint_def Let_def split: if_splits)

lemma pad_zero_value: "digits_value (pad_zero w s) = digits_value s"
proof -
  have "digits_value (replicate n (CHR ''0'') @ s) = digits_value s" for n
    by (induction n) (simp_all add: digits_value_def)
  then show ?thesis by (simp add: pad_zero_def)
qed

lemma pad_zero_show_inj: "pad_zero w (show_nat m) = pad_zero w (show_nat n) \<longleftrightarrow> m = n"
  by (metis digits_value_show_nat pad_zero_value)

lemma pad_zero_digits: "list_all is_ascii_digit s \<Longrightarrow> list_all is_ascii_digit (pad_zero w s)"
  by (auto simp: pad_zero_def list_all_iff is_ascii_digit_def)

section \<open>UTF-8\<close>

text \<open>
  \<open>utf8_head\<close> reads one character at the front of a byte string, as \<open>core::str\<close> does: how many
  bytes it takes, and whether they are a valid character; an invalid sequence is the longest
  prefix that could still have become one, or a single byte.
\<close>

definition utf8_cont :: "nat \<Rightarrow> bool" where
  "utf8_cont b \<longleftrightarrow> 128 \<le> b \<and> b \<le> 191"

definition utf8_width :: "nat \<Rightarrow> nat" where
  "utf8_width b = (if b < 128 then 1 else if b < 194 then 0 else if b < 224 then 2
     else if b < 240 then 3 else if b < 245 then 4 else 0)"

definition utf8_second :: "nat \<Rightarrow> nat \<Rightarrow> bool" where
  "utf8_second a b \<longleftrightarrow>
     (if a = 224 then 160 \<le> b \<and> b \<le> 191
      else if a = 237 then 128 \<le> b \<and> b \<le> 159
      else if a = 240 then 144 \<le> b \<and> b \<le> 191
      else if a = 244 then 128 \<le> b \<and> b \<le> 143
      else utf8_cont b)"

definition utf8_head :: "bytes \<Rightarrow> nat \<times> bool" where
  "utf8_head s = (case s of
     [] \<Rightarrow> (0, True)
   | a # r \<Rightarrow>
       (let w = utf8_width (byte a) in
        if w = 0 then (1, False)
        else if w = 1 then (1, True)
        else (case r of
          [] \<Rightarrow> (1, False)
        | b # r1 \<Rightarrow>
            if \<not> utf8_second (byte a) (byte b) then (1, False)
            else if w = 2 then (2, True)
            else (case r1 of
              [] \<Rightarrow> (2, False)
            | c # r2 \<Rightarrow>
                if \<not> utf8_cont (byte c) then (2, False)
                else if w = 3 then (3, True)
                else (case r2 of
                  [] \<Rightarrow> (3, False)
                | d # _ \<Rightarrow> if utf8_cont (byte d) then (4, True) else (3, False))))))"

lemma utf8_head_pos: "s \<noteq> [] \<Longrightarrow> 0 < fst (utf8_head s)"
  by (auto simp: utf8_head_def Let_def split: list.splits)

function utf8_valid :: "bytes \<Rightarrow> bool" where
  "utf8_valid s =
     (if s = [] then True else snd (utf8_head s) \<and> utf8_valid (drop (fst (utf8_head s)) s))"
  by pat_completeness auto
termination
proof (relation "measure length", goal_cases)
  case (2 s)
  then show ?case using utf8_head_pos [of s] by (cases s) auto
qed simp

function from_utf8_lossy :: "bytes \<Rightarrow> string" where
  "from_utf8_lossy s =
     (if s = [] then []
      else (if snd (utf8_head s) then take (fst (utf8_head s)) s else map char_of [239, 191, 189 :: nat])
           @ from_utf8_lossy (drop (fst (utf8_head s)) s))"
  by pat_completeness auto
termination
proof (relation "measure length", goal_cases)
  case (2 s)
  then show ?case using utf8_head_pos [of s] by (cases s) auto
qed simp

declare utf8_valid.simps [simp del] from_utf8_lossy.simps [simp del]

lemma from_utf8_lossy_valid: "utf8_valid s \<Longrightarrow> from_utf8_lossy s = s"
proof (induction s rule: utf8_valid.induct)
  case (1 s)
  show ?case
  proof (cases "s = []")
    case True
    then show ?thesis by (simp add: from_utf8_lossy.simps)
  next
    case False
    with 1 show ?thesis by (simp add: from_utf8_lossy.simps [of s] utf8_valid.simps [of s])
  qed
qed

definition from_utf8 :: "bytes \<Rightarrow> string option" where
  "from_utf8 s = (if utf8_valid s then Some s else None)"

text \<open>The characters of a string (\<open>str::chars\<close>), each as its bytes, and the text \<open>{:?}\<close> writes for a
  string. Which characters beyond ASCII are written as an escape is a table of the standard library,
  the argument \<open>U\<close>.\<close>

function str_chars :: "string \<Rightarrow> string list" where
  "str_chars s = (if s = [] then [] else take (fst (utf8_head s)) s # str_chars (drop (fst (utf8_head s)) s))"
  by pat_completeness auto
termination
proof (relation "measure length", goal_cases)
  case (2 s)
  then show ?case using utf8_head_pos [of s] by simp
qed simp

declare str_chars.simps [simp del]

definition hex_digit :: "nat \<Rightarrow> char" where
  "hex_digit n = (if n < 10 then char_of (48 + n) else char_of (87 + n))"

definition debug_char :: "(string \<Rightarrow> string option) \<Rightarrow> string \<Rightarrow> string" where
  "debug_char U ch = (case ch of
     [c] \<Rightarrow>
       if c = CHR 0x00 then [CHR 0x5C, CHR ''0'']
       else if c = CHR 0x09 then [CHR 0x5C, CHR ''t'']
       else if c = CHR 0x0A then [CHR 0x5C, CHR ''n'']
       else if c = CHR 0x0D then [CHR 0x5C, CHR ''r'']
       else if c = CHR 0x22 \<or> c = CHR 0x5C then [CHR 0x5C, c]
       else if byte c < 16 then [CHR 0x5C, CHR ''u'', CHR 0x7B, hex_digit (byte c), CHR 0x7D]
       else if byte c < 32 \<or> byte c = 127 then
         [CHR 0x5C, CHR ''u'', CHR 0x7B, hex_digit (byte c div 16), hex_digit (byte c mod 16), CHR 0x7D]
       else [c]
   | _ \<Rightarrow> (case U ch of Some e \<Rightarrow> e | None \<Rightarrow> ch))"

definition debug_str :: "(string \<Rightarrow> string option) \<Rightarrow> string \<Rightarrow> string" where
  "debug_str U s = CHR 0x22 # concat (map (debug_char U) (str_chars s)) @ [CHR 0x22]"


section \<open>Hash maps\<close>

text \<open>
  \<open>std::collections::HashMap\<close> is an association list with distinct keys. Its iteration order is
  unspecified in Rust; the model fixes one, and no property depends on which.
\<close>

abbreviation hm_get :: "('k, 'v) hash_map \<Rightarrow> 'k \<Rightarrow> 'v option" where
  "hm_get \<equiv> map_of"

abbreviation hm_insert :: "'k \<Rightarrow> 'v \<Rightarrow> ('k, 'v) hash_map \<Rightarrow> ('k, 'v) hash_map" where
  "hm_insert \<equiv> AList.update"

abbreviation hm_remove :: "'k \<Rightarrow> ('k, 'v) hash_map \<Rightarrow> ('k, 'v) hash_map" where
  "hm_remove \<equiv> AList.delete"

definition hm_wf :: "('k, 'v) hash_map \<Rightarrow> bool" where
  "hm_wf m \<longleftrightarrow> distinct (map fst m)"

lemma hm_wf_Nil [simp]: "hm_wf []"
  by (simp add: hm_wf_def)

lemma hm_wf_insert [simp]: "hm_wf m \<Longrightarrow> hm_wf (hm_insert k v m)"
  by (simp add: hm_wf_def distinct_update)

lemma hm_wf_remove [simp]: "hm_wf m \<Longrightarrow> hm_wf (hm_remove k m)"
  by (simp add: hm_wf_def distinct_delete)

lemma hm_get_insert [simp]: "hm_get (hm_insert k v m) = (hm_get m)(k \<mapsto> v)"
  by (simp add: update_conv')

lemma hm_get_remove [simp]: "hm_get (hm_remove k m) = (hm_get m)(k := None)"
  by (simp add: delete_conv')

text \<open>The weight \<open>w\<close> of the values whose key satisfies \<open>P\<close>, summed.\<close>

definition weight_of :: "('v \<Rightarrow> nat) \<Rightarrow> ('k \<Rightarrow> bool) \<Rightarrow> ('k, 'v) hash_map \<Rightarrow> nat" where
  "weight_of w P m = sum_list (map (\<lambda>(k, v). if P k then w v else 0) m)"

lemma weight_of_Nil [simp]: "weight_of w P [] = 0"
  by (simp add: weight_of_def)

lemma weight_of_Cons [simp]:
  "weight_of w P ((k, v) # m) = (if P k then w v else 0) + weight_of w P m"
  by (simp add: weight_of_def)

lemma weight_of_remove:
  "hm_wf m \<Longrightarrow> hm_get m k = Some v \<Longrightarrow>
   weight_of w P m = weight_of w P (hm_remove k m) + (if P k then w v else 0)"
proof (induction m)
  case Nil
  then show ?case by simp
next
  case (Cons kv m)
  obtain k' v' where kv: "kv = (k', v')" by fastforce
  show ?case
  proof (cases "k' = k")
    case True
    with Cons.prems kv have "k \<notin> fst ` set m" by (simp add: hm_wf_def)
    then have "hm_remove k m = m" by (simp add: delete_id)
    with Cons.prems kv True show ?thesis by simp
  next
    case False
    with Cons.prems kv have "weight_of w P m = weight_of w P (hm_remove k m) + (if P k then w v else 0)"
      by (intro Cons.IH) (simp_all add: hm_wf_def)
    with False kv show ?thesis by simp
  qed
qed

lemma weight_of_insert_new:
  "hm_get m k = None \<Longrightarrow> weight_of w P (hm_insert k v m) = weight_of w P m + (if P k then w v else 0)"
  by (induction m) auto

lemma weight_of_insert_old:
  "hm_wf m \<Longrightarrow> hm_get m k = Some u \<Longrightarrow>
   weight_of w P (hm_insert k v m) + (if P k then w u else 0) =
   weight_of w P m + (if P k then w v else 0)"
  by (induction m) (auto simp: hm_wf_def)

lemma weight_of_le: "hm_get m k = Some v \<Longrightarrow> P k \<Longrightarrow> w v \<le> weight_of w P m"
  by (induction m) (auto split: if_splits intro: trans_le_add2)

lemma weight_of_mono: "(\<And>k. P k \<Longrightarrow> Q k) \<Longrightarrow> weight_of w P m \<le> weight_of w Q m"
  by (induction m) (auto intro: add_mono)

lemma nth_list_update_any: "j < length xs \<Longrightarrow> xs[i := x] ! j = (if i = j then x else xs ! j)"
  by (cases "i < length xs") (auto simp: list_update_beyond)

section \<open>Functions that may fail\<close>

text \<open>A function with effects returns an error or a value together with the state it leaves; the
  question mark operator ends the function at the first error, with the effects so far.\<close>

type_synonym ('s, 'e, 'a) fallible = "'s \<Rightarrow> ('e + 'a) \<times> 's"

definition try_then :: "('s, 'e, 'a) fallible \<Rightarrow> ('a \<Rightarrow> ('s, 'e, 'b) fallible) \<Rightarrow> ('s, 'e, 'b) fallible" where
  "try_then m k s = (case m s of (Inl err, s1) \<Rightarrow> (Inl err, s1) | (Inr a, s1) \<Rightarrow> k a s1)"

definition try_return :: "'a \<Rightarrow> ('s, 'e, 'a) fallible" where
  "try_return a s = (Inr a, s)"

lemma try_then_assoc: "try_then (try_then m k) h = try_then m (\<lambda>a. try_then (k a) h)"
  by (rule ext) (simp add: try_then_def split: prod.split sum.split)

lemma try_then_return [simp]: "try_then (try_return a) k = k a" "try_then m try_return = m"
  by (rule ext; simp add: try_then_def try_return_def split: prod.split sum.split)+

section \<open>Transition systems with an invariant\<close>

text \<open>
  The interface that the stateful components share: an operation of the component is a step, the
  invariant holds at the start and every step keeps it. What a client gets is that the invariant
  holds in every state it can reach.
\<close>

inductive reach :: "('s \<Rightarrow> 's \<Rightarrow> bool) \<Rightarrow> 's \<Rightarrow> 's \<Rightarrow> bool" for step where
  reach_refl: "reach step s s"
| reach_step: "reach step s t \<Longrightarrow> step t u \<Longrightarrow> reach step s u"

locale invariant_system =
  fixes initial :: "'s \<Rightarrow> bool"
    and step :: "'s \<Rightarrow> 's \<Rightarrow> bool"
    and inv :: "'s \<Rightarrow> bool"
  assumes initial_inv: "initial s \<Longrightarrow> inv s"
    and step_inv: "inv s \<Longrightarrow> step s t \<Longrightarrow> inv t"
begin

lemma reach_inv_from: "reach step s t \<Longrightarrow> inv s \<Longrightarrow> inv t"
  by (induction rule: reach.induct) (auto intro: step_inv)

lemma reach_inv: "initial s \<Longrightarrow> reach step s t \<Longrightarrow> inv t"
  by (blast intro: reach_inv_from initial_inv)

end

text \<open>
  A store that several owners share: a step is made by one owner, every step keeps the
  invariant, and what another owner can see of the store is left alone, except for what is in the
  set \<open>lapsed\<close> that the step carries, which may disappear (by expiry).
\<close>

locale shared_store =
  invariant_system initial "\<lambda>s t. \<exists>who lapsed. step_of who lapsed s t" inv
  for initial :: "'s \<Rightarrow> bool" and inv :: "'s \<Rightarrow> bool"
    and step_of :: "'o \<Rightarrow> 'v set \<Rightarrow> 's \<Rightarrow> 's \<Rightarrow> bool" +
  fixes view :: "'s \<Rightarrow> 'k \<Rightarrow> 'v option"
    and owner :: "'k \<Rightarrow> 'o"
  assumes foreign_frame: "inv s \<Longrightarrow> step_of who lapsed s t \<Longrightarrow> owner k \<noteq> who \<Longrightarrow>
    view t k = view s k \<or> view t k = None \<and> (\<exists>v \<in> lapsed. view s k = Some v)"
begin

lemma own_reach_inv: "reach (step_of who lapsed) s t \<Longrightarrow> inv s \<Longrightarrow> inv t"
  by (induction rule: reach.induct) (auto intro: step_inv)

lemma own_reach_foreign:
  "reach (step_of who lapsed) s t \<Longrightarrow> inv s \<Longrightarrow> owner k \<noteq> who \<Longrightarrow>
   view t k = view s k \<or> view t k = None \<and> (\<exists>v \<in> lapsed. view s k = Some v)"
proof (induction rule: reach.induct)
  case (reach_step s t u)
  then have "view u k = view t k \<or> view u k = None \<and> (\<exists>v \<in> lapsed. view t k = Some v)"
    using foreign_frame [of t who lapsed u k] own_reach_inv [of who lapsed s t] by blast
  with reach_step.IH reach_step.prems show ?case by (metis option.distinct(1))
qed simp

end

lemma reach_mono: "reach step s t \<Longrightarrow> (\<And>s t. step s t \<Longrightarrow> step' s t) \<Longrightarrow> reach step' s t"
  by (induction rule: reach.induct) (auto intro: reach.intros)

lemma reach_trans: "reach step t u \<Longrightarrow> reach step s t \<Longrightarrow> reach step s u"
  by (induction rule: reach.induct) (auto intro: reach.intros)

lemma reach_one: "step s t \<Longrightarrow> reach step s t"
  by (rule reach_step [OF reach_refl])

end
