(* ===== verification/FilterTypes.thy ===== *)
theory FilterTypes
  imports Prelude
begin

text \<open>
  The data the filters work on and the triggers that select them
  (\<open>src/src/filters/types.rs\<close>): the views of a connection, a request and a response a trigger is
  matched against, the filters' actions and patches, and the glob matcher of the triggers with its
  relation to the glob language. A \<open>u16\<close> status or port is a \<open>nat\<close>: the sources only compare and
  copy them.
\<close>

section \<open>Filter definitions\<close>

datatype filter_source_kind = Persistent | Generated

fun source_kind_as_str :: "filter_source_kind \<Rightarrow> string" where
  "source_kind_as_str Persistent = ''persistent''"
| "source_kind_as_str Generated = ''generated''"

datatype filter_phase = Connect | Request | Response | Completed

record filter_trigger =
  trg_host :: "string list"
  trg_path :: "string list"
  trg_method :: "string list"
  trg_phase :: "filter_phase list"

definition default_trigger :: filter_trigger where
  "default_trigger = \<lparr>trg_host = [''*''], trg_path = [''*''], trg_method = [], trg_phase = []\<rparr>"

record filter_metadata =
  fm_id :: "string option"
  fm_name :: "string option"
  fm_enabled :: bool
  fm_priority :: "int option"
  fm_trigger :: filter_trigger

definition default_metadata :: filter_metadata where
  "default_metadata = \<lparr>fm_id = None, fm_name = None, fm_enabled = True, fm_priority = None,
     fm_trigger = default_trigger\<rparr>"

record filter_definition =
  fd_id :: string
  fd_source_kind :: filter_source_kind
  fd_file_name :: string
  fd_script_hash :: string
  fd_path :: string
  fd_source :: string
  fd_metadata :: filter_metadata
  fd_script :: string

section \<open>Views\<close>

record filter_request_view =
  vw_host :: string
  vw_path :: string
  vw_method :: string

record filter_connect_view =
  cv_host :: string
  cv_port :: nat

record filter_response_view =
  rv_request :: filter_request_view
  rv_status :: nat
  rv_content_type :: "string option"

section \<open>Requests and responses as filters see them\<close>

record filter_connect =
  fc_id :: string
  fc_host :: string
  fc_port :: nat

record filter_header =
  fh_name :: string
  fh_value :: string

record filter_body =
  fb_bytes :: bytes
  fb_text :: "string option"
  fb_content_type :: "string option"
  fb_encoding :: "string option"
  fb_truncated :: bool

record filter_request =
  fr_id :: string
  fr_seq :: nat
  fr_flow_key :: string
  fr_method :: string
  fr_scheme :: string
  fr_host :: string
  fr_path :: string
  fr_query :: string
  fr_version :: string
  fr_headers :: "filter_header list"
  fr_body :: filter_body
  fr_tls_sni :: "string option"

record filter_response =
  fp_status :: nat
  fp_version :: string
  fp_headers :: "filter_header list"
  fp_body :: filter_body
  fp_upstream_status :: "nat option"
  fp_elapsed_ms :: "int option"

record filter_flow =
  ff_id :: string
  ff_seq :: nat
  ff_flow_key :: string
  ff_request :: filter_request
  ff_response :: "filter_response option"

section \<open>Actions\<close>

record filter_mark =
  mk_label :: string
  mk_color :: "string option"

datatype outbound_http_body_source =
    JobBytes bytes
  | CapturedRequest
  | CapturedResponse
  | CapturedRequestJson
  | CapturedResponseJson
  | CapturedFlowJson

record outbound_http_job =
  job_client :: string
  job_method :: string
  job_path :: string
  job_headers :: "filter_header list"
  job_body :: outbound_http_body_source

record outbound_http_body =
  ohb_bytes :: bytes
  ohb_content_type :: "string option"

record filter_body_patch =
  bp_bytes :: bytes
  bp_content_type :: "string option"

record filter_request_patch =
  qp_method :: "string option"
  qp_path :: "string option"
  qp_query :: "string option"
  qp_set_headers :: "filter_header list"
  qp_remove_headers :: "string list"
  qp_body :: "filter_body_patch option"

definition default_request_patch :: filter_request_patch where
  "default_request_patch = \<lparr>qp_method = None, qp_path = None, qp_query = None, qp_set_headers = [],
     qp_remove_headers = [], qp_body = None\<rparr>"

record filter_response_patch =
  pp_status :: "nat option"
  pp_set_headers :: "filter_header list"
  pp_remove_headers :: "string list"
  pp_body :: "filter_body_patch option"

definition default_response_patch :: filter_response_patch where
  "default_response_patch = \<lparr>pp_status = None, pp_set_headers = [], pp_remove_headers = [], pp_body = None\<rparr>"

record filter_synthetic_response =
  syn_status :: nat
  syn_headers :: "filter_header list"
  syn_body :: bytes

record connect_action =
  ca_marks :: "filter_mark list"
  ca_continue_filters :: bool
  ca_drop_tunnel :: bool
  ca_reject_status :: "nat option"

definition connect_pass :: connect_action where
  "connect_pass = \<lparr>ca_marks = [], ca_continue_filters = True, ca_drop_tunnel = False, ca_reject_status = None\<rparr>"

definition connect_drop :: "connect_action \<Rightarrow> connect_action" where
  "connect_drop a = a\<lparr>ca_drop_tunnel := True, ca_continue_filters := False\<rparr>"

definition connect_reject :: "connect_action \<Rightarrow> nat \<Rightarrow> connect_action" where
  "connect_reject a status =
     a\<lparr>ca_drop_tunnel := True, ca_reject_status := Some status, ca_continue_filters := False\<rparr>"

definition connect_stop :: "connect_action \<Rightarrow> connect_action" where
  "connect_stop a = a\<lparr>ca_continue_filters := False\<rparr>"

record request_action =
  ra_request :: "filter_request_patch option"
  ra_synthetic_response :: "filter_synthetic_response option"
  ra_marks :: "filter_mark list"
  ra_tags :: "string list"
  ra_notes :: "string list"
  ra_outbound_http :: "outbound_http_job list"
  ra_continue_filters :: bool
  ra_drop_client_response :: bool
  ra_bypass_upstream_proxy :: bool

definition request_pass :: request_action where
  "request_pass = \<lparr>ra_request = None, ra_synthetic_response = None, ra_marks = [], ra_tags = [],
     ra_notes = [], ra_outbound_http = [], ra_continue_filters = True,
     ra_drop_client_response = False, ra_bypass_upstream_proxy = False\<rparr>"

definition request_stop :: "request_action \<Rightarrow> request_action" where
  "request_stop a = a\<lparr>ra_continue_filters := False\<rparr>"

record response_action =
  sa_response :: "filter_response_patch option"
  sa_marks :: "filter_mark list"
  sa_tags :: "string list"
  sa_notes :: "string list"
  sa_outbound_http :: "outbound_http_job list"
  sa_continue_filters :: bool
  sa_drop_client_response :: bool

definition response_pass :: response_action where
  "response_pass = \<lparr>sa_response = None, sa_marks = [], sa_tags = [], sa_notes = [],
     sa_outbound_http = [], sa_continue_filters = True, sa_drop_client_response = False\<rparr>"

definition response_stop :: "response_action \<Rightarrow> response_action" where
  "response_stop a = a\<lparr>sa_continue_filters := False\<rparr>"

record completed_action =
  da_marks :: "filter_mark list"
  da_tags :: "string list"
  da_notes :: "string list"
  da_outbound_http :: "outbound_http_job list"
  da_continue_filters :: bool

definition completed_pass :: completed_action where
  "completed_pass = \<lparr>da_marks = [], da_tags = [], da_notes = [], da_outbound_http = [],
     da_continue_filters = True\<rparr>"

definition completed_stop :: "completed_action \<Rightarrow> completed_action" where
  "completed_stop a = a\<lparr>da_continue_filters := False\<rparr>"

section \<open>Triggers\<close>

text \<open>The loop over the literal parts of a pattern: the first part is anchored when the pattern does
  not start with a wildcard, every other one is searched for from the left. The result is what
  follows the last part.\<close>

fun glob_loop :: "bool \<Rightarrow> string list \<Rightarrow> string \<Rightarrow> string option" where
  "glob_loop anchored [] rest = Some rest"
| "glob_loop anchored (part # parts) rest =
     (if anchored then
        (case strip_prefix rest part of None \<Rightarrow> None | Some next \<Rightarrow> glob_loop False parts next)
      else
        (case find_sub rest part of
           None \<Rightarrow> None
         | Some found_idx \<Rightarrow> glob_loop False parts (drop (found_idx + length part) rest)))"

definition glob_match :: "string \<Rightarrow> string \<Rightarrow> bool" where
  "glob_match pattern0 value0 =
     (if pattern0 = ''*'' then True
      else
        (let pattern = to_ascii_lowercase pattern0; val = to_ascii_lowercase value0 in
         if CHR ''*'' \<notin> set pattern then pattern = val
         else
           (let starts_with_wildcard = starts_with pattern ''*'';
                ends_with_wildcard = ends_with pattern ''*'';
                parts = filter (\<lambda>part. part \<noteq> []) (split_char (CHR ''*'') pattern)
            in if parts = [] then True
               else (case glob_loop (\<not> starts_with_wildcard) parts val of
                       None \<Rightarrow> False
                     | Some rest \<Rightarrow> ends_with_wildcard \<or> rest = []))))"

definition matches_any_glob :: "string list \<Rightarrow> string \<Rightarrow> bool" where
  "matches_any_glob patterns val \<longleftrightarrow> patterns = [] \<or> list_ex (\<lambda>pattern. glob_match pattern val) patterns"

definition matches_phase :: "filter_trigger \<Rightarrow> filter_phase \<Rightarrow> bool" where
  "matches_phase t phase \<longleftrightarrow> trg_phase t = [] \<or> phase \<in> set (trg_phase t)"

definition matches_host :: "filter_trigger \<Rightarrow> string \<Rightarrow> bool" where
  "matches_host t host = matches_any_glob (trg_host t) (to_ascii_lowercase host)"

definition matches_path :: "filter_trigger \<Rightarrow> string \<Rightarrow> bool" where
  "matches_path t path = matches_any_glob (trg_path t) path"

definition matches_method :: "filter_trigger \<Rightarrow> string \<Rightarrow> bool" where
  "matches_method t meth \<longleftrightarrow>
     trg_method t = [] \<or> list_ex (\<lambda>candidate. eq_ignore_ascii_case candidate meth) (trg_method t)"

definition matches_connect :: "filter_trigger \<Rightarrow> filter_connect_view \<Rightarrow> bool" where
  "matches_connect t conn \<longleftrightarrow> matches_phase t Connect \<and> matches_host t (cv_host conn)"

definition matches_request :: "filter_trigger \<Rightarrow> filter_request_view \<Rightarrow> bool" where
  "matches_request t req \<longleftrightarrow> matches_phase t Request \<and> matches_host t (vw_host req)
     \<and> matches_path t (vw_path req) \<and> matches_method t (vw_method req)"

definition matches_response :: "filter_trigger \<Rightarrow> filter_response_view \<Rightarrow> bool" where
  "matches_response t res \<longleftrightarrow> matches_phase t Response \<and> matches_host t (vw_host (rv_request res))
     \<and> matches_path t (vw_path (rv_request res)) \<and> matches_method t (vw_method (rv_request res))"

definition matches_completed :: "filter_trigger \<Rightarrow> filter_request_view \<Rightarrow> bool" where
  "matches_completed t req \<longleftrightarrow> matches_phase t Completed \<and> matches_host t (vw_host req)
     \<and> matches_path t (vw_path req) \<and> matches_method t (vw_method req)"

section \<open>The glob language\<close>

text \<open>The textbook reading of a pattern: a star stands for any string, every other character for
  itself.\<close>

fun glob_spec :: "string \<Rightarrow> string \<Rightarrow> bool" where
  "glob_spec [] v \<longleftrightarrow> v = []"
| "glob_spec (c # p) v \<longleftrightarrow>
     (if c = CHR ''*'' then \<exists>k \<le> length v. glob_spec p (drop k v)
      else (case v of [] \<Rightarrow> False | x # xs \<Rightarrow> x = c \<and> glob_spec p xs))"

text \<open>The same by segments: the literal segments of the pattern, free text between them.\<close>

fun seg_match :: "string list \<Rightarrow> string \<Rightarrow> bool" where
  "seg_match [] v \<longleftrightarrow> False"
| "seg_match [w] v \<longleftrightarrow> v = w"
| "seg_match (w # x # xs) v \<longleftrightarrow> (\<exists>r k. v = w @ r \<and> seg_match (x # xs) (drop k r))"

fun spaced :: "string list \<Rightarrow> string \<Rightarrow> string \<Rightarrow> bool" where
  "spaced [] v r \<longleftrightarrow> v = r"
| "spaced (w # ws) v r \<longleftrightarrow> (\<exists>g s. v = g @ w @ s \<and> spaced ws s r)"

lemma seg_match_Cons_char:
  "seg_match ((c # w) # ws) v \<longleftrightarrow> (case v of [] \<Rightarrow> False | x # xs \<Rightarrow> x = c \<and> seg_match (w # ws) xs)"
  by (cases ws; cases v) auto

lemma drop_le_length: "(\<exists>k \<le> length v. P (drop k v)) \<longleftrightarrow> (\<exists>k. P (drop k v))"
  by (metis drop_all le_cases le_refl)

lemma glob_spec_segments: "glob_spec p v \<longleftrightarrow> seg_match (split_char (CHR ''*'') p) v"
proof (induction p arbitrary: v)
  case (Cons c p)
  obtain w ws where s: "split_char (CHR ''*'') p = w # ws" by (cases "split_char (CHR ''*'') p") auto
  show ?case
  proof (cases "c = CHR ''*''")
    case True
    with s Cons show ?thesis by (simp add: drop_le_length [of v "seg_match (w # ws)"])
  next
    case False
    with s Cons show ?thesis by (simp add: seg_match_Cons_char split: list.split)
  qed
qed simp

lemma drop_ex: "(\<exists>k. P (drop k v)) \<longleftrightarrow> (\<exists>g s. v = g @ s \<and> P s)"
  by (metis append_eq_conv_conj append_take_drop_id)

lemma seg_match_spaced:
  "ws \<noteq> [] \<Longrightarrow> (\<exists>k. seg_match ws (drop k v)) \<longleftrightarrow>
     (\<exists>r. spaced (filter (\<lambda>w. w \<noteq> []) ws) v r \<and> (last ws = [] \<or> r = []))"
proof (induction ws arbitrary: v rule: induct_list012)
  case (2 w)
  show ?case
  proof (cases "w = []")
    case True
    then show ?thesis by (auto intro: exI [of _ "length v"])
  next
    case False
    with drop_ex [of "\<lambda>u. u = w"] show ?thesis by simp
  qed
next
  case (3 w x xs)
  have IH: "(\<exists>k. seg_match (x # xs) (drop k u)) \<longleftrightarrow>
      (\<exists>r. spaced (filter (\<lambda>w. w \<noteq> []) (x # xs)) u r \<and> (last (x # xs) = [] \<or> r = []))" for u
    using 3(2) by simp
  have step: "(\<exists>k. seg_match (w # x # xs) (drop k v)) \<longleftrightarrow>
      (\<exists>g s. v = g @ w @ s \<and> (\<exists>k. seg_match (x # xs) (drop k s)))"
    unfolding drop_ex [of "seg_match (w # x # xs)"] unfolding seg_match.simps by blast
  show ?case
  proof (cases "w = []")
    case True
    have "(\<exists>g s. v = g @ s \<and> (\<exists>k. seg_match (x # xs) (drop k s))) \<longleftrightarrow> (\<exists>k. seg_match (x # xs) (drop k v))"
      unfolding drop_ex by (metis append_Nil append_assoc)
    with True step IH [of v] show ?thesis by simp
  next
    case False
    then have "filter (\<lambda>w. w \<noteq> []) (w # x # xs) = w # filter (\<lambda>w. w \<noteq> []) (x # xs)"
      and "last (w # x # xs) = last (x # xs)"
      by auto
    then show ?thesis unfolding step IH by (simp only: spaced.simps) blast
  qed
qed simp

section \<open>The matcher against the language\<close>

lemma glob_loop_sound: "glob_loop False ws v = Some r \<Longrightarrow> spaced ws v r"
proof (induction ws arbitrary: v)
  case (Cons w ws)
  then obtain i where i: "find_sub v w = Some i" and rest: "glob_loop False ws (drop (i + length w) v) = Some r"
    by (auto split: option.splits)
  obtain s where s: "v = take i v @ w @ s" and "i + length w \<le> length v" using find_sub_Some [OF i] by blast
  then have "drop (i + length w) v = s"
    by (metis add.commute append_eq_conv_conj drop_drop length_take min.absorb2 le_add1 le_trans)
  with s Cons.IH [OF rest] show ?case by auto
qed simp

text \<open>Taking the leftmost occurrence of every part leaves the longest rest.\<close>

lemma glob_loop_complete: "spaced ws v r \<Longrightarrow> \<exists>r'. glob_loop False ws (a @ v) = Some r' \<and> (\<exists>b. r' = b @ r)"
proof (induction ws arbitrary: v a)
  case (Cons w ws)
  then obtain g s where v: "v = g @ w @ s" and sp: "spaced ws s r" by auto
  obtain i where i: "find_sub ((a @ g) @ w @ s) w = Some i" "i \<le> length (a @ g)"
    using find_sub_complete [of "a @ g" w s] by blast
  define u where "u = a @ v"
  have u: "u = (a @ g) @ w @ s" by (simp add: u_def v)
  have "i + length w \<le> length ((a @ g) @ w)" using i(2) by simp
  then have "drop (i + length w) u = drop (i + length w) ((a @ g) @ w) @ s" by (simp add: u)
  with Cons.IH [OF sp, of "drop (i + length w) ((a @ g) @ w)"] i(1) u show ?case
    by (simp flip: u_def)
qed simp

lemma split_char_hd: "hd (split_char c p) = [] \<longleftrightarrow> p = [] \<or> hd p = c"
  by (cases p) (auto split: list.splits)

lemma split_char_eq_Nil: "split_char c p = [[]] \<longleftrightarrow> p = []"
  by (metis join_split_char join_with.simps(2) split_char.simps(1))

lemma split_char_last: "last (split_char c p) = [] \<longleftrightarrow> p = [] \<or> last p = c"
  by (induction p) (auto simp: split_char_eq_Nil split: list.splits if_splits)


lemma split_char_tl: "c \<in> set p \<Longrightarrow> tl (split_char c p) \<noteq> []"
  by (induction p) (auto split: list.splits)

lemma starts_with_single: "starts_with p [c] \<longleftrightarrow> p \<noteq> [] \<and> hd p = c"
  by (cases p) auto

lemma ends_with_single: "ends_with p [c] \<longleftrightarrow> p \<noteq> [] \<and> last p = c"
  by (auto simp: ends_with_def starts_with_single hd_rev)

lemma ascii_lower_star [simp]: "ascii_lower c = CHR ''*'' \<longleftrightarrow> c = CHR ''*''"
proof -
  have "ascii_lower c \<noteq> CHR ''*''" if "65 \<le> byte c" "byte c \<le> 90"
  proof
    assume "ascii_lower c = CHR ''*''"
    then have "byte (char_of (byte c + 32) :: char) = 42" using that by (simp add: ascii_lower_def)
    then show False using that by (subst (asm) byte_char_of) simp_all
  qed
  then show ?thesis by (auto simp: ascii_lower_def)
qed

lemma star_in_lower [simp]: "CHR ''*'' \<in> set (to_ascii_lowercase p) \<longleftrightarrow> CHR ''*'' \<in> set p"
proof -
  have "CHR ''*'' = ascii_lower c \<longleftrightarrow> c = CHR ''*''" for c using ascii_lower_star [of c] by metis
  then show ?thesis by (auto simp: to_ascii_lowercase_def image_iff)
qed

lemma strip_prefix_self [simp]: "strip_prefix w w = Some []"
  using strip_prefix_append [of w "[]"] by (simp only: append_Nil2)

text \<open>The language of a pattern with a wildcard, in terms of what the loop computes.\<close>

lemma glob_spec_parts:
  assumes "CHR ''*'' \<in> set p"
  shows "glob_spec p v \<longleftrightarrow>
    (\<exists>u r. (if starts_with p ''*'' then u = v else v = hd (split_char (CHR ''*'') p) @ u)
      \<and> spaced (filter (\<lambda>w. w \<noteq> []) (tl (split_char (CHR ''*'') p))) u r
      \<and> (ends_with p ''*'' \<or> r = []))"
proof -
  obtain w ws where s: "split_char (CHR ''*'') p = w # ws" by (cases "split_char (CHR ''*'') p") auto
  have ws: "ws \<noteq> []" using split_char_tl [OF assms] s by simp
  have p: "p \<noteq> []" using assms by auto
  have hd: "w = [] \<longleftrightarrow> starts_with p ''*''" using split_char_hd [of "CHR ''*''" p] s p by (simp add: starts_with_single)
  have last: "last ws = [] \<longleftrightarrow> ends_with p ''*''"
    using split_char_last [of "CHR ''*''" p] s p ws by (simp add: ends_with_single)
  have "glob_spec p v \<longleftrightarrow> (\<exists>u. v = w @ u \<and> (\<exists>k. seg_match ws (drop k u)))"
    using ws by (cases ws) (auto simp: glob_spec_segments s)
  then show ?thesis
    unfolding seg_match_spaced [OF ws] last using hd s by auto
qed

lemma glob_match_iff:
  fixes val :: string
  assumes "CHR ''*'' \<in> set pattern" and "pattern \<noteq> ''*''"
  defines "p \<equiv> to_ascii_lowercase pattern" and "v \<equiv> to_ascii_lowercase val"
  shows "glob_match pattern val \<longleftrightarrow>
    (\<exists>u r. (if starts_with p ''*'' then u = v else v = hd (split_char (CHR ''*'') p) @ u)
      \<and> glob_loop False (filter (\<lambda>w. w \<noteq> []) (tl (split_char (CHR ''*'') p))) u = Some r
      \<and> (ends_with p ''*'' \<or> r = []))"
proof -
  have star: "CHR ''*'' \<in> set p" using assms(1) by (simp add: p_def)
  obtain w ws where s: "split_char (CHR ''*'') p = w # ws" by (cases "split_char (CHR ''*'') p") auto
  have p: "p \<noteq> []" using star by auto
  have hd: "w = [] \<longleftrightarrow> starts_with p ''*''" using split_char_hd [of "CHR ''*''" p] s p by (simp add: starts_with_single)
  have last: "starts_with p ''*'' \<Longrightarrow> filter (\<lambda>w. w \<noteq> []) ws = [] \<Longrightarrow> ends_with p ''*''"
    using split_char_last [of "CHR ''*''" p] split_char_tl [OF star] s p
    by (auto simp: ends_with_single filter_empty_conv split: if_splits)
  show ?thesis
    using star hd last s assms(2)
    by (cases "starts_with p ''*''"; cases "filter (\<lambda>w. w \<noteq> []) ws")
      (auto simp: glob_match_def Let_def p_def [symmetric] v_def [symmetric]
        split: option.splits if_splits)
qed

lemma glob_match_simple:
  assumes "\<not> (CHR ''*'' \<in> set pattern \<and> pattern \<noteq> ''*'')"
  shows "glob_match pattern val \<longleftrightarrow> glob_spec (to_ascii_lowercase pattern) (to_ascii_lowercase val)"
proof (cases "pattern = ''*''")
  case True
  have "glob_spec ''*'' v" for v by simp (rule exI [of _ "length v"], simp)
  with True show ?thesis by (simp add: glob_match_def to_ascii_lowercase_def ascii_lower_def)
next
  case False
  then have "CHR ''*'' \<notin> set (to_ascii_lowercase pattern)"
    using assms by simp
  with False show ?thesis
    by (auto simp: glob_match_def glob_spec_segments split_char_singleton)
qed

text \<open>The glob matcher is sound: a pattern that matches a value matches it in the glob language, up to
  ASCII case.\<close>

theorem glob_match_sound:
  "glob_match pattern val \<Longrightarrow> glob_spec (to_ascii_lowercase pattern) (to_ascii_lowercase val)"
proof (cases "CHR ''*'' \<in> set pattern \<and> pattern \<noteq> ''*''")
  case True
  let ?p = "to_ascii_lowercase pattern"
  assume "glob_match pattern val"
  then obtain u r where "if starts_with ?p ''*'' then u = to_ascii_lowercase val
        else to_ascii_lowercase val = hd (split_char (CHR ''*'') ?p) @ u"
    and "glob_loop False (filter (\<lambda>w. w \<noteq> []) (tl (split_char (CHR ''*'') ?p))) u = Some r"
    and "ends_with ?p ''*'' \<or> r = []"
    using True glob_match_iff by blast
  moreover have "CHR ''*'' \<in> set ?p" using True by simp
  ultimately show ?thesis unfolding glob_spec_parts [OF \<open>CHR ''*'' \<in> set ?p\<close>]
    using glob_loop_sound by blast
next
  case False
  moreover assume "glob_match pattern val"
  ultimately show ?thesis by (auto simp: glob_match_simple)
qed

theorem glob_match_sound_witness:
  "glob_spec (to_ascii_lowercase ''*.Example.com'') (to_ascii_lowercase ''api.example.COM'')"
  by (rule glob_match_sound) code_simp

lemma glob_exact:
  assumes "CHR ''*'' \<notin> set pattern \<or> ends_with pattern ''*''"
  shows "glob_match pattern val \<longleftrightarrow> glob_spec (to_ascii_lowercase pattern) (to_ascii_lowercase val)"
proof (cases "CHR ''*'' \<in> set pattern \<and> pattern \<noteq> ''*''")
  case True
  let ?p = "to_ascii_lowercase pattern"
  have star: "CHR ''*'' \<in> set ?p" using True by simp
  have "ends_with ?p ''*''"
    using assms True by (auto simp: ends_with_single to_ascii_lowercase_def last_map)
  moreover have "(\<exists>r. glob_loop False ws u = Some r) \<longleftrightarrow> (\<exists>r. spaced ws u r)" for ws u
    using glob_loop_complete [of ws u _ "[]"] glob_loop_sound by fastforce
  ultimately show ?thesis
    using True unfolding glob_spec_parts [OF star]
    by (cases "starts_with ?p ''*''") (simp_all add: glob_match_iff)
next
  case False
  then show ?thesis by (auto simp: glob_match_simple)
qed

text \<open>C10: The glob matcher is exact on the patterns without a wildcard and on those that end with one: it
  accepts a value if and only if the glob language has it (up to ASCII case).\<close>

theorem glob_match_exact:
  assumes "CHR ''*'' \<notin> set pattern \<or> ends_with pattern ''*''"
  shows "glob_match pattern val \<longleftrightarrow> glob_spec (to_ascii_lowercase pattern) (to_ascii_lowercase val)"
  using assms by (rule glob_exact)

theorem glob_match_exact_witness:
  "glob_match ''/api/*'' ''/API/users'' \<longleftrightarrow> glob_spec (to_ascii_lowercase ''/api/*'') (to_ascii_lowercase ''/API/users'')"
  by (rule glob_match_exact) code_simp

text \<open>On the other patterns the matcher misses members of the language: the last part is taken at its
  leftmost occurrence although the value has to end there, so a suffix pattern does not match a
  value in which the suffix occurs twice.\<close>

theorem glob_suffix_incomplete:
  "glob_spec ''*.com'' ''a.com.com'' \<and> \<not> glob_match ''*.com'' ''a.com.com''"
proof
  show "glob_spec ''*.com'' ''a.com.com''" by (simp add: exI [of _ 5] numeral_eq_Suc)
  show "\<not> glob_match ''*.com'' ''a.com.com''" by code_simp
qed

lemma glob_match_lower: "glob_match pattern (to_ascii_lowercase val) = glob_match pattern val"
  by (simp add: glob_match_def)

lemma to_ascii_lowercase_star: "to_ascii_lowercase p = ''*'' \<longleftrightarrow> p = ''*''"
proof
  assume "to_ascii_lowercase p = ''*''"
  then obtain c where "p = [c]" "ascii_lower c = CHR ''*''"
    by (auto simp: to_ascii_lowercase_def map_eq_Cons_conv)
  then show "p = ''*''" by simp
qed (simp add: to_ascii_lowercase_def ascii_lower_def)

lemma glob_match_lower_pattern: "glob_match (to_ascii_lowercase p) val = glob_match p val"
  by (simp add: glob_match_def to_ascii_lowercase_star)

lemma matches_any_glob_lower:
  "matches_any_glob (map to_ascii_lowercase ps) val = matches_any_glob ps val"
  by (simp add: matches_any_glob_def list_ex_iff glob_match_lower glob_match_lower_pattern)

lemma matches_any_glob_lower_value: "matches_any_glob ps (to_ascii_lowercase val) = matches_any_glob ps val"
  by (simp add: matches_any_glob_def glob_match_lower)

text \<open>Triggers ignore ASCII case: two requests that differ only in the case of host, path and method
  are selected by the same triggers in every phase, and so are two triggers that differ only in
  the case of their patterns and methods.\<close>

theorem trigger_ignores_case:
  "matches_request t req = matches_request
       (t\<lparr>trg_host := map to_ascii_lowercase (trg_host t), trg_path := map to_ascii_lowercase (trg_path t),
          trg_method := map to_ascii_lowercase (trg_method t)\<rparr>)
       (req\<lparr>vw_host := to_ascii_lowercase (vw_host req), vw_path := to_ascii_lowercase (vw_path req),
            vw_method := to_ascii_lowercase (vw_method req)\<rparr>)"
  by (simp add: matches_request_def matches_phase_def matches_host_def matches_path_def matches_method_def
      matches_any_glob_lower matches_any_glob_lower_value eq_ignore_ascii_case_def list_ex_iff)

end
