(* ===== verification/Http.thy ===== *)
theory Http
  imports Prelude
begin

text \<open>
  The interface of the crates that carry HTTP messages, and the decoding of content-encoded bodies
  (\<open>src/src/mitm/flow/body_encoding.rs\<close>). The header map, the URI and the parsers of the \<open>http\<close>
  crate are not part of the sources: they are the fields of a record \<open>http_lib\<close> that every
  definition using them takes as an argument, and \<open>http_laws\<close> states what the crate documents of
  them. The decompressors are a record of functions in the same way. A header name is its lower
  case string (what \<open>HeaderName::as_str\<close> returns), a header value its bytes.
\<close>

section \<open>The interface\<close>

record ('h, 'u, 'q) http_lib =
  hl_get :: "'h \<Rightarrow> string \<Rightarrow> bytes option"
  hl_insert :: "string \<Rightarrow> bytes \<Rightarrow> 'h \<Rightarrow> 'h"
  hl_remove :: "string \<Rightarrow> 'h \<Rightarrow> 'h"
  hl_iter :: "'h \<Rightarrow> (string \<times> bytes) list"
  hl_name_from_bytes :: "string \<Rightarrow> string option"
  hl_value_from_str :: "string \<Rightarrow> bytes option"
  hl_value_to_str :: "bytes \<Rightarrow> string option"
  hl_parse_method :: "string \<Rightarrow> string option"
  hl_status_from_u16 :: "nat \<Rightarrow> nat option"
  hl_uri_path :: "'u \<Rightarrow> string"
  hl_uri_query :: "'u \<Rightarrow> string option"
  hl_parse_path_and_query :: "string \<Rightarrow> 'q option"
  hl_uri_with_path_and_query :: "'u \<Rightarrow> 'q \<Rightarrow> 'u option"
  hl_base64 :: "bytes \<Rightarrow> string"
  hl_empty :: 'h
  hl_append :: "string \<Rightarrow> bytes \<Rightarrow> 'h \<Rightarrow> 'h"
  hl_uri_to_string :: "'u \<Rightarrow> string"
  hl_status_text :: "nat \<Rightarrow> string"
  hl_parse_uri :: "string \<Rightarrow> 'u option"

text \<open>What the documentation of the crate promises of the map and the parsers: inserting and removing
  act on one name, a parsed name is in lower case, the status codes are 100 to 999, and a header
  value converts to a string only if its bytes are visible ASCII, which it then is.\<close>

definition http_laws :: "('h, 'u, 'q) http_lib \<Rightarrow> bool" where
  "http_laws H \<longleftrightarrow>
     (\<forall>h n v m. hl_get H (hl_insert H n v h) m = (if m = n then Some v else hl_get H h m))
   \<and> (\<forall>h n m. hl_get H (hl_remove H n h) m = (if m = n then None else hl_get H h m))
   \<and> (\<forall>s n. hl_name_from_bytes H s = Some n \<longrightarrow> n = to_ascii_lowercase s)
   \<and> (\<forall>c. hl_status_from_u16 H c = (if 100 \<le> c \<and> c < 1000 then Some c else None))
   \<and> (\<forall>b s. hl_value_to_str H b = Some s \<longrightarrow> s = b)"

lemma http_lawsD:
  assumes "http_laws H"
  shows "hl_get H (hl_insert H n v h) m = (if m = n then Some v else hl_get H h m)"
    and "hl_get H (hl_remove H n h) m = (if m = n then None else hl_get H h m)"
    and "hl_name_from_bytes H s = Some k \<Longrightarrow> k = to_ascii_lowercase s"
    and "hl_status_from_u16 H c = (if 100 \<le> c \<and> c < 1000 then Some c else None)"
    and "hl_value_to_str H b = Some t \<Longrightarrow> t = b"
  using assms unfolding http_laws_def by blast+

section \<open>Message heads\<close>

text \<open>The versions the sources name; any other one is known by its debug text.\<close>

datatype http_version = HTTP_09 | HTTP_10 | HTTP_11 | HTTP_2 | HTTP_3 | HTTP_other string

record ('h, 'u) request_parts =
  rp_method :: string
  rp_uri :: 'u
  rp_version :: http_version
  rp_headers :: 'h

record 'h response_parts =
  sp_status :: nat
  sp_version :: http_version
  sp_headers :: 'h

fun version_to_string :: "http_version \<Rightarrow> string" where
  "version_to_string HTTP_09 = ''HTTP/0.9''"
| "version_to_string HTTP_10 = ''HTTP/1.0''"
| "version_to_string HTTP_11 = ''HTTP/1.1''"
| "version_to_string HTTP_2 = ''HTTP/2''"
| "version_to_string HTTP_3 = ''HTTP/3''"
| "version_to_string (HTTP_other debug) = debug"

section \<open>Content encodings\<close>

record body_decoders =
  dec_gzip :: "bytes \<Rightarrow> bytes option"
  dec_deflate :: "bytes \<Rightarrow> bytes option"
  dec_brotli :: "bytes \<Rightarrow> bytes option"
  dec_zstd :: "bytes \<Rightarrow> bytes option"

definition first_encoding :: "string \<Rightarrow> string" where
  "first_encoding s = to_ascii_lowercase (trim (hd (split_char (CHR '','') s)))"

definition decode_by_content_encoding_header ::
  "('h, 'u, 'q) http_lib \<Rightarrow> body_decoders \<Rightarrow> bytes \<Rightarrow> bytes \<Rightarrow> bytes option" where
  "decode_by_content_encoding_header H D header_value body =
     (case hl_value_to_str H header_value of
        None \<Rightarrow> None
      | Some s \<Rightarrow>
          (let encoding = first_encoding s in
           if encoding = '''' \<or> encoding = ''identity'' then Some body
           else if encoding = ''gzip'' \<or> encoding = ''x-gzip'' then dec_gzip D body
           else if encoding = ''deflate'' then dec_deflate D body
           else if encoding = ''br'' then dec_brotli D body
           else if encoding = ''zstd'' then dec_zstd D body
           else None))"

definition decode_content_encoded_body ::
  "('h, 'u, 'q) http_lib \<Rightarrow> body_decoders \<Rightarrow> 'h \<Rightarrow> bytes \<Rightarrow> bytes option" where
  "decode_content_encoded_body H D headers body =
     (case hl_get H headers ''content-encoding'' of
        None \<Rightarrow> None
      | Some content_encoding \<Rightarrow> decode_by_content_encoding_header H D content_encoding body)"

definition decode_body_by_magic_number :: "body_decoders \<Rightarrow> bytes \<Rightarrow> bytes option" where
  "decode_body_by_magic_number D body =
     (if starts_with body [CHR 0x1F, CHR 0x8B] then dec_gzip D body else None)"

definition decoded_body_or_raw :: "('h, 'u, 'q) http_lib \<Rightarrow> body_decoders \<Rightarrow> 'h \<Rightarrow> bytes \<Rightarrow> bytes" where
  "decoded_body_or_raw H D headers body =
     (case decode_content_encoded_body H D headers body of
        Some b \<Rightarrow> b
      | None \<Rightarrow> (case decode_body_by_magic_number D body of Some b \<Rightarrow> b | None \<Rightarrow> body))"

fun encoding_suffix :: "string \<Rightarrow> string option" where
  "encoding_suffix encoding =
     (if encoding = ''gzip'' \<or> encoding = ''x-gzip'' then Some ''gz''
      else if encoding = ''br'' then Some ''br''
      else if encoding = ''zstd'' then Some ''zst''
      else if encoding = ''deflate'' then Some ''deflate''
      else None)"

definition content_encoding_suffixes :: "('h, 'u, 'q) http_lib \<Rightarrow> 'h \<Rightarrow> string list" where
  "content_encoding_suffixes H headers =
     (case Option.bind (hl_get H headers ''content-encoding'') (hl_value_to_str H) of
        None \<Rightarrow> []
      | Some content_encoding \<Rightarrow>
          List.map_filter (\<lambda>part. encoding_suffix (to_ascii_lowercase (trim part)))
            (split_char (CHR '','') content_encoding))"

definition body_file_name :: "('h, 'u, 'q) http_lib \<Rightarrow> string \<Rightarrow> 'h \<Rightarrow> string" where
  "body_file_name H base headers =
     (let suffixes = content_encoding_suffixes H headers in
      if suffixes = [] then base else base @ ''.'' @ join_with ''.'' suffixes)"

section \<open>A concrete instance\<close>

text \<open>Header maps as association lists and URIs as a path with an optional query: an instance of
  the interface for the examples.\<close>

definition visible_ascii :: "string \<Rightarrow> bool" where
  "visible_ascii s \<longleftrightarrow> list_all (\<lambda>c. (32 \<le> byte c \<and> byte c < 127) \<or> byte c = 9) s"

definition list_http :: "((string \<times> bytes) list, string \<times> string option, string \<times> string option) http_lib" where
  "list_http = \<lparr>
     hl_get = map_of,
     hl_insert = (\<lambda>n v h. AList.update n v h),
     hl_remove = (\<lambda>n h. AList.delete n h),
     hl_iter = (\<lambda>h. h),
     hl_name_from_bytes = (\<lambda>s. if s \<noteq> [] \<and> visible_ascii s \<and> CHR '' '' \<notin> set s
       then Some (to_ascii_lowercase s) else None),
     hl_value_from_str = (\<lambda>s. if visible_ascii s then Some s else None),
     hl_value_to_str = (\<lambda>s. if visible_ascii s then Some s else None),
     hl_parse_method = (\<lambda>s. if s \<noteq> [] \<and> visible_ascii s then Some s else None),
     hl_status_from_u16 = (\<lambda>c. if 100 \<le> c \<and> c < 1000 then Some c else None),
     hl_uri_path = fst,
     hl_uri_query = snd,
     hl_parse_path_and_query = (\<lambda>s. if visible_ascii s then
       (case split_once (CHR ''?'') s of None \<Rightarrow> Some (s, None) | Some (p, q) \<Rightarrow> Some (p, Some q)) else None),
     hl_uri_with_path_and_query = (\<lambda>u q. Some q),
     hl_base64 = (\<lambda>b. b),
     hl_empty = [],
     hl_append = (\<lambda>n v h. h @ [(n, v)]),
     hl_uri_to_string = (\<lambda>u. fst u @ (case snd u of None \<Rightarrow> [] | Some q \<Rightarrow> CHR ''?'' # q)),
     hl_status_text = show_nat,
     hl_parse_uri = (\<lambda>s. if visible_ascii s then Some (s, None) else None)\<rparr>"

lemma list_http_laws: "http_laws list_http"
  by (auto simp: http_laws_def list_http_def split: if_splits)

definition no_decoders :: body_decoders where
  "no_decoders = \<lparr>dec_gzip = (\<lambda>_. None), dec_deflate = (\<lambda>_. None), dec_brotli = (\<lambda>_. None),
     dec_zstd = (\<lambda>_. None)\<rparr>"

section \<open>Properties\<close>

text \<open>A body whose declared encoding cannot be undone is never lost: with no decoder succeeding the
  bytes come back as they are, whatever the header says, and an \<open>identity\<close> or empty encoding
  hands the body through untouched even if it looks compressed.\<close>

theorem decoding_keeps_body:
  "((\<forall>f \<in> {dec_gzip D, dec_deflate D, dec_brotli D, dec_zstd D}. f body = None) \<longrightarrow>
      decoded_body_or_raw H D headers body = body)
   \<and> (\<forall>value s. hl_get H headers ''content-encoding'' = Some value \<longrightarrow> hl_value_to_str H value = Some s \<longrightarrow>
        first_encoding s \<in> {'''', ''identity''} \<longrightarrow> decoded_body_or_raw H D headers body = body)"
proof (intro conjI impI allI)
  assume "\<forall>f \<in> {dec_gzip D, dec_deflate D, dec_brotli D, dec_zstd D}. f body = None"
  then show "decoded_body_or_raw H D headers body = body"
    by (auto simp: decoded_body_or_raw_def decode_content_encoded_body_def decode_by_content_encoding_header_def
        decode_body_by_magic_number_def Let_def split: option.splits if_splits)
next
  fix "value" s
  assume "hl_get H headers ''content-encoding'' = Some value" "hl_value_to_str H value = Some s"
    "first_encoding s \<in> {'''', ''identity''}"
  then show "decoded_body_or_raw H D headers body = body"
    by (auto simp: decoded_body_or_raw_def decode_content_encoded_body_def decode_by_content_encoding_header_def)
qed

theorem decoding_keeps_body_witness:
  "decoded_body_or_raw list_http no_decoders [(''content-encoding'', ''gzip, br'')] ''abc'' = ''abc''
   \<and> decoded_body_or_raw list_http no_decoders [(''content-encoding'', '' Identity'')] ''abc'' = ''abc''"
proof
  show "decoded_body_or_raw list_http no_decoders [(''content-encoding'', ''gzip, br'')] ''abc'' = ''abc''"
    using decoding_keeps_body [of no_decoders "''abc''" list_http "[(''content-encoding'', ''gzip, br'')]"]
    by (simp add: no_decoders_def)
  have "hl_get list_http [(''content-encoding'', '' Identity'')] ''content-encoding'' = Some '' Identity''"
    and "hl_value_to_str list_http '' Identity'' = Some '' Identity''"
    and "first_encoding '' Identity'' \<in> {'''', ''identity''}"
    by code_simp+
  then show "decoded_body_or_raw list_http no_decoders [(''content-encoding'', '' Identity'')] ''abc'' = ''abc''"
    by (rule decoding_keeps_body [THEN conjunct2, rule_format])
qed

end
