(* ===== verification/FilterBridge.thy ===== *)
theory FilterBridge
  imports FilterTypes Http
begin

text \<open>
  The bridge between HTTP messages and filters (\<open>src/src/mitm/flow/filter_bridge.rs\<close>): building what
  a filter sees, merging the actions of several filters, and applying the merged patch to the
  message. The contract of merging is the locale \<open>action_merge\<close>, interpreted for the three kinds of
  action.
\<close>

section \<open>Marks\<close>

record flow_mark =
  fmk_label :: string
  fmk_color :: "string option"

definition flow_mark_of :: "filter_mark \<Rightarrow> flow_mark" where
  "flow_mark_of mark = \<lparr>fmk_label = mk_label mark, fmk_color = mk_color mark\<rparr>"

definition flow_marks_from_request_action :: "request_action \<Rightarrow> flow_mark list" where
  "flow_marks_from_request_action action =
     map flow_mark_of (ra_marks action)
     @ map (\<lambda>tag. \<lparr>fmk_label = tag, fmk_color = Some ''green''\<rparr>) (ra_tags action)
     @ map (\<lambda>note. \<lparr>fmk_label = note, fmk_color = Some ''blue''\<rparr>) (ra_notes action)"

definition flow_marks_from_response_action :: "response_action \<Rightarrow> flow_mark list" where
  "flow_marks_from_response_action action =
     map flow_mark_of (sa_marks action)
     @ map (\<lambda>tag. \<lparr>fmk_label = tag, fmk_color = Some ''green''\<rparr>) (sa_tags action)
     @ map (\<lambda>note. \<lparr>fmk_label = note, fmk_color = Some ''blue''\<rparr>) (sa_notes action)"

definition flow_marks_from_connect_action :: "connect_action \<Rightarrow> flow_mark list" where
  "flow_marks_from_connect_action action = map flow_mark_of (ca_marks action)"

section \<open>Merging actions\<close>

definition merge_request_action :: "request_action \<Rightarrow> request_action \<Rightarrow> request_action" where
  "merge_request_action dst src =
     (let dst1 = (if ra_request src \<noteq> None then dst\<lparr>ra_request := ra_request src\<rparr> else dst);
          dst2 = (if ra_synthetic_response src \<noteq> None
                  then dst1\<lparr>ra_synthetic_response := ra_synthetic_response src, ra_continue_filters := False\<rparr>
                  else dst1\<lparr>ra_continue_filters := ra_continue_filters src\<rparr>)
      in dst2\<lparr>ra_drop_client_response := ra_drop_client_response dst2 \<or> ra_drop_client_response src,
              ra_marks := ra_marks dst2 @ ra_marks src,
              ra_tags := ra_tags dst2 @ ra_tags src,
              ra_notes := ra_notes dst2 @ ra_notes src,
              ra_outbound_http := ra_outbound_http dst2 @ ra_outbound_http src\<rparr>)"

definition merge_response_action :: "response_action \<Rightarrow> response_action \<Rightarrow> response_action" where
  "merge_response_action dst src =
     (let dst1 = (if sa_response src \<noteq> None then dst\<lparr>sa_response := sa_response src\<rparr> else dst)
      in dst1\<lparr>sa_marks := sa_marks dst1 @ sa_marks src,
              sa_tags := sa_tags dst1 @ sa_tags src,
              sa_notes := sa_notes dst1 @ sa_notes src,
              sa_outbound_http := sa_outbound_http dst1 @ sa_outbound_http src,
              sa_continue_filters := sa_continue_filters src,
              sa_drop_client_response := sa_drop_client_response dst1 \<or> sa_drop_client_response src\<rparr>)"

definition merge_connect_action :: "connect_action \<Rightarrow> connect_action \<Rightarrow> connect_action" where
  "merge_connect_action dst src =
     (let dst1 = dst\<lparr>ca_marks := ca_marks dst @ ca_marks src\<rparr>;
          dst2 = (if ca_drop_tunnel src then dst1\<lparr>ca_drop_tunnel := True\<rparr> else dst1);
          dst3 = (if ca_reject_status src \<noteq> None then dst2\<lparr>ca_reject_status := ca_reject_status src\<rparr> else dst2)
      in dst3\<lparr>ca_continue_filters := ca_continue_filters src\<rparr>)"

section \<open>What a filter sees\<close>

definition filter_headers_from_header_map :: "('h, 'u, 'q) http_lib \<Rightarrow> 'h \<Rightarrow> filter_header list" where
  "filter_headers_from_header_map H headers =
     map (\<lambda>(name, val). \<lparr>fh_name = name,
            fh_value = (case hl_value_to_str H val of Some s \<Rightarrow> s | None \<Rightarrow> hl_base64 H val)\<rparr>)
       (hl_iter H headers)"

definition normalized_content_type :: "('h, 'u, 'q) http_lib \<Rightarrow> 'h \<Rightarrow> string option" where
  "normalized_content_type H headers =
     (case Option.bind (hl_get H headers ''content-type'') (hl_value_to_str H) of
        None \<Rightarrow> None
      | Some val \<Rightarrow>
          (let media = trim (hd (split_char (CHR '';'') val)) in
           if media = [] then None else Some (to_ascii_lowercase media)))"

definition header_str :: "('h, 'u, 'q) http_lib \<Rightarrow> 'h \<Rightarrow> string \<Rightarrow> string option" where
  "header_str H headers name = Option.bind (hl_get H headers name) (hl_value_to_str H)"

definition build_filter_request ::
  "('h, 'u, 'q) http_lib \<Rightarrow> body_decoders \<Rightarrow> string \<Rightarrow> nat \<Rightarrow> string \<Rightarrow> ('h, 'u) request_parts \<Rightarrow> string \<Rightarrow> string
   \<Rightarrow> bytes \<Rightarrow> string option \<Rightarrow> filter_request" where
  "build_filter_request H D flow_id seq flow_key parts req_protocol req_host req_body_bytes tls_sni =
     \<lparr>fr_id = flow_id, fr_seq = seq, fr_flow_key = flow_key, fr_method = rp_method parts,
      fr_scheme = req_protocol, fr_host = req_host, fr_path = hl_uri_path H (rp_uri parts),
      fr_query = (case hl_uri_query H (rp_uri parts) of Some q \<Rightarrow> q | None \<Rightarrow> []),
      fr_version = version_to_string (rp_version parts),
      fr_headers = filter_headers_from_header_map H (rp_headers parts),
      fr_body = \<lparr>fb_bytes = req_body_bytes,
        fb_text = from_utf8 (decoded_body_or_raw H D (rp_headers parts) req_body_bytes),
        fb_content_type = normalized_content_type H (rp_headers parts),
        fb_encoding = header_str H (rp_headers parts) ''content-encoding'',
        fb_truncated = False\<rparr>,
      fr_tls_sni = tls_sni\<rparr>"

definition build_filter_response ::
  "('h, 'u, 'q) http_lib \<Rightarrow> body_decoders \<Rightarrow> 'h response_parts \<Rightarrow> bytes \<Rightarrow> nat option \<Rightarrow> int \<Rightarrow> filter_response" where
  "build_filter_response H D parts res_body_bytes upstream_status elapsed_ms =
     \<lparr>fp_status = sp_status parts, fp_version = version_to_string (sp_version parts),
      fp_headers = filter_headers_from_header_map H (sp_headers parts),
      fp_body = \<lparr>fb_bytes = res_body_bytes,
        fb_text = from_utf8 (decoded_body_or_raw H D (sp_headers parts) res_body_bytes),
        fb_content_type = normalized_content_type H (sp_headers parts),
        fb_encoding = header_str H (sp_headers parts) ''content-encoding'',
        fb_truncated = False\<rparr>,
      fp_upstream_status = upstream_status, fp_elapsed_ms = Some elapsed_ms\<rparr>"

section \<open>Applying patches\<close>

definition remove_header_patch :: "('h, 'u, 'q) http_lib \<Rightarrow> 'h \<Rightarrow> string \<Rightarrow> 'h" where
  "remove_header_patch H headers name =
     (case hl_name_from_bytes H name of Some n \<Rightarrow> hl_remove H n headers | None \<Rightarrow> headers)"

definition set_header_patch :: "('h, 'u, 'q) http_lib \<Rightarrow> 'h \<Rightarrow> filter_header \<Rightarrow> 'h" where
  "set_header_patch H headers header =
     (case hl_name_from_bytes H (fh_name header) of
        None \<Rightarrow> headers
      | Some n \<Rightarrow>
          (case hl_value_from_str H (fh_value header) of
             None \<Rightarrow> headers
           | Some v \<Rightarrow> hl_insert H n v headers))"

definition apply_header_patch ::
  "('h, 'u, 'q) http_lib \<Rightarrow> filter_header list \<Rightarrow> string list \<Rightarrow> 'h \<Rightarrow> 'h" where
  "apply_header_patch H set_headers remove_headers headers =
     foldl (set_header_patch H) (foldl (remove_header_patch H) headers remove_headers) set_headers"

definition remove_body_integrity_headers :: "('h, 'u, 'q) http_lib \<Rightarrow> 'h \<Rightarrow> 'h" where
  "remove_body_integrity_headers H headers =
     hl_remove H ''content-md5'' (hl_remove H ''etag''
       (hl_remove H ''content-encoding'' (hl_remove H ''content-length'' headers)))"

definition body_patch_headers :: "('h, 'u, 'q) http_lib \<Rightarrow> filter_body_patch \<Rightarrow> 'h \<Rightarrow> 'h" where
  "body_patch_headers H body_patch headers =
     (let headers1 = remove_body_integrity_headers H headers in
      case bp_content_type body_patch of
        None \<Rightarrow> headers1
      | Some content_type \<Rightarrow>
          (case hl_value_from_str H content_type of
             Some v \<Rightarrow> hl_insert H ''content-type'' v headers1
           | None \<Rightarrow> headers1))"

definition next_path_and_query ::
  "('h, 'u, 'q) http_lib \<Rightarrow> 'u \<Rightarrow> string option \<Rightarrow> string option \<Rightarrow> string" where
  "next_path_and_query H uri path query =
     (let next_path = (case path of Some p \<Rightarrow> p | None \<Rightarrow> hl_uri_path H uri);
          next_query = (case query of Some q \<Rightarrow> Some q | None \<Rightarrow> hl_uri_query H uri)
      in case next_query of
           Some q \<Rightarrow> if q \<noteq> [] then next_path @ ''?'' @ q else next_path
         | None \<Rightarrow> next_path)"

definition patched_uri :: "('h, 'u, 'q) http_lib \<Rightarrow> 'u \<Rightarrow> string option \<Rightarrow> string option \<Rightarrow> 'u" where
  "patched_uri H uri path query =
     (if path = None \<and> query = None then uri
      else (case hl_parse_path_and_query H (next_path_and_query H uri path query) of
              None \<Rightarrow> uri
            | Some path_and_query \<Rightarrow>
                (case hl_uri_with_path_and_query H uri path_and_query of Some u \<Rightarrow> u | None \<Rightarrow> uri)))"

definition apply_request_patch ::
  "('h, 'u, 'q) http_lib \<Rightarrow> filter_request_patch \<Rightarrow> ('h, 'u) request_parts \<times> bytes \<Rightarrow> ('h, 'u) request_parts \<times> bytes" where
  "apply_request_patch H patch = (\<lambda>(parts, body).
     let parts1 = (case qp_method patch of
                     None \<Rightarrow> parts
                   | Some m \<Rightarrow> (case hl_parse_method H m of Some m' \<Rightarrow> parts\<lparr>rp_method := m'\<rparr> | None \<Rightarrow> parts));
         parts2 = parts1\<lparr>rp_uri := patched_uri H (rp_uri parts1) (qp_path patch) (qp_query patch)\<rparr>;
         parts3 = parts2\<lparr>rp_headers := apply_header_patch H (qp_set_headers patch) (qp_remove_headers patch) (rp_headers parts2)\<rparr>
     in case qp_body patch of
          None \<Rightarrow> (parts3, body)
        | Some body_patch \<Rightarrow>
            (parts3\<lparr>rp_headers := body_patch_headers H body_patch (rp_headers parts3)\<rparr>, bp_bytes body_patch))"

definition apply_response_patch ::
  "('h, 'u, 'q) http_lib \<Rightarrow> filter_response_patch \<Rightarrow> 'h response_parts \<times> bytes \<Rightarrow> 'h response_parts \<times> bytes" where
  "apply_response_patch H patch = (\<lambda>(parts, body).
     let parts1 = (case pp_status patch of
                     None \<Rightarrow> parts
                   | Some st \<Rightarrow> (case hl_status_from_u16 H st of Some st' \<Rightarrow> parts\<lparr>sp_status := st'\<rparr> | None \<Rightarrow> parts));
         parts2 = parts1\<lparr>sp_headers := apply_header_patch H (pp_set_headers patch) (pp_remove_headers patch) (sp_headers parts1)\<rparr>
     in case pp_body patch of
          None \<Rightarrow> (parts2, body)
        | Some body_patch \<Rightarrow>
            (parts2\<lparr>sp_headers := body_patch_headers H body_patch (sp_headers parts2)\<rparr>, bp_bytes body_patch))"

section \<open>The contract of merging\<close>

text \<open>
  What the filter runtime relies on when it merges the action of one filter after another: the
  decision to go on is the last filter's alone, marks accumulate, a drop stays, and of the patches
  the last one is kept whole.
\<close>

locale action_merge =
  fixes merge :: "'a \<Rightarrow> 'a \<Rightarrow> 'a"
    and pass :: 'a
    and marks :: "'a \<Rightarrow> filter_mark list"
    and dropped :: "'a \<Rightarrow> bool"
    and patch :: "'a \<Rightarrow> 'p option"
    and goes_on :: "'a \<Rightarrow> bool"
    and own_on :: "'a \<Rightarrow> bool"
  assumes pass_laws: "goes_on pass" "marks pass = []" "\<not> dropped pass" "patch pass = None"
    and merge_on: "goes_on (merge a b) = own_on b"
    and merge_marks: "marks (merge a b) = marks a @ marks b"
    and merge_dropped: "dropped (merge a b) \<longleftrightarrow> dropped a \<or> dropped b"
    and merge_patch: "patch (merge a b) = (case patch b of None \<Rightarrow> patch a | Some p \<Rightarrow> Some p)"
begin

lemma chain_marks: "marks (foldl merge pass as) = concat (map marks as)"
  by (induction as rule: rev_induct) (simp_all add: pass_laws merge_marks)

lemma chain_dropped: "dropped (foldl merge pass as) \<longleftrightarrow> (\<exists>a \<in> set as. dropped a)"
  by (induction as rule: rev_induct) (auto simp: pass_laws merge_dropped)

lemma chain_patch_None: "patch (foldl merge pass as) = None \<longleftrightarrow> (\<forall>a \<in> set as. patch a = None)"
  by (induction as rule: rev_induct) (auto simp: pass_laws merge_patch split: option.splits)

lemma chain_patch_last:
  "patch a = Some p \<Longrightarrow> \<forall>b \<in> set bs. patch b = None \<Longrightarrow> patch (foldl merge pass (as @ a # bs)) = Some p"
  by (induction bs rule: rev_induct) (auto simp: merge_patch)

lemma chain_on: "goes_on (foldl merge pass as) \<longleftrightarrow> as = [] \<or> own_on (last as)"
  by (induction as rule: rev_induct) (auto simp: pass_laws merge_on)

end

definition request_own_on :: "request_action \<Rightarrow> bool" where
  "request_own_on a \<longleftrightarrow> ra_synthetic_response a = None \<and> ra_continue_filters a"

interpretation req: action_merge merge_request_action request_pass ra_marks ra_drop_client_response
  ra_request ra_continue_filters request_own_on
  by unfold_locales
    (auto simp: merge_request_action_def request_pass_def request_own_on_def Let_def split: option.splits)

interpretation res: action_merge merge_response_action response_pass sa_marks sa_drop_client_response
  sa_response sa_continue_filters sa_continue_filters
  by unfold_locales (auto simp: merge_response_action_def response_pass_def Let_def split: option.splits)

interpretation conn: action_merge merge_connect_action connect_pass ca_marks ca_drop_tunnel
  ca_reject_status ca_continue_filters ca_continue_filters
  by unfold_locales (auto simp: merge_connect_action_def connect_pass_def Let_def split: option.splits)

section \<open>Header patches as functions of the names\<close>

definition valid_sets :: "('h, 'u, 'q) http_lib \<Rightarrow> filter_header list \<Rightarrow> (string \<times> bytes) list" where
  "valid_sets H hs = List.map_filter (\<lambda>h. case hl_name_from_bytes H (fh_name h) of
       None \<Rightarrow> None
     | Some n \<Rightarrow> map_option (Pair n) (hl_value_from_str H (fh_value h))) hs"

definition valid_removes :: "('h, 'u, 'q) http_lib \<Rightarrow> string list \<Rightarrow> string list" where
  "valid_removes H ns = List.map_filter (hl_name_from_bytes H) ns"

lemma map_filter_snoc: "List.map_filter f (xs @ [x]) = List.map_filter f xs @ (case f x of None \<Rightarrow> [] | Some y \<Rightarrow> [y])"
  by (induction xs) (auto simp: List.map_filter_def split: option.splits)

lemma removes_get:
  assumes "http_laws H"
  shows "hl_get H (foldl (remove_header_patch H) headers names) m =
    (if m \<in> set (valid_removes H names) then None else hl_get H headers m)"
proof (induction names rule: rev_induct)
  case (snoc n names)
  then show ?case
    by (auto simp: remove_header_patch_def valid_removes_def map_filter_snoc http_lawsD [OF assms] split: option.splits)
qed (simp add: valid_removes_def List.map_filter_def)

lemma sets_get:
  assumes "http_laws H"
  shows "hl_get H (foldl (set_header_patch H) headers hs) m =
    (case map_of (rev (valid_sets H hs)) m of Some v \<Rightarrow> Some v | None \<Rightarrow> hl_get H headers m)"
proof (induction hs rule: rev_induct)
  case (snoc h hs)
  then show ?case
    by (auto simp: set_header_patch_def valid_sets_def map_filter_snoc http_lawsD [OF assms] split: option.splits)
qed (simp add: valid_sets_def List.map_filter_def)

text \<open>C11: Applying a header patch: a name that was set has the value set last, a name that was only removed
  is gone, every other header is as before; removals come before all sets, and entries with an
  invalid name or value have no effect.\<close>

theorem header_patch_result:
  assumes "http_laws H"
  shows "hl_get H (apply_header_patch H sets removes headers) m =
    (case map_of (rev (valid_sets H sets)) m of
       Some v \<Rightarrow> Some v
     | None \<Rightarrow> if m \<in> set (valid_removes H removes) then None else hl_get H headers m)"
  by (simp add: apply_header_patch_def sets_get [OF assms] removes_get [OF assms] split: option.split)

theorem header_patch_result_witness:
  "hl_get list_http (apply_header_patch list_http
     [\<lparr>fh_name = ''X-A'', fh_value = ''one''\<rparr>, \<lparr>fh_name = ''x-a'', fh_value = ''two''\<rparr>, \<lparr>fh_name = ''x-a'', fh_value = [CHR 0x0A]\<rparr>]
     [''X-A'', ''b''] [(''b'', ''1''), (''c'', ''2'')]) ''x-a'' = Some ''two''"
  unfolding header_patch_result [OF list_http_laws] by code_simp

text \<open>C12: A body patch replaces the body and leaves no header that described the old one: content-length,
  content-encoding, etag and content-md5 are gone from request and response even if the same patch
  set them, and the content type is the patch's own when it gives a valid one.\<close>

theorem body_patch_consistent:
  assumes "http_laws H" and "qp_body qpatch = Some bp" and "pp_body ppatch = Some bp"
    and "apply_request_patch H qpatch (qparts, qbody) = (qparts', qbody')"
    and "apply_response_patch H ppatch (pparts, pbody) = (pparts', pbody')"
  shows "qbody' = bp_bytes bp \<and> pbody' = bp_bytes bp
    \<and> (\<forall>n \<in> {''content-length'', ''content-encoding'', ''etag'', ''content-md5''}.
          hl_get H (rp_headers qparts') n = None \<and> hl_get H (sp_headers pparts') n = None)
    \<and> (\<forall>ct v. bp_content_type bp = Some ct \<longrightarrow> hl_value_from_str H ct = Some v \<longrightarrow>
          hl_get H (rp_headers qparts') ''content-type'' = Some v
          \<and> hl_get H (sp_headers pparts') ''content-type'' = Some v)"
  using assms(2-)
  by (auto simp: apply_request_patch_def apply_response_patch_def body_patch_headers_def
      remove_body_integrity_headers_def Let_def http_lawsD [OF assms(1)] split: option.splits)

theorem body_patch_consistent_witness:
  "snd (apply_request_patch list_http (default_request_patch\<lparr>qp_body := Some \<lparr>bp_bytes = ''new'', bp_content_type = None\<rparr>,
       qp_set_headers := [\<lparr>fh_name = ''Content-Length'', fh_value = ''9''\<rparr>]\<rparr>)
     (\<lparr>rp_method = ''POST'', rp_uri = (''/'', None), rp_version = HTTP_11, rp_headers = [(''content-encoding'', ''gzip'')]\<rparr>, ''old''))
   = ''new''"
proof -
  let ?q = "default_request_patch\<lparr>qp_body := Some \<lparr>bp_bytes = ''new'', bp_content_type = None\<rparr>,
       qp_set_headers := [\<lparr>fh_name = ''Content-Length'', fh_value = ''9''\<rparr>]\<rparr>"
  let ?p = "default_response_patch\<lparr>pp_body := Some \<lparr>bp_bytes = ''new'', bp_content_type = None\<rparr>\<rparr>"
  let ?x = "(\<lparr>rp_method = ''POST'', rp_uri = (''/'', None :: string option), rp_version = HTTP_11,
      rp_headers = [(''content-encoding'', ''gzip'')]\<rparr>, ''old'')"
  let ?y = "(\<lparr>sp_status = 200, sp_version = HTTP_11, sp_headers = []\<rparr>, ''old'')"
  obtain a b c d where "apply_request_patch list_http ?q ?x = (a, b)" and "apply_response_patch list_http ?p ?y = (c, d)"
    by (cases "apply_request_patch list_http ?q ?x"; cases "apply_response_patch list_http ?p ?y") blast
  then show ?thesis
    using body_patch_consistent [OF list_http_laws, of ?q "\<lparr>bp_bytes = ''new'', bp_content_type = None\<rparr>" ?p] by simp
qed

end
