(* ===== verification/JsonValue.thy ===== *)
theory JsonValue
  imports Prelude
begin

text \<open>
  The values of the \<open>serde_json\<close> crate. An object is the list of its members in the order in which
  the crate's map iterates over them, which no definition depends on: two values are equal in Rust
  (\<open>json_eq\<close>) when they denote the same document, and \<open>doc\<close> is that document, with an object as a
  map. A number is the text it is printed as; the two zeros of floating point are equal numbers
  with different texts. Printing and parsing are the crate's: they are the fields of a record that
  every definition using them takes as an argument, with their documented laws in \<open>json_laws\<close>.
\<close>

named_theorems doc_simps \<open>the document of a value, by the shape of the value\<close>

section \<open>Values and the library\<close>

datatype json =
    JNull
  | JBool bool
  | JNumber string
  | JString string
  | JArray "json list"
  | JObject "(string \<times> json) list"

record json_lib =
  js_to_string :: "json \<Rightarrow> string"
  js_write :: "json \<Rightarrow> string option"
  js_to_vec :: "json \<Rightarrow> bytes option"
  js_to_pretty :: "json \<Rightarrow> string option"
  js_from_str :: "string \<Rightarrow> json option"
  js_from_slice :: "bytes \<Rightarrow> json option"

definition json_int :: "int \<Rightarrow> json" where
  "json_int i = JNumber (show_int i)"

definition json_opt_string :: "string option \<Rightarrow> json" where
  "json_opt_string v = (case v of None \<Rightarrow> JNull | Some s \<Rightarrow> JString s)"

definition json_opt_number :: "nat option \<Rightarrow> json" where
  "json_opt_number v = (case v of None \<Rightarrow> JNull | Some n \<Rightarrow> json_int (int n))"

fun json_get :: "json \<Rightarrow> string \<Rightarrow> json option" where
  "json_get (JObject ms) k = map_of ms k"
| "json_get _ k = None"

fun json_as_str :: "json \<Rightarrow> string option" where
  "json_as_str (JString s) = Some s"
| "json_as_str _ = None"

section \<open>Equality and documents\<close>

definition same_number :: "string \<Rightarrow> string" where
  "same_number t = (if t = ''-0.0'' then ''0.0'' else t)"

lemma size_zip_left [termination_simp]:
  "(x, y) \<in> set (zip xs ys) \<Longrightarrow> f x < Suc (size_list f xs)"
  by (meson set_zip_leftD size_list_estimation less_Suc_eq order.refl le_imp_less_Suc size_list_estimation')

fun json_eq :: "json \<Rightarrow> json \<Rightarrow> bool" where
  "json_eq JNull JNull \<longleftrightarrow> True"
| "json_eq (JBool a) (JBool b) \<longleftrightarrow> a = b"
| "json_eq (JNumber a) (JNumber b) \<longleftrightarrow> same_number a = same_number b"
| "json_eq (JString a) (JString b) \<longleftrightarrow> a = b"
| "json_eq (JArray xs) (JArray ys) \<longleftrightarrow>
     length xs = length ys \<and> (\<forall>(x, y) \<in> set (zip xs ys). json_eq x y)"
| "json_eq (JObject ms) (JObject ns) \<longleftrightarrow>
     length ms = length ns \<and>
     (\<forall>(k, v) \<in> set ms. case map_of ns k of Some w \<Rightarrow> json_eq v w | None \<Rightarrow> False)"
| "json_eq _ _ \<longleftrightarrow> False"

datatype jdoc =
    DNull
  | DBool bool
  | DNumber string
  | DString string
  | DArray "jdoc list"
  | DObject "string \<Rightarrow> jdoc option"

fun doc :: "json \<Rightarrow> jdoc" where
  "doc JNull = DNull"
| "doc (JBool b) = DBool b"
| "doc (JNumber t) = DNumber (same_number t)"
| "doc (JString s) = DString s"
| "doc (JArray xs) = DArray (map doc xs)"
| "doc (JObject ms) = DObject (map_of (map (\<lambda>(k, v). (k, doc v)) ms))"

fun json_wf :: "json \<Rightarrow> bool" where
  "json_wf (JArray xs) \<longleftrightarrow> (\<forall>x \<in> set xs. json_wf x)"
| "json_wf (JObject ms) \<longleftrightarrow> distinct (map fst ms) \<and> (\<forall>(k, v) \<in> set ms. json_wf v)"
| "json_wf _ \<longleftrightarrow> True"

lemma doc_object [doc_simps]: "doc (JObject ms) = DObject (map_option doc \<circ> map_of ms)"
  by (simp add: map_of_map)

declare doc.simps(6) [simp del]

lemma json_wf_member: "json_wf (JObject ms) \<Longrightarrow> map_of ms k = Some v \<Longrightarrow> json_wf v"
  by (auto dest: map_of_SomeD)

lemma same_keys:
  assumes "distinct (map fst ms)" "distinct (map fst ns)" "length ms = length ns"
    and "fst ` set ms \<subseteq> fst ` set ns"
  shows "fst ` set ms = fst ` set ns"
proof (rule card_subset_eq)
  show "card (fst ` set ms) = card (fst ` set ns)"
    using assms(1-3) by (metis distinct_card length_map set_map)
qed (use assms in auto)

lemma object_docs_eq:
  assumes wf: "distinct (map fst ms)" "distinct (map fst ns)"
    and eq: "\<And>k v w. (k, v) \<in> set ms \<Longrightarrow> map_of ns k = Some w \<Longrightarrow> P v w \<longleftrightarrow> doc v = doc w"
  shows "(length ms = length ns \<and>
      (\<forall>(k, v) \<in> set ms. case map_of ns k of Some w \<Rightarrow> P v w | None \<Rightarrow> False))
    \<longleftrightarrow> map_option doc \<circ> map_of ms = map_option doc \<circ> map_of ns" (is "?len \<and> ?all \<longleftrightarrow> ?rhs")
proof
  assume l: "?len \<and> ?all"
  have "k \<in> fst ` set ns" if "(k, v) \<in> set ms" for k v
  proof -
    have "map_of ns k \<noteq> None" using l that by (auto split: option.splits)
    then show ?thesis by (simp add: map_of_eq_None_iff)
  qed
  then have keys: "fst ` set ms = fst ` set ns"
    using l wf by (intro same_keys) auto
  show ?rhs
  proof
    fix k
    show "(map_option doc \<circ> map_of ms) k = (map_option doc \<circ> map_of ns) k"
    proof (cases "map_of ms k")
      case None
      then have "map_of ns k = None" using keys by (simp add: map_of_eq_None_iff)
      with None show ?thesis by simp
    next
      case (Some v)
      then have "(k, v) \<in> set ms" by (rule map_of_SomeD)
      with l obtain w where w: "map_of ns k = Some w" "P v w" by (fastforce split: option.splits)
      with eq \<open>(k, v) \<in> set ms\<close> Some show ?thesis by simp
    qed
  qed
next
  assume r: ?rhs
  then have "map_of ms k = None \<longleftrightarrow> map_of ns k = None" for k
    by (metis comp_apply map_option_is_None)
  then have keys: "fst ` set ms = fst ` set ns"
    by (metis map_of_eq_None_iff subsetI subset_antisym)
  then have ?len using wf by (metis distinct_card length_map set_map)
  moreover have ?all
  proof clarify
    fix k v
    assume m: "(k, v) \<in> set ms"
    then have "map_of ms k = Some v" using wf by simp
    with r obtain w where "map_of ns k = Some w" "doc v = doc w"
      by (metis (no_types, lifting) comp_apply map_option_eq_Some)
    with eq m show "case map_of ns k of Some w \<Rightarrow> P v w | None \<Rightarrow> False" by simp
  qed
  ultimately show "?len \<and> ?all" ..
qed

lemma json_eq_doc: "json_wf a \<Longrightarrow> json_wf b \<Longrightarrow> json_eq a b \<longleftrightarrow> doc a = doc b"
proof (induction a b rule: json_eq.induct)
  case (5 xs ys)
  have "json_eq x y \<longleftrightarrow> doc x = doc y" if "(x, y) \<in> set (zip xs ys)" for x y
    using 5(1) [OF that refl] 5(2,3) that set_zip_leftD [OF that] set_zip_rightD [OF that] by simp
  then have "json_eq (JArray xs) (JArray ys) \<longleftrightarrow> list_all2 (\<lambda>x y. doc x = doc y) xs ys"
    by (auto simp: list_all2_iff)
  also have "\<dots> \<longleftrightarrow> map doc xs = map doc ys"
    by (auto simp: list_all2_conv_all_nth list_eq_iff_nth_eq)
  finally show ?case by simp
next
  case (6 ms ns)
  have "json_eq v w \<longleftrightarrow> doc v = doc w" if "(k, v) \<in> set ms" "map_of ns k = Some w" for k v w
  proof -
    have "json_wf v" "json_wf w"
      using 6(2,3) that by (auto dest: map_of_SomeD)
    then show ?thesis by (intro 6(1) [OF that(1) refl that(2)])
  qed
  with 6(2,3) show ?case
    unfolding doc_object json_eq.simps jdoc.inject by (intro object_docs_eq) simp_all
qed (auto simp: doc_object)

text \<open>The numbers of a document.\<close>

fun json_all :: "(string \<Rightarrow> bool) \<Rightarrow> json \<Rightarrow> bool" where
  "json_all N (JNumber t) \<longleftrightarrow> N (same_number t)"
| "json_all N (JArray xs) \<longleftrightarrow> (\<forall>x \<in> set xs. json_all N x)"
| "json_all N (JObject ms) \<longleftrightarrow> (\<forall>(k, v) \<in> set ms. json_all N v)"
| "json_all N _ \<longleftrightarrow> True"

primrec doc_all :: "(string \<Rightarrow> bool) \<Rightarrow> jdoc \<Rightarrow> bool" where
  "doc_all N DNull \<longleftrightarrow> True"
| "doc_all N (DBool b) \<longleftrightarrow> True"
| "doc_all N (DNumber t) \<longleftrightarrow> N t"
| "doc_all N (DString s) \<longleftrightarrow> True"
| "doc_all N (DArray xs) \<longleftrightarrow> list_all id (map (doc_all N) xs)"
| "doc_all N (DObject m) \<longleftrightarrow> (\<forall>k. pred_option id (map_option (doc_all N) (m k)))"

lemma json_all_doc: "json_wf v \<Longrightarrow> json_all N v \<longleftrightarrow> doc_all N (doc v)"
proof (induction N v rule: json_all.induct)
  case (3 N ms)
  have "doc_all N (doc (JObject ms)) \<longleftrightarrow> (\<forall>k v. map_of ms k = Some v \<longrightarrow> doc_all N (doc v))"
    by (auto simp: doc_object pred_option_def)
  also have "\<dots> \<longleftrightarrow> (\<forall>(k, v) \<in> set ms. doc_all N (doc v))"
    using 3(2) by (auto simp: map_of_eq_Some_iff)
  also have "\<dots> \<longleftrightarrow> json_all N (JObject ms)"
  proof -
    have "json_all N v \<longleftrightarrow> doc_all N (doc v)" if "(k, v) \<in> set ms" for k v
      using 3(1) [OF that refl] 3(2) that by auto
    then show ?thesis by auto
  qed
  finally show ?case ..
qed (auto simp: list_all_iff)

section \<open>The documented behaviour of the library\<close>

text \<open>
  A printed value is read back as an equal one, provided its numbers are read back exactly (\<open>N\<close>:
  every integer is, a floating-point number with the crate's \<open>float_roundtrip\<close>); a parsed value has
  every key once; the scalars are printed as JSON writes them, and printing does not fail. The
  crate's parser gives up on documents nested deeper than 128 levels; the laws are its documented
  behaviour for documents within that depth.
\<close>

definition json_laws :: "json_lib \<Rightarrow> (string \<Rightarrow> bool) \<Rightarrow> bool" where
  "json_laws J N \<longleftrightarrow>
     (\<forall>v. json_wf v \<and> json_all N v \<longrightarrow> (\<exists>w. js_from_str J (js_to_string J v) = Some w \<and> json_eq w v)) \<and>
     (\<forall>v. json_wf v \<and> json_all N v \<longrightarrow>
        (\<exists>s w. js_to_pretty J v = Some s \<and> js_from_str J s = Some w \<and> json_eq w v)) \<and>
     (\<forall>v. js_write J v = Some (js_to_string J v)) \<and>
     (\<forall>s v. js_from_str J s = Some v \<longrightarrow> json_wf v) \<and>
     js_to_string J JNull = ''null'' \<and> js_to_string J (JBool True) = ''true'' \<and>
     js_to_string J (JBool False) = ''false'' \<and> (\<forall>t. js_to_string J (JNumber t) = t)"

lemma json_laws_print:
  assumes "json_laws J N" "json_wf v" "json_all N v"
  obtains w where "js_from_str J (js_to_string J v) = Some w" "doc w = doc v" "json_wf w"
  using assms json_eq_doc unfolding json_laws_def by metis

lemma json_laws_pretty:
  assumes "json_laws J N" "json_wf v" "json_all N v"
  obtains s w where "js_to_pretty J v = Some s" "js_from_str J s = Some w" "doc w = doc v" "json_wf w"
  using assms json_eq_doc unfolding json_laws_def by metis

lemma json_laws_wf: "json_laws J N \<Longrightarrow> js_from_str J s = Some v \<Longrightarrow> json_wf v"
  by (simp add: json_laws_def)

lemma json_laws_write: "json_laws J N \<Longrightarrow> js_write J v = Some (js_to_string J v)"
  by (simp add: json_laws_def)

lemma json_laws_scalars:
  "json_laws J N \<Longrightarrow> js_to_string J JNull = ''null''"
  "json_laws J N \<Longrightarrow> js_to_string J (JBool b) = (if b then ''true'' else ''false'')"
  "json_laws J N \<Longrightarrow> js_to_string J (JNumber t) = t"
  by (cases b) (simp_all add: json_laws_def)

text \<open>A printer for the examples that shows the strings of a value only.\<close>

fun show_strings :: "json \<Rightarrow> string" where
  "show_strings (JString s) = s"
| "show_strings (JArray vs) = concat (map show_strings vs)"
| "show_strings (JObject ms) = concat (map (\<lambda>(_, v). show_strings v) ms)"
| "show_strings _ = []"

definition sample_json :: json_lib where
  "sample_json = \<lparr>js_to_string = show_strings, js_write = (\<lambda>v. Some (show_strings v)),
     js_to_vec = (\<lambda>v. Some (show_strings v)), js_to_pretty = (\<lambda>v. Some (show_strings v)),
     js_from_str = (\<lambda>b. Some (JString b)), js_from_slice = (\<lambda>b. Some (JString b))\<rparr>"

end
