(* ===== verification/Paths.thy ===== *)
theory Paths
  imports Prelude "HOL-Library.Char_ord" "HOL-Library.List_Lexorder" "HOL-Library.Product_Lexorder"
begin

text \<open>
  The parts of \<open>std::path\<close> the sources use, on Unix: a path is its string, its components are read
  the way \<open>Path::components\<close> does, and paths are compared component by component. The order of the
  components makes \<open>path_component\<close> an instance of \<open>linorder\<close>, so that sorting by path is the
  library's sorting.
\<close>

datatype path_component = RootDir | CurDir | ParentDir | Normal string

fun component_key :: "path_component \<Rightarrow> nat \<times> string" where
  "component_key RootDir = (0, [])"
| "component_key CurDir = (1, [])"
| "component_key ParentDir = (2, [])"
| "component_key (Normal s) = (3, s)"

lemma component_key_inj: "component_key a = component_key b \<Longrightarrow> a = b"
  by (cases a; cases b) auto

instantiation path_component :: linorder
begin

definition less_eq_path_component :: "path_component \<Rightarrow> path_component \<Rightarrow> bool" where
  "a \<le> b \<longleftrightarrow> component_key a \<le> component_key b"

definition less_path_component :: "path_component \<Rightarrow> path_component \<Rightarrow> bool" where
  "a < b \<longleftrightarrow> component_key a < component_key b"

instance
  by standard
    (auto simp only: less_eq_path_component_def less_path_component_def less_le_not_le
      intro: component_key_inj order.antisym order.trans order.refl linear)

end

fun named_component :: "string \<Rightarrow> path_component list" where
  "named_component w = (if w = [] \<or> w = ''.'' then [] else if w = ''..'' then [ParentDir] else [Normal w])"

definition path_components :: "string \<Rightarrow> path_component list" where
  "path_components path =
     (let parts = split_char (CHR ''/'') path in
      (if starts_with path ''/'' then [RootDir] else if hd parts = ''.'' then [CurDir] else [])
      @ concat (map named_component parts))"

definition path_file_name :: "string \<Rightarrow> string option" where
  "path_file_name path =
     (if path_components path = [] then None
      else (case last (path_components path) of Normal s \<Rightarrow> Some s | _ \<Rightarrow> None))"

text \<open>A file name split at its last dot, which does not count at the front.\<close>

definition rsplit_file_at_dot :: "string \<Rightarrow> string option \<times> string option" where
  "rsplit_file_at_dot name = (case split_once (CHR ''.'') (rev name) of
     None \<Rightarrow> (None, Some name)
   | Some (after, before) \<Rightarrow> if before = [] then (Some name, None) else (Some (rev before), Some (rev after)))"

definition path_file_stem :: "string \<Rightarrow> string option" where
  "path_file_stem path = Option.bind (path_file_name path) (\<lambda>name.
     case rsplit_file_at_dot name of (Some before, _) \<Rightarrow> Some before | (None, after) \<Rightarrow> after)"

definition path_extension :: "string \<Rightarrow> string option" where
  "path_extension path = Option.bind (path_file_name path) (\<lambda>name.
     case rsplit_file_at_dot name of (Some before, after) \<Rightarrow> after | (None, _) \<Rightarrow> None)"

definition path_starts_with :: "string \<Rightarrow> string \<Rightarrow> bool" where
  "path_starts_with path base = starts_with (path_components path) (path_components base)"

definition path_join :: "string \<Rightarrow> string \<Rightarrow> string" where
  "path_join base p =
     (if starts_with p ''/'' then p
      else if base = [] \<or> ends_with base ''/'' then base @ p
      else base @ ''/'' @ p)"


lemma named_parts_append_sep:
  "concat (map named_component (split_char (CHR ''/'') (a @ CHR ''/'' # b))) =
   concat (map named_component (split_char (CHR ''/'') a)) @ concat (map named_component (split_char (CHR ''/'') b))"
  by (simp only: split_char_append_sep map_append concat_append)

text \<open>Joining a plain name gives a path below the base, with that name as its file name.\<close>

lemma path_components_join:
  assumes "CHR ''/'' \<notin> set name" and "named_component name = [Normal name]" and "base \<noteq> []"
  shows "path_components (path_join base name) = path_components base @ [Normal name]"
proof -
  have split: "split_char (CHR ''/'') name = [name]" using assms(1)
    by (induction name) auto
  have rel: "\<not> starts_with name ''/''" using assms(1,2) by (cases name) auto
  have hd: "hd (split_char (CHR ''/'') (base @ CHR ''/'' # name)) = hd (split_char (CHR ''/'') base)"
    by (simp add: split_char_append_sep)
  have start: "starts_with (base @ t) ''/'' \<longleftrightarrow> starts_with base ''/''" for t
    using assms(3) by (cases base) auto
  show ?thesis
  proof (cases "ends_with base ''/''")
    case True
    then obtain b where b: "base = b @ ''/''" by (auto simp: ends_with_iff)
    then have "path_join base name = b @ CHR ''/'' # name"
      using rel True assms(3) by (simp add: path_join_def)
    moreover have "hd (split_char (CHR ''/'') (b @ CHR ''/'' # name)) = hd (split_char (CHR ''/'') base)"
      unfolding b by (simp add: split_char_append_sep)
    moreover have "starts_with (b @ CHR ''/'' # name) ''/'' \<longleftrightarrow> starts_with base ''/''"
      unfolding b by (cases b) auto
    ultimately show ?thesis
      using assms(2) split b named_parts_append_sep [of b name] named_parts_append_sep [of b "[]"]
      by (simp add: path_components_def Let_def)
  next
    case False
    then have "path_join base name = base @ CHR ''/'' # name"
      using rel assms(3) by (simp add: path_join_def)
    then show ?thesis
      using assms(2) split hd start named_parts_append_sep [of base name]
      by (simp add: path_components_def Let_def)
  qed
qed

end
