(* ===== verification/CaptureService.thy ===== *)
theory CaptureService
  imports FilterBridge JsonValue Paths
begin

text \<open>
  Storing what went over the wire (\<open>src/src/mitm/flow/capture_service.rs\<close>). A commit creates the
  directory of the flow, writes its files and sends one event to the metadata database. The disk and
  the event channel are the state \<open>capture_world\<close>; which file operations succeed, the printer of
  JSON values and the decompressors are fields of \<open>capture_env\<close>. A point in time is known by the
  two readings the code takes of it. A failed write is taken to leave the file as it was.
\<close>

section \<open>Data\<close>

text \<open>A cast from an unsigned 64-bit type to \<open>i64\<close> keeps the bits.\<close>

definition as_i64 :: "nat \<Rightarrow> int" where
  "as_i64 n = sint (of_nat n :: 64 word)"

lemma as_i64_small: "n < 2 ^ 63 \<Longrightarrow> as_i64 n = int n"
  by (simp add: as_i64_def signed_of_nat signed_take_bit_int_eq_self)

record date_time =
  dt_rfc3339 :: string
  dt_epoch_ms :: int

record request_metadata =
  qm_id :: string
  qm_seq :: int
  qm_flow_key :: string
  qm_flow_dir :: string
  qm_request_head_path :: string
  qm_request_body_path :: string
  qm_time :: string
  qm_epoch_ms :: int
  qm_method :: string
  qm_protocol :: string
  qm_host :: string
  qm_uri :: string
  qm_query_str :: string
  qm_version :: string
  qm_tls_sni :: "string option"
  qm_headers :: json
  qm_body_size :: int
  qm_body_saved_size :: int
  qm_body_truncated :: bool
  qm_body_save_limit :: "int option"

record response_metadata =
  sm_id :: string
  sm_seq :: int
  sm_flow_key :: string
  sm_flow_dir :: string
  sm_response_head_path :: string
  sm_response_body_path :: string
  sm_elapsed :: int
  sm_status :: nat
  sm_upstream_status :: "nat option"
  sm_version :: string
  sm_tls_upstream :: "json option"
  sm_upstream_remote_addr :: "string option"
  sm_headers :: json
  sm_body_size :: int
  sm_body_saved_size :: int
  sm_body_truncated :: bool
  sm_body_save_limit :: "int option"

datatype capture_event = RequestEvent request_metadata | ResponseEvent response_metadata

datatype response_origin = Upstream | Synthetic | ProxyError | WebSocketUpgrade

fun origin_as_str :: "response_origin \<Rightarrow> string" where
  "origin_as_str Upstream = ''upstream''"
| "origin_as_str Synthetic = ''synthetic''"
| "origin_as_str ProxyError = ''proxy_error''"
| "origin_as_str WebSocketUpgrade = ''websocket_upgrade''"

record tunnel_failure_capture =
  tf_id :: string
  tf_seq :: nat
  tf_flow_key :: string
  tf_flow_dir :: string
  tf_time :: date_time
  tf_host :: string
  tf_port :: nat
  tf_stage :: string
  tf_error :: string

record ('h, 'u) effective_request_capture =
  qc_id :: string
  qc_seq :: nat
  qc_flow_key :: string
  qc_time :: date_time
  qc_flow_dir :: string
  qc_method :: string
  qc_uri :: 'u
  qc_version :: http_version
  qc_headers :: 'h
  qc_body_bytes :: bytes
  qc_protocol :: string
  qc_host :: string
  qc_tls_sni :: "string option"

record 'h effective_response_capture =
  sc_id :: string
  sc_seq :: nat
  sc_flow_key :: string
  sc_flow_dir :: string
  sc_status :: nat
  sc_version :: http_version
  sc_headers :: 'h
  sc_body_bytes :: bytes
  sc_body_size_override :: "int option"
  sc_body_truncated_override :: "bool option"
  sc_elapsed_ms :: int
  sc_origin :: response_origin
  sc_upstream_status :: "nat option"
  sc_upstream_remote_addr :: "string option"
  sc_tls_sni :: "string option"
  sc_tls_upstream :: "json option"
  sc_upstream_error_message :: "string option"

record request_commit =
  qk_id :: string
  qk_seq :: nat
  qk_flow_key :: string
  qk_flow_dir :: string
  qk_request_head_path :: string
  qk_request_body_path :: string
  qk_time :: string
  qk_epoch_ms :: int
  qk_method :: string
  qk_protocol :: string
  qk_host :: string
  qk_uri :: string
  qk_query_str :: string
  qk_version :: string

record response_commit =
  sk_id :: string
  sk_seq :: nat
  sk_flow_key :: string
  sk_flow_dir :: string
  sk_response_head_path :: string
  sk_response_body_path :: string
  sk_elapsed_ms :: int
  sk_status :: nat
  sk_display_status :: nat
  sk_version :: string

section \<open>The service, the disk and the channel\<close>

record capture_service =
  csv_flows_dir :: string
  csv_body_save_limit_bytes :: "nat option"
  csv_body_omit_content_types :: "string list"

definition new_capture_service :: "string \<Rightarrow> nat option \<Rightarrow> string list \<Rightarrow> capture_service" where
  "new_capture_service flows_dir limit omit =
     \<lparr>csv_flows_dir = flows_dir, csv_body_save_limit_bytes = limit,
      csv_body_omit_content_types = filter (\<lambda>v. v \<noteq> []) (map (\<lambda>v. to_ascii_lowercase (trim v)) omit)\<rparr>"

record ('h, 'u, 'q) capture_env =
  ce_http :: "('h, 'u, 'q) http_lib"
  ce_decoders :: body_decoders
  ce_json :: json_lib
  ce_create_dir_all :: "string \<Rightarrow> bool"
  ce_write :: "string \<Rightarrow> bool"

record capture_world =
  cw_files :: "(string, bytes) hash_map"
  cw_events :: "capture_event list"
  cw_receiver_open :: bool

datatype capture_error =
    CreateFlowDir string
  | WriteFile string
  | SerializeTunnelFailure
  | QueueTunnelFailure

type_synonym 'a capture_io = "(capture_world, capture_error, 'a) fallible"

definition create_dir_all :: "('h, 'u, 'q) capture_env \<Rightarrow> string \<Rightarrow> unit capture_io" where
  "create_dir_all E dir w = (if ce_create_dir_all E dir then (Inr (), w) else (Inl (CreateFlowDir dir), w))"

definition fs_write :: "('h, 'u, 'q) capture_env \<Rightarrow> string \<Rightarrow> bytes \<Rightarrow> unit capture_io" where
  "fs_write E path content w =
     (if ce_write E path then (Inr (), w\<lparr>cw_files := hm_insert path content (cw_files w)\<rparr>)
      else (Inl (WriteFile path), w))"

text \<open>Sending on the unbounded channel fails once the receiver is gone; the commits of requests and
  responses log that and go on, a tunnel failure reports it.\<close>

definition send_capture_event :: "capture_event \<Rightarrow> capture_world \<Rightarrow> bool \<times> capture_world" where
  "send_capture_event ev w =
     (if cw_receiver_open w then (True, w\<lparr>cw_events := cw_events w @ [ev]\<rparr>) else (False, w))"

definition send_or_log :: "capture_event \<Rightarrow> unit capture_io" where
  "send_or_log ev w = (Inr (), snd (send_capture_event ev w))"

definition send_or_fail :: "capture_event \<Rightarrow> unit capture_io" where
  "send_or_fail ev w = (case send_capture_event ev w of (ok, w1) \<Rightarrow> (if ok then Inr () else Inl QueueTunnelFailure, w1))"

section \<open>Message heads\<close>

definition head_lines :: "('h, 'u, 'q) http_lib \<Rightarrow> 'h \<Rightarrow> string" where
  "head_lines H headers =
     concat (map (\<lambda>(name, val). name @ '': '' @ (case hl_value_to_str H val of Some s \<Rightarrow> s | None \<Rightarrow> ''<binary>'')
        @ [CHR 0x0D, CHR 0x0A]) (hl_iter H headers))"

definition build_request_head_text ::
  "('h, 'u, 'q) http_lib \<Rightarrow> string \<Rightarrow> 'u \<Rightarrow> http_version \<Rightarrow> 'h \<Rightarrow> string option \<Rightarrow> string" where
  "build_request_head_text H method uri version headers tls_sni =
     (case tls_sni of None \<Rightarrow> [] | Some sni \<Rightarrow> ''X-Inspect-TLS-SNI: '' @ sni @ [CHR 0x0D, CHR 0x0A])
     @ method @ '' '' @ hl_uri_to_string H uri @ '' '' @ version_to_string version @ [CHR 0x0D, CHR 0x0A]
     @ head_lines H headers @ [CHR 0x0D, CHR 0x0A]"

definition build_response_head_text :: "('h, 'u, 'q) http_lib \<Rightarrow> http_version \<Rightarrow> nat \<Rightarrow> 'h \<Rightarrow> string" where
  "build_response_head_text H version status headers =
     version_to_string version @ '' '' @ hl_status_text H status @ [CHR 0x0D, CHR 0x0A]
     @ head_lines H headers @ [CHR 0x0D, CHR 0x0A]"

definition add_header_json :: "(string, json) hash_map \<Rightarrow> string \<times> json \<Rightarrow> (string, json) hash_map" where
  "add_header_json m = (\<lambda>(key, val).
     case hm_get m key of
       None \<Rightarrow> hm_insert key val m
     | Some (JArray vs) \<Rightarrow> hm_insert key (JArray (vs @ [val])) m
     | Some existing \<Rightarrow> hm_insert key (JArray [existing, val]) m)"

definition headers_to_json :: "('h, 'u, 'q) http_lib \<Rightarrow> 'h \<Rightarrow> json" where
  "headers_to_json H headers = JObject (foldl add_header_json []
     (map (\<lambda>(name, val). (name, JString (case hl_value_to_str H val of Some s \<Rightarrow> s | None \<Rightarrow> hl_base64 H val)))
       (hl_iter H headers)))"

section \<open>Bodies\<close>

text \<open>The service has its own copy of the function that names body files.\<close>

definition capture_body_file_name :: "('h, 'u, 'q) http_lib \<Rightarrow> string \<Rightarrow> 'h \<Rightarrow> string" where
  "capture_body_file_name H base headers =
     (case Option.bind (hl_get H headers ''content-encoding'') (hl_value_to_str H) of
        None \<Rightarrow> base
      | Some content_encoding \<Rightarrow>
          (let suffixes = List.map_filter (\<lambda>part. encoding_suffix (to_ascii_lowercase (trim part)))
                 (split_char (CHR '','') content_encoding)
           in if suffixes = [] then base else base @ ''.'' @ join_with ''.'' suffixes))"

lemma capture_body_file_name_eq: "capture_body_file_name = body_file_name"
  by (intro ext) (simp add: capture_body_file_name_def body_file_name_def content_encoding_suffixes_def split: option.split)

definition body_omit_reason_by_content_type :: "('h, 'u, 'q) http_lib \<Rightarrow> 'h \<Rightarrow> string list \<Rightarrow> string option" where
  "body_omit_reason_by_content_type H headers omit_content_types =
     (case normalized_content_type H headers of
        None \<Rightarrow> None
      | Some content_type \<Rightarrow>
          map_option (\<lambda>pattern. ''content-type '' @ content_type @ '' matched omit rule '' @ pattern)
            (List.find (\<lambda>pattern. starts_with content_type pattern) omit_content_types))"

definition truncated_notice :: "nat \<Rightarrow> nat \<Rightarrow> string" where
  "truncated_notice max_len total_len =
     CHR 0x0A # ''<< mitm truncated: max_len='' @ show_nat max_len @ '' bytes, total='' @ show_nat total_len @ '' bytes >>''"

definition limited_body :: "bytes \<Rightarrow> nat \<Rightarrow> bytes" where
  "limited_body bytes max_len =
     take (min (length bytes) max_len) bytes
     @ (if length bytes > max_len then truncated_notice max_len (length bytes) else [])"

record body_storage_info =
  bsi_saved_size :: nat
  bsi_truncated :: bool

definition body_storage_info_of :: "nat \<Rightarrow> nat option \<Rightarrow> body_storage_info" where
  "body_storage_info_of body_len max_len =
     (case max_len of
        Some m \<Rightarrow> \<lparr>bsi_saved_size = min body_len m, bsi_truncated = body_len > m\<rparr>
      | None \<Rightarrow> \<lparr>bsi_saved_size = body_len, bsi_truncated = False\<rparr>)"

definition write_body_for_storage ::
  "('h, 'u, 'q) capture_env \<Rightarrow> string \<Rightarrow> bytes \<Rightarrow> nat option \<Rightarrow> unit capture_io" where
  "write_body_for_storage E path bytes max_len =
     (case max_len of Some m \<Rightarrow> fs_write E path (limited_body bytes m) | None \<Rightarrow> fs_write E path bytes)"

text \<open>What is stored of a body: the bytes to write, the limit for writing them, and the numbers for the
  metadata.\<close>

definition omitted_body :: "string \<Rightarrow> bytes" where
  "omitted_body reason = ''<body omitted by inspect: '' @ reason @ ''>'' @ [CHR 0x0A]"

definition body_plan ::
  "('h, 'u, 'q) capture_env \<Rightarrow> capture_service \<Rightarrow> 'h \<Rightarrow> bytes \<Rightarrow> bytes \<times> nat option \<times> body_storage_info \<times> int option" where
  "body_plan E S headers body =
     (let omit_reason = body_omit_reason_by_content_type (ce_http E) headers (csv_body_omit_content_types S);
          limit = csv_body_save_limit_bytes S;
          stored = (case omit_reason of
                      Some reason \<Rightarrow> omitted_body reason
                    | None \<Rightarrow> if limit = None then body
                              else decoded_body_or_raw (ce_http E) (ce_decoders E) headers body)
      in case omit_reason of
           Some reason \<Rightarrow> (stored, None, \<lparr>bsi_saved_size = length stored, bsi_truncated = True\<rparr>, Some 0)
         | None \<Rightarrow> (stored, limit, body_storage_info_of (length stored) limit, map_option as_i64 limit))"

section \<open>The commits\<close>

definition tunnel_failure_json :: "tunnel_failure_capture \<Rightarrow> json" where
  "tunnel_failure_json c = JObject
     [(''kind'', JString ''tls_tunnel_failure''), (''method'', JString ''CONNECT''),
      (''target'', JString (tf_host c @ '':'' @ show_nat (tf_port c))), (''host'', JString (tf_host c)),
      (''port'', json_int (int (tf_port c))), (''time'', JString (dt_rfc3339 (tf_time c))),
      (''epoch_ms'', json_int (dt_epoch_ms (tf_time c))), (''stage'', JString (tf_stage c)),
      (''result'', JString ''failed''), (''error'', JString (tf_error c))]"

definition commit_tunnel_failure ::
  "('h, 'u, 'q) capture_env \<Rightarrow> tunnel_failure_capture \<Rightarrow> unit capture_io" where
  "commit_tunnel_failure E c =
     try_then (create_dir_all E (tf_flow_dir c)) (\<lambda>_.
       case js_to_pretty (ce_json E) (tunnel_failure_json c) of
         None \<Rightarrow> (\<lambda>w. (Inl SerializeTunnelFailure, w))
       | Some failure_json \<Rightarrow>
           try_then (fs_write E (path_join (tf_flow_dir c) ''ssl_tls.json'') failure_json) (\<lambda>_.
             send_or_fail (RequestEvent
               \<lparr>qm_id = tf_id c, qm_seq = as_i64 (tf_seq c), qm_flow_key = tf_flow_key c,
                qm_flow_dir = from_utf8_lossy (tf_flow_dir c), qm_request_head_path = [], qm_request_body_path = [],
                qm_time = dt_rfc3339 (tf_time c), qm_epoch_ms = dt_epoch_ms (tf_time c), qm_method = ''CONNECT'',
                qm_protocol = ''https'', qm_host = tf_host c, qm_uri = [], qm_query_str = [], qm_version = [],
                qm_tls_sni = None, qm_headers = JObject [], qm_body_size = 0, qm_body_saved_size = 0,
                qm_body_truncated = False, qm_body_save_limit = None\<rparr>)))"

definition request_head_path :: "('h, 'u) effective_request_capture \<Rightarrow> string" where
  "request_head_path c = path_join (qc_flow_dir c) ''request.head''"

definition request_body_path :: "('h, 'u, 'q) http_lib \<Rightarrow> ('h, 'u) effective_request_capture \<Rightarrow> string" where
  "request_body_path H c = path_join (qc_flow_dir c) (capture_body_file_name H ''request.body'' (qc_headers c))"

definition request_metadata_of ::
  "('h, 'u, 'q) capture_env \<Rightarrow> capture_service \<Rightarrow> ('h, 'u) effective_request_capture \<Rightarrow> request_metadata" where
  "request_metadata_of E S c =
     (let H = ce_http E; (stored, max_len, info, save_limit) = body_plan E S (qc_headers c) (qc_body_bytes c) in
      \<lparr>qm_id = qc_id c, qm_seq = as_i64 (qc_seq c), qm_flow_key = qc_flow_key c,
       qm_flow_dir = from_utf8_lossy (qc_flow_dir c),
       qm_request_head_path = from_utf8_lossy (request_head_path c),
       qm_request_body_path = from_utf8_lossy (request_body_path H c),
       qm_time = dt_rfc3339 (qc_time c), qm_epoch_ms = dt_epoch_ms (qc_time c), qm_method = qc_method c,
       qm_protocol = qc_protocol c, qm_host = qc_host c, qm_uri = hl_uri_path H (qc_uri c),
       qm_query_str = (case hl_uri_query H (qc_uri c) of Some q \<Rightarrow> q | None \<Rightarrow> []),
       qm_version = version_to_string (qc_version c), qm_tls_sni = qc_tls_sni c,
       qm_headers = headers_to_json H (qc_headers c), qm_body_size = as_i64 (length (qc_body_bytes c)),
       qm_body_saved_size = as_i64 (bsi_saved_size info), qm_body_truncated = bsi_truncated info,
       qm_body_save_limit = save_limit\<rparr>)"

definition commit_request ::
  "('h, 'u, 'q) capture_env \<Rightarrow> capture_service \<Rightarrow> ('h, 'u) effective_request_capture \<Rightarrow> request_commit capture_io" where
  "commit_request E S c =
     (let H = ce_http E in
      try_then (create_dir_all E (qc_flow_dir c)) (\<lambda>_.
      try_then (fs_write E (request_head_path c)
        (build_request_head_text H (qc_method c) (qc_uri c) (qc_version c) (qc_headers c) (qc_tls_sni c))) (\<lambda>_.
      case body_plan E S (qc_headers c) (qc_body_bytes c) of (stored, max_len, info, save_limit) \<Rightarrow>
      try_then (write_body_for_storage E (request_body_path H c) stored max_len) (\<lambda>_.
      try_then (send_or_log (RequestEvent (request_metadata_of E S c))) (\<lambda>_.
      try_return
        \<lparr>qk_id = qc_id c, qk_seq = qc_seq c, qk_flow_key = qc_flow_key c, qk_flow_dir = qc_flow_dir c,
         qk_request_head_path = request_head_path c, qk_request_body_path = request_body_path H c,
         qk_time = dt_rfc3339 (qc_time c), qk_epoch_ms = dt_epoch_ms (qc_time c), qk_method = qc_method c,
         qk_protocol = qc_protocol c, qk_host = qc_host c, qk_uri = hl_uri_path H (qc_uri c),
         qk_query_str = (case hl_uri_query H (qc_uri c) of Some q \<Rightarrow> q | None \<Rightarrow> []),
         qk_version = version_to_string (qc_version c)\<rparr>)))))"

definition response_head_path :: "'h effective_response_capture \<Rightarrow> string" where
  "response_head_path c = path_join (sc_flow_dir c) ''response.head''"

definition response_body_path :: "('h, 'u, 'q) http_lib \<Rightarrow> 'h effective_response_capture \<Rightarrow> string" where
  "response_body_path H c = path_join (sc_flow_dir c) (capture_body_file_name H ''response.body'' (sc_headers c))"

definition response_body_plan ::
  "('h, 'u, 'q) capture_env \<Rightarrow> capture_service \<Rightarrow> 'h effective_response_capture
   \<Rightarrow> bytes \<times> nat option \<times> body_storage_info \<times> int option" where
  "response_body_plan E S c =
     (case sc_upstream_error_message c of
        Some msg \<Rightarrow> (let limit = csv_body_save_limit_bytes S in
          (msg, limit, body_storage_info_of (length msg) limit, map_option as_i64 limit))
      | None \<Rightarrow> body_plan E S (sc_headers c) (sc_body_bytes c))"

definition response_metadata_of ::
  "('h, 'u, 'q) capture_env \<Rightarrow> capture_service \<Rightarrow> 'h effective_response_capture \<Rightarrow> response_metadata" where
  "response_metadata_of E S c =
     (let H = ce_http E; (stored, max_len, info, save_limit) = response_body_plan E S c in
      \<lparr>sm_id = sc_id c, sm_seq = as_i64 (sc_seq c), sm_flow_key = sc_flow_key c,
       sm_flow_dir = from_utf8_lossy (sc_flow_dir c),
       sm_response_head_path = from_utf8_lossy (response_head_path c),
       sm_response_body_path = from_utf8_lossy (response_body_path H c), sm_elapsed = sc_elapsed_ms c,
       sm_status = sc_status c, sm_upstream_status = sc_upstream_status c,
       sm_version = version_to_string (sc_version c), sm_tls_upstream = sc_tls_upstream c,
       sm_upstream_remote_addr = sc_upstream_remote_addr c, sm_headers = headers_to_json H (sc_headers c),
       sm_body_size = (case sc_body_size_override c of Some n \<Rightarrow> n | None \<Rightarrow> as_i64 (length (sc_body_bytes c))),
       sm_body_saved_size = as_i64 (bsi_saved_size info),
       sm_body_truncated = (case sc_body_truncated_override c of Some b \<Rightarrow> b | None \<Rightarrow> bsi_truncated info),
       sm_body_save_limit = save_limit\<rparr>)"

definition response_commit_of ::
  "('h, 'u, 'q) http_lib \<Rightarrow> 'h effective_response_capture \<Rightarrow> response_commit" where
  "response_commit_of H c =
     \<lparr>sk_id = sc_id c, sk_seq = sc_seq c, sk_flow_key = sc_flow_key c, sk_flow_dir = sc_flow_dir c,
      sk_response_head_path = response_head_path c, sk_response_body_path = response_body_path H c,
      sk_elapsed_ms = sc_elapsed_ms c, sk_status = sc_status c,
      sk_display_status = (case sc_upstream_status c of Some s \<Rightarrow> s | None \<Rightarrow> sc_status c),
      sk_version = version_to_string (sc_version c)\<rparr>"

definition ssl_tls_json :: "'h effective_response_capture \<Rightarrow> json" where
  "ssl_tls_json c = JObject
     [(''request'', JObject [(''tls_sni'', json_opt_string (sc_tls_sni c))]),
      (''response'', JObject [(''upstream_tls'', case sc_tls_upstream c of None \<Rightarrow> JNull | Some v \<Rightarrow> v),
                            (''origin'', JString (origin_as_str (sc_origin c)))])]"

definition ssl_tls_text :: "json_lib \<Rightarrow> 'h effective_response_capture \<Rightarrow> string" where
  "ssl_tls_text J c = (case js_to_pretty J (ssl_tls_json c) of Some text \<Rightarrow> text | None \<Rightarrow> js_to_string J (ssl_tls_json c))"

definition commit_response ::
  "('h, 'u, 'q) capture_env \<Rightarrow> capture_service \<Rightarrow> 'h effective_response_capture \<Rightarrow> response_commit capture_io" where
  "commit_response E S c =
     (let H = ce_http E in
      try_then (create_dir_all E (sc_flow_dir c)) (\<lambda>_.
      try_then (fs_write E (path_join (sc_flow_dir c) ''ssl_tls.json'')
        (ssl_tls_text (ce_json E) c)) (\<lambda>_.
      try_then (fs_write E (response_head_path c)
        (build_response_head_text H (sc_version c) (sc_status c) (sc_headers c))) (\<lambda>_.
      case response_body_plan E S c of (stored, max_len, info, save_limit) \<Rightarrow>
      try_then (write_body_for_storage E (response_body_path H c) stored max_len) (\<lambda>_.
      try_then (send_or_log (ResponseEvent (response_metadata_of E S c))) (\<lambda>_.
      try_return (response_commit_of H c)))))))"

section \<open>Names and stored bytes\<close>

definition stored_file :: "bytes \<Rightarrow> nat option \<Rightarrow> bytes" where
  "stored_file bytes max_len = (case max_len of Some m \<Rightarrow> limited_body bytes m | None \<Rightarrow> bytes)"

lemma write_body_eq: "write_body_for_storage E path bytes max_len = fs_write E path (stored_file bytes max_len)"
  by (simp add: write_body_for_storage_def stored_file_def split: option.split)

lemma path_join_inj:
  assumes "hd a \<noteq> CHR ''/''" "hd b \<noteq> CHR ''/''" "a \<noteq> []" "b \<noteq> []"
  shows "path_join d a = path_join d b \<longleftrightarrow> a = b"
proof -
  have "\<not> starts_with a ''/''" "\<not> starts_with b ''/''" using assms by (cases a; cases b; auto)+
  then show ?thesis by (simp add: path_join_def)
qed

lemma body_file_name_tail: "\<exists>t. body_file_name H base headers = base @ t"
  by (simp add: body_file_name_def Let_def)

text \<open>The five files of a flow have five names.\<close>

lemma flow_file_names_distinct:
  "distinct (map (path_join d) [''request.head'', body_file_name H ''request.body'' qh, ''ssl_tls.json'', ''response.head'',
     body_file_name H ''response.body'' sh])"
proof -
  obtain t u where "body_file_name H ''request.body'' qh = ''request.body'' @ t"
    and "body_file_name H ''response.body'' sh = ''response.body'' @ u"
    using body_file_name_tail by metis
  then show ?thesis by (simp add: path_join_inj)
qed

lemma fs_write_ok: "ce_write E p \<Longrightarrow> fs_write E p b w = (Inr (), w\<lparr>cw_files := hm_insert p b (cw_files w)\<rparr>)"
  by (simp add: fs_write_def)

definition disk_ok :: "('h, 'u, 'q) capture_env \<Rightarrow> bool" where
  "disk_ok E \<longleftrightarrow> ce_create_dir_all E = (\<lambda>_. True) \<and> ce_write E = (\<lambda>_. True)"

lemmas cio_unfold = try_then_def try_return_def create_dir_all_def write_body_eq fs_write_ok send_or_log_def
  send_capture_event_def

definition request_file :: "('h, 'u, 'q) capture_env \<Rightarrow> capture_service \<Rightarrow> ('h, 'u) effective_request_capture \<Rightarrow> bytes" where
  "request_file E S c = (case body_plan E S (qc_headers c) (qc_body_bytes c) of (stored, max_len, _) \<Rightarrow> stored_file stored max_len)"

definition response_file :: "('h, 'u, 'q) capture_env \<Rightarrow> capture_service \<Rightarrow> 'h effective_response_capture \<Rightarrow> bytes" where
  "response_file E S c = (case response_body_plan E S c of (stored, max_len, _) \<Rightarrow> stored_file stored max_len)"

lemma commit_request_ok:
  assumes "disk_ok E"
  shows "\<exists>commit. commit_request E S c w = (Inr commit, snd (send_capture_event (RequestEvent (request_metadata_of E S c))
     (w\<lparr>cw_files := hm_insert (request_body_path (ce_http E) c) (request_file E S c)
        (hm_insert (request_head_path c)
          (build_request_head_text (ce_http E) (qc_method c) (qc_uri c) (qc_version c) (qc_headers c) (qc_tls_sni c))
          (cw_files w))\<rparr>)))
     \<and> qk_id commit = qc_id c \<and> qk_flow_key commit = qc_flow_key c"
  using assms
  by (simp add: commit_request_def Let_def cio_unfold disk_ok_def request_file_def split: prod.split)

lemma commit_response_ok:
  assumes "disk_ok E"
  shows "commit_response E S c w = (Inr (response_commit_of (ce_http E) c),
     snd (send_capture_event (ResponseEvent (response_metadata_of E S c))
     (w\<lparr>cw_files := hm_insert (response_body_path (ce_http E) c) (response_file E S c)
        (hm_insert (response_head_path c) (build_response_head_text (ce_http E) (sc_version c) (sc_status c) (sc_headers c))
        (hm_insert (path_join (sc_flow_dir c) ''ssl_tls.json'')
          (ssl_tls_text (ce_json E) c) (cw_files w)))\<rparr>)))"
  using assms
  by (simp add: commit_response_def Let_def cio_unfold disk_ok_def response_file_def split: prod.split)

section \<open>What a commit sends\<close>

text \<open>A commit that fails sends nothing, one that succeeds sends its metadata.\<close>

lemma commit_request_events:
  assumes "commit_request E S c w = (r, w')"
  shows "cw_receiver_open w' = cw_receiver_open w"
    and "r = Inl err \<Longrightarrow> cw_events w' = cw_events w"
    and "r = Inr k \<Longrightarrow> cw_receiver_open w \<Longrightarrow> cw_events w' = cw_events w @ [RequestEvent (request_metadata_of E S c)]"
  using assms
  by (auto simp: commit_request_def Let_def try_then_def try_return_def create_dir_all_def write_body_eq fs_write_def
      send_or_log_def send_capture_event_def split: prod.splits if_splits)

lemma commit_response_events:
  assumes "commit_response E S c w = (r, w')"
  shows "cw_receiver_open w' = cw_receiver_open w"
    and "r = Inl err \<Longrightarrow> cw_events w' = cw_events w"
    and "r = Inr k \<Longrightarrow> cw_receiver_open w \<Longrightarrow>
      cw_events w' = cw_events w @ [ResponseEvent (response_metadata_of E S c)] \<and> k = response_commit_of (ce_http E) c"
  using assms
  by (auto simp: commit_response_def Let_def try_then_def try_return_def create_dir_all_def write_body_eq fs_write_def
      send_or_log_def send_capture_event_def split: prod.splits if_splits)

lemma commit_response_commit:
  assumes "commit_response E S c w = (Inr k, w')"
  shows "k = response_commit_of (ce_http E) c"
  using assms
  by (auto simp: commit_response_def Let_def try_then_def try_return_def split: prod.splits sum.splits)

lemma metadata_flow_keys [simp]:
  "qm_flow_key (request_metadata_of E S q) = qc_flow_key q"
  "sm_flow_key (response_metadata_of E S s) = sc_flow_key s"
  by (simp_all add: request_metadata_of_def response_metadata_of_def Let_def split: prod.split)

section \<open>Properties\<close>

text \<open>C35: Committing a request and then the response of the same flow on a working disk puts exactly the
  five files of the flow on it, each with its content and under five different names, so that none
  overwrites another, changes no other file, and sends the two metadata records in this order.\<close>

theorem commits_store_flow:
  assumes "disk_ok E" and "cw_receiver_open w" and "sc_flow_dir s = qc_flow_dir q"
    and "commit_request E S q w = (rq, w1)" and "commit_response E S s w1 = (rs, w2)"
  shows "(\<exists>qk. rq = Inr qk) \<and> rs = Inr (response_commit_of (ce_http E) s)
    \<and> cw_events w2 = cw_events w @ [RequestEvent (request_metadata_of E S q), ResponseEvent (response_metadata_of E S s)]
    \<and> hm_get (cw_files w2) (request_head_path q) = Some (build_request_head_text (ce_http E) (qc_method q) (qc_uri q)
         (qc_version q) (qc_headers q) (qc_tls_sni q))
    \<and> hm_get (cw_files w2) (request_body_path (ce_http E) q) = Some (request_file E S q)
    \<and> hm_get (cw_files w2) (path_join (qc_flow_dir q) ''ssl_tls.json'') = Some (ssl_tls_text (ce_json E) s)
    \<and> hm_get (cw_files w2) (response_head_path s) =
        Some (build_response_head_text (ce_http E) (sc_version s) (sc_status s) (sc_headers s))
    \<and> hm_get (cw_files w2) (response_body_path (ce_http E) s) = Some (response_file E S s)
    \<and> distinct [request_head_path q, request_body_path (ce_http E) q, path_join (qc_flow_dir q) ''ssl_tls.json'',
          response_head_path s, response_body_path (ce_http E) s]
    \<and> (\<forall>p. p \<notin> {request_head_path q, request_body_path (ce_http E) q, path_join (qc_flow_dir q) ''ssl_tls.json'',
          response_head_path s, response_body_path (ce_http E) s} \<longrightarrow> hm_get (cw_files w2) p = hm_get (cw_files w) p)"
proof -
  let ?ev = "\<lambda>ev. cw_events w @ [ev]"
  obtain qk where rq: "rq = Inr qk" and w1: "w1 = w\<lparr>cw_files := hm_insert (request_body_path (ce_http E) q) (request_file E S q)
        (hm_insert (request_head_path q)
          (build_request_head_text (ce_http E) (qc_method q) (qc_uri q) (qc_version q) (qc_headers q) (qc_tls_sni q))
          (cw_files w)), cw_events := ?ev (RequestEvent (request_metadata_of E S q))\<rparr>"
    using commit_request_ok [OF assms(1), of S q w] assms(2,4) by (auto simp: send_capture_event_def)
  have open1: "cw_receiver_open w1" by (simp add: w1 assms(2))
  note names = flow_file_names_distinct [of "qc_flow_dir q" "ce_http E" "qc_headers q" "sc_headers s"]
  show ?thesis
    using assms(5) commit_response_ok [OF assms(1), of S s w1] open1 names assms(3)
    by (auto simp: rq w1 send_capture_event_def update_conv' request_head_path_def request_body_path_def
        response_head_path_def response_body_path_def capture_body_file_name_eq)
qed

definition gzip_only :: body_decoders where
  "gzip_only = no_decoders\<lparr>dec_gzip := (\<lambda>b. if b = ''zipped'' then Some ''plain'' else None)\<rparr>"

definition sample_capture_env ::
  "((string \<times> bytes) list, string \<times> string option, string \<times> string option) capture_env" where
  "sample_capture_env = \<lparr>ce_http = list_http, ce_decoders = gzip_only,
     ce_json = sample_json,
     ce_create_dir_all = (\<lambda>_. True), ce_write = (\<lambda>_. True)\<rparr>"

definition sample_request_capture :: "((string \<times> bytes) list, string \<times> string option) effective_request_capture" where
  "sample_request_capture = \<lparr>qc_id = ''u'', qc_seq = 1, qc_flow_key = ''000001-u'',
     qc_time = \<lparr>dt_rfc3339 = ''t'', dt_epoch_ms = 0\<rparr>, qc_flow_dir = ''flows/000001-u'', qc_method = ''GET'',
     qc_uri = (''/'', None), qc_version = HTTP_11, qc_headers = [(''host'', ''h'')], qc_body_bytes = '''',
     qc_protocol = ''https'', qc_host = ''h'', qc_tls_sni = None\<rparr>"

definition sample_response_capture :: "(string \<times> bytes) list effective_response_capture" where
  "sample_response_capture = \<lparr>sc_id = ''u'', sc_seq = 1, sc_flow_key = ''000001-u'', sc_flow_dir = ''flows/000001-u'',
     sc_status = 200, sc_version = HTTP_11, sc_headers = [(''content-encoding'', ''gzip'')], sc_body_bytes = ''zipped'',
     sc_body_size_override = None, sc_body_truncated_override = None, sc_elapsed_ms = 3, sc_origin = Upstream,
     sc_upstream_status = Some 200, sc_upstream_remote_addr = None, sc_tls_sni = None, sc_tls_upstream = None,
     sc_upstream_error_message = None\<rparr>"

definition empty_world :: "capture_world" where
  "empty_world = \<lparr>cw_files = [], cw_events = [], cw_receiver_open = True\<rparr>"

definition sample_service :: "nat option \<Rightarrow> capture_service" where
  "sample_service limit = new_capture_service ''flows'' limit [''Video/'']"

theorem commits_store_flow_witness:
  "let files = cw_files (snd (commit_response sample_capture_env (sample_service None) sample_response_capture
       (snd (commit_request sample_capture_env (sample_service None) sample_request_capture empty_world))))
   in hm_get files ''flows/000001-u/response.body.gz'' = Some ''zipped''
    \<and> hm_get files ''flows/000001-u/ssl_tls.json'' \<noteq> None"
proof -
  let ?q = "commit_request sample_capture_env (sample_service None) sample_request_capture empty_world"
  let ?s = "commit_response sample_capture_env (sample_service None) sample_response_capture (snd ?q)"
  have "disk_ok sample_capture_env" by (simp add: disk_ok_def sample_capture_env_def)
  moreover have "cw_receiver_open empty_world" by (simp add: empty_world_def)
  moreover have "sc_flow_dir sample_response_capture = qc_flow_dir sample_request_capture"
    by (simp add: sample_response_capture_def sample_request_capture_def)
  moreover obtain rq w1 rs w2 where q: "?q = (rq, w1)" and s: "commit_response sample_capture_env (sample_service None) sample_response_capture w1 = (rs, w2)"
    by (metis surj_pair)
  ultimately have "hm_get (cw_files (snd ?s)) (response_body_path (ce_http sample_capture_env) sample_response_capture)
      = Some (response_file sample_capture_env (sample_service None) sample_response_capture)
    \<and> hm_get (cw_files (snd ?s)) (path_join (qc_flow_dir sample_request_capture) ''ssl_tls.json'')
      = Some (ssl_tls_text (ce_json sample_capture_env) sample_response_capture)"
    using commits_store_flow [OF _ _ _ q s] by (simp add: q s)
  moreover have "path_join (qc_flow_dir sample_request_capture) ''ssl_tls.json'' = ''flows/000001-u/ssl_tls.json''"
    by code_simp
  moreover have "response_body_path (ce_http sample_capture_env) sample_response_capture = ''flows/000001-u/response.body.gz''"
    by code_simp
  moreover have "response_file sample_capture_env (sample_service None) sample_response_capture = ''zipped''"
    by code_simp
  ultimately show ?thesis by (simp add: Let_def)
qed

text \<open>C36: What the metadata says of a stored body is what the file holds. Unless an omit rule matches, the
  saved size counts the bytes at the front of the file that come from the body to store, it is within
  the limit, the file is longer only by the notice, the body counts as truncated exactly if
  something was cut, and without a limit the file is the body as it was on the wire. A body whose
  content type matches an omit rule never reaches the disk.\<close>

theorem stored_body_metadata_true:
  assumes "body_plan E S headers body = (stored, max_len, info, save_limit)"
    and "file = stored_file stored max_len" and "limit = csv_body_save_limit_bytes S"
  shows "(body_omit_reason_by_content_type (ce_http E) headers (csv_body_omit_content_types S) = None \<longrightarrow>
      take (bsi_saved_size info) file = take (bsi_saved_size info) stored \<and> bsi_saved_size info \<le> length stored
      \<and> (bsi_truncated info \<longleftrightarrow> bsi_saved_size info < length stored)
      \<and> (\<not> bsi_truncated info \<longrightarrow> file = stored)
      \<and> (limit = None \<longrightarrow> file = body)
      \<and> (\<forall>m. limit = Some m \<longrightarrow> bsi_saved_size info \<le> m
           \<and> length file \<le> m + length (truncated_notice m (length stored))))
    \<and> (\<forall>reason. body_omit_reason_by_content_type (ce_http E) headers (csv_body_omit_content_types S) = Some reason \<longrightarrow>
         file = omitted_body reason \<and> bsi_truncated info \<and> bsi_saved_size info = length file \<and> save_limit = Some 0)"
  using assms
  by (auto simp: body_plan_def Let_def stored_file_def limited_body_def body_storage_info_of_def split: option.splits)

theorem stored_body_metadata_true_witness:
  "length (response_file sample_capture_env (sample_service (Some 3)) sample_response_capture)
     \<le> 3 + length (truncated_notice 3 5)"
proof -
  have "body_plan sample_capture_env (sample_service (Some 3)) [(''content-encoding'', ''gzip'')] ''zipped''
      = (''plain'', Some 3, \<lparr>bsi_saved_size = 3, bsi_truncated = True\<rparr>, Some (as_i64 3))"
    by (code_simp)
  moreover have "body_omit_reason_by_content_type (ce_http sample_capture_env) [(''content-encoding'', ''gzip'')]
      (csv_body_omit_content_types (sample_service (Some 3))) = None" by code_simp
  moreover have "csv_body_save_limit_bytes (sample_service (Some 3)) = Some 3" by code_simp
  moreover have "response_body_plan sample_capture_env (sample_service (Some 3)) sample_response_capture =
      body_plan sample_capture_env (sample_service (Some 3)) [(''content-encoding'', ''gzip'')] ''zipped''"
    by (simp add: response_body_plan_def sample_response_capture_def)
  ultimately show ?thesis
    using stored_body_metadata_true [of sample_capture_env "sample_service (Some 3)" "[(''content-encoding'', ''gzip'')]" "''zipped''"
        "''plain''" "Some 3" "\<lparr>bsi_saved_size = 3, bsi_truncated = True\<rparr>" "Some (as_i64 3)" _ "Some 3"]
    by (simp add: response_file_def eval_nat_numeral)
qed

text \<open>With a save limit the file of a compressed response does not hold what its name says: the name
  ends in the suffix of the encoding, the content is the decoded body.\<close>

theorem limited_body_misnamed:
  assumes "http_laws (ce_http E)" and "hl_get (ce_http E) (sc_headers c) ''content-encoding'' = Some value_bytes"
    and "hl_value_to_str (ce_http E) value_bytes = Some ''gzip''"
    and "dec_gzip (ce_decoders E) (sc_body_bytes c) = Some plain"
    and "csv_body_save_limit_bytes S = Some m" and "length plain \<le> m"
    and "sc_upstream_error_message c = None"
    and "body_omit_reason_by_content_type (ce_http E) (sc_headers c) (csv_body_omit_content_types S) = None"
  shows "response_body_path (ce_http E) c = path_join (sc_flow_dir c) ''response.body.gz''
    \<and> response_file E S c = plain"
proof
  have "content_encoding_suffixes (ce_http E) (sc_headers c) = [''gz'']"
    unfolding content_encoding_suffixes_def assms(2) by (simp add: assms(3)) code_simp
  then show "response_body_path (ce_http E) c = path_join (sc_flow_dir c) ''response.body.gz''"
    by (simp add: response_body_path_def capture_body_file_name_eq body_file_name_def)
  have "first_encoding ''gzip'' = ''gzip''" by code_simp
  then have "decoded_body_or_raw (ce_http E) (ce_decoders E) (sc_headers c) (sc_body_bytes c) = plain"
    using assms(2-4) by (simp add: decoded_body_or_raw_def decode_content_encoded_body_def decode_by_content_encoding_header_def)
  then show "response_file E S c = plain"
    using assms(5-8) by (simp add: response_file_def response_body_plan_def body_plan_def Let_def stored_file_def limited_body_def)
qed

theorem limited_body_misnamed_witness:
  "response_body_path list_http sample_response_capture = ''flows/000001-u/response.body.gz''
   \<and> response_file sample_capture_env (sample_service (Some 10)) sample_response_capture = ''plain''"
proof -
  let ?E = sample_capture_env
  have h: "ce_http ?E = list_http" by (simp add: sample_capture_env_def)
  have "http_laws (ce_http ?E)" by (simp add: h list_http_laws)
  moreover have "hl_get (ce_http ?E) (sc_headers sample_response_capture) ''content-encoding'' = Some ''gzip''" by code_simp
  moreover have "hl_value_to_str (ce_http ?E) ''gzip'' = Some ''gzip''" by code_simp
  moreover have "dec_gzip (ce_decoders ?E) (sc_body_bytes sample_response_capture) = Some ''plain''" by code_simp
  moreover have "csv_body_save_limit_bytes (sample_service (Some 10)) = Some 10" by code_simp
  moreover have "length ''plain'' \<le> 10" by simp
  moreover have "sc_upstream_error_message sample_response_capture = None" by code_simp
  moreover have "body_omit_reason_by_content_type (ce_http ?E) (sc_headers sample_response_capture)
      (csv_body_omit_content_types (sample_service (Some 10))) = None" by code_simp
  ultimately have "response_body_path (ce_http ?E) sample_response_capture
      = path_join (sc_flow_dir sample_response_capture) ''response.body.gz''
    \<and> response_file ?E (sample_service (Some 10)) sample_response_capture = ''plain''"
    by (rule limited_body_misnamed)
  moreover have "path_join (sc_flow_dir sample_response_capture) ''response.body.gz'' = ''flows/000001-u/response.body.gz''"
    by code_simp
  ultimately show ?thesis by (simp add: h)
qed

end
