(* ===== verification/Channels.thy ===== *)
theory Channels
  imports Prelude "HOL-Library.Sublist"
begin

text \<open>
  The bounded channels of \<open>tokio::sync::mpsc\<close>, a library of the sources: its operations are
  the fields of a record, what its documentation says of them are the laws \<open>mpsc_laws\<close>. A
  component that puts its elements into such a channel and drops what does not fit keeps the
  contract \<open>lossy_queue\<close>.
\<close>

section \<open>The channel\<close>

text \<open>A value of type \<open>'q\<close> is the state of one channel, shared by its senders and its receiver.
  \<open>mc_held\<close> are the messages sent and not yet received, \<open>mc_open\<close> says that the receiver is neither
  dropped nor closed. \<open>mc_channel\<close> has no result for the buffer size zero, at which the library
  panics; \<open>mc_recv\<close> has none where the receiver would wait.\<close>

record ('a, 'q) mpsc =
  mc_channel :: "nat \<Rightarrow> 'q option"
  mc_try_send :: "'a \<Rightarrow> 'q \<Rightarrow> bool \<times> 'q"
  mc_recv :: "'q \<Rightarrow> ('a \<times> 'q) option"
  mc_held :: "'q \<Rightarrow> 'a list"
  mc_capacity :: "'q \<Rightarrow> nat"
  mc_open :: "'q \<Rightarrow> bool"

definition mc_room :: "('a, 'q) mpsc \<Rightarrow> 'q \<Rightarrow> nat \<Rightarrow> bool" where
  "mc_room M c n \<longleftrightarrow> mc_open M c \<and> length (mc_held M c) + n \<le> mc_capacity M c"

text \<open>A new channel is open and empty; \<open>try_send\<close> hands the message over if the channel is open and
  below its capacity and fails at once otherwise; \<open>recv\<close> takes the messages in the order in which
  they were sent.\<close>

definition mpsc_laws :: "('a, 'q) mpsc \<Rightarrow> bool" where
  "mpsc_laws M \<longleftrightarrow>
     (\<forall>n c. mc_channel M n = Some c \<longrightarrow> mc_held M c = [] \<and> mc_capacity M c = n \<and> mc_open M c)
   \<and> (\<forall>n. mc_channel M n = None \<longleftrightarrow> n = 0)
   \<and> (\<forall>x c. mc_room M c 1 \<longrightarrow> fst (mc_try_send M x c) \<and> mc_held M (snd (mc_try_send M x c)) = mc_held M c @ [x])
   \<and> (\<forall>x c. \<not> mc_room M c 1 \<longrightarrow> \<not> fst (mc_try_send M x c) \<and> mc_held M (snd (mc_try_send M x c)) = mc_held M c)
   \<and> (\<forall>x c. mc_capacity M (snd (mc_try_send M x c)) = mc_capacity M c
           \<and> mc_open M (snd (mc_try_send M x c)) = mc_open M c)
   \<and> (\<forall>c. mc_recv M c = None \<longleftrightarrow> mc_held M c = [])
   \<and> (\<forall>c x c'. mc_recv M c = Some (x, c') \<longrightarrow> mc_held M c = x # mc_held M c'
           \<and> mc_capacity M c' = mc_capacity M c \<and> mc_open M c' = mc_open M c)"

locale tokio_channel =
  fixes M :: "('a, 'q) mpsc"
  assumes laws: "mpsc_laws M"
begin

lemma new_channel: "mc_channel M n = Some c \<Longrightarrow> mc_held M c = [] \<and> mc_capacity M c = n \<and> mc_open M c"
  using laws by (simp add: mpsc_laws_def)

lemma send_held: "mc_held M (snd (mc_try_send M x c)) = mc_held M c @ (if mc_room M c 1 then [x] else [])"
  using laws by (simp add: mpsc_laws_def)

lemma send_kept [simp]:
  "mc_capacity M (snd (mc_try_send M x c)) = mc_capacity M c"
  "mc_open M (snd (mc_try_send M x c)) = mc_open M c"
  using laws by (simp_all add: mpsc_laws_def)

lemma recv_None: "mc_recv M c = None \<longleftrightarrow> mc_held M c = []"
  using laws by (simp add: mpsc_laws_def)

lemma recv_Some:
  "mc_recv M c = Some (x, c') \<Longrightarrow> mc_held M c = x # mc_held M c' \<and> mc_capacity M c' = mc_capacity M c"
  using laws unfolding mpsc_laws_def by blast

lemma room_send: "mc_room M c (Suc n) \<Longrightarrow> mc_room M (snd (mc_try_send M x c)) n"
  by (simp add: mc_room_def send_held)

text \<open>While there is room nothing is lost.\<close>

lemma sends_held:
  "mc_room M c (length xs) \<Longrightarrow> mc_held M (foldl (\<lambda>c x. snd (mc_try_send M x c)) c xs) = mc_held M c @ xs"
proof (induction xs arbitrary: c)
  case (Cons x xs)
  then have "mc_room M c 1" by (simp add: mc_room_def)
  with Cons show ?case by (simp add: room_send send_held)
qed simp

end

text \<open>A channel for the examples: a list with a bound.\<close>

record 'a list_channel =
  lc_capacity :: nat
  lc_queue :: "'a list"

definition list_mpsc :: "('a, 'a list_channel) mpsc" where
  "list_mpsc = \<lparr>
     mc_channel = (\<lambda>n. if n = 0 then None else Some \<lparr>lc_capacity = n, lc_queue = []\<rparr>),
     mc_try_send = (\<lambda>x c. if length (lc_queue c) < lc_capacity c
        then (True, c\<lparr>lc_queue := lc_queue c @ [x]\<rparr>) else (False, c)),
     mc_recv = (\<lambda>c. case lc_queue c of [] \<Rightarrow> None | x # q \<Rightarrow> Some (x, c\<lparr>lc_queue := q\<rparr>)),
     mc_held = lc_queue, mc_capacity = lc_capacity, mc_open = (\<lambda>c. True)\<rparr>"

lemma list_mpsc_laws: "mpsc_laws list_mpsc"
  by (auto simp: mpsc_laws_def list_mpsc_def mc_room_def split: list.splits if_splits)

interpretation list_chan: tokio_channel list_mpsc
  by unfold_locales (rule list_mpsc_laws)

section \<open>Queues that drop what does not fit\<close>

datatype 'a queue_op = Put 'a | Take

fun puts :: "'a queue_op list \<Rightarrow> 'a list" where
  "puts [] = []"
| "puts (Put x # ops) = x # puts ops"
| "puts (Take # ops) = puts ops"

fun queue_run :: "('a \<Rightarrow> 'q \<Rightarrow> 'q) \<Rightarrow> ('q \<Rightarrow> ('a \<times> 'q) option) \<Rightarrow> 'a queue_op list \<Rightarrow> 'q \<Rightarrow> 'a list \<times> 'q" where
  "queue_run put take_one [] q = ([], q)"
| "queue_run put take_one (Put x # ops) q = queue_run put take_one ops (put x q)"
| "queue_run put take_one (Take # ops) q =
     (case take_one q of
        None \<Rightarrow> queue_run put take_one ops q
      | Some (x, q1) \<Rightarrow> (case queue_run put take_one ops q1 of (xs, q2) \<Rightarrow> (x # xs, q2)))"

locale lossy_queue =
  fixes put :: "'a \<Rightarrow> 'q \<Rightarrow> 'q"
    and take_one :: "'q \<Rightarrow> ('a \<times> 'q) option"
    and elems :: "'q \<Rightarrow> 'a list"
    and bound :: "'q \<Rightarrow> nat"
    and accepts :: "'q \<Rightarrow> 'a \<Rightarrow> bool"
  assumes put_elems: "elems (put x q) = elems q @ (if accepts q x then [x] else [])"
    and accepts_bound: "accepts q x \<Longrightarrow> length (elems q) < bound q"
    and put_bound: "bound (put x q) = bound q"
    and take_None: "take_one q = None \<longleftrightarrow> elems q = []"
    and take_Some: "take_one q = Some (x, q') \<Longrightarrow> elems q = x # elems q' \<and> bound q' = bound q"
begin

lemma run_bound:
  "length (elems q) \<le> bound q \<Longrightarrow> queue_run put take_one ops q = (xs, q') \<Longrightarrow>
   length (elems q') \<le> bound q' \<and> bound q' = bound q"
proof (induction ops arbitrary: q xs)
  case (Cons op ops)
  show ?case
  proof (cases op)
    case (Put x)
    have "length (elems (put x q)) \<le> bound (put x q)"
      using Cons.prems(1) accepts_bound [of q x] by (auto simp: put_elems put_bound Suc_le_eq)
    then show ?thesis using Put Cons.prems(2) Cons.IH [of "put x q" xs] by (simp add: put_bound)
  next
    case Take
    show ?thesis
    proof (cases "take_one q")
      case None
      then show ?thesis using Take Cons.prems Cons.IH [of q xs] by simp
    next
      case (Some p)
      then show ?thesis
        using Take Cons.prems Cons.IH [of "snd p"] take_Some [of q "fst p" "snd p"]
        by (auto split: prod.splits)
    qed
  qed
qed simp

text \<open>Nothing is invented, duplicated or reordered: what was received, followed by what is still queued,
  is what was queued at the start and then put, with some of it left out.\<close>

lemma run_subseq:
  "queue_run put take_one ops q = (xs, q') \<Longrightarrow> subseq (xs @ elems q') (elems q @ puts ops)"
proof (induction ops arbitrary: q xs)
  case (Cons op ops)
  show ?case
  proof (cases op)
    case (Put x)
    then have "subseq (xs @ elems q') (elems (put x q) @ puts ops)"
      using Cons by simp
    also have "subseq (elems (put x q) @ puts ops) (elems q @ puts (op # ops))"
      using Put by (auto simp: put_elems intro: list_emb_append_mono)
    finally show ?thesis .
  next
    case Take
    show ?thesis
    proof (cases "take_one q")
      case None
      then show ?thesis using Take Cons.prems Cons.IH [of q xs] by simp
    next
      case (Some p)
      then show ?thesis
        using Take Cons.prems Cons.IH [of "snd p"] take_Some [of q "fst p" "snd p"]
        by (auto split: prod.splits)
    qed
  qed
qed simp

text \<open>When no more is wanted than fits, exactly what is wanted arrives.\<close>

lemma run_complete:
  assumes accepted: "\<And>q x. ok q \<Longrightarrow> wanted x \<Longrightarrow> length (elems q) < bound q \<Longrightarrow> accepts q x"
    and refused: "\<And>q x. ok q \<Longrightarrow> accepts q x \<Longrightarrow> wanted x"
    and put_ok: "\<And>q x. ok q \<Longrightarrow> ok (put x q)"
    and take_ok: "\<And>q x q'. ok q \<Longrightarrow> take_one q = Some (x, q') \<Longrightarrow> ok q'"
  shows "ok q \<Longrightarrow> length (elems q) + length (filter wanted (puts ops)) \<le> bound q \<Longrightarrow>
    queue_run put take_one ops q = (xs, q') \<Longrightarrow> xs @ elems q' = elems q @ filter wanted (puts ops)"
proof (induction ops arbitrary: q xs)
  case (Cons op ops)
  show ?case
  proof (cases op)
    case (Put x)
    have "elems (put x q) = elems q @ (if wanted x then [x] else [])"
      using accepted [of q x] refused [of q x] Cons.prems(1,2) Put by (auto simp: put_elems)
    then show ?thesis
      using Put Cons.prems Cons.IH [of "put x q" xs] put_ok [of q x]
      by (cases "wanted x") (simp_all add: put_bound)
  next
    case Take
    show ?thesis
    proof (cases "take_one q")
      case None
      then show ?thesis using Take Cons.prems Cons.IH [of q xs] by simp
    next
      case (Some p)
      then show ?thesis
        using Take Cons.prems Cons.IH [of "snd p"] take_Some [of q "fst p" "snd p"]
          take_ok [of q "fst p" "snd p"]
        by (auto split: prod.splits)
    qed
  qed
qed simp

end

end
