(* ===== verification/FlowEvents.thy ===== *)
theory FlowEvents
  imports CaptureService Channels
begin

text \<open>
  The events the proxy publishes for its observers: \<open>src/src/mitm/flow/flow_event.rs\<close> and the bridge
  from commits to events in \<open>src/src/mitm/flow/event_bridge.rs\<close>. The publisher is a bounded channel;
  an event that does not fit is dropped. The dispatcher hands every event to every sink.
\<close>

record tunnel_failed =
  tfd_id :: string
  tfd_seq :: nat
  tfd_flow_key :: string
  tfd_time :: string
  tfd_epoch_ms :: int
  tfd_host :: string
  tfd_port :: nat
  tfd_stage :: string
  tfd_error :: string
  tfd_marks :: "flow_mark list"

record request_committed =
  rqc_id :: string
  rqc_seq :: nat
  rqc_flow_key :: string
  rqc_time :: string
  rqc_epoch_ms :: int
  rqc_method :: string
  rqc_protocol :: string
  rqc_host :: string
  rqc_uri :: string
  rqc_query_str :: string
  rqc_version :: string
  rqc_marks :: "flow_mark list"

record response_committed =
  rsc_id :: string
  rsc_flow_key :: string
  rsc_status :: nat
  rsc_elapsed_ms :: int
  rsc_version :: string
  rsc_marks :: "flow_mark list"

datatype flow_event =
    RequestCommitted request_committed
  | ResponseCommitted response_committed
  | TunnelFailed tunnel_failed

text \<open>The type \<open>'e\<close> is that of the channel of events, whose library is a parameter.\<close>

definition publish :: "(flow_event, 'e) mpsc \<Rightarrow> flow_event \<Rightarrow> 'e \<Rightarrow> 'e" where
  "publish M event tx = snd (mc_try_send M event tx)"

text \<open>A sink is a function on its own state. The dispatcher takes the events in order and gives each
  to all sinks in order.\<close>

definition publish_to_sinks :: "('s \<Rightarrow> flow_event \<Rightarrow> 's) list \<Rightarrow> 's list \<Rightarrow> flow_event \<Rightarrow> 's list" where
  "publish_to_sinks sinks states event = map2 (\<lambda>sink s. sink s event) sinks states"

definition dispatcher_run :: "('s \<Rightarrow> flow_event \<Rightarrow> 's) list \<Rightarrow> flow_event list \<Rightarrow> 's list \<Rightarrow> 's list" where
  "dispatcher_run sinks received states = foldl (publish_to_sinks sinks) states received"

definition request_committed_event :: "request_commit \<Rightarrow> flow_mark list \<Rightarrow> flow_event" where
  "request_committed_event commit marks = RequestCommitted
     \<lparr>rqc_id = qk_id commit, rqc_seq = qk_seq commit, rqc_flow_key = qk_flow_key commit, rqc_time = qk_time commit,
      rqc_epoch_ms = qk_epoch_ms commit, rqc_method = qk_method commit, rqc_protocol = qk_protocol commit,
      rqc_host = qk_host commit, rqc_uri = qk_uri commit, rqc_query_str = qk_query_str commit,
      rqc_version = qk_version commit, rqc_marks = marks\<rparr>"

definition publish_request_committed ::
  "(flow_event, 'e) mpsc \<Rightarrow> request_commit \<Rightarrow> flow_mark list \<Rightarrow> 'e \<Rightarrow> 'e" where
  "publish_request_committed M commit marks = publish M (request_committed_event commit marks)"

definition response_committed_event :: "response_commit \<Rightarrow> flow_mark list \<Rightarrow> flow_event" where
  "response_committed_event commit marks = ResponseCommitted
     \<lparr>rsc_id = sk_id commit, rsc_flow_key = sk_flow_key commit, rsc_status = sk_display_status commit,
      rsc_elapsed_ms = sk_elapsed_ms commit, rsc_version = sk_version commit, rsc_marks = marks\<rparr>"

definition publish_response_committed ::
  "(flow_event, 'e) mpsc \<Rightarrow> response_commit \<Rightarrow> flow_mark list \<Rightarrow> 'e \<Rightarrow> 'e" where
  "publish_response_committed M commit marks = publish M (response_committed_event commit marks)"

lemma dispatcher_run_each:
  assumes "length states = length sinks" and "i < length sinks"
  shows "dispatcher_run sinks received states ! i = foldl (sinks ! i) (states ! i) received
    \<and> length (dispatcher_run sinks received states) = length sinks"
  using assms
proof (induction received arbitrary: states)
  case (Cons e received)
  then show ?case by (simp add: dispatcher_run_def publish_to_sinks_def)
qed (simp add: dispatcher_run_def)

section \<open>The sink of the terminal interface\<close>

text \<open>The packet events of \<open>src/src/mitm/proxy.rs\<close> and the sink that sends them
  (\<open>src/src/mitm/flow/tui_sink.rs\<close>); here too what does not fit is dropped.\<close>

record packet_started =
  pks_id :: string
  pks_seq :: nat
  pks_flow_key :: string
  pks_time :: string
  pks_epoch_ms :: int
  pks_method :: string
  pks_protocol :: string
  pks_host :: string
  pks_uri :: string
  pks_query_str :: string
  pks_version :: string

record packet_completed =
  pkc_id :: string
  pkc_status :: nat
  pkc_elapsed_ms :: int
  pkc_version :: string

record packet_marked =
  pkm_id :: string
  pkm_flow_key :: string
  pkm_label :: string
  pkm_color :: "string option"

datatype packet_event =
    Started packet_started
  | Completed packet_completed
  | Marked packet_marked
  | PacketTunnelFailed tunnel_failed

definition mark_packet :: "string \<Rightarrow> string \<Rightarrow> flow_mark \<Rightarrow> packet_event" where
  "mark_packet event_id flow_key mark = Marked \<lparr>pkm_id = event_id, pkm_flow_key = flow_key,
     pkm_label = fmk_label mark, pkm_color = fmk_color mark\<rparr>"

definition send_packet :: "(packet_event, 't) mpsc \<Rightarrow> 't \<Rightarrow> packet_event \<Rightarrow> 't" where
  "send_packet T tx packet = snd (mc_try_send T packet tx)"

text \<open>The marks of a response carry the flow key of the event. The packet of a failed tunnel has the
  fields of its event, so the model shares the record.\<close>

definition tui_sink_publish :: "(packet_event, 't) mpsc \<Rightarrow> 't \<Rightarrow> flow_event \<Rightarrow> 't" where
  "tui_sink_publish T tx event = (case event of
     TunnelFailed e \<Rightarrow> send_packet T tx (PacketTunnelFailed e)
   | RequestCommitted e \<Rightarrow>
       foldl (send_packet T)
         (send_packet T tx (Started \<lparr>pks_id = rqc_id e, pks_seq = rqc_seq e, pks_flow_key = rqc_flow_key e,
            pks_time = rqc_time e, pks_epoch_ms = rqc_epoch_ms e, pks_method = rqc_method e,
            pks_protocol = rqc_protocol e, pks_host = rqc_host e, pks_uri = rqc_uri e,
            pks_query_str = rqc_query_str e, pks_version = rqc_version e\<rparr>))
         (map (mark_packet (rqc_id e) (rqc_flow_key e)) (rqc_marks e))
   | ResponseCommitted e \<Rightarrow>
       foldl (send_packet T)
         (send_packet T tx (Completed \<lparr>pkc_id = rsc_id e, pkc_status = rsc_status e,
            pkc_elapsed_ms = rsc_elapsed_ms e, pkc_version = rsc_version e\<rparr>))
         (map (mark_packet (rsc_id e) (rsc_flow_key e)) (rsc_marks e)))"

section \<open>What observers are told\<close>

text \<open>An event announces a record of the database: it carries the record's fields. The status it shows
  is the upstream one where there is one.\<close>

fun announces :: "flow_event \<Rightarrow> capture_event \<Rightarrow> bool" where
  "announces (RequestCommitted e) (RequestEvent q) \<longleftrightarrow>
     rqc_id e = qm_id q \<and> as_i64 (rqc_seq e) = qm_seq q \<and> rqc_flow_key e = qm_flow_key q
   \<and> rqc_time e = qm_time q \<and> rqc_epoch_ms e = qm_epoch_ms q \<and> rqc_method e = qm_method q
   \<and> rqc_protocol e = qm_protocol q \<and> rqc_host e = qm_host q \<and> rqc_uri e = qm_uri q
   \<and> rqc_query_str e = qm_query_str q \<and> rqc_version e = qm_version q"
| "announces (ResponseCommitted e) (ResponseEvent s) \<longleftrightarrow>
     rsc_id e = sm_id s \<and> rsc_flow_key e = sm_flow_key s
   \<and> rsc_status e = (case sm_upstream_status s of Some u \<Rightarrow> u | None \<Rightarrow> sm_status s)
   \<and> rsc_elapsed_ms e = sm_elapsed s \<and> rsc_version e = sm_version s"
| "announces _ _ \<longleftrightarrow> False"

lemma request_announced:
  assumes "commit_request E S q w = (Inr k, w')"
  shows "announces (request_committed_event k marks) (RequestEvent (request_metadata_of E S q))"
  using assms
  by (auto simp: commit_request_def Let_def try_then_def try_return_def request_committed_event_def
      request_metadata_of_def split: prod.splits sum.splits)

lemma response_announced:
  "announces (response_committed_event (response_commit_of (ce_http E) s) marks)
     (ResponseEvent (response_metadata_of E S s))"
proof -
  obtain stored max_len info save_limit where "response_body_plan E S s = (stored, max_len, info, save_limit)"
    by (metis prod_cases4)
  then show ?thesis
    by (simp add: response_committed_event_def response_commit_of_def response_metadata_of_def Let_def
        split: option.split)
qed

locale event_channel = tokio_channel M for M :: "(flow_event, 'e) mpsc"
begin

lemma publish_room:
  assumes "mc_room M tx (Suc n)"
  shows "mc_held M (publish M e tx) = mc_held M tx @ [e] \<and> mc_room M (publish M e tx) n"
proof -
  from assms have "mc_room M tx 1" by (simp add: mc_room_def)
  then show ?thesis using room_send [OF assms] by (simp add: publish_def send_held)
qed

end

text \<open>While the interface keeps up, it is sent one packet for the event and one for each of its marks.\<close>

definition event_packets :: "flow_event \<Rightarrow> packet_event list" where
  "event_packets event = (case event of
     TunnelFailed e \<Rightarrow> [PacketTunnelFailed e]
   | RequestCommitted e \<Rightarrow>
       Started \<lparr>pks_id = rqc_id e, pks_seq = rqc_seq e, pks_flow_key = rqc_flow_key e, pks_time = rqc_time e,
         pks_epoch_ms = rqc_epoch_ms e, pks_method = rqc_method e, pks_protocol = rqc_protocol e, pks_host = rqc_host e,
         pks_uri = rqc_uri e, pks_query_str = rqc_query_str e, pks_version = rqc_version e\<rparr>
       # map (mark_packet (rqc_id e) (rqc_flow_key e)) (rqc_marks e)
   | ResponseCommitted e \<Rightarrow>
       Completed \<lparr>pkc_id = rsc_id e, pkc_status = rsc_status e, pkc_elapsed_ms = rsc_elapsed_ms e,
         pkc_version = rsc_version e\<rparr>
       # map (mark_packet (rsc_id e) (rsc_flow_key e)) (rsc_marks e))"

lemma tui_sink_sends:
  assumes "mpsc_laws T" and "mc_room T tx (length (event_packets event))"
  shows "mc_held T (tui_sink_publish T tx event) = mc_held T tx @ event_packets event"
proof -
  have "tui_sink_publish T tx event = foldl (\<lambda>c x. snd (mc_try_send T x c)) tx (event_packets event)"
    by (auto simp: tui_sink_publish_def event_packets_def send_packet_def [abs_def] split: flow_event.split)
  then show ?thesis using tokio_channel.sends_held [OF _ assms(2)] assms(1) by (simp add: tokio_channel_def)
qed

interpretation list_events: event_channel list_mpsc
  by unfold_locales (rule list_mpsc_laws)

end
