(* ===== verification/HttpTypes.thy ===== *)
theory HttpTypes
  imports FlowEvents
begin

text \<open>
  The data that travels through the dispatch of one flow (\<open>src/src/mitm/flow/http_types.rs\<close>). An
  \<open>Instant\<close> is a reading of the clock in milliseconds; a \<open>Uuid\<close> is known by its two texts.
\<close>

record uuid =
  uu_text :: string
  uu_simple :: string

record 'u request_dispatch_context =
  rdc_id :: uuid
  rdc_seq :: nat
  rdc_flow_key :: string
  rdc_flow_dir :: string
  rdc_time :: date_time
  rdc_started_at :: nat
  rdc_tls_sni :: "string option"
  rdc_protocol :: string
  rdc_host :: string
  rdc_uri :: 'u
  rdc_method :: string

record response_dispatch_input =
  rdi_id :: uuid
  rdi_seq :: nat
  rdi_flow_key :: string
  rdi_flow_dir :: string
  rdi_started_at :: nat
  rdi_tls_sni :: "string option"
  rdi_req_host :: string
  rdi_req_path :: string
  rdi_req_method :: string
  rdi_filter_request :: filter_request
  rdi_origin :: response_origin
  rdi_upstream_status :: "nat option"
  rdi_upstream_remote_addr :: "string option"
  rdi_tls_upstream :: "json option"
  rdi_upstream_error_message :: "string option"

record request_dispatch_output =
  rdo_filter_request :: filter_request
  rdo_marks :: "flow_mark list"
  rdo_synthetic_response :: "filter_synthetic_response option"
  rdo_drop_client_response :: bool

record response_filter_dispatch_output =
  rfo_marks :: "flow_mark list"
  rfo_outbound_http :: "outbound_http_job list"
  rfo_drop_client_response :: bool

definition context_path :: "('h, 'u, 'q) http_lib \<Rightarrow> 'u request_dispatch_context \<Rightarrow> string" where
  "context_path H ctx = hl_uri_path H (rdc_uri ctx)"

definition context_request_view ::
  "('h, 'u, 'q) http_lib \<Rightarrow> 'u request_dispatch_context \<Rightarrow> string \<Rightarrow> filter_request_view" where
  "context_request_view H ctx method = \<lparr>vw_host = rdc_host ctx, vw_path = context_path H ctx, vw_method = method\<rparr>"

definition into_response_input ::
  "('h, 'u, 'q) http_lib \<Rightarrow> 'u request_dispatch_context \<Rightarrow> filter_request \<Rightarrow> response_origin \<Rightarrow> nat option
   \<Rightarrow> string option \<Rightarrow> json option \<Rightarrow> string option \<Rightarrow> response_dispatch_input" where
  "into_response_input H ctx filter_request origin upstream_status upstream_remote_addr tls_upstream upstream_error_message =
     \<lparr>rdi_id = rdc_id ctx, rdi_seq = rdc_seq ctx, rdi_flow_key = rdc_flow_key ctx, rdi_flow_dir = rdc_flow_dir ctx,
      rdi_started_at = rdc_started_at ctx, rdi_tls_sni = rdc_tls_sni ctx, rdi_req_host = rdc_host ctx,
      rdi_req_path = context_path H ctx, rdi_req_method = rdc_method ctx, rdi_filter_request = filter_request,
      rdi_origin = origin, rdi_upstream_status = upstream_status, rdi_upstream_remote_addr = upstream_remote_addr,
      rdi_tls_upstream = tls_upstream, rdi_upstream_error_message = upstream_error_message\<rparr>"

definition input_request_view :: "response_dispatch_input \<Rightarrow> filter_request_view" where
  "input_request_view input =
     \<lparr>vw_host = rdi_req_host input, vw_path = rdi_req_path input, vw_method = rdi_req_method input\<rparr>"

end
