(* ===== verification/OutboundHttp.thy ===== *)
theory OutboundHttp
  imports HttpTypes Channels
begin

text \<open>
  Jobs that filters send to other services: the payloads taken from a captured flow
  (\<open>resolve_outbound_http_job\<close> and the raw messages of \<open>src/src/mitm/flow/dispatcher.rs\<close>, the JSON
  documents of \<open>src/src/filters/engine/json/capture.rs\<close>), and the pool of named clients with its
  queue and its worker (\<open>src/src/filters/http_client.rs\<close>). The worker's HTTP client is not part of
  the sources: the model ends with the requests it is given.
\<close>

section \<open>Payloads: raw messages\<close>

abbreviation CRLF :: string where "CRLF \<equiv> [CHR 0x0D, CHR 0x0A]"

definition request_target :: "filter_request \<Rightarrow> string" where
  "request_target req = (if fr_query req = [] then fr_path req else fr_path req @ ''?'' @ fr_query req)"

definition append_filter_headers :: "bytes \<Rightarrow> filter_header list \<Rightarrow> bytes" where
  "append_filter_headers out headers =
     out @ concat (map (\<lambda>h. fh_name h @ '': '' @ fh_value h @ CRLF) headers)"

definition raw_filter_request_bytes :: "filter_request \<Rightarrow> bytes" where
  "raw_filter_request_bytes req =
     append_filter_headers
       (fr_method req @ '' '' @ request_target req @ '' '' @ fr_version req @ CRLF
        @ (case fr_tls_sni req of Some sni \<Rightarrow> ''X-Inspect-TLS-SNI: '' @ sni @ CRLF | None \<Rightarrow> []))
       (fr_headers req)
     @ CRLF @ fb_bytes (fr_body req)"

definition raw_response_bytes :: "('h, 'u, 'q) http_lib \<Rightarrow> 'h response_parts \<Rightarrow> bytes \<Rightarrow> bytes" where
  "raw_response_bytes H parts body =
     build_response_head_text H (sp_version parts) (sp_status parts) (sp_headers parts) @ body"

section \<open>Payloads: JSON documents\<close>

definition json_filter_headers :: "filter_header list \<Rightarrow> json" where
  "json_filter_headers headers =
     JArray (map (\<lambda>h. JObject [(''name'', JString (fh_name h)), (''value'', JString (fh_value h))]) headers)"

definition json_header_map :: "('h, 'u, 'q) http_lib \<Rightarrow> 'h \<Rightarrow> json" where
  "json_header_map H headers =
     JArray (map (\<lambda>(name, val). JObject [(''name'', JString name),
       (''value'', JString (case hl_value_to_str H val of Some s \<Rightarrow> s | None \<Rightarrow> hl_base64 H val))]) (hl_iter H headers))"

definition json_body :: "('h, 'u, 'q) http_lib \<Rightarrow> string option \<Rightarrow> string option \<Rightarrow> bool \<Rightarrow> bytes \<Rightarrow> json" where
  "json_body H content_type encoding truncated bytes =
     (let (text, base64) = (case from_utf8 bytes of
            Some t \<Rightarrow> (JString t, JNull) | None \<Rightarrow> (JNull, JString (hl_base64 H bytes)))
      in JObject [(''content_type'', json_opt_string content_type), (''encoding'', json_opt_string encoding),
           (''truncated'', JBool truncated), (''text'', text), (''base64'', base64)])"

definition json_vec :: "json_lib \<Rightarrow> json \<Rightarrow> bytes" where
  "json_vec J v = (case js_to_vec J v of Some bytes \<Rightarrow> bytes | None \<Rightarrow> ''{}'')"

definition json_filter_request_bytes :: "('h, 'u, 'q) http_lib \<Rightarrow> json_lib \<Rightarrow> filter_request \<Rightarrow> bytes" where
  "json_filter_request_bytes H J req = json_vec J (JObject
     [(''id'', JString (fr_id req)), (''seq'', json_int (int (fr_seq req))), (''flow_key'', JString (fr_flow_key req)),
      (''method'', JString (fr_method req)), (''scheme'', JString (fr_scheme req)), (''host'', JString (fr_host req)),
      (''path'', JString (fr_path req)), (''query'', JString (fr_query req)), (''version'', JString (fr_version req)),
      (''tls_sni'', json_opt_string (fr_tls_sni req)), (''headers'', json_filter_headers (fr_headers req)),
      (''body'', json_body H (fb_content_type (fr_body req)) (fb_encoding (fr_body req)) (fb_truncated (fr_body req))
         (fb_bytes (fr_body req)))])"

definition json_filter_response_bytes ::
  "('h, 'u, 'q) http_lib \<Rightarrow> json_lib \<Rightarrow> 'h response_parts \<Rightarrow> bytes \<Rightarrow> nat option \<Rightarrow> int \<Rightarrow> bytes" where
  "json_filter_response_bytes H J parts body upstream_status elapsed_ms = json_vec J (JObject
     [(''status'', json_int (int (sp_status parts))), (''version'', JString (version_to_string (sp_version parts))),
      (''upstream_status'', json_opt_number upstream_status), (''elapsed_ms'', json_int elapsed_ms),
      (''headers'', json_header_map H (sp_headers parts)),
      (''body'', json_body H (normalized_content_type H (sp_headers parts))
         (header_str H (sp_headers parts) ''content-encoding'') False body)])"

definition json_reparsed :: "json_lib \<Rightarrow> bytes \<Rightarrow> json" where
  "json_reparsed J bytes = (case js_from_slice J bytes of Some v \<Rightarrow> v | None \<Rightarrow> JObject [])"

definition json_filter_flow_bytes ::
  "('h, 'u, 'q) http_lib \<Rightarrow> json_lib \<Rightarrow> response_dispatch_input \<Rightarrow> 'h response_parts \<Rightarrow> bytes \<Rightarrow> int \<Rightarrow> bytes" where
  "json_filter_flow_bytes H J input parts body elapsed_ms = json_vec J (JObject
     [(''id'', JString (uu_text (rdi_id input))), (''seq'', json_int (int (rdi_seq input))),
      (''flow_key'', JString (rdi_flow_key input)),
      (''request'', json_reparsed J (json_filter_request_bytes H J (rdi_filter_request input))),
      (''response'', json_reparsed J
         (json_filter_response_bytes H J parts body (rdi_upstream_status input) elapsed_ms))])"

section \<open>Resolving a job\<close>

text \<open>The two elapsed times are readings of the clock, taken only for the documents that carry them;
  the function takes the reading as an argument.\<close>

definition resolve_body_source ::
  "('h, 'u, 'q) http_lib \<Rightarrow> json_lib \<Rightarrow> response_dispatch_input \<Rightarrow> 'h response_parts \<Rightarrow> bytes \<Rightarrow> int
   \<Rightarrow> outbound_http_body_source \<Rightarrow> outbound_http_body_source" where
  "resolve_body_source H J input parts body elapsed_ms src =
     (case src of
        JobBytes bytes \<Rightarrow> JobBytes bytes
      | CapturedRequest \<Rightarrow> JobBytes (raw_filter_request_bytes (rdi_filter_request input))
      | CapturedResponse \<Rightarrow> JobBytes (raw_response_bytes H parts body)
      | CapturedRequestJson \<Rightarrow> JobBytes (json_filter_request_bytes H J (rdi_filter_request input))
      | CapturedResponseJson \<Rightarrow> JobBytes (json_filter_response_bytes H J parts body (rdi_upstream_status input) elapsed_ms)
      | CapturedFlowJson \<Rightarrow> JobBytes (json_filter_flow_bytes H J input parts body elapsed_ms))"

definition resolve_outbound_http_job ::
  "('h, 'u, 'q) http_lib \<Rightarrow> json_lib \<Rightarrow> response_dispatch_input \<Rightarrow> 'h response_parts \<Rightarrow> bytes \<Rightarrow> int
   \<Rightarrow> outbound_http_job \<Rightarrow> outbound_http_job" where
  "resolve_outbound_http_job H J input parts body elapsed_ms job =
     job\<lparr>job_body := resolve_body_source H J input parts body elapsed_ms (job_body job)\<rparr>"

section \<open>The pool of clients\<close>

record outbound_http_pool_config =
  opc_base_url :: string
  opc_timeout_ms :: nat

record named_http_client_config =
  ncc_name :: string
  ncc_base_url :: string
  ncc_timeout_ms :: nat

definition default_outbound_http_timeout_ms :: nat where
  "default_outbound_http_timeout_ms = 5000"

definition pool_config_of :: "named_http_client_config \<Rightarrow> outbound_http_pool_config" where
  "pool_config_of config = \<lparr>opc_base_url = ncc_base_url config, opc_timeout_ms = ncc_timeout_ms config\<rparr>"

text \<open>The type \<open>'j\<close> is that of the channel of jobs, whose library is a parameter.\<close>

record 'j outbound_http_pool =
  ohp_tx :: 'j
  ohp_configs :: "(string, outbound_http_pool_config) hash_map"

definition new_pool ::
  "(outbound_http_job, 'j) mpsc \<Rightarrow> (string, outbound_http_pool_config) hash_map \<Rightarrow> nat
   \<Rightarrow> 'j outbound_http_pool option" where
  "new_pool M configs queue_size =
     map_option (\<lambda>tx. \<lparr>ohp_tx = tx, ohp_configs = configs\<rparr>) (mc_channel M queue_size)"

definition try_enqueue ::
  "(outbound_http_job, 'j) mpsc \<Rightarrow> outbound_http_job \<Rightarrow> 'j outbound_http_pool \<Rightarrow> 'j outbound_http_pool" where
  "try_enqueue M job pool =
     (if hm_get (ohp_configs pool) (job_client job) = None then pool
      else pool\<lparr>ohp_tx := snd (mc_try_send M job (ohp_tx pool))\<rparr>)"

definition pool_recv ::
  "(outbound_http_job, 'j) mpsc \<Rightarrow> 'j outbound_http_pool
   \<Rightarrow> (outbound_http_job \<times> 'j outbound_http_pool) option" where
  "pool_recv M pool = map_option (\<lambda>(job, tx). (job, pool\<lparr>ohp_tx := tx\<rparr>)) (mc_recv M (ohp_tx pool))"

section \<open>The worker\<close>

definition trim_end_slashes :: "string \<Rightarrow> string" where
  "trim_end_slashes s = rev (dropWhile (\<lambda>c. c = CHR ''/'') (rev s))"

definition trim_start_slashes :: "string \<Rightarrow> string" where
  "trim_start_slashes s = dropWhile (\<lambda>c. c = CHR ''/'') s"

definition outbound_url :: "string \<Rightarrow> string \<Rightarrow> string" where
  "outbound_url base_url path =
     (if starts_with path ''http://'' \<or> starts_with path ''https://'' then path
      else trim_end_slashes base_url @ ''/'' @ trim_start_slashes path)"

definition builder_header :: "('h, 'u, 'q) http_lib \<Rightarrow> 'h option \<Rightarrow> filter_header \<Rightarrow> 'h option" where
  "builder_header H acc header =
     (case acc of
        None \<Rightarrow> None
      | Some headers \<Rightarrow>
          (case (hl_name_from_bytes H (fh_name header), hl_value_from_str H (fh_value header)) of
             (Some n, Some v) \<Rightarrow> Some (hl_append H n v headers)
           | _ \<Rightarrow> None))"

definition builder_headers :: "('h, 'u, 'q) http_lib \<Rightarrow> filter_header list \<Rightarrow> 'h option" where
  "builder_headers H headers = foldl (builder_header H) (Some (hl_empty H)) headers"

record ('h, 'u) outbound_request =
  oreq_method :: string
  oreq_uri :: 'u
  oreq_headers :: 'h
  oreq_body :: bytes

definition build_outbound_request ::
  "('h, 'u, 'q) http_lib \<Rightarrow> outbound_http_pool_config \<Rightarrow> outbound_http_job \<Rightarrow> ('h, 'u) outbound_request option" where
  "build_outbound_request H config job =
     (case job_body job of
        JobBytes body \<Rightarrow>
          (case (hl_parse_method H (job_method job), hl_parse_uri H (outbound_url (opc_base_url config) (job_path job)),
                 builder_headers H (job_headers job)) of
             (Some m, Some u, Some hs) \<Rightarrow> Some \<lparr>oreq_method = m, oreq_uri = u, oreq_headers = hs, oreq_body = body\<rparr>
           | _ \<Rightarrow> None)
      | _ \<Rightarrow> None)"

definition worker_step ::
  "('h, 'u, 'q) http_lib \<Rightarrow> (string, outbound_http_pool_config) hash_map \<Rightarrow> outbound_http_job
   \<Rightarrow> (nat \<times> ('h, 'u) outbound_request) option" where
  "worker_step H configs job =
     (case hm_get configs (job_client job) of
        None \<Rightarrow> None
      | Some config \<Rightarrow> map_option (Pair (opc_timeout_ms config)) (build_outbound_request H config job))"

definition run_outbound_http_worker ::
  "('h, 'u, 'q) http_lib \<Rightarrow> (string, outbound_http_pool_config) hash_map \<Rightarrow> outbound_http_job list
   \<Rightarrow> (nat \<times> ('h, 'u) outbound_request) list" where
  "run_outbound_http_worker H configs jobs = List.map_filter (worker_step H configs) jobs"

section \<open>The contract of the pool\<close>

abbreviation pool_held :: "(outbound_http_job, 'j) mpsc \<Rightarrow> 'j outbound_http_pool \<Rightarrow> outbound_http_job list" where
  "pool_held M pool \<equiv> mc_held M (ohp_tx pool)"

definition pool_accepts ::
  "(outbound_http_job, 'j) mpsc \<Rightarrow> 'j outbound_http_pool \<Rightarrow> outbound_http_job \<Rightarrow> bool" where
  "pool_accepts M pool job \<longleftrightarrow>
     hm_get (ohp_configs pool) (job_client job) \<noteq> None \<and> mc_room M (ohp_tx pool) 1"

locale job_channel = tokio_channel M for M :: "(outbound_http_job, 'j) mpsc"

sublocale job_channel \<subseteq> pool: lossy_queue "try_enqueue M" "pool_recv M" "pool_held M"
  "\<lambda>p. mc_capacity M (ohp_tx p)" "pool_accepts M"
proof unfold_locales
  fix q q' :: "'j outbound_http_pool" and x :: outbound_http_job
  show "pool_held M (try_enqueue M x q) = pool_held M q @ (if pool_accepts M q x then [x] else [])"
    by (simp add: try_enqueue_def pool_accepts_def send_held)
  show "pool_accepts M q x \<Longrightarrow> length (pool_held M q) < mc_capacity M (ohp_tx q)"
    by (simp add: pool_accepts_def mc_room_def)
  show "mc_capacity M (ohp_tx (try_enqueue M x q)) = mc_capacity M (ohp_tx q)"
    by (simp add: try_enqueue_def)
  show "pool_recv M q = None \<longleftrightarrow> pool_held M q = []"
    by (simp add: pool_recv_def recv_None)
  show "pool_recv M q = Some (x, q') \<Longrightarrow>
      pool_held M q = x # pool_held M q' \<and> mc_capacity M (ohp_tx q') = mc_capacity M (ohp_tx q)"
    by (auto simp: pool_recv_def dest: recv_Some)
qed

interpretation list_jobs: job_channel list_mpsc
  by unfold_locales (rule list_mpsc_laws)

text \<open>A pool of given clients whose channel is open.\<close>

definition pool_of ::
  "(outbound_http_job, 'j) mpsc \<Rightarrow> (string, outbound_http_pool_config) hash_map \<Rightarrow> 'j outbound_http_pool \<Rightarrow> bool" where
  "pool_of M configs pool \<longleftrightarrow> ohp_configs pool = configs \<and> mc_open M (ohp_tx pool)"

definition known_job :: "(string, outbound_http_pool_config) hash_map \<Rightarrow> outbound_http_job \<Rightarrow> bool" where
  "known_job configs job \<longleftrightarrow> hm_get configs (job_client job) \<noteq> None"

context job_channel
begin

lemma enqueue_pool_of: "pool_of M configs p \<Longrightarrow> pool_of M configs (try_enqueue M j p)"
  by (simp add: pool_of_def try_enqueue_def)

lemma recv_pool_of: "pool_of M configs p \<Longrightarrow> pool_recv M p = Some (j, p') \<Longrightarrow> pool_of M configs p'"
  using laws by (auto simp: pool_of_def pool_recv_def mpsc_laws_def)

lemma accepts_known:
  "pool_of M configs p \<Longrightarrow> pool_accepts M p j \<longleftrightarrow>
     known_job configs j \<and> length (pool_held M p) < mc_capacity M (ohp_tx p)"
  by (auto simp: pool_of_def pool_accepts_def mc_room_def known_job_def)

lemma run_known:
  "queue_run (try_enqueue M) (pool_recv M) ops p = (js, p') \<Longrightarrow> pool_of M configs p \<Longrightarrow>
   list_all (known_job configs) (pool_held M p) \<Longrightarrow> list_all (known_job configs) (js @ pool_held M p')"
proof (induction ops arbitrary: p js)
  case (Cons op ops)
  show ?case
  proof (cases op)
    case (Put x)
    have "list_all (known_job configs) (pool_held M (try_enqueue M x p))"
      using Cons.prems(2,3) by (simp add: pool.put_elems accepts_known)
    then show ?thesis using Put Cons.prems Cons.IH [of "try_enqueue M x p"] enqueue_pool_of by simp
  next
    case Take
    show ?thesis
    proof (cases "pool_recv M p")
      case None
      then show ?thesis using Take Cons.prems Cons.IH [of p] by simp
    next
      case (Some r)
      then show ?thesis
        using Take Cons.prems Cons.IH [of "snd r"] pool.take_Some [of p "fst r" "snd r"]
          recv_pool_of [of configs p "fst r" "snd r"]
        by (auto split: prod.splits)
    qed
  qed
qed simp

lemma run_all_known:
  assumes "pool_of M configs p" and "length (pool_held M p) + length (filter (known_job configs) (puts ops)) \<le> mc_capacity M (ohp_tx p)"
    and "queue_run (try_enqueue M) (pool_recv M) ops p = (js, p')"
  shows "js @ pool_held M p' = pool_held M p @ filter (known_job configs) (puts ops)"
  by (rule pool.run_complete [where ok = "pool_of M configs", OF _ _ _ _ assms])
    (auto simp: accepts_known enqueue_pool_of intro: recv_pool_of)

lemma run_bounded:
  assumes "queue_run (try_enqueue M) (pool_recv M) ops p = (js, p')"
    and "length (pool_held M p) \<le> mc_capacity M (ohp_tx p)"
  shows "length (pool_held M p') \<le> mc_capacity M (ohp_tx p)"
    and "subseq (js @ pool_held M p') (pool_held M p @ puts ops)"
  using pool.run_bound [OF assms(2,1)] pool.run_subseq [OF assms(1)] by simp_all

end

text \<open>C40: The queue of outbound jobs is bounded and keeps its order, and the worker is only ever given jobs of
  configured clients: whatever filters enqueue and however the worker takes turns with them, the
  jobs received are a subsequence of those enqueued and each names a client of the configuration.
  As long as the jobs of configured clients fit into the queue, all of them and no others arrive.\<close>

theorem outbound_jobs_bounded_and_known:
  assumes "mpsc_laws M" and "new_pool M configs queue_size = Some pool0"
    and "queue_run (try_enqueue M) (pool_recv M) ops pool0 = (jobs, pool)"
  shows "length (pool_held M pool) \<le> queue_size
    \<and> subseq (jobs @ pool_held M pool) (puts ops)
    \<and> (\<forall>job \<in> set jobs. \<exists>config. hm_get configs (job_client job) = Some config)
    \<and> (let known = filter (\<lambda>job. hm_get configs (job_client job) \<noteq> None) (puts ops) in
         length known \<le> queue_size \<longrightarrow> jobs @ pool_held M pool = known)"
proof -
  have jc: "job_channel M" and tc: "tokio_channel M"
    using assms(1) by (simp_all add: job_channel_def tokio_channel_def)
  obtain tx where tx: "mc_channel M queue_size = Some tx" and p0: "pool0 = \<lparr>ohp_tx = tx, ohp_configs = configs\<rparr>"
    using assms(2) by (auto simp: new_pool_def)
  have new: "pool_held M pool0 = []" "mc_capacity M (ohp_tx pool0) = queue_size" "pool_of M configs pool0"
    using tokio_channel.new_channel [OF tc tx] by (simp_all add: p0 pool_of_def)
  have known: "(\<lambda>job. hm_get configs (job_client job) \<noteq> None) = known_job configs"
    by (simp add: fun_eq_iff known_job_def)
  have "\<forall>job \<in> set jobs. \<exists>config. hm_get configs (job_client job) = Some config"
    using job_channel.run_known [OF jc assms(3) new(3)] new(1) by (auto simp: known_job_def list_all_iff)
  then show ?thesis
    using job_channel.run_all_known [OF jc new(3) _ assms(3)] job_channel.run_bounded [OF jc assms(3)] new(1,2)
    unfolding known Let_def by simp
qed

definition sample_job :: "string \<Rightarrow> string \<Rightarrow> outbound_http_job" where
  "sample_job client path = \<lparr>job_client = client, job_method = ''POST'', job_path = path, job_headers = [],
     job_body = JobBytes ''x''\<rparr>"

definition sample_configs :: "(string, outbound_http_pool_config) hash_map" where
  "sample_configs = [(''hook'', \<lparr>opc_base_url = ''http://localhost:9/'', opc_timeout_ms = 5000\<rparr>)]"

theorem outbound_jobs_bounded_and_known_witness:
  "\<exists>pool0. new_pool list_mpsc sample_configs 4 = Some pool0
   \<and> fst (queue_run (try_enqueue list_mpsc) (pool_recv list_mpsc)
        [Put (sample_job ''hook'' ''/a''), Put (sample_job ''other'' ''/b''), Take] pool0) = [sample_job ''hook'' ''/a'']
   \<and> (\<exists>config. hm_get sample_configs ''hook'' = Some config)"
proof -
  let ?ops = "[Put (sample_job ''hook'' ''/a''), Put (sample_job ''other'' ''/b''), Take]"
  obtain pool0 p where new: "new_pool list_mpsc sample_configs 4 = Some pool0"
    and run: "queue_run (try_enqueue list_mpsc) (pool_recv list_mpsc) ?ops pool0 = ([sample_job ''hook'' ''/a''], p)"
    by (simp add: new_pool_def list_mpsc_def try_enqueue_def pool_recv_def sample_job_def sample_configs_def)
  then show ?thesis
    using outbound_jobs_bounded_and_known [OF list_mpsc_laws new run] by (simp add: sample_job_def)
qed

text \<open>A job is not confined to the base URL of its client: if its path is an absolute URL, that is where
  the request goes, whatever the configuration says.\<close>

theorem absolute_path_leaves_client:
  assumes "hm_get configs (job_client job) = Some config" and "job_body job = JobBytes body"
    and "starts_with (job_path job) ''http://'' \<or> starts_with (job_path job) ''https://''"
    and "hl_parse_uri H (job_path job) = Some u" and "hl_parse_method H (job_method job) = Some m"
    and "builder_headers H (job_headers job) = Some hs"
  shows "run_outbound_http_worker H configs [job] =
    [(opc_timeout_ms config, \<lparr>oreq_method = m, oreq_uri = u, oreq_headers = hs, oreq_body = body\<rparr>)]"
  using assms
  by (auto simp: run_outbound_http_worker_def worker_step_def build_outbound_request_def outbound_url_def List.map_filter_def)

theorem absolute_path_leaves_client_witness:
  "map (oreq_uri \<circ> snd) (run_outbound_http_worker list_http sample_configs [sample_job ''hook'' ''http://elsewhere.example/''])
   = [(''http://elsewhere.example/'', None)]"
proof -
  let ?j = "sample_job ''hook'' ''http://elsewhere.example/''"
  have "run_outbound_http_worker list_http sample_configs [?j] =
    [(opc_timeout_ms \<lparr>opc_base_url = ''http://localhost:9/'', opc_timeout_ms = 5000\<rparr>,
      \<lparr>oreq_method = ''POST'', oreq_uri = (''http://elsewhere.example/'', None), oreq_headers = [], oreq_body = ''x''\<rparr>)]"
    by (rule absolute_path_leaves_client)
      (simp_all add: sample_job_def sample_configs_def starts_with_def list_http_def visible_ascii_def builder_headers_def)
  then show ?thesis by simp
qed

end
