(* ===== verification/SseCapture.thy ===== *)
theory SseCapture
  imports Prelude
begin

text \<open>
  Capture of server-sent events (\<open>src/src/mitm/flow/sse_capture.rs\<close>): body frames are pushed as
  they arrive, events are cut at blank lines, the first \<open>max_events\<close> of them are sent to the
  writer task with their sequence number, long ones truncated. The unbounded channel is the list
  of the messages sent so far; the writer task is a function from those messages to the files it
  writes. The refinement theorem states what is captured as a function of the whole stream.
\<close>

section \<open>Data\<close>

datatype sse_capture_message =
    SseEvent nat bytes
  | SsePartial bytes

record sse_capture =
  sse_sent :: "sse_capture_message list"
  sse_buffer :: bytes
  sse_max_events :: nat
  sse_max_event_bytes :: nat
  sse_saved_events :: nat
  sse_discarding :: bool
  sse_finished :: bool

abbreviation LF :: char where "LF \<equiv> CHR 0x0A"
abbreviation CR :: char where "CR \<equiv> CHR 0x0D"

section \<open>Event boundaries\<close>

fun find_sse_event_end :: "bytes \<Rightarrow> nat option" where
  "find_sse_event_end [] = None"
| "find_sse_event_end (b # bs) =
     (if starts_with (b # bs) [CR, LF, CR, LF] then Some 4
      else if starts_with (b # bs) [CR, LF, LF] then Some 3
      else if starts_with (b # bs) [LF, LF] \<or> starts_with (b # bs) [CR, CR] then Some 2
      else map_option Suc (find_sse_event_end bs))"

definition truncate_notice :: "nat \<Rightarrow> bytes" where
  "truncate_notice max_event_bytes =
     LF # ''<< inspect SSE event capture truncated: max_event_bytes='' @ show_nat max_event_bytes @ '' >>'' @ [LF]"

definition truncate_event :: "bytes \<Rightarrow> nat \<Rightarrow> bytes" where
  "truncate_event event max_event_bytes = take max_event_bytes event @ truncate_notice max_event_bytes"

lemma find_end_bounds: "find_sse_event_end b = Some e \<Longrightarrow> 2 \<le> e \<and> e \<le> length b"
proof (induction b arbitrary: e)
  case (Cons x xs)
  then show ?case
    by (auto simp: starts_with_iff split: if_splits dest!: Cons.IH)
qed simp

section \<open>Operations\<close>

definition sse_start :: "nat \<Rightarrow> nat \<Rightarrow> sse_capture" where
  "sse_start max_events max_event_bytes = \<lparr>sse_sent = [], sse_buffer = [],
     sse_max_events = max_events, sse_max_event_bytes = max_event_bytes, sse_saved_events = 0,
     sse_discarding = False, sse_finished = False\<rparr>"

definition capture_limit_reached :: "sse_capture \<Rightarrow> bool" where
  "capture_limit_reached c \<longleftrightarrow>
     sse_max_events c = 0 \<or> sse_max_event_bytes c = 0 \<or> sse_saved_events c \<ge> sse_max_events c"

definition send_event :: "bytes \<Rightarrow> sse_capture \<Rightarrow> sse_capture" where
  "send_event event c = c\<lparr>sse_saved_events := sse_saved_events c + 1,
     sse_sent := sse_sent c @ [SseEvent (sse_saved_events c + 1) event]\<rparr>"

definition save_event_with_truncation :: "bytes \<Rightarrow> sse_capture \<Rightarrow> sse_capture" where
  "save_event_with_truncation event c = send_event (truncate_event event (sse_max_event_bytes c)) c"

definition save_event :: "bytes \<Rightarrow> sse_capture \<Rightarrow> sse_capture" where
  "save_event event c =
     (if length event > sse_max_event_bytes c then save_event_with_truncation event c
      else send_event event c)"

definition handle_oversized_incomplete_event :: "sse_capture \<Rightarrow> sse_capture" where
  "handle_oversized_incomplete_event c =
     (if sse_discarding c \<or> sse_max_event_bytes c = 0 then c
      else if length (sse_buffer c) \<le> sse_max_event_bytes c then c
      else
        (let c1 = save_event_with_truncation (take (sse_max_event_bytes c) (sse_buffer c)) c;
             keep_from = length (sse_buffer c1) - 3
         in c1\<lparr>sse_discarding := True, sse_buffer := drop keep_from (sse_buffer c1)\<rparr>))"

function push_loop :: "sse_capture \<Rightarrow> sse_capture" where
  "push_loop c = (case find_sse_event_end (sse_buffer c) of
     None \<Rightarrow> handle_oversized_incomplete_event c
   | Some event_end \<Rightarrow>
       (let event = take event_end (sse_buffer c);
            c1 = c\<lparr>sse_buffer := drop event_end (sse_buffer c)\<rparr>
        in if sse_discarding c1 then push_loop (c1\<lparr>sse_discarding := False\<rparr>)
           else
             (let c2 = save_event event c1 in
              if capture_limit_reached c2 then c2\<lparr>sse_buffer := []\<rparr> else push_loop c2)))"
  by pat_completeness auto
termination
  by (relation "measure (\<lambda>c. length (sse_buffer c))")
    (auto simp: save_event_def save_event_with_truncation_def send_event_def dest!: find_end_bounds)

declare push_loop.simps [simp del]

definition push :: "sse_capture \<Rightarrow> bytes \<Rightarrow> sse_capture" where
  "push c bs =
     (if sse_finished c \<or> capture_limit_reached c then c
      else push_loop (c\<lparr>sse_buffer := sse_buffer c @ bs\<rparr>))"

definition finish :: "sse_capture \<Rightarrow> sse_capture" where
  "finish c =
     (if sse_finished c then c
      else
        (let c1 = c\<lparr>sse_finished := True\<rparr> in
         if sse_buffer c1 = [] \<or> sse_discarding c1 \<or> capture_limit_reached c1 then c1
         else c1\<lparr>sse_buffer := [],
                sse_sent := sse_sent c1 @ [SsePartial (truncate_event (sse_buffer c1) (sse_max_event_bytes c1))]\<rparr>))"

text \<open>The writer task: the marker first, and nothing else when that fails; then a file per message,
  going on after a failed write. The result is the list of the successful writes in order.\<close>

definition sse_marker :: "string \<times> bytes" where
  "sse_marker = (''response.body.sse'', ''<SSE stream; events are stored in response.body.NNN>'' @ [LF])"

fun sse_message_file :: "sse_capture_message \<Rightarrow> string \<times> bytes" where
  "sse_message_file (SseEvent sequence bs) = (''response.body.'' @ pad_zero 3 (show_nat sequence), bs)"
| "sse_message_file (SsePartial bs) = (''response.body.partial'', bs)"

definition sse_writer_task :: "(string \<Rightarrow> bool) \<Rightarrow> sse_capture_message list \<Rightarrow> (string \<times> bytes) list" where
  "sse_writer_task write_ok messages =
     (if \<not> write_ok (fst sse_marker) then []
      else sse_marker # filter (\<lambda>(path, bs). write_ok path) (map sse_message_file messages))"

section \<open>The stream as a whole\<close>

text \<open>The complete events of a byte stream and what is left after the last of them.\<close>

function sse_segments :: "bytes \<Rightarrow> bytes list \<times> bytes" where
  "sse_segments s = (case find_sse_event_end s of
     None \<Rightarrow> ([], s)
   | Some e \<Rightarrow> (let (evs, r) = sse_segments (drop e s) in (take e s # evs, r)))"
  by pat_completeness auto
termination
  by (relation "measure length") (auto dest!: find_end_bounds)

declare sse_segments.simps [simp del]

definition clip_event :: "nat \<Rightarrow> bytes \<Rightarrow> bytes" where
  "clip_event m e = (if length e > m then truncate_event e m else e)"

text \<open>The event bodies a stream gives rise to: the complete events, and the incomplete one once
  it has outgrown the limit.\<close>

definition sse_bodies :: "nat \<Rightarrow> bytes \<Rightarrow> bytes list" where
  "sse_bodies m s = (let (evs, r) = sse_segments s in
     map (clip_event m) evs @ (if length r > m then [clip_event m r] else []))"

fun number_from :: "nat \<Rightarrow> bytes list \<Rightarrow> sse_capture_message list" where
  "number_from n [] = []"
| "number_from n (b # bs) = SseEvent n b # number_from (Suc n) bs"

definition sse_captured :: "nat \<Rightarrow> nat \<Rightarrow> bytes \<Rightarrow> sse_capture_message list" where
  "sse_captured max_events max_event_bytes s =
     (if max_event_bytes = 0 then []
      else
        (let bodies = sse_bodies max_event_bytes s; r = snd (sse_segments s) in
         number_from 1 (take max_events bodies)
         @ (if length bodies < max_events \<and> r \<noteq> [] \<and> length r \<le> max_event_bytes
            then [SsePartial (truncate_event r max_event_bytes)] else [])))"

section \<open>Boundaries do not depend on how the stream is cut into frames\<close>

definition end_at :: "bytes \<Rightarrow> nat option" where
  "end_at s =
     (if starts_with s [CR, LF, CR, LF] then Some 4
      else if starts_with s [CR, LF, LF] then Some 3
      else if starts_with s [LF, LF] \<or> starts_with s [CR, CR] then Some 2
      else None)"

lemma find_end_Cons:
  "find_sse_event_end (b # bs) =
     (case end_at (b # bs) of Some n \<Rightarrow> Some n | None \<Rightarrow> map_option Suc (find_sse_event_end bs))"
  by (simp add: end_at_def del: starts_with_Cons)

lemma end_at_Some_iff:
  "end_at s = Some n \<longleftrightarrow>
     (starts_with s [CR, LF, CR, LF] \<and> n = 4) \<or> (starts_with s [CR, LF, LF] \<and> n = 3)
     \<or> ((starts_with s [LF, LF] \<or> starts_with s [CR, CR]) \<and> n = 2)"
  by (cases s; cases "tl s"; cases "tl (tl s)") (auto simp: end_at_def)

lemma end_at_long: "4 \<le> length s \<Longrightarrow> end_at (s @ t) = end_at s"
  unfolding end_at_def by (simp only: starts_with_append_short list.size)

lemma end_at_append: "end_at s = Some n \<Longrightarrow> end_at (s @ t) = Some n"
  unfolding end_at_Some_iff using starts_with_appendI by blast

lemma end_at_prefix: "end_at (s @ t) = Some n \<Longrightarrow> n \<le> length s \<Longrightarrow> end_at s = Some n"
  unfolding end_at_Some_iff by (auto simp: starts_with_append_short simp del: starts_with_Cons)

lemma find_end_append: "find_sse_event_end a = Some e \<Longrightarrow> find_sse_event_end (a @ b) = Some e"
proof (induction a arbitrary: e)
  case (Cons x xs)
  show ?case
  proof (cases "end_at (x # xs)")
    case None
    with Cons.prems obtain e' where e': "find_sse_event_end xs = Some e'" "e = Suc e'"
      by (auto simp: find_end_Cons simp del: find_sse_event_end.simps)
    have "end_at ((x # xs) @ b) = None"
    proof (cases "4 \<le> length (x # xs)")
      case True
      with None show ?thesis by (simp only: end_at_long)
    next
      case False
      then obtain y z where xs: "xs = [y, z]"
        using find_end_bounds [OF e'(1)] by (cases xs; cases "tl xs"; cases "tl (tl xs)") auto
      with e' have "(y = LF \<and> z = LF) \<or> (y = CR \<and> z = CR)" by (auto split: if_splits)
      with None xs show ?thesis by (auto simp: end_at_def split: if_splits)
    qed
    with Cons.IH [OF e'(1)] e' show ?thesis
      by (simp add: find_end_Cons del: find_sse_event_end.simps)
  next
    case (Some n)
    with Cons.prems end_at_append [OF Some, of b] show ?thesis
      by (simp add: find_end_Cons del: find_sse_event_end.simps)
  qed
qed simp

lemma find_end_suffix:
  assumes "find_sse_event_end (pre @ buf) = None" and "3 \<le> length buf \<or> pre = []"
  shows "find_sse_event_end (pre @ buf @ t) = map_option ((+) (length pre)) (find_sse_event_end (buf @ t))"
  using assms
proof (induction pre)
  case (Cons x pre)
  have prems: "end_at ((x # pre) @ buf) = None" "find_sse_event_end (pre @ buf) = None"
    using Cons.prems(1) by (auto simp: find_end_Cons simp del: find_sse_event_end.simps split: option.splits)
  have "end_at (((x # pre) @ buf) @ t) = None"
    using prems(1) Cons.prems(2) by (subst end_at_long) auto
  then have "find_sse_event_end ((x # pre) @ buf @ t) = map_option Suc (find_sse_event_end (pre @ buf @ t))"
    by (simp add: find_end_Cons del: find_sse_event_end.simps)
  then show ?case
    using Cons.IH prems(2) Cons.prems(2) by (auto simp: option.map_comp comp_def)
next
  case Nil
  then show ?case by (cases "find_sse_event_end (buf @ t)") simp_all
qed

lemma find_end_prefix:
  "find_sse_event_end (r @ t) = Some e \<Longrightarrow> e \<le> length r \<Longrightarrow> find_sse_event_end r = Some e"
proof (induction r arbitrary: e)
  case Nil
  then show ?case using find_end_bounds by fastforce
next
  case (Cons x r)
  show ?case
  proof (cases "end_at ((x # r) @ t)")
    case None
    then have "end_at (x # r) = None" using end_at_append by (cases "end_at (x # r)") fastforce+
    with Cons None show ?thesis
      by (auto simp: find_end_Cons simp del: find_sse_event_end.simps)
  next
    case (Some n)
    with Cons.prems have "n = e" by (simp add: find_end_Cons del: find_sse_event_end.simps)
    with end_at_prefix [OF Some] Cons.prems(2) show ?thesis
      by (simp add: find_end_Cons del: find_sse_event_end.simps)
  qed
qed

lemma segments_rest_None: "find_sse_event_end (snd (sse_segments s)) = None"
proof (induction s rule: sse_segments.induct)
  case (1 s)
  then show ?case by (subst sse_segments.simps) (auto simp: Let_def case_prod_unfold split: option.splits)
qed

lemma segments_append:
  "sse_segments (s @ t) =
     (fst (sse_segments s) @ fst (sse_segments (snd (sse_segments s) @ t)),
      snd (sse_segments (snd (sse_segments s) @ t)))"
proof (induction s rule: sse_segments.induct)
  case (1 s)
  show ?case
  proof (cases "find_sse_event_end s")
    case None
    then show ?thesis by (simp add: sse_segments.simps [of s])
  next
    case (Some e)
    then have "find_sse_event_end (s @ t) = Some e" and "e \<le> length s"
      using find_end_append find_end_bounds by blast+
    with 1 [OF Some] Some show ?thesis
      by (simp add: sse_segments.simps [of s] sse_segments.simps [of "s @ t"] Let_def case_prod_unfold)
  qed
qed

lemma segments_None [simp]: "find_sse_event_end s = None \<Longrightarrow> sse_segments s = ([], s)"
  by (simp add: sse_segments.simps)

lemma segments_Some:
  "find_sse_event_end s = Some e \<Longrightarrow>
   sse_segments s = (take e s # fst (sse_segments (drop e s)), snd (sse_segments (drop e s)))"
  by (simp add: sse_segments.simps [of s] Let_def case_prod_unfold)

section \<open>The bodies of a growing stream\<close>

lemma bodies_None: "find_sse_event_end s = None \<Longrightarrow> sse_bodies m s = (if length s > m then [clip_event m s] else [])"
  by (simp add: sse_bodies_def)

lemma bodies_Some:
  "find_sse_event_end s = Some e \<Longrightarrow> sse_bodies m s = clip_event m (take e s) # sse_bodies m (drop e s)"
  by (simp add: sse_bodies_def segments_Some case_prod_unfold Let_def)

lemma bodies_append:
  "sse_bodies m (s @ t) = map (clip_event m) (fst (sse_segments s)) @ sse_bodies m (snd (sse_segments s) @ t)"
  unfolding sse_bodies_def segments_append [of s t] by (simp add: case_prod_unfold Let_def)

lemma clip_event_extend: "length r > m \<Longrightarrow> clip_event m (r @ t) = clip_event m r"
  by (simp add: clip_event_def truncate_event_def)

text \<open>Once an incomplete event has outgrown the limit, whatever completes it adds nothing to it.\<close>

lemma bodies_oversized:
  assumes "find_sse_event_end r = None" and "length r > m"
  shows "sse_bodies m (r @ t) = (case find_sse_event_end (r @ t) of
      None \<Rightarrow> [clip_event m r]
    | Some e \<Rightarrow> clip_event m r # sse_bodies m (drop e (r @ t)))"
proof (cases "find_sse_event_end (r @ t)")
  case None
  with assms show ?thesis by (simp add: bodies_None clip_event_extend)
next
  case (Some e)
  then have "length r \<le> e" using find_end_prefix [OF Some] assms(1) by fastforce
  then have "take e (r @ t) = r @ take (e - length r) t" by simp
  with Some assms(2) show ?thesis by (simp add: bodies_Some clip_event_extend)
qed

lemma bodies_prefix: "\<exists>y. sse_bodies m (s @ t) = sse_bodies m s @ y"
proof (cases "length (snd (sse_segments s)) > m")
  case True
  then have s: "sse_bodies m s = map (clip_event m) (fst (sse_segments s)) @ [clip_event m (snd (sse_segments s))]"
    by (simp add: sse_bodies_def case_prod_unfold Let_def)
  show ?thesis
    unfolding bodies_append [of m s t] bodies_oversized [OF segments_rest_None True] s
    by (cases "find_sse_event_end (snd (sse_segments s) @ t)") auto
next
  case False
  then show ?thesis
    unfolding bodies_append [of m s t] sse_bodies_def [of m s] by (simp add: case_prod_unfold Let_def)
qed

lemma number_from_append: "number_from n (xs @ ys) = number_from n xs @ number_from (n + length xs) ys"
  by (induction n xs rule: number_from.induct) auto

section \<open>The capture follows the stream\<close>

text \<open>The state of the capture once the bodies \<open>out\<close> have been produced and the bytes \<open>r\<close> follow
  the last complete event.\<close>

definition sse_tracks :: "bytes list \<Rightarrow> bytes \<Rightarrow> sse_capture \<Rightarrow> bool" where
  "sse_tracks out r c \<longleftrightarrow>
     \<not> sse_finished c \<and> 0 < sse_max_events c \<and> 0 < sse_max_event_bytes c
     \<and> sse_sent c = number_from 1 (take (sse_max_events c) out)
     \<and> sse_saved_events c = min (sse_max_events c) (length out)
     \<and> (length out < sse_max_events c \<longrightarrow>
         (if length r > sse_max_event_bytes c
          then sse_discarding c \<and> (\<exists>pre. r = pre @ sse_buffer c \<and> (3 \<le> length (sse_buffer c) \<or> pre = []))
          else \<not> sse_discarding c \<and> sse_buffer c = r))"

lemma tracks_limit: "sse_tracks out r c \<Longrightarrow> capture_limit_reached c \<longleftrightarrow> sse_max_events c \<le> length out"
  by (auto simp: sse_tracks_def capture_limit_reached_def)

lemma save_event_send: "save_event e c = send_event (clip_event (sse_max_event_bytes c) e) c"
  by (simp add: save_event_def clip_event_def save_event_with_truncation_def)

lemma send_event_simps [simp]:
  "sse_max_events (send_event e c) = sse_max_events c"
  "sse_max_event_bytes (send_event e c) = sse_max_event_bytes c"
  "sse_buffer (send_event e c) = sse_buffer c"
  "sse_discarding (send_event e c) = sse_discarding c"
  "sse_finished (send_event e c) = sse_finished c"
  "sse_saved_events (send_event e c) = Suc (sse_saved_events c)"
  "sse_sent (send_event e c) = sse_sent c @ [SseEvent (Suc (sse_saved_events c)) e]"
  by (simp_all add: send_event_def)

text \<open>The configuration and the open state never change.\<close>

lemma push_loop_frame:
  "sse_max_events (push_loop c) = sse_max_events c \<and> sse_max_event_bytes (push_loop c) = sse_max_event_bytes c
   \<and> sse_finished (push_loop c) = sse_finished c"
proof (induction c rule: push_loop.induct)
  case (1 c)
  then show ?case
    by (subst (1 2 3) push_loop.simps)
      (auto simp: Let_def save_event_send handle_oversized_incomplete_event_def
        save_event_with_truncation_def split: option.splits)
qed

lemma push_loop_tracks:
  "\<not> sse_discarding c \<Longrightarrow> \<not> sse_finished c \<Longrightarrow> 0 < sse_max_event_bytes c \<Longrightarrow>
   length out < sse_max_events c \<Longrightarrow> sse_sent c = number_from 1 out \<Longrightarrow> sse_saved_events c = length out \<Longrightarrow>
   sse_tracks (out @ sse_bodies (sse_max_event_bytes c) (sse_buffer c)) (snd (sse_segments (sse_buffer c))) (push_loop c)"
proof (induction c arbitrary: out rule: push_loop.induct)
  case (1 c)
  let ?M = "sse_max_event_bytes c" and ?b = "sse_buffer c"
  show ?case
  proof (cases "find_sse_event_end ?b")
    case None
    have "\<exists>pre. ?b = pre @ drop (length ?b - 3) ?b \<and> (3 \<le> length (drop (length ?b - 3) ?b) \<or> pre = [])"
      by (rule exI [of _ "take (length ?b - 3) ?b"]) auto
    with None 1(3-) show ?thesis
      by (auto simp: push_loop.simps [of c] handle_oversized_incomplete_event_def bodies_None sse_tracks_def
          Let_def save_event_with_truncation_def clip_event_def truncate_event_def number_from_append)
  next
    case (Some e)
    let ?x = "clip_event ?M (take e ?b)"
    let ?c2 = "save_event (take e ?b) (c\<lparr>sse_buffer := drop e ?b\<rparr>)"
    have c2: "sse_sent ?c2 = number_from 1 (out @ [?x])" "sse_saved_events ?c2 = length (out @ [?x])"
      "\<not> sse_discarding ?c2" "\<not> sse_finished ?c2" "sse_max_event_bytes ?c2 = ?M"
      "sse_max_events ?c2 = sse_max_events c" "sse_buffer ?c2 = drop e ?b"
      using 1(3-) by (simp_all add: save_event_send number_from_append)
    show ?thesis
    proof (cases "capture_limit_reached ?c2")
      case True
      then have lim: "sse_max_events c = length (out @ [?x])"
        using c2 1(3-) by (auto simp: capture_limit_reached_def)
      moreover have "push_loop c = ?c2\<lparr>sse_buffer := []\<rparr>"
        using Some True 1(3) by (simp add: push_loop.simps [of c] Let_def)
      ultimately show ?thesis
        using c2 1(3-) by (auto simp: sse_tracks_def bodies_Some [OF Some] number_from_append)
    next
      case False
      then have "push_loop c = push_loop ?c2"
        using Some 1(3) by (simp add: push_loop.simps [of c] Let_def)
      moreover have "length (out @ [?x]) < sse_max_events ?c2"
        using False c2 by (auto simp: capture_limit_reached_def)
      ultimately show ?thesis
        using 1(2) [OF Some refl refl _ refl False, of "out @ [?x]"] 1(3-) c2
        by (simp add: bodies_Some [OF Some] segments_Some [OF Some])
    qed
  qed
qed

lemma push_tracks_discarding:
  assumes "sse_tracks out r c" and "find_sse_event_end r = None" and "length r > sse_max_event_bytes c"
    and "length out < sse_max_events c"
  shows "sse_tracks (out @ (case find_sse_event_end (r @ t) of
      None \<Rightarrow> [] | Some e \<Rightarrow> sse_bodies (sse_max_event_bytes c) (drop e (r @ t))))
    (snd (sse_segments (r @ t))) (push c t)"
proof -
  let ?b = "sse_buffer c @ t"
  from assms obtain pre where d: "sse_discarding c" and pre: "r = pre @ sse_buffer c"
    and long: "3 \<le> length (sse_buffer c) \<or> pre = []"
    by (auto simp: sse_tracks_def)
  have find: "find_sse_event_end (r @ t) = map_option ((+) (length pre)) (find_sse_event_end ?b)"
    using find_end_suffix [of pre "sse_buffer c" t] assms(2) pre long by simp
  have push: "push c t = push_loop (c\<lparr>sse_buffer := ?b\<rparr>)"
    using assms(1,4) tracks_limit [OF assms(1)] by (simp add: push_def sse_tracks_def)
  show ?thesis
  proof (cases "find_sse_event_end ?b")
    case None
    with d have "push c t = c\<lparr>sse_buffer := ?b\<rparr>"
      by (simp add: push push_loop.simps [of "c\<lparr>sse_buffer := ?b\<rparr>"] handle_oversized_incomplete_event_def)
    with None find assms pre long show ?thesis
      by (auto simp: sse_tracks_def)
  next
    case (Some e)
    let ?c = "c\<lparr>sse_buffer := drop e ?b, sse_discarding := False\<rparr>"
    have "push c t = push_loop ?c"
      using Some d by (simp add: push push_loop.simps [of "c\<lparr>sse_buffer := ?b\<rparr>"] Let_def)
    moreover have "sse_tracks (out @ sse_bodies (sse_max_event_bytes ?c) (sse_buffer ?c))
        (snd (sse_segments (sse_buffer ?c))) (push_loop ?c)"
      using assms by (intro push_loop_tracks) (auto simp: sse_tracks_def)
    moreover have "drop (length pre + e) (r @ t) = drop e ?b" by (simp add: pre)
    ultimately show ?thesis
      using find Some by (simp add: segments_Some [of "r @ t"])
  qed
qed

lemma push_tracks:
  assumes "sse_tracks (sse_bodies M s) (snd (sse_segments s)) c" and "sse_max_event_bytes c = M"
  shows "sse_tracks (sse_bodies M (s @ t)) (snd (sse_segments (s @ t))) (push c t)"
proof -
  let ?r = "snd (sse_segments s)"
  note rest = segments_rest_None [of s]
  show ?thesis
  proof (cases "sse_max_events c \<le> length (sse_bodies M s)")
    case True
    then have "push c t = c" using tracks_limit [OF assms(1)] by (simp add: push_def)
    moreover obtain y where "sse_bodies M (s @ t) = sse_bodies M s @ y" using bodies_prefix by blast
    ultimately show ?thesis using assms True by (auto simp: sse_tracks_def)
  next
    case False
    show ?thesis
    proof (cases "length ?r > M")
      case True
      then have "sse_bodies M s = map (clip_event M) (fst (sse_segments s)) @ [clip_event M ?r]"
        by (simp add: sse_bodies_def case_prod_unfold Let_def)
      then have "sse_bodies M (s @ t) = sse_bodies M s @ (case find_sse_event_end (?r @ t) of
          None \<Rightarrow> [] | Some e \<Rightarrow> sse_bodies M (drop e (?r @ t)))"
        unfolding bodies_append [of M s t] bodies_oversized [OF rest True] by (simp split: option.split)
      then show ?thesis
        using push_tracks_discarding [OF assms(1) rest, of t, unfolded assms(2)] False True
        by (simp add: segments_append [of s t])
    next
      case short: False
      then have out: "sse_bodies M s = map (clip_event M) (fst (sse_segments s))"
        by (simp add: sse_bodies_def case_prod_unfold Let_def)
      have st: "\<not> sse_discarding c" "sse_buffer c = ?r" "\<not> sse_finished c" "0 < M"
        "sse_sent c = number_from 1 (sse_bodies M s)" "sse_saved_events c = length (sse_bodies M s)"
        using assms False short by (auto simp: sse_tracks_def)
      have "push c t = push_loop (c\<lparr>sse_buffer := ?r @ t\<rparr>)"
        using st False tracks_limit [OF assms(1)] by (simp add: push_def)
      moreover have "sse_tracks (sse_bodies M s @ sse_bodies M (?r @ t)) (snd (sse_segments (?r @ t)))
          (push_loop (c\<lparr>sse_buffer := ?r @ t\<rparr>))"
        using push_loop_tracks [of "c\<lparr>sse_buffer := ?r @ t\<rparr>" "sse_bodies M s"] st False assms(2) by simp
      ultimately show ?thesis by (simp add: bodies_append [of M s t] segments_append [of s t] out)
    qed
  qed
qed

lemma push_frame: "sse_max_events (push c t) = sse_max_events c \<and> sse_max_event_bytes (push c t) = sse_max_event_bytes c"
  by (simp add: push_def push_loop_frame)

lemma pushes_track:
  assumes "0 < N" and "0 < M"
  shows "sse_tracks (sse_bodies M (concat chunks)) (snd (sse_segments (concat chunks)))
       (foldl push (sse_start N M) chunks)
     \<and> sse_max_events (foldl push (sse_start N M) chunks) = N
     \<and> sse_max_event_bytes (foldl push (sse_start N M) chunks) = M"
proof (induction chunks rule: rev_induct)
  case Nil
  with assms show ?case by (simp add: sse_tracks_def sse_start_def bodies_None)
next
  case (snoc t chunks)
  then show ?case using push_tracks [of M "concat chunks" _ t] by (simp add: push_frame)
qed

lemma pushes_off:
  assumes "N = 0 \<or> M = 0"
  shows "foldl push (sse_start N M) chunks = sse_start N M"
  by (induction chunks rule: rev_induct)
    (use assms in \<open>auto simp: push_def capture_limit_reached_def sse_start_def\<close>)

lemma finish_tracks:
  assumes "sse_tracks (sse_bodies M s) (snd (sse_segments s)) c"
    and "sse_max_event_bytes c = M" and "sse_max_events c = N"
  shows "sse_sent (finish c) = sse_captured N M s"
proof -
  have "capture_limit_reached (c\<lparr>sse_finished := True\<rparr>) \<longleftrightarrow> N \<le> length (sse_bodies M s)"
    using tracks_limit [OF assms(1)] assms by (simp add: capture_limit_reached_def)
  then show ?thesis
    using assms by (cases "length (sse_bodies M s) < N"; cases "length (snd (sse_segments s)) > M")
      (auto simp: finish_def sse_captured_def sse_tracks_def Let_def)
qed

lemma sse_capture_stream:
  "sse_sent (finish (foldl push (sse_start N M) chunks)) = sse_captured N M (concat chunks)"
proof (cases "N = 0 \<or> M = 0")
  case True
  then show ?thesis
    by (simp add: pushes_off)
      (auto simp: finish_def sse_start_def sse_captured_def capture_limit_reached_def Let_def)
next
  case False
  then show ?thesis using pushes_track [of N M chunks] finish_tracks by auto
qed

text \<open>C8: What is captured of an event stream depends on the bytes of the stream only and not on how the
  network cut it into body frames, even when a delimiter or an oversized event spans frames: the
  complete events in order, clipped to the limit and at most \<open>max_events\<close> of them, then the
  partial event left at the end.\<close>

theorem sse_capture_refines_stream:
  "sse_sent (finish (foldl push (sse_start N M) chunks)) = sse_captured N M (concat chunks)"
  by (rule sse_capture_stream)

section \<open>What reaches the disk\<close>

fun sse_body :: "sse_capture_message \<Rightarrow> bytes" where
  "sse_body (SseEvent _ b) = b"
| "sse_body (SsePartial b) = b"

lemma number_from_bodies: "map sse_body (number_from n bs) = bs"
  by (induction n bs rule: number_from.induct) auto

lemma clip_event_length: "length (clip_event m e) \<le> m + length (truncate_notice m)"
  by (auto simp: clip_event_def truncate_event_def)

lemma bodies_clipped: "b \<in> set (sse_bodies m s) \<Longrightarrow> \<exists>e. b = clip_event m e"
  by (auto simp: sse_bodies_def case_prod_unfold Let_def split: if_splits)

lemma captured_form:
  obtains bs where "length bs \<le> N" "\<forall>b \<in> set bs. length b \<le> M + length (truncate_notice M)"
    "sse_captured N M s = number_from 1 bs \<or>
     (\<exists>r. sse_captured N M s = number_from 1 bs @ [SsePartial (truncate_event r M)])"
proof
  let ?bs = "if M = 0 then [] else take N (sse_bodies M s)"
  show "length ?bs \<le> N" by simp
  show "\<forall>b \<in> set ?bs. length b \<le> M + length (truncate_notice M)"
    using bodies_clipped clip_event_length by (metis empty_iff in_set_takeD list.set(1))
  show "sse_captured N M s = number_from 1 ?bs \<or>
      (\<exists>r. sse_captured N M s = number_from 1 ?bs @ [SsePartial (truncate_event r M)])"
    by (auto simp: sse_captured_def Let_def)
qed

lemma distinct_Cons_map_filter: "distinct (x # map f xs) \<Longrightarrow> distinct (x # map f (filter P xs))"
  by (induction xs) auto

lemma number_from_files: "fst ` sse_message_file ` set (number_from n bs) =
  (\<lambda>i. ''response.body.'' @ pad_zero 3 (show_nat i)) ` {n..<n + length bs}"
proof (induction n bs rule: number_from.induct)
  case (2 n b bs)
  have "{n..<n + length (b # bs)} = insert n {Suc n..<Suc n + length bs}" by auto
  with 2 show ?case by simp
qed simp

lemma number_from_distinct: "distinct (map (fst \<circ> sse_message_file) (number_from n bs))"
proof (induction n bs rule: number_from.induct)
  case (2 n b bs)
  moreover have "(fst \<circ> sse_message_file) ` set (number_from (Suc n) bs)
      = (\<lambda>i. ''response.body.'' @ pad_zero 3 (show_nat i)) ` {Suc n..<Suc n + length bs}"
    using number_from_files [of "Suc n" bs] by (simp add: image_comp)
  ultimately show ?case by (auto simp: pad_zero_show_inj)
qed simp

lemma event_file_not_word:
  "\<not> list_all is_ascii_digit w \<Longrightarrow> ''response.body.'' @ w \<noteq> ''response.body.'' @ pad_zero 3 (show_nat i)"
  using pad_zero_digits [OF show_nat_digits, of 3 i] by auto

lemma captured_files:
  assumes "set ms \<subseteq> {SsePartial b}" and "length ms \<le> 1"
  shows "distinct (''response.body.sse'' # map (fst \<circ> sse_message_file) (number_from n bs @ ms))"
proof -
  have words: "\<not> list_all is_ascii_digit ''sse''" "\<not> list_all is_ascii_digit ''partial''"
    by (simp_all add: is_ascii_digit_def)
  have ms: "ms = [] \<or> ms = [SsePartial b]"
    using assms by (cases ms) (auto simp: Suc_le_eq)
  have "(fst \<circ> sse_message_file) ` set (number_from n bs)
      = (\<lambda>i. ''response.body.'' @ pad_zero 3 (show_nat i)) ` {n..<n + length bs}"
    using number_from_files by (simp add: image_comp)
  then show ?thesis
    using ms number_from_distinct [of n bs] event_file_not_word [OF words(1)] event_file_not_word [OF words(2)]
    by (elim disjE) auto
qed

text \<open>Every message of a capture has a file of its own: no two of the files the writer task writes for
  a flow (the marker, the numbered events, the partial event) have the same name, so nothing
  captured is overwritten, also past event 999 where the number outgrows its padding.\<close>

theorem sse_files_distinct:
  "distinct (map fst (sse_writer_task write_ok (sse_sent (finish (foldl push (sse_start N M) chunks)))))"
proof -
  obtain bs ms b where cap: "sse_captured N M (concat chunks) = number_from 1 bs @ ms"
    and ms: "set ms \<subseteq> {SsePartial b}" "length ms \<le> 1"
  proof (rule captured_form [of N M "concat chunks"], elim disjE exE)
    fix bs assume "sse_captured N M (concat chunks) = number_from 1 bs"
    then show thesis using that [of bs "[]"] by simp
  next
    fix bs r assume "sse_captured N M (concat chunks) = number_from 1 bs @ [SsePartial (truncate_event r M)]"
    then show thesis using that [of bs "[SsePartial (truncate_event r M)]"] by simp
  qed
  let ?fs = "map sse_message_file (number_from 1 bs @ ms)"
  have "distinct (''response.body.sse'' # map fst ?fs)" using captured_files [OF ms, of 1 bs] by simp
  then have "distinct (''response.body.sse'' # map fst (filter (\<lambda>(path, bs). write_ok path) ?fs))"
    by (rule distinct_Cons_map_filter)
  moreover have "sse_sent (finish (foldl push (sse_start N M) chunks)) = number_from 1 bs @ ms"
    using sse_capture_stream cap by simp
  ultimately show ?thesis by (simp add: sse_writer_task_def sse_marker_def)
qed

text \<open>C34: A capture never holds more than \<open>max_events\<close> events, numbered from 1 without gaps, and one partial
  event, and no file is longer than \<open>max_event_bytes\<close> plus the truncation notice.\<close>

theorem sse_capture_bounded:
  "let sent = sse_sent (finish (foldl push (sse_start N M) chunks)) in
   (\<exists>bs. length bs \<le> N \<and> (sent = number_from 1 bs \<or> (\<exists>p. sent = number_from 1 bs @ [SsePartial p])))
   \<and> list_all (\<lambda>m. length (sse_body m) \<le> M + length (truncate_notice M)) sent"
proof -
  let ?sent = "sse_captured N M (concat chunks)"
  obtain bs where bs: "length bs \<le> N" "\<forall>b \<in> set bs. length b \<le> M + length (truncate_notice M)"
    and sent: "?sent = number_from 1 bs \<or> (\<exists>r. ?sent = number_from 1 bs @ [SsePartial (truncate_event r M)])"
    by (rule captured_form)
  have all: "list_all (\<lambda>m. length (sse_body m) \<le> M + length (truncate_notice M)) (number_from 1 bs)"
    using bs(2) unfolding list_all_iff by (metis image_eqI list.set_map number_from_bodies)
  have "list_all (\<lambda>m. length (sse_body m) \<le> M + length (truncate_notice M)) ?sent"
    using sent all by (auto simp: truncate_event_def)
  then show ?thesis
    unfolding sse_capture_stream Let_def using sent bs(1) by blast
qed

end
