(* ===== verification/StreamBody.thy ===== *)
theory StreamBody
  imports SseCapture "HOL-Library.Sublist"
begin

text \<open>
  Message bodies and the wrappers the dispatcher puts around them (\<open>src/src/mitm/flow/dispatcher.rs\<close>).
  A body of the \<open>http-body\<close> crate is known by what its polls return: it is the list of those
  returns, after which it is at its end. Of a body that never ends, any number of polls sees only
  a finite part. The contract that a wrapper hands the body through unchanged is the locale
  \<open>body_source\<close>.
\<close>

section \<open>Bodies\<close>

datatype frame = Data bytes | Trailers "(string \<times> bytes) list"

datatype body_item = NotReady | Item frame | Fail string

type_synonym body = "body_item list"

datatype poll = Pending | ReadyEnd | ReadyFrame frame | ReadyError string

fun poll_body :: "body \<Rightarrow> poll \<times> body" where
  "poll_body [] = (ReadyEnd, [])"
| "poll_body (NotReady # b) = (Pending, b)"
| "poll_body (Item f # b) = (ReadyFrame f, b)"
| "poll_body (Fail err # b) = (ReadyError err, b)"

fun frame_data :: "frame \<Rightarrow> bytes option" where
  "frame_data (Data d) = Some d"
| "frame_data (Trailers _) = None"

fun body_data :: "body \<Rightarrow> bytes" where
  "body_data [] = []"
| "body_data (Item (Data d) # b) = d @ body_data b"
| "body_data (_ # b) = body_data b"

definition body_fails :: "body \<Rightarrow> bool" where
  "body_fails b \<longleftrightarrow> (\<exists>err. Fail err \<in> set b)"

lemma body_fails_simps [simp]:
  "\<not> body_fails []" "body_fails (Fail e # b)" "body_fails (NotReady # b) = body_fails b"
  "body_fails (Item f # b) = body_fails b"
  by (auto simp: body_fails_def)

section \<open>Collecting and probing\<close>

fun collect :: "body \<Rightarrow> string + bytes" where
  "collect [] = Inr []"
| "collect (NotReady # b) = collect b"
| "collect (Item (Data d) # b) = (case collect b of Inr rest \<Rightarrow> Inr (d @ rest) | Inl err \<Rightarrow> Inl err)"
| "collect (Item (Trailers _) # b) = collect b"
| "collect (Fail err # b) = Inl err"

definition collect_body :: "body \<Rightarrow> bytes" where
  "collect_body b = (case collect b of Inr bytes \<Rightarrow> bytes | Inl err \<Rightarrow> [])"

datatype probed_response_body = Collected bytes | Streamed bytes body

fun probe_loop :: "nat \<Rightarrow> bytes \<Rightarrow> body \<Rightarrow> probed_response_body" where
  "probe_loop threshold buffered [] = Collected buffered"
| "probe_loop threshold buffered (NotReady # b) = probe_loop threshold buffered b"
| "probe_loop threshold buffered (Item (Data d) # b) =
     (if length (buffered @ d) > threshold then Streamed (buffered @ d) b
      else probe_loop threshold (buffered @ d) b)"
| "probe_loop threshold buffered (Item (Trailers _) # b) = probe_loop threshold buffered b"
| "probe_loop threshold buffered (Fail err # b) = Collected buffered"

definition probe_response_body :: "body \<Rightarrow> nat \<Rightarrow> probed_response_body" where
  "probe_response_body b threshold = probe_loop threshold [] b"

section \<open>The wrappers\<close>

record prefix_then_body =
  ptb_prefix :: "bytes option"
  ptb_rest :: body

definition poll_prefix :: "prefix_then_body \<Rightarrow> poll \<times> prefix_then_body" where
  "poll_prefix p =
     (case ptb_prefix p of
        Some pre \<Rightarrow> (ReadyFrame (Data pre), p\<lparr>ptb_prefix := None\<rparr>)
      | None \<Rightarrow> (case poll_body (ptb_rest p) of (r, rest) \<Rightarrow> (r, p\<lparr>ptb_rest := rest\<rparr>)))"

text \<open>What a size hint of the crate can do; \<open>None\<close> is a panic.\<close>

record 'sh size_hint_lib =
  hi_lower :: "'sh \<Rightarrow> nat"
  hi_upper :: "'sh \<Rightarrow> nat option"
  hi_exact :: "'sh \<Rightarrow> nat option"
  hi_set_exact :: "nat \<Rightarrow> 'sh \<Rightarrow> 'sh"
  hi_set_lower :: "nat \<Rightarrow> 'sh \<Rightarrow> 'sh option"
  hi_set_upper :: "nat \<Rightarrow> 'sh \<Rightarrow> 'sh option"

definition saturating_add :: "nat \<Rightarrow> nat \<Rightarrow> nat" where
  "saturating_add a b = min u64_max (a + b)"

definition prefix_size_hint :: "'sh size_hint_lib \<Rightarrow> bytes option \<Rightarrow> 'sh \<Rightarrow> 'sh option" where
  "prefix_size_hint K pre rest_hint =
     (case pre of
        None \<Rightarrow> Some rest_hint
      | Some p \<Rightarrow>
          (let prefix_len = length p in
           case hi_exact K rest_hint of
             Some exact \<Rightarrow> Some (hi_set_exact K (saturating_add exact prefix_len) rest_hint)
           | None \<Rightarrow>
               (case hi_set_lower K (saturating_add (hi_lower K rest_hint) prefix_len) rest_hint of
                  None \<Rightarrow> None
                | Some hint \<Rightarrow>
                    (case hi_upper K hint of
                       None \<Rightarrow> Some hint
                     | Some upper \<Rightarrow> hi_set_upper K (saturating_add upper prefix_len) hint))))"

text \<open>The inner body of a wrapper is the upstream body or one with a prefix already read.\<close>

datatype inner_body = Plain body | Prefixed prefix_then_body

fun poll_inner :: "inner_body \<Rightarrow> poll \<times> inner_body" where
  "poll_inner (Plain b) = (case poll_body b of (r, b1) \<Rightarrow> (r, Plain b1))"
| "poll_inner (Prefixed p) = (case poll_prefix p of (r, p1) \<Rightarrow> (r, Prefixed p1))"

record sse_capture_body =
  scb_inner :: inner_body
  scb_capture :: sse_capture

definition poll_sse :: "sse_capture_body \<Rightarrow> poll \<times> sse_capture_body" where
  "poll_sse s =
     (case poll_inner (scb_inner s) of (r, inner) \<Rightarrow>
        (let s1 = s\<lparr>scb_inner := inner\<rparr> in
         case r of
           ReadyFrame f \<Rightarrow>
             (r, case frame_data f of Some d \<Rightarrow> s1\<lparr>scb_capture := push (scb_capture s1) d\<rparr> | None \<Rightarrow> s1)
         | ReadyEnd \<Rightarrow> (r, s1\<lparr>scb_capture := finish (scb_capture s1)\<rparr>)
         | _ \<Rightarrow> (r, s1)))"

text \<open>The shared state of a streamed response: the counter, the flag that is swapped, and the tasks
  spawned, each with its \<open>interrupted\<close> argument.\<close>

record streaming_finalize =
  fin_streamed_bytes :: "64 word"
  fin_finalized :: bool
  fin_tasks :: "bool list"

definition new_finalize :: streaming_finalize where
  "new_finalize = \<lparr>fin_streamed_bytes = 0, fin_finalized = False, fin_tasks = []\<rparr>"

definition add_streamed_bytes :: "nat \<Rightarrow> streaming_finalize \<Rightarrow> streaming_finalize" where
  "add_streamed_bytes len fin = fin\<lparr>fin_streamed_bytes := fin_streamed_bytes fin + of_nat len\<rparr>"

definition finalize :: "bool \<Rightarrow> streaming_finalize \<Rightarrow> streaming_finalize" where
  "finalize interrupted fin =
     (if fin_finalized fin then fin
      else fin\<lparr>fin_finalized := True, fin_tasks := fin_tasks fin @ [interrupted]\<rparr>)"

record streaming_capture_body =
  stb_inner :: inner_body
  stb_finalize :: streaming_finalize

definition poll_streaming :: "streaming_capture_body \<Rightarrow> poll \<times> streaming_capture_body" where
  "poll_streaming s =
     (case poll_inner (stb_inner s) of (r, inner) \<Rightarrow>
        (let s1 = s\<lparr>stb_inner := inner\<rparr>; fin = stb_finalize s1 in
         case r of
           ReadyFrame f \<Rightarrow>
             (r, case frame_data f of
                   Some d \<Rightarrow> s1\<lparr>stb_finalize := add_streamed_bytes (length d) fin\<rparr>
                 | None \<Rightarrow> s1)
         | ReadyEnd \<Rightarrow> (r, s1\<lparr>stb_finalize := finalize False fin\<rparr>)
         | ReadyError err \<Rightarrow> (r, s1\<lparr>stb_finalize := finalize True fin\<rparr>)
         | Pending \<Rightarrow> (r, s1)))"

definition drop_streaming :: "streaming_capture_body \<Rightarrow> streaming_finalize" where
  "drop_streaming s = finalize True (stb_finalize s)"

section \<open>Handing a body through\<close>

fun poll_times :: "('s \<Rightarrow> poll \<times> 's) \<Rightarrow> nat \<Rightarrow> 's \<Rightarrow> poll list \<times> 's" where
  "poll_times f 0 s = ([], s)"
| "poll_times f (Suc n) s = (case f s of (r, s1) \<Rightarrow> (case poll_times f n s1 of (rs, s2) \<Rightarrow> (r # rs, s2)))"

locale body_source =
  fixes poll_one :: "'s \<Rightarrow> poll \<times> 's"
    and stream :: "'s \<Rightarrow> body"
  assumes poll_stream: "poll_one s = (r, s') \<Longrightarrow> poll_body (stream s) = (r, stream s')"
begin

lemma polls_stream:
  "poll_times poll_one n s = (rs, s') \<Longrightarrow> poll_times poll_body n (stream s) = (rs, stream s')"
proof (induction n arbitrary: s rs)
  case (Suc n)
  then show ?case by (auto simp: poll_stream split: prod.splits)
qed simp

end

definition prefix_stream :: "prefix_then_body \<Rightarrow> body" where
  "prefix_stream p = (case ptb_prefix p of Some pre \<Rightarrow> Item (Data pre) # ptb_rest p | None \<Rightarrow> ptb_rest p)"

fun inner_stream :: "inner_body \<Rightarrow> body" where
  "inner_stream (Plain b) = b"
| "inner_stream (Prefixed p) = prefix_stream p"

interpretation ptb: body_source poll_prefix prefix_stream
  by unfold_locales (auto simp: poll_prefix_def prefix_stream_def split: option.splits prod.splits)

interpretation inner: body_source poll_inner inner_stream
proof
  show "poll_body (inner_stream s) = (r, inner_stream s')" if "poll_inner s = (r, s')" for s r s'
    using that ptb.poll_stream by (cases s) (auto split: prod.splits)
qed

lemma poll_sse_inner: "poll_sse s = (r, s') \<Longrightarrow> poll_inner (scb_inner s) = (r, scb_inner s')"
  by (auto simp: poll_sse_def Let_def split: prod.splits poll.splits option.splits)

lemma poll_streaming_inner: "poll_streaming s = (r, s') \<Longrightarrow> poll_inner (stb_inner s) = (r, stb_inner s')"
  by (auto simp: poll_streaming_def Let_def split: prod.splits poll.splits option.splits)

interpretation sse: body_source poll_sse "\<lambda>s. inner_stream (scb_inner s)"
  by unfold_locales (blast intro: inner.poll_stream poll_sse_inner)

interpretation streaming: body_source poll_streaming "\<lambda>s. inner_stream (stb_inner s)"
  by unfold_locales (blast intro: inner.poll_stream poll_streaming_inner)

section \<open>What collecting, probing and streaming see\<close>

lemma collect_ok: "\<not> body_fails b \<Longrightarrow> collect b = Inr (body_data b)"
  by (induction b rule: body_data.induct) auto

lemma collect_fail: "body_fails b \<Longrightarrow> \<exists>err. collect b = Inl err"
  by (induction b rule: collect.induct) auto

lemma collect_body_eq: "collect_body b = (if body_fails b then [] else body_data b)"
  using collect_ok [of b] collect_fail [of b] by (auto simp: collect_body_def)

lemma probe_loop_collected:
  "probe_loop t buf b = Collected x \<Longrightarrow> length buf \<le> t \<Longrightarrow>
   length x \<le> t \<and> prefix x (buf @ body_data b) \<and> (\<not> body_fails b \<longrightarrow> x = buf @ body_data b)"
  by (induction t buf b rule: probe_loop.induct) (auto split: if_splits)

lemma probe_loop_streamed:
  "probe_loop t buf b = Streamed p rest \<Longrightarrow>
   t < length p \<and> p @ body_data rest = buf @ body_data b \<and> (body_fails rest \<longleftrightarrow> body_fails b) \<and> suffix rest b"
  by (induction t buf b rule: probe_loop.induct) (auto split: if_splits intro: suffix_ConsI)

text \<open>C37: Probing a response of unknown length loses nothing and buffers no more than it must. If the body
  turns out short it is collected, all of it unless it fails, and within the threshold; otherwise
  the prefix handed on exceeds the threshold, and prefix and rest together carry the same bytes
  and the same failure as the upstream body.\<close>

theorem probe_preserves_body:
  "case probe_response_body b threshold of
     Collected x \<Rightarrow> length x \<le> threshold \<and> prefix x (body_data b) \<and> (\<not> body_fails b \<longrightarrow> x = body_data b)
   | Streamed pre rest \<Rightarrow> threshold < length pre
       \<and> body_data (inner_stream (Prefixed \<lparr>ptb_prefix = Some pre, ptb_rest = rest\<rparr>)) = body_data b
       \<and> (body_fails rest \<longleftrightarrow> body_fails b) \<and> suffix rest b"
  using probe_loop_collected [of threshold "[]" b] probe_loop_streamed [of threshold "[]" b]
  by (auto simp: probe_response_body_def prefix_stream_def split: probed_response_body.split)

theorem probe_preserves_body_witness:
  "probe_response_body [Item (Data ''ab''), NotReady, Item (Data ''c'')] 3 = Collected ''abc''
   \<and> body_data [Item (Data ''ab''), NotReady, Item (Data ''c'')] = ''abc''
   \<and> probe_response_body [Item (Data ''ab''), Item (Data ''cd''), Item (Data ''e'')] 3 = Streamed ''abcd'' [Item (Data ''e'')]"
proof -
  have "probe_response_body [Item (Data ''ab''), NotReady, Item (Data ''c'')] 3 = Collected ''abc''"
    by (simp add: probe_response_body_def)
  then show ?thesis
    using probe_preserves_body [of 3 "[Item (Data ''ab''), NotReady, Item (Data ''c'')]"]
    by (simp add: probe_response_body_def)
qed

section \<open>The SSE wrapper\<close>

fun polled_data :: "poll list \<Rightarrow> bytes list" where
  "polled_data [] = []"
| "polled_data (ReadyFrame (Data d) # rs) = d # polled_data rs"
| "polled_data (_ # rs) = polled_data rs"

lemma sse_polls_push:
  "poll_times poll_sse n s = (rs, s') \<Longrightarrow> ReadyEnd \<notin> set rs \<Longrightarrow>
   scb_capture s' = foldl push (scb_capture s) (polled_data rs)"
proof (induction n arbitrary: s rs)
  case (Suc n)
  obtain r s1 rs' where r: "poll_sse s = (r, s1)" "poll_times poll_sse n s1 = (rs', s')" "rs = r # rs'"
    using Suc.prems(1) by (auto split: prod.splits)
  have "scb_capture s' = foldl push (scb_capture s1) (polled_data rs')" using Suc r by simp
  moreover have "scb_capture s1 = (case r of ReadyFrame (Data d) \<Rightarrow> push (scb_capture s) d | _ \<Rightarrow> scb_capture s)"
    using r(1,3) Suc.prems(2)
    by (auto simp: poll_sse_def Let_def split: prod.splits poll.splits option.splits frame.splits)
  ultimately show ?case using r(3) by (cases r) (auto split: frame.splits)
qed simp

lemma poll_times_snoc:
  "poll_times f n s = (rs, s1) \<Longrightarrow> f s1 = (r, s2) \<Longrightarrow> poll_times f (Suc n) s = (rs @ [r], s2)"
proof (induction n arbitrary: s rs)
  case (Suc n)
  then show ?case by (fastforce split: prod.splits)
qed simp

lemma poll_times_snocE:
  assumes "poll_times f (Suc n) s = (rs, s2)"
  obtains rs1 s1 r where "poll_times f n s = (rs1, s1)" "f s1 = (r, s2)" "rs = rs1 @ [r]"
proof -
  obtain rs1 s1 where a: "poll_times f n s = (rs1, s1)" by (meson surj_pair)
  obtain r t where b: "f s1 = (r, t)" by (meson surj_pair)
  show thesis using that [OF a] b poll_times_snoc [OF a b] assms by simp
qed

lemma polled_data_append [simp]: "polled_data (rs @ rs') = polled_data rs @ polled_data rs'"
  by (induction rs rule: polled_data.induct) auto

text \<open>C38: A stream of server-sent events reaches the client unchanged while it is captured: every poll
  returns what the upstream body returns, and once the client has polled the end, the messages sent
  to the writer are the capture of exactly the bytes the client was given.\<close>

theorem sse_body_captures_stream:
  assumes "poll_times poll_sse (Suc n) \<lparr>scb_inner = inner, scb_capture = sse_start N M\<rparr> = (rs @ [ReadyEnd], s)"
    and "ReadyEnd \<notin> set rs"
  shows "fst (poll_times poll_body (Suc n) (inner_stream inner)) = rs @ [ReadyEnd]
    \<and> sse_sent (scb_capture s) = sse_captured N M (concat (polled_data rs))"
proof -
  let ?s0 = "\<lparr>scb_inner = inner, scb_capture = sse_start N M\<rparr>"
  obtain s1 where s1: "poll_times poll_sse n ?s0 = (rs, s1)" and last: "poll_sse s1 = (ReadyEnd, s)"
    by (rule poll_times_snocE [OF assms(1)]) simp
  have "scb_capture s1 = foldl push (sse_start N M) (polled_data rs)"
    using sse_polls_push [OF s1 assms(2)] by simp
  moreover have "scb_capture s = finish (scb_capture s1)"
    using last by (auto simp: poll_sse_def Let_def split: prod.splits poll.splits)
  ultimately show ?thesis
    using sse.polls_stream [OF assms(1)] by (simp add: sse_capture_stream del: poll_times.simps)
qed

theorem sse_body_captures_stream_witness:
  "\<exists>s. poll_times poll_sse (Suc 2) \<lparr>scb_inner = Plain [Item (Data [CHR ''a'', LF]), Item (Data [LF])], scb_capture = sse_start 5 100\<rparr>
      = ([ReadyFrame (Data [CHR ''a'', LF]), ReadyFrame (Data [LF])] @ [ReadyEnd], s)
    \<and> sse_sent (scb_capture s) = sse_captured 5 100 [CHR ''a'', LF, LF]"
proof -
  obtain s where p: "poll_times poll_sse (Suc 2) \<lparr>scb_inner = Plain [Item (Data [CHR ''a'', LF]), Item (Data [LF])],
      scb_capture = sse_start 5 100\<rparr> = ([ReadyFrame (Data [CHR ''a'', LF]), ReadyFrame (Data [LF])] @ [ReadyEnd], s)"
    by (simp add: eval_nat_numeral poll_sse_def Let_def)
  then show ?thesis using sse_body_captures_stream [OF p] by auto
qed

section \<open>The streaming wrapper\<close>

text \<open>A stream was completed if the first poll that ended it said so.\<close>

fun first_end :: "poll list \<Rightarrow> bool option" where
  "first_end [] = None"
| "first_end (ReadyEnd # rs) = Some False"
| "first_end (ReadyError _ # rs) = Some True"
| "first_end (_ # rs) = first_end rs"

definition polled_bytes :: "poll list \<Rightarrow> nat" where
  "polled_bytes rs = length (concat (polled_data rs))"

definition finalize_run :: "poll list \<Rightarrow> streaming_finalize \<Rightarrow> streaming_finalize" where
  "finalize_run rs fin = \<lparr>fin_streamed_bytes = fin_streamed_bytes fin + of_nat (polled_bytes rs),
     fin_finalized = (fin_finalized fin \<or> \<not> Option.is_none (first_end rs)),
     fin_tasks = (if fin_finalized fin then fin_tasks fin
       else fin_tasks fin @ (case first_end rs of None \<Rightarrow> [] | Some i \<Rightarrow> [i]))\<rparr>"

lemma poll_streaming_run: "poll_streaming s = (r, s1) \<Longrightarrow> stb_finalize s1 = finalize_run [r] (stb_finalize s)"
  by (auto simp: poll_streaming_def Let_def finalize_run_def finalize_def add_streamed_bytes_def polled_bytes_def
      split: prod.splits poll.splits option.splits elim!: frame_data.elims)

lemma finalize_run_Cons: "finalize_run (r # rs) fin = finalize_run rs (finalize_run [r] fin)"
proof -
  have b: "polled_bytes (r # rs) = polled_bytes [r] + polled_bytes rs"
    by (cases "r # rs" rule: polled_data.cases) (auto simp: polled_bytes_def)
  have e: "first_end (r # rs) = (case first_end [r] of None \<Rightarrow> first_end rs | Some i \<Rightarrow> Some i)"
    by (cases r) simp_all
  show ?thesis by (auto simp: finalize_run_def b e add.assoc split: option.splits)
qed

lemma streaming_polls_run:
  "poll_times poll_streaming n s = (rs, s') \<Longrightarrow> stb_finalize s' = finalize_run rs (stb_finalize s)"
proof (induction n arbitrary: s rs)
  case 0
  then show ?case by (simp add: finalize_run_def polled_bytes_def)
next
  case (Suc n)
  obtain r s1 rs' where r: "poll_streaming s = (r, s1)" "poll_times poll_streaming n s1 = (rs', s')" "rs = r # rs'"
    using Suc.prems by (auto split: prod.splits)
  then show ?case using Suc.IH poll_streaming_run by (simp add: finalize_run_Cons [of r rs'])
qed

text \<open>C6: A streamed response reaches the client unchanged: every poll of the wrapper returns what a poll of
  the upstream body would have returned. However often it is polled, it is finalized exactly once
  by the time it is dropped, with the number of bytes the client was given (at the width of the
  counter), and it counts as interrupted unless its end was polled before any error.\<close>

theorem streaming_finalizes_once:
  assumes "poll_times poll_streaming n \<lparr>stb_inner = inner, stb_finalize = new_finalize\<rparr> = (rs, s)"
  shows "fst (poll_times poll_body n (inner_stream inner)) = rs
    \<and> fin_tasks (drop_streaming s) = [first_end rs \<noteq> Some False]
    \<and> fin_streamed_bytes (drop_streaming s) = of_nat (polled_bytes rs)
    \<and> fin_tasks (stb_finalize s) = (case first_end rs of None \<Rightarrow> [] | Some i \<Rightarrow> [i])"
proof -
  have "fst (poll_times poll_body n (inner_stream inner)) = rs"
    using streaming.polls_stream [OF assms] by simp
  moreover have "stb_finalize s = finalize_run rs new_finalize"
    using streaming_polls_run [OF assms] by simp
  ultimately show ?thesis
    by (auto simp: drop_streaming_def finalize_def finalize_run_def new_finalize_def split: option.splits)
qed

theorem streaming_finalizes_once_witness:
  "(\<exists>s. poll_times poll_streaming 3 \<lparr>stb_inner = Plain [Item (Data ''ab''), Item (Data ''c'')], stb_finalize = new_finalize\<rparr>
      = ([ReadyFrame (Data ''ab''), ReadyFrame (Data ''c''), ReadyEnd], s) \<and> fin_tasks (drop_streaming s) = [False])
   \<and> (\<exists>s. poll_times poll_streaming 2 \<lparr>stb_inner = Plain [Item (Data ''ab''), Item (Data ''c'')], stb_finalize = new_finalize\<rparr>
      = ([ReadyFrame (Data ''ab''), ReadyFrame (Data ''c'')], s) \<and> fin_tasks (drop_streaming s) = [True])"
proof -
  let ?b = "\<lparr>stb_inner = Plain [Item (Data ''ab''), Item (Data ''c'')], stb_finalize = new_finalize\<rparr>"
  obtain s where 1: "poll_times poll_streaming 3 ?b = ([ReadyFrame (Data ''ab''), ReadyFrame (Data ''c''), ReadyEnd], s)"
    by (simp add: eval_nat_numeral poll_streaming_def Let_def)
  obtain t where 2: "poll_times poll_streaming 2 ?b = ([ReadyFrame (Data ''ab''), ReadyFrame (Data ''c'')], t)"
    by (simp add: eval_nat_numeral poll_streaming_def Let_def)
  show ?thesis
    using 1 2 streaming_finalizes_once [OF 1] streaming_finalizes_once [OF 2] by auto
qed

section \<open>The size hint\<close>

text \<open>What the documentation of the crate says of a size hint: it is exact if its bounds agree, and
  setting a bound panics if it would cross the other one.\<close>

definition size_hint_laws :: "'sh size_hint_lib \<Rightarrow> bool" where
  "size_hint_laws K \<longleftrightarrow>
     (\<forall>h. hi_exact K h = (if hi_upper K h = Some (hi_lower K h) then Some (hi_lower K h) else None))
   \<and> (\<forall>n h. (hi_set_lower K n h = None) = (\<exists>u. hi_upper K h = Some u \<and> u < n))
   \<and> (\<forall>n h h'. hi_set_lower K n h = Some h' \<longrightarrow> hi_lower K h' = n \<and> hi_upper K h' = hi_upper K h)
   \<and> (\<forall>n h. (hi_set_upper K n h = None) = (n < hi_lower K h))
   \<and> (\<forall>n h h'. hi_set_upper K n h = Some h' \<longrightarrow> hi_lower K h' = hi_lower K h \<and> hi_upper K h' = Some n)"

text \<open>The size hint of a body with a prefix panics as soon as the rest has an upper bound that is not
  exact and is smaller than its lower bound and the prefix together: the lower bound is raised
  before the upper one. Without an upper bound it never does.\<close>

theorem prefix_size_hint_panics:
  assumes "size_hint_laws K" and "hi_exact K hint = None"
    and "hi_lower K hint + length pre \<le> u64_max"
  shows "prefix_size_hint K (Some pre) hint = None \<longleftrightarrow>
    (\<exists>u. hi_upper K hint = Some u \<and> u < hi_lower K hint + length pre)"
proof -
  have low: "saturating_add (hi_lower K hint) (length pre) = hi_lower K hint + length pre"
    using assms(3) by (simp add: saturating_add_def)
  show ?thesis
  proof (cases "hi_set_lower K (hi_lower K hint + length pre) hint")
    case None
    moreover from this have "\<exists>u. hi_upper K hint = Some u \<and> u < hi_lower K hint + length pre"
      using assms(1) unfolding size_hint_laws_def by blast
    ultimately show ?thesis using assms(2) by (simp add: prefix_size_hint_def Let_def low)
  next
    case (Some h)
    then have h: "hi_lower K h = hi_lower K hint + length pre" "hi_upper K h = hi_upper K hint"
      and no: "\<not> (\<exists>u. hi_upper K hint = Some u \<and> u < hi_lower K hint + length pre)"
      using assms(1) unfolding size_hint_laws_def by (blast, blast, metis option.distinct(1))
    have "hi_set_upper K (saturating_add u (length pre)) h \<noteq> None" if "hi_upper K hint = Some u" for u
      using that no assms(1,3) h(1) unfolding size_hint_laws_def by (auto simp: saturating_add_def)
    with Some no show ?thesis
      using assms(2) by (auto simp: prefix_size_hint_def Let_def low h(2) split: option.splits)
  qed
qed

definition pair_hints :: "(nat \<times> nat option) size_hint_lib" where
  "pair_hints = \<lparr>hi_lower = fst, hi_upper = snd,
     hi_exact = (\<lambda>(l, u). if u = Some l then Some l else None),
     hi_set_exact = (\<lambda>n _. (n, Some n)),
     hi_set_lower = (\<lambda>n (l, u). case u of Some v \<Rightarrow> if v < n then None else Some (n, u) | None \<Rightarrow> Some (n, u)),
     hi_set_upper = (\<lambda>n (l, u). if n < l then None else Some (l, Some n))\<rparr>"

lemma pair_hints_laws: "size_hint_laws pair_hints"
  by (auto simp: size_hint_laws_def pair_hints_def split: option.splits)

theorem prefix_size_hint_panics_witness:
  "prefix_size_hint pair_hints (Some ''abcd'') (0, Some 3) = None
   \<and> prefix_size_hint pair_hints (Some ''abcd'') (0, None) \<noteq> None"
proof -
  have "hi_exact pair_hints (0, Some 3) = None" "hi_exact pair_hints (0, None) = None"
    "hi_lower pair_hints (0, Some 3) + length ''abcd'' \<le> u64_max" "hi_lower pair_hints (0, None) + length ''abcd'' \<le> u64_max"
    by (simp_all add: pair_hints_def u64_max_def)
  then show ?thesis
    using prefix_size_hint_panics [OF pair_hints_laws, of "(0, Some 3)" "''abcd''"]
      prefix_size_hint_panics [OF pair_hints_laws, of "(0, None)" "''abcd''"]
    by (simp add: pair_hints_def)
qed

end
