(* ===== verification/JsonPatch.thy ===== *)
theory JsonPatch
  imports JsonValue
begin

text \<open>
  \<open>src/src/filters/engine/json/patch.rs\<close>: the operations of a generated JSON patch, their reading and
  writing as RFC 6902 documents, and the check that a patch turns one text into another. The crate
  \<open>json_patch\<close> is the record \<open>json_patch_lib\<close>. What RFC 6902 says about applying a patch is written
  down here over documents (\<open>rfc6902_apply\<close>), and \<open>patch_laws\<close> says that the crate follows it.
\<close>

section \<open>The operations\<close>

datatype generated_json_patch_operation =
    PatchAdd string string
  | PatchRemove string
  | PatchReplace string string
  | PatchMove string string

record 'p json_patch_lib =
  jp_diff :: "json \<Rightarrow> json \<Rightarrow> 'p"
  jp_from_str :: "string \<Rightarrow> 'p option"
  jp_write :: "'p \<Rightarrow> string option"
  jp_to_pretty :: "'p \<Rightarrow> string option"
  jp_patch :: "json \<Rightarrow> 'p \<Rightarrow> json option"
  jp_merge :: "json \<Rightarrow> json \<Rightarrow> json"

definition parse_json_patch_value :: "json_lib \<Rightarrow> string \<Rightarrow> json" where
  "parse_json_patch_value J val = (case js_from_str J val of Some v \<Rightarrow> v | None \<Rightarrow> JString val)"

definition json_patch_value_to_string :: "json_lib \<Rightarrow> json \<Rightarrow> string" where
  "json_patch_value_to_string J v = (case js_write J v of Some s \<Rightarrow> s | None \<Rightarrow> ''null'')"

fun to_rfc6902_value :: "json_lib \<Rightarrow> generated_json_patch_operation \<Rightarrow> json" where
  "to_rfc6902_value J (PatchAdd path val) = JObject
     [(''op'', JString ''add''), (''path'', JString path), (''value'', parse_json_patch_value J val)]"
| "to_rfc6902_value J (PatchRemove path) = JObject [(''op'', JString ''remove''), (''path'', JString path)]"
| "to_rfc6902_value J (PatchReplace path val) = JObject
     [(''op'', JString ''replace''), (''path'', JString path), (''value'', parse_json_patch_value J val)]"
| "to_rfc6902_value J (PatchMove from path) = JObject
     [(''op'', JString ''move''), (''from'', JString from), (''path'', JString path)]"

definition get_str :: "json \<Rightarrow> string \<Rightarrow> string option" where
  "get_str v k = Option.bind (json_get v k) json_as_str"

definition from_rfc6902_value :: "json_lib \<Rightarrow> json \<Rightarrow> generated_json_patch_operation option" where
  "from_rfc6902_value J v = Option.bind (get_str v ''op'') (\<lambda>op.
     if op = ''add'' then Option.bind (get_str v ''path'') (\<lambda>path.
       map_option (\<lambda>x. PatchAdd path (json_patch_value_to_string J x)) (json_get v ''value''))
     else if op = ''remove'' then map_option PatchRemove (get_str v ''path'')
     else if op = ''replace'' then Option.bind (get_str v ''path'') (\<lambda>path.
       map_option (\<lambda>x. PatchReplace path (json_patch_value_to_string J x)) (json_get v ''value''))
     else if op = ''move'' then Option.bind (get_str v ''from'') (\<lambda>from.
       map_option (\<lambda>path. PatchMove from path) (get_str v ''path''))
     else None)"

definition json_patch_operations_to_rfc6902_json ::
  "json_lib \<Rightarrow> generated_json_patch_operation list \<Rightarrow> string" where
  "json_patch_operations_to_rfc6902_json J operations =
     (case js_to_pretty J (JArray (map (to_rfc6902_value J) operations)) of Some s \<Rightarrow> s | None \<Rightarrow> ''[]'')"

definition json_patch_operations_from_rfc6902_json ::
  "json_lib \<Rightarrow> string \<Rightarrow> generated_json_patch_operation list" where
  "json_patch_operations_from_rfc6902_json J patch_json =
     (case js_from_str J patch_json of
        Some (JArray vs) \<Rightarrow> List.map_filter (from_rfc6902_value J) vs
      | _ \<Rightarrow> [])"

definition diff_json_patch_operations ::
  "json_lib \<Rightarrow> 'p json_patch_lib \<Rightarrow> string \<Rightarrow> string \<Rightarrow> generated_json_patch_operation list option" where
  "diff_json_patch_operations J P original edited =
     Option.bind (js_from_str J original) (\<lambda>a. Option.bind (js_from_str J edited) (\<lambda>b.
       map_option (json_patch_operations_from_rfc6902_json J) (jp_write P (jp_diff P a b))))"

definition diff_json_patch_rfc6902_json ::
  "json_lib \<Rightarrow> 'p json_patch_lib \<Rightarrow> string \<Rightarrow> string \<Rightarrow> string option" where
  "diff_json_patch_rfc6902_json J P original edited =
     Option.bind (js_from_str J original) (\<lambda>a. Option.bind (js_from_str J edited) (\<lambda>b.
       jp_to_pretty P (jp_diff P a b)))"

definition apply_json_patch_rfc6902_json ::
  "json_lib \<Rightarrow> 'p json_patch_lib \<Rightarrow> string \<Rightarrow> string \<Rightarrow> string option" where
  "apply_json_patch_rfc6902_json J P original patch_json =
     Option.bind (js_from_str J original) (\<lambda>v. Option.bind (jp_from_str P patch_json) (\<lambda>patch.
       Option.bind (jp_patch P v patch) (js_write J)))"

definition apply_json_merge_patch_json ::
  "json_lib \<Rightarrow> 'p json_patch_lib \<Rightarrow> string \<Rightarrow> string \<Rightarrow> string option" where
  "apply_json_merge_patch_json J P original merge_patch_json =
     Option.bind (js_from_str J original) (\<lambda>v. Option.bind (js_from_str J merge_patch_json) (\<lambda>patch.
       js_write J (jp_merge P v patch)))"

definition validate_json_patch_operations ::
  "json_lib \<Rightarrow> 'p json_patch_lib \<Rightarrow> string \<Rightarrow> string \<Rightarrow> generated_json_patch_operation list \<Rightarrow> bool" where
  "validate_json_patch_operations J P original edited operations =
     (let patch_json = json_patch_operations_to_rfc6902_json J operations in
      case apply_json_patch_rfc6902_json J P original patch_json of
        None \<Rightarrow> False
      | Some patched \<Rightarrow>
          (case (js_from_str J patched, js_from_str J edited) of
             (Some a, Some b) \<Rightarrow> json_eq a b
           | _ \<Rightarrow> False))"

fun json_patch_comment :: "generated_json_patch_operation \<Rightarrow> string" where
  "json_patch_comment (PatchAdd path val) = ''- add '' @ path @ '' = '' @ val"
| "json_patch_comment (PatchRemove path) = ''- remove '' @ path"
| "json_patch_comment (PatchReplace path val) = ''- replace '' @ path @ '' = '' @ val"
| "json_patch_comment (PatchMove from path) = ''- move '' @ from @ '' -> '' @ path"

definition comment_line :: "string \<Rightarrow> string" where
  "comment_line s = CHR 0x0A # ''            // '' @ s"

definition write_json_patch_comments ::
  "json_lib \<Rightarrow> string \<Rightarrow> generated_json_patch_operation list \<Rightarrow> string" where
  "write_json_patch_comments J out operations =
     out @ comment_line ''JSON patch operations:''
     @ concat (map (\<lambda>operation. comment_line (json_patch_comment operation)) operations)
     @ comment_line ''RFC6902 JSON Patch:''
     @ concat (map comment_line (str_lines (json_patch_operations_to_rfc6902_json J operations)))"

section \<open>RFC 6902 over documents\<close>

fun unescape_token :: "string \<Rightarrow> string option" where
  "unescape_token [] = Some []"
| "unescape_token (c # s) =
     (if c = CHR ''~'' then
        (case s of
           d # r \<Rightarrow> if d = CHR ''0'' then map_option (Cons (CHR ''~'')) (unescape_token r)
                    else if d = CHR ''1'' then map_option (Cons (CHR ''/'')) (unescape_token r)
                    else None
         | [] \<Rightarrow> None)
      else map_option (Cons c) (unescape_token s))"

definition pointer_tokens :: "string \<Rightarrow> string list option" where
  "pointer_tokens s = (case s of
     [] \<Rightarrow> Some []
   | c # r \<Rightarrow> if c = CHR ''/'' then those (map unescape_token (split_char (CHR ''/'') r)) else None)"

definition token_index :: "string \<Rightarrow> nat option" where
  "token_index t = (if t \<noteq> [] \<and> list_all is_ascii_digit t \<and> (t = ''0'' \<or> hd t \<noteq> CHR ''0'')
     then Some (digits_value t) else None)"

fun doc_child :: "jdoc \<Rightarrow> string \<Rightarrow> jdoc option" where
  "doc_child (DObject m) t = m t"
| "doc_child (DArray xs) t =
     (case token_index t of Some i \<Rightarrow> if i < length xs then Some (xs ! i) else None | None \<Rightarrow> None)"
| "doc_child _ t = None"

fun set_child :: "jdoc \<Rightarrow> string \<Rightarrow> jdoc \<Rightarrow> jdoc" where
  "set_child (DObject m) t v = DObject (m(t \<mapsto> v))"
| "set_child (DArray xs) t v = (case token_index t of Some i \<Rightarrow> DArray (xs[i := v]) | None \<Rightarrow> DArray xs)"
| "set_child d t v = d"

fun add_child :: "jdoc \<Rightarrow> string \<Rightarrow> jdoc \<Rightarrow> jdoc option" where
  "add_child (DObject m) t v = Some (DObject (m(t \<mapsto> v)))"
| "add_child (DArray xs) t v =
     (if t = ''-'' then Some (DArray (xs @ [v]))
      else (case token_index t of
          Some i \<Rightarrow> if i \<le> length xs then Some (DArray (take i xs @ v # drop i xs)) else None
        | None \<Rightarrow> None))"
| "add_child _ t v = None"

fun remove_child :: "jdoc \<Rightarrow> string \<Rightarrow> jdoc option" where
  "remove_child (DObject m) t = (if m t = None then None else Some (DObject (m(t := None))))"
| "remove_child (DArray xs) t =
     (case token_index t of
        Some i \<Rightarrow> if i < length xs then Some (DArray (take i xs @ drop (Suc i) xs)) else None
      | None \<Rightarrow> None)"
| "remove_child _ t = None"

fun doc_update :: "(jdoc \<Rightarrow> jdoc option) \<Rightarrow> jdoc \<Rightarrow> string list \<Rightarrow> jdoc option" where
  "doc_update f d [] = f d"
| "doc_update f d (t # ts) = Option.bind (doc_child d t) (\<lambda>c. map_option (set_child d t) (doc_update f c ts))"

fun doc_get :: "jdoc \<Rightarrow> string list \<Rightarrow> jdoc option" where
  "doc_get d [] = Some d"
| "doc_get d (t # ts) = Option.bind (doc_child d t) (\<lambda>c. doc_get c ts)"

abbreviation doc_put :: "jdoc \<Rightarrow> string list \<Rightarrow> jdoc \<Rightarrow> jdoc option" where
  "doc_put d p v \<equiv> doc_update (\<lambda>_. Some v) d p"

datatype patch_op =
    OpAdd "string list" jdoc
  | OpRemove "string list"
  | OpReplace "string list" jdoc
  | OpMove "string list" "string list"

definition doc_add :: "string list \<Rightarrow> jdoc \<Rightarrow> jdoc \<Rightarrow> jdoc option" where
  "doc_add p v d = (if p = [] then Some v else doc_update (\<lambda>c. add_child c (last p) v) d (butlast p))"

definition doc_remove :: "string list \<Rightarrow> jdoc \<Rightarrow> jdoc option" where
  "doc_remove p d = (if p = [] then None else doc_update (\<lambda>c. remove_child c (last p)) d (butlast p))"

fun doc_apply :: "patch_op \<Rightarrow> jdoc \<Rightarrow> jdoc option" where
  "doc_apply (OpAdd p v) d = doc_add p v d"
| "doc_apply (OpRemove p) d = doc_remove p d"
| "doc_apply (OpReplace p v) d = doc_put d p v"
| "doc_apply (OpMove from p) d =
     Option.bind (doc_get d from) (\<lambda>v. Option.bind (doc_remove from d) (doc_add p v))"

fun rfc6902_apply :: "patch_op list \<Rightarrow> jdoc \<Rightarrow> jdoc option" where
  "rfc6902_apply [] d = Some d"
| "rfc6902_apply (op # ops) d = Option.bind (doc_apply op d) (rfc6902_apply ops)"

text \<open>The operation a document denotes; the operations the sources never write, such as removing the
  whole document, are left out.\<close>

definition doc_pointer :: "(string \<Rightarrow> jdoc option) \<Rightarrow> string \<Rightarrow> string list option" where
  "doc_pointer m k = (case m k of Some (DString s) \<Rightarrow> pointer_tokens s | _ \<Rightarrow> None)"

fun rfc_op :: "jdoc \<Rightarrow> patch_op option" where
  "rfc_op (DObject m) = Option.bind (doc_pointer m ''path'') (\<lambda>p.
     if m ''op'' = Some (DString ''add'') then map_option (OpAdd p) (m ''value'')
     else if m ''op'' = Some (DString ''remove'') then (if p = [] then None else Some (OpRemove p))
     else if m ''op'' = Some (DString ''replace'') then map_option (OpReplace p) (m ''value'')
     else if m ''op'' = Some (DString ''move'') then Option.bind (doc_pointer m ''from'') (\<lambda>from.
       if from = [] \<or> take (length from) p = from then None else Some (OpMove from p))
     else None)"
| "rfc_op _ = None"

fun rfc_ops :: "jdoc \<Rightarrow> patch_op list option" where
  "rfc_ops (DArray ds) = those (map rfc_op ds)"
| "rfc_ops _ = None"

text \<open>The crate reads a patch from its JSON text and applies it as the RFC says.\<close>

definition patch_laws :: "json_lib \<Rightarrow> 'p json_patch_lib \<Rightarrow> bool" where
  "patch_laws J P \<longleftrightarrow> (\<forall>s v ops. js_from_str J s = Some v \<longrightarrow> rfc_ops (doc v) = Some ops \<longrightarrow>
     (\<exists>p. jp_from_str P s = Some p \<and>
        (\<forall>d. json_wf d \<longrightarrow> map_option doc (jp_patch P d p) = rfc6902_apply ops (doc d)
           \<and> pred_option json_wf (jp_patch P d p))))"

section \<open>Reading back what was written\<close>

lemma json_get_doc: "map_option doc (json_get a k) = (case doc a of DObject m \<Rightarrow> m k | _ \<Rightarrow> None)"
  by (cases a) (simp_all add: doc_object)

lemma json_as_str_doc: "json_as_str v = (case doc v of DString s \<Rightarrow> Some s | _ \<Rightarrow> None)"
  by (cases v) (simp_all add: doc_object)

lemma get_str_doc:
  "get_str a k = Option.bind (case doc a of DObject m \<Rightarrow> m k | _ \<Rightarrow> None) (\<lambda>d. case d of DString s \<Rightarrow> Some s | _ \<Rightarrow> None)"
  unfolding json_get_doc [symmetric] by (cases "json_get a k") (simp_all add: get_str_def json_as_str_doc)

lemma json_get_same_doc:
  assumes "doc a = doc b" "json_get b k = Some v"
  obtains w where "json_get a k = Some w" "doc w = doc v"
proof -
  have "map_option doc (json_get a k) = Some (doc v)"
    using assms json_get_doc [of a k] json_get_doc [of b k] by simp
  then show thesis using that by (cases "json_get a k") auto
qed

lemma json_wf_get: "json_wf a \<Longrightarrow> json_get a k = Some v \<Longrightarrow> json_wf v"
  by (cases a) (auto dest: map_of_SomeD)

lemma parse_json_patch_value_wf: "json_laws J N \<Longrightarrow> json_wf (parse_json_patch_value J val)"
  unfolding parse_json_patch_value_def by (cases "js_from_str J val") (auto intro: json_laws_wf)

lemma to_rfc6902_value_wf: "json_laws J N \<Longrightarrow> json_wf (to_rfc6902_value J op)"
  using parse_json_patch_value_wf [of J N] by (cases op) simp_all

lemma parse_printed_value:
  assumes "json_laws J N" "json_wf v" "json_all N v"
  shows "doc (parse_json_patch_value J (js_to_string J v)) = doc v"
proof -
  obtain w where "js_from_str J (js_to_string J v) = Some w" "doc w = doc v"
    by (rule json_laws_print [OF assms])
  then show ?thesis by (simp add: parse_json_patch_value_def)
qed

lemma reread_value:
  assumes J: "json_laws J N" and w: "json_wf w" "doc w = doc u" and u: "json_wf u" "json_all N u"
    and v: "json_get u ''value'' = Some v"
  shows "\<exists>x. json_get w ''value'' = Some x \<and>
    doc (parse_json_patch_value J (json_patch_value_to_string J x)) = doc v"
proof -
  obtain x where x: "json_get w ''value'' = Some x" "doc x = doc v"
    by (rule json_get_same_doc [OF w(2) v])
  have "json_wf x" by (rule json_wf_get [OF w(1) x(1)])
  moreover have "json_all N v" using u(2) v by (cases u) (auto dest: map_of_SomeD)
  then have "json_all N x"
    using \<open>json_wf x\<close> x(2) json_wf_get [OF u(1) v] by (simp add: json_all_doc)
  ultimately show ?thesis
    using x J by (simp add: json_patch_value_to_string_def json_laws_write parse_printed_value)
qed

lemma reread_operation:
  assumes J: "json_laws J N" and all: "json_all N (to_rfc6902_value J op)"
    and w: "json_wf w" "doc w = doc (to_rfc6902_value J op)"
  shows "\<exists>op'. from_rfc6902_value J w = Some op' \<and> doc (to_rfc6902_value J op') = doc (to_rfc6902_value J op)"
proof (cases op)
  case (PatchAdd path val)
  then have "json_get (to_rfc6902_value J op) ''value'' = Some (parse_json_patch_value J val)" by simp
  then obtain x where "json_get w ''value'' = Some x"
    "doc (parse_json_patch_value J (json_patch_value_to_string J x)) = doc (parse_json_patch_value J val)"
    using reread_value [OF J w to_rfc6902_value_wf [OF J] all] by blast
  then show ?thesis
    using w(2) PatchAdd by (simp add: from_rfc6902_value_def get_str_doc doc_object fun_eq_iff)
next
  case (PatchReplace path val)
  then have "json_get (to_rfc6902_value J op) ''value'' = Some (parse_json_patch_value J val)" by simp
  then obtain x where "json_get w ''value'' = Some x"
    "doc (parse_json_patch_value J (json_patch_value_to_string J x)) = doc (parse_json_patch_value J val)"
    using reread_value [OF J w to_rfc6902_value_wf [OF J] all] by blast
  then show ?thesis
    using w(2) PatchReplace by (simp add: from_rfc6902_value_def get_str_doc doc_object fun_eq_iff)
qed (use w(2) in \<open>simp_all add: from_rfc6902_value_def get_str_doc doc_object\<close>)

lemma reread_operations:
  assumes J: "json_laws J N" and all: "\<forall>op \<in> set ops. json_all N (to_rfc6902_value J op)"
    and ws: "\<forall>w \<in> set ws. json_wf w" "map doc ws = map (\<lambda>op. doc (to_rfc6902_value J op)) ops"
  shows "map (\<lambda>op. doc (to_rfc6902_value J op)) (List.map_filter (from_rfc6902_value J) ws)
    = map (\<lambda>op. doc (to_rfc6902_value J op)) ops"
  using all ws
proof (induction ops arbitrary: ws)
  case (Cons op ops)
  then obtain w ws' where c: "ws = w # ws'" "doc w = doc (to_rfc6902_value J op)"
    "map doc ws' = map (\<lambda>op. doc (to_rfc6902_value J op)) ops" by auto
  with Cons.prems obtain op' where "from_rfc6902_value J w = Some op'"
    "doc (to_rfc6902_value J op') = doc (to_rfc6902_value J op)"
    using reread_operation [OF J, of op w] by auto
  then show ?case using Cons.IH [of ws'] Cons.prems c by (simp add: List.map_filter_simps)
qed (simp add: List.map_filter_simps)

lemma written_patch:
  assumes J: "json_laws J N" and all: "\<forall>op \<in> set ops. json_all N (to_rfc6902_value J op)"
  obtains ws where "js_from_str J (json_patch_operations_to_rfc6902_json J ops) = Some (JArray ws)"
    "\<forall>w \<in> set ws. json_wf w" "map doc ws = map (\<lambda>op. doc (to_rfc6902_value J op)) ops"
proof -
  let ?v = "JArray (map (to_rfc6902_value J) ops)"
  have "json_wf ?v" "json_all N ?v" using J all by (auto simp: to_rfc6902_value_wf)
  then obtain s w where w: "js_to_pretty J ?v = Some s" "js_from_str J s = Some w" "doc w = doc ?v" "json_wf w"
    using json_laws_pretty [OF J] by blast
  then obtain ws where "w = JArray ws" by (cases w) (auto simp: doc_object)
  with w show thesis
    by (intro that [of ws]) (auto simp: json_patch_operations_to_rfc6902_json_def comp_def)
qed

end
