(* ===== verification/RotoAction.thy ===== *)
theory RotoAction
  imports FilterTypes JsonPatch
begin

text \<open>
  The action values a Roto script builds and their conversion to actions
  (\<open>src/src/filters/runtime.rs\<close>: the data types, the functions registered with the Roto library, the
  body rewriting and the conversions; \<open>src/src/filters/roto_api.rs\<close>). Regular expressions, base64
  and JSON come from crates: they are the fields of the record \<open>script_lib\<close>.
\<close>

section \<open>Library code the scripts reach\<close>

record ('rx, 'p) script_lib =
  sl_regex_new :: "string \<Rightarrow> 'rx option"
  sl_regex_replace_all :: "'rx \<Rightarrow> string \<Rightarrow> string \<Rightarrow> string"
  sl_base64_decode :: "bytes \<Rightarrow> bytes option"
  sl_json :: json_lib
  sl_patch :: "'p json_patch_lib"

definition decode_base64_roto_string :: "('rx, 'p) script_lib \<Rightarrow> string \<Rightarrow> string option" where
  "decode_base64_roto_string L encoded = Option.bind (sl_base64_decode L encoded) from_utf8"

section \<open>What a script is given\<close>

record roto_connect_data =
  rcd_id :: string
  rcd_host :: string
  rcd_port :: nat

definition roto_connect_data_of :: "filter_connect \<Rightarrow> roto_connect_data" where
  "roto_connect_data_of conn = \<lparr>rcd_id = fc_id conn, rcd_host = fc_host conn, rcd_port = fc_port conn\<rparr>"

record roto_request_data =
  rqd_method :: string
  rqd_scheme :: string
  rqd_host :: string
  rqd_path :: string
  rqd_query :: string
  rqd_content_type :: string
  rqd_body_text :: string

definition text_or_empty :: "string option \<Rightarrow> string" where
  "text_or_empty t = (case t of Some s \<Rightarrow> s | None \<Rightarrow> [])"

definition from_filter_request :: "filter_request \<Rightarrow> roto_request_data" where
  "from_filter_request req = \<lparr>rqd_method = fr_method req, rqd_scheme = fr_scheme req, rqd_host = fr_host req,
     rqd_path = fr_path req, rqd_query = fr_query req,
     rqd_content_type = text_or_empty (fb_content_type (fr_body req)),
     rqd_body_text = text_or_empty (fb_text (fr_body req))\<rparr>"

record roto_response_data =
  rsd_status :: nat
  rsd_version :: string
  rsd_content_type :: string
  rsd_body_text :: string

definition from_filter_response :: "filter_response \<Rightarrow> roto_response_data" where
  "from_filter_response res = \<lparr>rsd_status = fp_status res, rsd_version = fp_version res,
     rsd_content_type = text_or_empty (fb_content_type (fp_body res)),
     rsd_body_text = text_or_empty (fb_text (fp_body res))\<rparr>"

section \<open>Body rewriting\<close>

datatype roto_body_rewrite_op =
    ReplaceTextOnce string string
  | ReplaceTextAll string string
  | ReplaceRegex string string
  | ReplaceTextWhenContains string string string
  | ReplaceJsProperty string string string
  | ReplaceCssDeclaration string string string
  | ReplaceHtmlAttribute string string string string
  | ApplyJsonPatch string string

record applied_body_rewrite =
  abr_body :: string
  abr_content_type :: "string option"

text \<open>\<open>str::replacen(old, new, 1)\<close> and \<open>str::replace(old, new)\<close> at a non-empty pattern, the only one
  they are called with.\<close>

definition replacen_one :: "string \<Rightarrow> string \<Rightarrow> string \<Rightarrow> string" where
  "replacen_one old new s = (case find_sub s old of
     None \<Rightarrow> s
   | Some i \<Rightarrow> take i s @ new @ drop (i + length old) s)"

function replace_str :: "string \<Rightarrow> string \<Rightarrow> string \<Rightarrow> string" where
  "replace_str old new s =
     (if old = [] then s
      else (case find_sub s old of
         None \<Rightarrow> s
       | Some i \<Rightarrow> take i s @ new @ replace_str old new (drop (i + length old) s)))"
  by pat_completeness auto
termination
proof (relation "measure (\<lambda>(_, _, s). length s)", goal_cases)
  case (2 old new s i)
  then show ?case using find_sub_Some [of s old i] by (cases old) auto
qed simp

declare replace_str.simps [simp del]

text \<open>The state of the loop: the body, the content type and whether anything changed.\<close>

type_synonym rewrite_state = "string \<times> string option \<times> bool"

definition replace_once_guarded :: "string list \<Rightarrow> string \<Rightarrow> string \<Rightarrow> rewrite_state \<Rightarrow> rewrite_state" where
  "replace_once_guarded anchors old new = (\<lambda>(body, content_type, changed).
     if list_ex (\<lambda>a. a = []) (anchors @ [old]) \<or> \<not> list_all (contains_sub body) (anchors @ [old])
     then (body, content_type, changed)
     else (replacen_one old new body, content_type, True))"

fun rewrite_step :: "('rx, 'p) script_lib \<Rightarrow> rewrite_state \<Rightarrow> roto_body_rewrite_op \<Rightarrow> rewrite_state" where
  "rewrite_step L st (ReplaceTextOnce old new) = replace_once_guarded [] old new st"
| "rewrite_step L (body, content_type, changed) (ReplaceTextAll old new) =
     (if old = [] \<or> \<not> contains_sub body old then (body, content_type, changed)
      else (replace_str old new body, content_type, True))"
| "rewrite_step L (body, content_type, changed) (ReplaceRegex pattern replacement) =
     (case sl_regex_new L pattern of
        None \<Rightarrow> (body, content_type, changed)
      | Some rx \<Rightarrow>
          (let next = sl_regex_replace_all L rx body replacement in
           if next \<noteq> body then (next, content_type, True) else (body, content_type, changed)))"
| "rewrite_step L st (ReplaceTextWhenContains anchor old new) = replace_once_guarded [anchor] old new st"
| "rewrite_step L st (ReplaceJsProperty property old new) = replace_once_guarded [property] old new st"
| "rewrite_step L st (ReplaceCssDeclaration property old new) = replace_once_guarded [property] old new st"
| "rewrite_step L st (ReplaceHtmlAttribute selector attribute old new) =
     replace_once_guarded [selector, attribute] old new st"
| "rewrite_step L (body, content_type, changed) (ApplyJsonPatch patch_json rewrite_content_type) =
     (case apply_json_patch_rfc6902_json (sl_json L) (sl_patch L) body patch_json of
        None \<Rightarrow> (body, content_type, changed)
      | Some next \<Rightarrow>
          if next \<noteq> body then
            (next, if trim rewrite_content_type \<noteq> [] then Some rewrite_content_type else content_type, True)
          else (body, content_type, changed))"

definition apply_body_rewrite_ops ::
  "('rx, 'p) script_lib \<Rightarrow> string option \<Rightarrow> roto_body_rewrite_op list \<Rightarrow> applied_body_rewrite option" where
  "apply_body_rewrite_ops L original_body_text ops =
     (if ops = [] then None
      else (case original_body_text of
        None \<Rightarrow> None
      | Some text \<Rightarrow>
          (case foldl (rewrite_step L) (text, None, False) ops of
             (body, content_type, changed) \<Rightarrow>
               if changed then Some \<lparr>abr_body = body, abr_content_type = content_type\<rparr> else None)))"

section \<open>Actions a script builds\<close>

record roto_connect_action_data =
  rca_stop :: bool
  rca_drop :: bool
  rca_reject_status :: "nat option"
  rca_marks :: "string list"

definition default_connect_action_data :: roto_connect_action_data where
  "default_connect_action_data = \<lparr>rca_stop = False, rca_drop = False, rca_reject_status = None, rca_marks = []\<rparr>"

definition connect_action_of :: "roto_connect_action_data \<Rightarrow> connect_action" where
  "connect_action_of action =
     \<lparr>ca_marks = map (\<lambda>label. \<lparr>mk_label = label, mk_color = None\<rparr>) (rca_marks action),
      ca_continue_filters = (\<not> rca_stop action),
      ca_drop_tunnel = (rca_drop action \<or> rca_reject_status action \<noteq> None),
      ca_reject_status = rca_reject_status action\<rparr>"

definition connect_action_pass :: roto_connect_action_data where
  "connect_action_pass = default_connect_action_data"

definition connect_action_drop :: roto_connect_action_data where
  "connect_action_drop = default_connect_action_data\<lparr>rca_stop := True, rca_drop := True\<rparr>"

definition connect_action_deny :: "nat \<Rightarrow> roto_connect_action_data" where
  "connect_action_deny status =
     default_connect_action_data\<lparr>rca_stop := True, rca_drop := True, rca_reject_status := Some status\<rparr>"

definition connect_action_stop :: "roto_connect_action_data \<Rightarrow> roto_connect_action_data" where
  "connect_action_stop action = action\<lparr>rca_stop := True\<rparr>"

definition connect_action_mark :: "roto_connect_action_data \<Rightarrow> string \<Rightarrow> roto_connect_action_data" where
  "connect_action_mark action label = action\<lparr>rca_marks := rca_marks action @ [label]\<rparr>"

record roto_request_action_data =
  rqa_set_headers :: "(string \<times> string) list"
  rqa_remove_headers :: "string list"
  rqa_marks :: "string list"
  rqa_body_text :: "string option"
  rqa_body_content_type :: "string option"
  rqa_body_rewrite_ops :: "roto_body_rewrite_op list"
  rqa_synthetic_status :: "nat option"
  rqa_synthetic_body :: "string option"
  rqa_synthetic_content_type :: "string option"
  rqa_stop :: bool
  rqa_drop :: bool

datatype roto_outbound_http_body_data =
    OutText string string
  | OutCapturedRequest
  | OutCapturedResponse
  | OutCapturedRequestJson
  | OutCapturedResponseJson
  | OutCapturedFlowJson

record roto_outbound_http_data =
  roh_client :: string
  roh_method :: string
  roh_path :: string
  roh_body :: roto_outbound_http_body_data

record roto_response_action_data =
  rsa_status :: "nat option"
  rsa_set_headers :: "(string \<times> string) list"
  rsa_remove_headers :: "string list"
  rsa_marks :: "string list"
  rsa_body_text :: "string option"
  rsa_body_content_type :: "string option"
  rsa_body_rewrite_ops :: "roto_body_rewrite_op list"
  rsa_outbound_http :: "roto_outbound_http_data list"
  rsa_stop :: bool
  rsa_drop :: bool

definition request_action_pass :: roto_request_action_data where
  "request_action_pass = \<lparr>rqa_set_headers = [], rqa_remove_headers = [], rqa_marks = [],
     rqa_body_text = None, rqa_body_content_type = None, rqa_body_rewrite_ops = [],
     rqa_synthetic_status = None, rqa_synthetic_body = None, rqa_synthetic_content_type = None,
     rqa_stop = False, rqa_drop = False\<rparr>"

definition response_action_pass :: roto_response_action_data where
  "response_action_pass = \<lparr>rsa_status = None, rsa_set_headers = [], rsa_remove_headers = [], rsa_marks = [],
     rsa_body_text = None, rsa_body_content_type = None, rsa_body_rewrite_ops = [],
     rsa_outbound_http = [], rsa_stop = False, rsa_drop = False\<rparr>"

definition request_action_stop :: "roto_request_action_data \<Rightarrow> roto_request_action_data" where
  "request_action_stop action =
     action\<lparr>rqa_stop := True\<rparr>"

definition request_action_drop :: "roto_request_action_data \<Rightarrow> roto_request_action_data" where
  "request_action_drop action =
     action\<lparr>rqa_stop := True, rqa_drop := True\<rparr>"

definition request_action_mark :: "roto_request_action_data \<Rightarrow> string \<Rightarrow> roto_request_action_data" where
  "request_action_mark action label =
     action\<lparr>rqa_marks := rqa_marks action @ [label]\<rparr>"

definition request_action_set_header :: "roto_request_action_data \<Rightarrow> string \<Rightarrow> string \<Rightarrow> roto_request_action_data" where
  "request_action_set_header action name val =
     action\<lparr>rqa_set_headers := rqa_set_headers action @ [(name, val)]\<rparr>"

definition request_action_remove_header :: "roto_request_action_data \<Rightarrow> string \<Rightarrow> roto_request_action_data" where
  "request_action_remove_header action name =
     action\<lparr>rqa_remove_headers := rqa_remove_headers action @ [name]\<rparr>"

definition request_action_set_body_text :: "roto_request_action_data \<Rightarrow> string \<Rightarrow> string \<Rightarrow> roto_request_action_data" where
  "request_action_set_body_text action body content_type =
     (let action1 = action\<lparr>rqa_body_text := Some body\<rparr> in
      if content_type \<noteq> [] then action1\<lparr>rqa_body_content_type := Some content_type\<rparr> else action1)"

definition request_action_replace_body_text :: "roto_request_action_data \<Rightarrow> string \<Rightarrow> string \<Rightarrow> roto_request_action_data" where
  "request_action_replace_body_text action old new =
     action\<lparr>rqa_body_rewrite_ops := rqa_body_rewrite_ops action @ [ReplaceTextAll old new]\<rparr>"

definition request_action_replace_body_text_once :: "roto_request_action_data \<Rightarrow> string \<Rightarrow> string \<Rightarrow> roto_request_action_data" where
  "request_action_replace_body_text_once action old new =
     action\<lparr>rqa_body_rewrite_ops := rqa_body_rewrite_ops action @ [ReplaceTextOnce old new]\<rparr>"

definition request_action_replace_body_text_all :: "roto_request_action_data \<Rightarrow> string \<Rightarrow> string \<Rightarrow> roto_request_action_data" where
  "request_action_replace_body_text_all action old new =
     action\<lparr>rqa_body_rewrite_ops := rqa_body_rewrite_ops action @ [ReplaceTextAll old new]\<rparr>"

definition request_action_replace_body_regex :: "roto_request_action_data \<Rightarrow> string \<Rightarrow> string \<Rightarrow> roto_request_action_data" where
  "request_action_replace_body_regex action pattern replacement =
     action\<lparr>rqa_body_rewrite_ops := rqa_body_rewrite_ops action @ [ReplaceRegex pattern replacement]\<rparr>"

definition request_action_replace_body_text_when_contains :: "roto_request_action_data \<Rightarrow> string \<Rightarrow> string \<Rightarrow> string \<Rightarrow> roto_request_action_data" where
  "request_action_replace_body_text_when_contains action anchor old new =
     action\<lparr>rqa_body_rewrite_ops := rqa_body_rewrite_ops action @ [ReplaceTextWhenContains anchor old new]\<rparr>"

definition request_action_replace_js_property :: "roto_request_action_data \<Rightarrow> string \<Rightarrow> string \<Rightarrow> string \<Rightarrow> roto_request_action_data" where
  "request_action_replace_js_property action property old new =
     action\<lparr>rqa_body_rewrite_ops := rqa_body_rewrite_ops action @ [ReplaceJsProperty property old new]\<rparr>"

definition request_action_replace_css_declaration :: "roto_request_action_data \<Rightarrow> string \<Rightarrow> string \<Rightarrow> string \<Rightarrow> roto_request_action_data" where
  "request_action_replace_css_declaration action property old new =
     action\<lparr>rqa_body_rewrite_ops := rqa_body_rewrite_ops action @ [ReplaceCssDeclaration property old new]\<rparr>"

definition request_action_replace_html_attribute :: "roto_request_action_data \<Rightarrow> string \<Rightarrow> string \<Rightarrow> string \<Rightarrow> string \<Rightarrow> roto_request_action_data" where
  "request_action_replace_html_attribute action selector attribute old new =
     action\<lparr>rqa_body_rewrite_ops := rqa_body_rewrite_ops action @ [ReplaceHtmlAttribute selector attribute old new]\<rparr>"

definition request_action_apply_json_patch :: "roto_request_action_data \<Rightarrow> string \<Rightarrow> string \<Rightarrow> roto_request_action_data" where
  "request_action_apply_json_patch action patch_json content_type =
     action\<lparr>rqa_body_rewrite_ops := rqa_body_rewrite_ops action @ [ApplyJsonPatch patch_json content_type]\<rparr>"

definition request_action_replace_body_text_once_b64 ::
  "('rx, 'p) script_lib \<Rightarrow> roto_request_action_data \<Rightarrow> string \<Rightarrow> string \<Rightarrow> roto_request_action_data" where
  "request_action_replace_body_text_once_b64 L action old_b64 new_b64 =
     (case decode_base64_roto_string L old_b64 of
        None \<Rightarrow> action
      | Some old \<Rightarrow>
          (case decode_base64_roto_string L new_b64 of
             None \<Rightarrow> action
           | Some new \<Rightarrow> action\<lparr>rqa_body_rewrite_ops := rqa_body_rewrite_ops action @ [ReplaceTextOnce old new]\<rparr>))"

definition request_action_replace_body_text_all_b64 ::
  "('rx, 'p) script_lib \<Rightarrow> roto_request_action_data \<Rightarrow> string \<Rightarrow> string \<Rightarrow> roto_request_action_data" where
  "request_action_replace_body_text_all_b64 L action old_b64 new_b64 =
     (case decode_base64_roto_string L old_b64 of
        None \<Rightarrow> action
      | Some old \<Rightarrow>
          (case decode_base64_roto_string L new_b64 of
             None \<Rightarrow> action
           | Some new \<Rightarrow> action\<lparr>rqa_body_rewrite_ops := rqa_body_rewrite_ops action @ [ReplaceTextAll old new]\<rparr>))"

definition request_action_synthetic_response :: "roto_request_action_data \<Rightarrow> nat \<Rightarrow> string \<Rightarrow> string \<Rightarrow> roto_request_action_data" where
  "request_action_synthetic_response action status body content_type =
     (let action1 = action\<lparr>rqa_synthetic_status := Some status, rqa_synthetic_body := Some body\<rparr>;
          action2 = (if content_type \<noteq> [] then action1\<lparr>rqa_synthetic_content_type := Some content_type\<rparr> else action1)
      in action2\<lparr>rqa_stop := True\<rparr>)"

definition response_action_stop :: "roto_response_action_data \<Rightarrow> roto_response_action_data" where
  "response_action_stop action =
     action\<lparr>rsa_stop := True\<rparr>"

definition response_action_drop :: "roto_response_action_data \<Rightarrow> roto_response_action_data" where
  "response_action_drop action =
     action\<lparr>rsa_stop := True, rsa_drop := True\<rparr>"

definition response_action_mark :: "roto_response_action_data \<Rightarrow> string \<Rightarrow> roto_response_action_data" where
  "response_action_mark action label =
     action\<lparr>rsa_marks := rsa_marks action @ [label]\<rparr>"

definition response_action_set_header :: "roto_response_action_data \<Rightarrow> string \<Rightarrow> string \<Rightarrow> roto_response_action_data" where
  "response_action_set_header action name val =
     action\<lparr>rsa_set_headers := rsa_set_headers action @ [(name, val)]\<rparr>"

definition response_action_remove_header :: "roto_response_action_data \<Rightarrow> string \<Rightarrow> roto_response_action_data" where
  "response_action_remove_header action name =
     action\<lparr>rsa_remove_headers := rsa_remove_headers action @ [name]\<rparr>"

definition response_action_set_body_text :: "roto_response_action_data \<Rightarrow> string \<Rightarrow> string \<Rightarrow> roto_response_action_data" where
  "response_action_set_body_text action body content_type =
     (let action1 = action\<lparr>rsa_body_text := Some body\<rparr> in
      if content_type \<noteq> [] then action1\<lparr>rsa_body_content_type := Some content_type\<rparr> else action1)"

definition response_action_replace_body_text_once :: "roto_response_action_data \<Rightarrow> string \<Rightarrow> string \<Rightarrow> roto_response_action_data" where
  "response_action_replace_body_text_once action old new =
     action\<lparr>rsa_body_rewrite_ops := rsa_body_rewrite_ops action @ [ReplaceTextOnce old new]\<rparr>"

definition response_action_replace_body_text_all :: "roto_response_action_data \<Rightarrow> string \<Rightarrow> string \<Rightarrow> roto_response_action_data" where
  "response_action_replace_body_text_all action old new =
     action\<lparr>rsa_body_rewrite_ops := rsa_body_rewrite_ops action @ [ReplaceTextAll old new]\<rparr>"

definition response_action_replace_body_regex :: "roto_response_action_data \<Rightarrow> string \<Rightarrow> string \<Rightarrow> roto_response_action_data" where
  "response_action_replace_body_regex action pattern replacement =
     action\<lparr>rsa_body_rewrite_ops := rsa_body_rewrite_ops action @ [ReplaceRegex pattern replacement]\<rparr>"

definition response_action_replace_body_text_when_contains :: "roto_response_action_data \<Rightarrow> string \<Rightarrow> string \<Rightarrow> string \<Rightarrow> roto_response_action_data" where
  "response_action_replace_body_text_when_contains action anchor old new =
     action\<lparr>rsa_body_rewrite_ops := rsa_body_rewrite_ops action @ [ReplaceTextWhenContains anchor old new]\<rparr>"

definition response_action_replace_js_property :: "roto_response_action_data \<Rightarrow> string \<Rightarrow> string \<Rightarrow> string \<Rightarrow> roto_response_action_data" where
  "response_action_replace_js_property action property old new =
     action\<lparr>rsa_body_rewrite_ops := rsa_body_rewrite_ops action @ [ReplaceJsProperty property old new]\<rparr>"

definition response_action_replace_css_declaration :: "roto_response_action_data \<Rightarrow> string \<Rightarrow> string \<Rightarrow> string \<Rightarrow> roto_response_action_data" where
  "response_action_replace_css_declaration action property old new =
     action\<lparr>rsa_body_rewrite_ops := rsa_body_rewrite_ops action @ [ReplaceCssDeclaration property old new]\<rparr>"

definition response_action_replace_html_attribute :: "roto_response_action_data \<Rightarrow> string \<Rightarrow> string \<Rightarrow> string \<Rightarrow> string \<Rightarrow> roto_response_action_data" where
  "response_action_replace_html_attribute action selector attribute old new =
     action\<lparr>rsa_body_rewrite_ops := rsa_body_rewrite_ops action @ [ReplaceHtmlAttribute selector attribute old new]\<rparr>"

definition response_action_apply_json_patch :: "roto_response_action_data \<Rightarrow> string \<Rightarrow> string \<Rightarrow> roto_response_action_data" where
  "response_action_apply_json_patch action patch_json content_type =
     action\<lparr>rsa_body_rewrite_ops := rsa_body_rewrite_ops action @ [ApplyJsonPatch patch_json content_type]\<rparr>"

definition response_action_replace_body_text_once_b64 ::
  "('rx, 'p) script_lib \<Rightarrow> roto_response_action_data \<Rightarrow> string \<Rightarrow> string \<Rightarrow> roto_response_action_data" where
  "response_action_replace_body_text_once_b64 L action old_b64 new_b64 =
     (case decode_base64_roto_string L old_b64 of
        None \<Rightarrow> action
      | Some old \<Rightarrow>
          (case decode_base64_roto_string L new_b64 of
             None \<Rightarrow> action
           | Some new \<Rightarrow> action\<lparr>rsa_body_rewrite_ops := rsa_body_rewrite_ops action @ [ReplaceTextOnce old new]\<rparr>))"

definition response_action_replace_body_text_all_b64 ::
  "('rx, 'p) script_lib \<Rightarrow> roto_response_action_data \<Rightarrow> string \<Rightarrow> string \<Rightarrow> roto_response_action_data" where
  "response_action_replace_body_text_all_b64 L action old_b64 new_b64 =
     (case decode_base64_roto_string L old_b64 of
        None \<Rightarrow> action
      | Some old \<Rightarrow>
          (case decode_base64_roto_string L new_b64 of
             None \<Rightarrow> action
           | Some new \<Rightarrow> action\<lparr>rsa_body_rewrite_ops := rsa_body_rewrite_ops action @ [ReplaceTextAll old new]\<rparr>))"

definition response_action_set_status :: "roto_response_action_data \<Rightarrow> nat \<Rightarrow> roto_response_action_data" where
  "response_action_set_status action status =
     action\<lparr>rsa_status := Some status\<rparr>"

definition response_action_post_json :: "roto_response_action_data \<Rightarrow> string \<Rightarrow> string \<Rightarrow> string \<Rightarrow> roto_response_action_data" where
  "response_action_post_json action client path body =
     action\<lparr>rsa_outbound_http := rsa_outbound_http action @
       [\<lparr>roh_client = client, roh_method = ''POST'', roh_path = path, roh_body = OutText body ''application/json''\<rparr>]\<rparr>"

definition response_action_post_text :: "roto_response_action_data \<Rightarrow> string \<Rightarrow> string \<Rightarrow> string \<Rightarrow> roto_response_action_data" where
  "response_action_post_text action client path body =
     action\<lparr>rsa_outbound_http := rsa_outbound_http action @
       [\<lparr>roh_client = client, roh_method = ''POST'', roh_path = path, roh_body = OutText body ''text/plain; charset=utf-8''\<rparr>]\<rparr>"

definition response_action_post_request_raw :: "roto_response_action_data \<Rightarrow> string \<Rightarrow> string \<Rightarrow> roto_response_action_data" where
  "response_action_post_request_raw action client path =
     action\<lparr>rsa_outbound_http := rsa_outbound_http action @
       [\<lparr>roh_client = client, roh_method = ''POST'', roh_path = path, roh_body = OutCapturedRequest\<rparr>]\<rparr>"

definition response_action_post_response_raw :: "roto_response_action_data \<Rightarrow> string \<Rightarrow> string \<Rightarrow> roto_response_action_data" where
  "response_action_post_response_raw action client path =
     action\<lparr>rsa_outbound_http := rsa_outbound_http action @
       [\<lparr>roh_client = client, roh_method = ''POST'', roh_path = path, roh_body = OutCapturedResponse\<rparr>]\<rparr>"

definition response_action_post_request_json :: "roto_response_action_data \<Rightarrow> string \<Rightarrow> string \<Rightarrow> roto_response_action_data" where
  "response_action_post_request_json action client path =
     action\<lparr>rsa_outbound_http := rsa_outbound_http action @
       [\<lparr>roh_client = client, roh_method = ''POST'', roh_path = path, roh_body = OutCapturedRequestJson\<rparr>]\<rparr>"

definition response_action_post_response_json :: "roto_response_action_data \<Rightarrow> string \<Rightarrow> string \<Rightarrow> roto_response_action_data" where
  "response_action_post_response_json action client path =
     action\<lparr>rsa_outbound_http := rsa_outbound_http action @
       [\<lparr>roh_client = client, roh_method = ''POST'', roh_path = path, roh_body = OutCapturedResponseJson\<rparr>]\<rparr>"

definition response_action_post_flow_json :: "roto_response_action_data \<Rightarrow> string \<Rightarrow> string \<Rightarrow> roto_response_action_data" where
  "response_action_post_flow_json action client path =
     action\<lparr>rsa_outbound_http := rsa_outbound_http action @
       [\<lparr>roh_client = client, roh_method = ''POST'', roh_path = path, roh_body = OutCapturedFlowJson\<rparr>]\<rparr>"

section \<open>Conversion to actions\<close>

definition green_marks :: "string list \<Rightarrow> filter_mark list" where
  "green_marks labels = map (\<lambda>label. \<lparr>mk_label = label, mk_color = Some ''green''\<rparr>) labels"

definition header_of_pair :: "string \<times> string \<Rightarrow> filter_header" where
  "header_of_pair = (\<lambda>(name, val). \<lparr>fh_name = name, fh_value = val\<rparr>)"

text \<open>The body of the patch: the text the script set, or else the rewritten text.\<close>

definition script_body_patch ::
  "string option \<Rightarrow> string option \<Rightarrow> applied_body_rewrite option \<Rightarrow> filter_body_patch option" where
  "script_body_patch body_text body_content_type rewritten = (case body_text of
     Some text \<Rightarrow> Some \<lparr>bp_bytes = text, bp_content_type = body_content_type\<rparr>
   | None \<Rightarrow> (case rewritten of
       Some rewrite \<Rightarrow> Some \<lparr>bp_bytes = abr_body rewrite,
         bp_content_type = (case abr_content_type rewrite of Some ct \<Rightarrow> Some ct | None \<Rightarrow> body_content_type)\<rparr>
     | None \<Rightarrow> None))"

definition into_request_action ::
  "('rx, 'p) script_lib \<Rightarrow> roto_request_action_data \<Rightarrow> string option \<Rightarrow> request_action" where
  "into_request_action L self original_body_text =
     (let action0 = request_pass\<lparr>ra_continue_filters := \<not> rqa_stop self, ra_drop_client_response := rqa_drop self\<rparr>;
          action1 = (case rqa_synthetic_status self of
              None \<Rightarrow> action0
            | Some status \<Rightarrow>
                (let headers = (case rqa_synthetic_content_type self of
                       Some ct \<Rightarrow> if trim ct \<noteq> [] then [\<lparr>fh_name = ''content-type'', fh_value = ct\<rparr>] else []
                     | None \<Rightarrow> [])
                 in action0\<lparr>ra_synthetic_response := Some \<lparr>syn_status = status, syn_headers = headers,
                              syn_body = text_or_empty (rqa_synthetic_body self)\<rparr>,
                            ra_continue_filters := False\<rparr>));
          rewritten = apply_body_rewrite_ops L original_body_text (rqa_body_rewrite_ops self);
          action2 = (if rqa_set_headers self \<noteq> [] \<or> rqa_remove_headers self \<noteq> []
                        \<or> rqa_body_text self \<noteq> None \<or> rewritten \<noteq> None
              then action1\<lparr>ra_request := Some (default_request_patch\<lparr>
                     qp_set_headers := map header_of_pair (rqa_set_headers self),
                     qp_remove_headers := rqa_remove_headers self,
                     qp_body := script_body_patch (rqa_body_text self) (rqa_body_content_type self) rewritten\<rparr>)\<rparr>
              else action1)
      in action2\<lparr>ra_marks := green_marks (rqa_marks self)\<rparr>)"

fun outbound_headers_body :: "roto_outbound_http_body_data \<Rightarrow> filter_header list \<times> outbound_http_body_source" where
  "outbound_headers_body (OutText body content_type) =
     ([\<lparr>fh_name = ''content-type'', fh_value = content_type\<rparr>], JobBytes body)"
| "outbound_headers_body OutCapturedRequest =
     ([\<lparr>fh_name = ''content-type'', fh_value = ''application/octet-stream''\<rparr>], CapturedRequest)"
| "outbound_headers_body OutCapturedResponse =
     ([\<lparr>fh_name = ''content-type'', fh_value = ''application/octet-stream''\<rparr>], CapturedResponse)"
| "outbound_headers_body OutCapturedRequestJson =
     ([\<lparr>fh_name = ''content-type'', fh_value = ''application/json''\<rparr>], CapturedRequestJson)"
| "outbound_headers_body OutCapturedResponseJson =
     ([\<lparr>fh_name = ''content-type'', fh_value = ''application/json''\<rparr>], CapturedResponseJson)"
| "outbound_headers_body OutCapturedFlowJson =
     ([\<lparr>fh_name = ''content-type'', fh_value = ''application/json''\<rparr>], CapturedFlowJson)"

definition outbound_job_of :: "roto_outbound_http_data \<Rightarrow> outbound_http_job" where
  "outbound_job_of job = (case outbound_headers_body (roh_body job) of (headers, body) \<Rightarrow>
     \<lparr>job_client = roh_client job, job_method = roh_method job, job_path = roh_path job,
      job_headers = headers, job_body = body\<rparr>)"

definition into_response_action ::
  "('rx, 'p) script_lib \<Rightarrow> roto_response_action_data \<Rightarrow> string option \<Rightarrow> response_action" where
  "into_response_action L self original_body_text =
     (let action0 = response_pass\<lparr>sa_continue_filters := \<not> rsa_stop self, sa_drop_client_response := rsa_drop self\<rparr>;
          rewritten = apply_body_rewrite_ops L original_body_text (rsa_body_rewrite_ops self);
          action1 = (if rsa_status self \<noteq> None \<or> rsa_set_headers self \<noteq> [] \<or> rsa_remove_headers self \<noteq> []
                        \<or> rsa_body_text self \<noteq> None \<or> rewritten \<noteq> None
              then action0\<lparr>sa_response := Some (default_response_patch\<lparr>
                     pp_status := rsa_status self,
                     pp_set_headers := map header_of_pair (rsa_set_headers self),
                     pp_remove_headers := rsa_remove_headers self,
                     pp_body := script_body_patch (rsa_body_text self) (rsa_body_content_type self) rewritten\<rparr>)\<rparr>
              else action0)
      in action1\<lparr>sa_marks := green_marks (rsa_marks self),
                 sa_outbound_http := map outbound_job_of (rsa_outbound_http self)\<rparr>)"

section \<open>The built-in actions\<close>

text \<open>The builders of \<open>RotoRequestAction\<close> and \<open>RotoResponseAction\<close>, which act on the actions themselves;
  \<open>get_or_insert_with\<close> on the patch is \<open>the_request_patch\<close> and \<open>the_response_patch\<close>.\<close>

definition the_request_patch :: "request_action \<Rightarrow> filter_request_patch" where
  "the_request_patch a = (case ra_request a of Some p \<Rightarrow> p | None \<Rightarrow> default_request_patch)"

definition the_response_patch :: "response_action \<Rightarrow> filter_response_patch" where
  "the_response_patch a = (case sa_response a of Some p \<Rightarrow> p | None \<Rightarrow> default_response_patch)"

definition api_request_bypass_proxy :: "request_action \<Rightarrow> request_action" where
  "api_request_bypass_proxy a = a\<lparr>ra_bypass_upstream_proxy := True\<rparr>"

definition api_request_set_header :: "request_action \<Rightarrow> string \<Rightarrow> string \<Rightarrow> request_action" where
  "api_request_set_header a name val = a\<lparr>ra_request := Some ((the_request_patch a)\<lparr>
     qp_set_headers := qp_set_headers (the_request_patch a) @ [\<lparr>fh_name = name, fh_value = val\<rparr>]\<rparr>)\<rparr>"

definition api_request_remove_header :: "request_action \<Rightarrow> string \<Rightarrow> request_action" where
  "api_request_remove_header a name = a\<lparr>ra_request := Some ((the_request_patch a)\<lparr>
     qp_remove_headers := qp_remove_headers (the_request_patch a) @ [name]\<rparr>)\<rparr>"

definition api_request_set_path :: "request_action \<Rightarrow> string \<Rightarrow> request_action" where
  "api_request_set_path a path = a\<lparr>ra_request := Some ((the_request_patch a)\<lparr>qp_path := Some path\<rparr>)\<rparr>"

definition api_request_set_query :: "request_action \<Rightarrow> string \<Rightarrow> request_action" where
  "api_request_set_query a query = a\<lparr>ra_request := Some ((the_request_patch a)\<lparr>qp_query := Some query\<rparr>)\<rparr>"

definition api_request_set_body_text :: "request_action \<Rightarrow> string \<Rightarrow> string option \<Rightarrow> request_action" where
  "api_request_set_body_text a text content_type = a\<lparr>ra_request := Some ((the_request_patch a)\<lparr>
     qp_body := Some \<lparr>bp_bytes = text, bp_content_type = content_type\<rparr>\<rparr>)\<rparr>"

definition api_request_mark :: "request_action \<Rightarrow> string \<Rightarrow> request_action" where
  "api_request_mark a label = a\<lparr>ra_marks := ra_marks a @ [\<lparr>mk_label = label, mk_color = None\<rparr>]\<rparr>"

definition api_request_mark_color :: "request_action \<Rightarrow> string \<Rightarrow> string \<Rightarrow> request_action" where
  "api_request_mark_color a label color = a\<lparr>ra_marks := ra_marks a @ [\<lparr>mk_label = label, mk_color = Some color\<rparr>]\<rparr>"

definition api_response_set_status :: "response_action \<Rightarrow> nat \<Rightarrow> response_action" where
  "api_response_set_status a status = a\<lparr>sa_response := Some ((the_response_patch a)\<lparr>pp_status := Some status\<rparr>)\<rparr>"

definition api_response_set_header :: "response_action \<Rightarrow> string \<Rightarrow> string \<Rightarrow> response_action" where
  "api_response_set_header a name val = a\<lparr>sa_response := Some ((the_response_patch a)\<lparr>
     pp_set_headers := pp_set_headers (the_response_patch a) @ [\<lparr>fh_name = name, fh_value = val\<rparr>]\<rparr>)\<rparr>"

definition api_response_remove_header :: "response_action \<Rightarrow> string \<Rightarrow> response_action" where
  "api_response_remove_header a name = a\<lparr>sa_response := Some ((the_response_patch a)\<lparr>
     pp_remove_headers := pp_remove_headers (the_response_patch a) @ [name]\<rparr>)\<rparr>"

definition api_response_set_body_text :: "response_action \<Rightarrow> string \<Rightarrow> string option \<Rightarrow> response_action" where
  "api_response_set_body_text a text content_type = a\<lparr>sa_response := Some ((the_response_patch a)\<lparr>
     pp_body := Some \<lparr>bp_bytes = text, bp_content_type = content_type\<rparr>\<rparr>)\<rparr>"

definition api_response_mark :: "response_action \<Rightarrow> string \<Rightarrow> response_action" where
  "api_response_mark a label = a\<lparr>sa_marks := sa_marks a @ [\<lparr>mk_label = label, mk_color = None\<rparr>]\<rparr>"

definition api_response_mark_color :: "response_action \<Rightarrow> string \<Rightarrow> string \<Rightarrow> response_action" where
  "api_response_mark_color a label color = a\<lparr>sa_marks := sa_marks a @ [\<lparr>mk_label = label, mk_color = Some color\<rparr>]\<rparr>"

fun first_header :: "filter_header list \<Rightarrow> string \<Rightarrow> string option" where
  "first_header [] name = None"
| "first_header (h # hs) name = (if eq_ignore_ascii_case (fh_name h) name then Some (fh_value h) else first_header hs name)"

section \<open>Properties\<close>

lemma join_with_Cons: "ws \<noteq> [] \<Longrightarrow> join_with sep (w # ws) = w @ sep @ join_with sep ws"
  by (cases ws) auto

lemma find_sub_prefix_free:
  assumes "find_sub s old = Some i" and "old \<noteq> []"
  shows "\<not> contains_sub (take i s) old"
proof
  assume "contains_sub (take i s) old"
  then obtain a r where a: "take i s = a @ old @ r" by (auto simp: contains_sub_iff)
  then have "length (a @ old @ r) \<le> i" by (metis length_take min.cobounded2)
  then have "length a < i" using assms(2) by (cases old) auto
  moreover have "s = a @ old @ r @ drop i s" using a by (metis append_take_drop_id append.assoc)
  ultimately show False using find_sub_leftmost [of a old "r @ drop i s" i] assms(1) by simp
qed

text \<open>The pieces of a text between the occurrences of a pattern, from the left.\<close>

lemma replace_str_pieces:
  "old \<noteq> [] \<Longrightarrow> \<exists>pieces. pieces \<noteq> [] \<and> s = join_with old pieces
     \<and> (\<forall>p \<in> set pieces. \<not> contains_sub p old)
     \<and> (\<forall>new. replace_str old new s = join_with new pieces)"
proof (induction "length s" arbitrary: s rule: less_induct)
  case less
  show ?case
  proof (cases "find_sub s old")
    case None
    then have "\<not> contains_sub s old" by (simp add: contains_sub_def)
    moreover have "replace_str old new s = s" for new using None by (simp add: replace_str.simps)
    ultimately show ?thesis by (intro exI [of _ "[s]"]) auto
  next
    case (Some i)
    let ?t = "drop (i + length old) s"
    obtain r where r: "s = take i s @ old @ r" and len: "i + length old \<le> length s"
      using find_sub_Some [OF Some] by blast
    have t: "?t = r"
      by (metis add.commute append_eq_conv_conj drop_drop length_take min.absorb2 le_add1 le_trans len r)
    have "length ?t < length s" using len less.prems by (cases old) auto
    from less.hyps [OF this less.prems] obtain pieces where
      p: "pieces \<noteq> []" "?t = join_with old pieces" "\<forall>p \<in> set pieces. \<not> contains_sub p old"
        "\<forall>new. replace_str old new ?t = join_with new pieces"
      by blast
    have "s = join_with old (take i s # pieces)" using r t p(1,2) by (simp add: join_with_Cons)
    moreover have "replace_str old new s = join_with new (take i s # pieces)" for new
      using Some less.prems p(1,4) by (simp add: replace_str.simps [of old new s] join_with_Cons)
    ultimately show ?thesis
      using p(3) find_sub_prefix_free [OF Some less.prems] by (intro exI [of _ "take i s # pieces"]) auto
  qed
qed

text \<open>Replacing a text everywhere in a body: the body is cut at every occurrence of the old text into
  pieces none of which contains it, and the new body is the same pieces with the new text between
  them. What is not an occurrence is untouched, and replacing a text by itself changes nothing.\<close>

theorem replace_all_body:
  assumes "old \<noteq> []" and "contains_sub body old"
  shows "\<exists>pieces. body = join_with old pieces \<and> (\<forall>p \<in> set pieces. \<not> contains_sub p old)
     \<and> rewrite_step L (body, ct, ch) (ReplaceTextAll old new) = (join_with new pieces, ct, True)"
  using replace_str_pieces [OF assms(1), of body] assms by auto

definition plain_lib :: "(string, string) script_lib" where
  "plain_lib = \<lparr>sl_regex_new = Some, sl_regex_replace_all = (\<lambda>rx s new. replace_str rx new s), sl_base64_decode = Some,
     sl_json = sample_json,
     sl_patch = \<lparr>jp_diff = (\<lambda>_ _. []), jp_from_str = Some, jp_write = Some, jp_to_pretty = Some,
       jp_patch = (\<lambda>_ p. Some (JString p)), jp_merge = (\<lambda>_ v. v)\<rparr>\<rparr>"

theorem replace_all_body_witness:
  "\<exists>pieces. ''axbxc'' = join_with ''x'' pieces \<and> (\<forall>p \<in> set pieces. \<not> contains_sub p ''x'')
     \<and> rewrite_step plain_lib (''axbxc'', None, False) (ReplaceTextAll ''x'' ''yy'') = (join_with ''yy'' pieces, None, True)"
  by (rule replace_all_body) (simp, code_simp)

lemma rewrite_step_unchanged:
  "rewrite_step L (b, ct, ch) op = (b', ct', ch') \<Longrightarrow> (\<not> ch' \<longrightarrow> b' = b \<and> ct' = ct) \<and> (ch \<longrightarrow> ch')"
  by (cases op) (auto simp: replace_once_guarded_def Let_def split: if_splits option.splits)

lemma rewrites_unchanged:
  "foldl (rewrite_step L) (b, ct, ch) ops = (b', ct', ch') \<Longrightarrow> (\<not> ch' \<longrightarrow> b' = b \<and> ct' = ct) \<and> (ch \<longrightarrow> ch')"
proof (induction ops arbitrary: b ct ch)
  case (Cons op ops)
  obtain b1 ct1 ch1 where s: "rewrite_step L (b, ct, ch) op = (b1, ct1, ch1)"
    using prod_cases3 by blast
  then show ?case using Cons.IH [of b1 ct1 ch1] Cons.prems rewrite_step_unchanged [OF s] by auto
qed auto

text \<open>The rewrite operations of an action are applied in order to the decoded text of the message, and
  a body patch is produced only if one of them applied: otherwise the text is what it was and the
  message keeps its bytes and headers. A message whose body is not text is never rewritten.\<close>

theorem rewrite_only_on_change:
  "(case apply_body_rewrite_ops L (Some text) ops of
      None \<Rightarrow> foldl (rewrite_step L) (text, None, False) ops = (text, None, False)
    | Some rewrite \<Rightarrow> foldl (rewrite_step L) (text, None, False) ops = (abr_body rewrite, abr_content_type rewrite, True))
   \<and> apply_body_rewrite_ops L None ops = None"
proof -
  obtain b ct ch where f: "foldl (rewrite_step L) (text, None, False) ops = (b, ct, ch)"
    using prod_cases3 by blast
  then show ?thesis using rewrites_unchanged [OF f] by (auto simp: apply_body_rewrite_ops_def)
qed

text \<open>What a script's request action can do: it never changes the method, the path or the query; with a
  synthetic response it always stops later filters; a drop is passed on; a body set explicitly
  wins over rewrite operations; and the untouched action is a plain pass.\<close>

theorem script_request_action_shape:
  "(\<forall>patch. ra_request (into_request_action L a text) = Some patch \<longrightarrow>
      qp_method patch = None \<and> qp_path patch = None \<and> qp_query patch = None
      \<and> (\<forall>body. rqa_body_text a = Some body \<longrightarrow> map_option bp_bytes (qp_body patch) = Some body))
   \<and> (rqa_synthetic_status a \<noteq> None \<longrightarrow> \<not> ra_continue_filters (into_request_action L a text)
        \<and> map_option syn_status (ra_synthetic_response (into_request_action L a text)) = rqa_synthetic_status a)
   \<and> ra_drop_client_response (into_request_action L a text) = rqa_drop a
   \<and> into_request_action L request_action_pass text = request_pass"
  by (auto simp: into_request_action_def Let_def script_body_patch_def default_request_patch_def
      request_pass_def request_action_pass_def apply_body_rewrite_ops_def green_marks_def split: option.splits if_splits)

theorem script_request_action_shape_witness:
  "\<not> ra_continue_filters (into_request_action plain_lib
      (request_action_synthetic_response request_action_pass 200 ''ok'' ''text/plain'') None)"
proof -
  have "rqa_synthetic_status (request_action_synthetic_response request_action_pass 200 ''ok'' ''text/plain'') \<noteq> None"
    by (simp add: request_action_synthetic_response_def Let_def)
  then show ?thesis using script_request_action_shape by blast
qed

end
