(* ===== verification/StateStore.thy ===== *)
theory StateStore
  imports Prelude
begin

text \<open>
  The filter state store of \<open>src/src/mitm/flow/state_store.rs\<close>: entries keyed by connection,
  filter and user key, a byte account per connection, per filter and in total, four limits and
  a time to live. The mutex makes every operation atomic, so an operation is a function on the
  store. An \<open>Instant\<close> is its distance in nanoseconds from a fixed origin and \<open>duration_since\<close>
  saturates at zero, as the subtraction of natural numbers does. Sums are natural numbers;
  \<open>store_put_checked\<close> is the put with its additions at the width of \<open>usize\<close>.
\<close>

section \<open>Data\<close>

record filter_state_limits =
  lim_ttl :: time
  lim_max_entry_bytes :: nat
  lim_max_connection_bytes :: nat
  lim_max_filter_bytes :: nat
  lim_max_total_bytes :: nat

definition default_filter_state_limits :: filter_state_limits where
  "default_filter_state_limits = \<lparr>
     lim_ttl = 60 * 10 ^ 9,
     lim_max_entry_bytes = 256 * 1024,
     lim_max_connection_bytes = 2 * 1024 * 1024,
     lim_max_filter_bytes = 16 * 1024 * 1024,
     lim_max_total_bytes = 128 * 1024 * 1024\<rparr>"

record state_op_stats =
  st_read_bytes :: int
  st_write_bytes :: int
  st_state_items :: int
  st_evicted_items :: int
  st_limit_hit :: bool

definition default_stats :: state_op_stats where
  "default_stats = \<lparr>st_read_bytes = 0, st_write_bytes = 0, st_state_items = 0,
     st_evicted_items = 0, st_limit_hit = False\<rparr>"

datatype state_put_outcome =
    Stored
  | Replaced
  | RejectedEntryTooLarge
  | RejectedConnectionLimit
  | RejectedFilterLimit
  | RejectedTotalLimit

record state_key =
  key_connection_id :: string
  key_filter_name :: string
  key_user_key :: string

record state_entry =
  ent_value :: bytes
  ent_created_at :: time
  ent_last_access_at :: time

record state_index =
  idx_entries :: "(state_key, state_entry) hash_map"
  idx_connection_bytes :: "(string, nat) hash_map"
  idx_filter_bytes :: "(string, nat) hash_map"
  idx_total_bytes :: nat

definition default_index :: state_index where
  "default_index = \<lparr>idx_entries = [], idx_connection_bytes = [], idx_filter_bytes = [],
     idx_total_bytes = 0\<rparr>"

record filter_state_store =
  fss_limits :: filter_state_limits
  fss_inner :: state_index

definition new_store :: "filter_state_limits \<Rightarrow> filter_state_store" where
  "new_store limits = \<lparr>fss_limits = limits, fss_inner = default_index\<rparr>"

definition state_key_of :: "string \<Rightarrow> string \<Rightarrow> string \<Rightarrow> state_key" where
  "state_key_of c f k = \<lparr>key_connection_id = c, key_filter_name = f, key_user_key = k\<rparr>"

section \<open>Operations\<close>

definition items_of :: "state_index \<Rightarrow> int" where
  "items_of inner = int (length (idx_entries inner))"

text \<open>The account of one connection or filter after \<open>len\<close> bytes left it: the entry of the
  map is removed when it reaches zero.\<close>

definition release_bytes :: "string \<Rightarrow> nat \<Rightarrow> (string, nat) hash_map \<Rightarrow> (string, nat) hash_map" where
  "release_bytes c len m = (case hm_get m c of
     None \<Rightarrow> m
   | Some used \<Rightarrow> if used - len = 0 then hm_remove c m else hm_insert c (used - len) m)"

definition drop_entry :: "state_index \<Rightarrow> state_key \<Rightarrow> bool \<times> state_index" where
  "drop_entry inner key = (case hm_get (idx_entries inner) key of
     None \<Rightarrow> (False, inner)
   | Some entry \<Rightarrow>
       (let len = length (ent_value entry) in
        (True, inner\<lparr>
          idx_entries := hm_remove key (idx_entries inner),
          idx_total_bytes := idx_total_bytes inner - len,
          idx_connection_bytes := release_bytes (key_connection_id key) len (idx_connection_bytes inner),
          idx_filter_bytes := release_bytes (key_filter_name key) len (idx_filter_bytes inner)\<rparr>)))"

definition entry_expired :: "time \<Rightarrow> time \<Rightarrow> state_entry \<Rightarrow> bool" where
  "entry_expired ttl now entry \<longleftrightarrow>
     now - ent_last_access_at entry > ttl \<or> now - ent_created_at entry > ttl"

fun drop_entries :: "state_key list \<Rightarrow> state_index \<Rightarrow> state_op_stats \<Rightarrow> state_index \<times> state_op_stats" where
  "drop_entries [] inner stats = (inner, stats)"
| "drop_entries (key # keys) inner stats =
     (case drop_entry inner key of (dropped, inner') \<Rightarrow>
        drop_entries keys inner'
          (if dropped then stats\<lparr>st_evicted_items := st_evicted_items stats + 1\<rparr> else stats))"

definition sweep_expired_locked ::
  "state_index \<Rightarrow> time \<Rightarrow> time \<Rightarrow> state_op_stats \<Rightarrow> state_index \<times> state_op_stats" where
  "sweep_expired_locked inner ttl now stats =
     drop_entries (map fst (filter (\<lambda>(key, entry). entry_expired ttl now entry) (idx_entries inner)))
       inner stats"

definition store_get ::
  "filter_state_store \<Rightarrow> time \<Rightarrow> string \<Rightarrow> string \<Rightarrow> string
   \<Rightarrow> (bytes option \<times> state_op_stats) \<times> filter_state_store" where
  "store_get s now connection_id filter_name user_key =
     (let key = state_key_of connection_id filter_name user_key; inner = fss_inner s in
      case hm_get (idx_entries inner) key of
        None \<Rightarrow> ((None, default_stats\<lparr>st_state_items := items_of inner\<rparr>), s)
      | Some entry \<Rightarrow>
          if now - ent_last_access_at entry > lim_ttl (fss_limits s) then
            (let inner' = snd (drop_entry inner key) in
             ((None, default_stats\<lparr>st_evicted_items := 1, st_state_items := items_of inner'\<rparr>),
              s\<lparr>fss_inner := inner'\<rparr>))
          else
            (let inner' = inner\<lparr>idx_entries :=
                   hm_insert key (entry\<lparr>ent_last_access_at := now\<rparr>) (idx_entries inner)\<rparr> in
             ((Some (ent_value entry), default_stats\<lparr>
                 st_read_bytes := int (length (ent_value entry)),
                 st_state_items := items_of inner'\<rparr>),
              s\<lparr>fss_inner := inner'\<rparr>)))"

definition bytes_used :: "(string, nat) hash_map \<Rightarrow> string \<Rightarrow> nat" where
  "bytes_used m c = (case hm_get m c of None \<Rightarrow> 0 | Some n \<Rightarrow> n)"

definition store_put ::
  "filter_state_store \<Rightarrow> time \<Rightarrow> string \<Rightarrow> string \<Rightarrow> string \<Rightarrow> bytes
   \<Rightarrow> (state_put_outcome \<times> state_op_stats) \<times> filter_state_store" where
  "store_put s now connection_id filter_name user_key value =
     (let L = fss_limits s in
      if length value > lim_max_entry_bytes L then
        ((RejectedEntryTooLarge, default_stats\<lparr>st_limit_hit := True\<rparr>), s)
      else
        (let key = state_key_of connection_id filter_name user_key;
             (inner, stats) = sweep_expired_locked (fss_inner s) (lim_ttl L) now default_stats;
             old_len = (case hm_get (idx_entries inner) key of None \<Rightarrow> 0 | Some entry \<Rightarrow> length (ent_value entry));
             delta = length value - old_len;
             conn_used = bytes_used (idx_connection_bytes inner) connection_id;
             filter_used = bytes_used (idx_filter_bytes inner) filter_name;
             rejected = stats\<lparr>st_limit_hit := True, st_state_items := items_of inner\<rparr>
         in
         if conn_used + delta > lim_max_connection_bytes L then
           ((RejectedConnectionLimit, rejected), s\<lparr>fss_inner := inner\<rparr>)
         else if filter_used + delta > lim_max_filter_bytes L then
           ((RejectedFilterLimit, rejected), s\<lparr>fss_inner := inner\<rparr>)
         else if idx_total_bytes inner + delta > lim_max_total_bytes L then
           ((RejectedTotalLimit, rejected), s\<lparr>fss_inner := inner\<rparr>)
         else
           (let outcome = (if hm_get (idx_entries inner) key \<noteq> None then Replaced else Stored);
                inner' = inner\<lparr>
                  idx_total_bytes := idx_total_bytes inner + delta,
                  idx_connection_bytes := hm_insert connection_id (conn_used + delta) (idx_connection_bytes inner),
                  idx_filter_bytes := hm_insert filter_name (filter_used + delta) (idx_filter_bytes inner),
                  idx_entries := hm_insert key
                    \<lparr>ent_value = value, ent_created_at = now, ent_last_access_at = now\<rparr> (idx_entries inner)\<rparr>
            in
            ((outcome, stats\<lparr>st_write_bytes := int delta, st_state_items := items_of inner'\<rparr>),
             s\<lparr>fss_inner := inner'\<rparr>))))"

text \<open>The same put with its additions at the width of \<open>usize\<close>: \<open>None\<close> where one of them
  overflows, which panics in a debug build and wraps in a release build.\<close>

definition usize_add :: "nat \<Rightarrow> nat \<Rightarrow> nat option" where
  "usize_add a b = (if a + b \<le> usize_max then Some (a + b) else None)"

definition store_put_checked ::
  "filter_state_store \<Rightarrow> time \<Rightarrow> string \<Rightarrow> string \<Rightarrow> string \<Rightarrow> bytes
   \<Rightarrow> ((state_put_outcome \<times> state_op_stats) \<times> filter_state_store) option" where
  "store_put_checked s now connection_id filter_name user_key value =
     (let L = fss_limits s in
      if length value > lim_max_entry_bytes L then
        Some ((RejectedEntryTooLarge, default_stats\<lparr>st_limit_hit := True\<rparr>), s)
      else
        (let key = state_key_of connection_id filter_name user_key;
             (inner, stats) = sweep_expired_locked (fss_inner s) (lim_ttl L) now default_stats;
             old_len = (case hm_get (idx_entries inner) key of None \<Rightarrow> 0 | Some entry \<Rightarrow> length (ent_value entry));
             delta = length value - old_len;
             conn_used = bytes_used (idx_connection_bytes inner) connection_id;
             filter_used = bytes_used (idx_filter_bytes inner) filter_name;
             rejected = stats\<lparr>st_limit_hit := True, st_state_items := items_of inner\<rparr>
         in
         Option.bind (usize_add conn_used delta) (\<lambda>conn_new.
         if conn_new > lim_max_connection_bytes L then
           Some ((RejectedConnectionLimit, rejected), s\<lparr>fss_inner := inner\<rparr>)
         else
         Option.bind (usize_add filter_used delta) (\<lambda>filter_new.
         if filter_new > lim_max_filter_bytes L then
           Some ((RejectedFilterLimit, rejected), s\<lparr>fss_inner := inner\<rparr>)
         else
         Option.bind (usize_add (idx_total_bytes inner) delta) (\<lambda>total_new.
         if total_new > lim_max_total_bytes L then
           Some ((RejectedTotalLimit, rejected), s\<lparr>fss_inner := inner\<rparr>)
         else
           (let outcome = (if hm_get (idx_entries inner) key \<noteq> None then Replaced else Stored);
                inner' = inner\<lparr>
                  idx_total_bytes := total_new,
                  idx_connection_bytes := hm_insert connection_id conn_new (idx_connection_bytes inner),
                  idx_filter_bytes := hm_insert filter_name filter_new (idx_filter_bytes inner),
                  idx_entries := hm_insert key
                    \<lparr>ent_value = value, ent_created_at = now, ent_last_access_at = now\<rparr> (idx_entries inner)\<rparr>
            in
            Some ((outcome, stats\<lparr>st_write_bytes := int delta, st_state_items := items_of inner'\<rparr>),
             s\<lparr>fss_inner := inner'\<rparr>)))))))"

definition store_delete ::
  "filter_state_store \<Rightarrow> string \<Rightarrow> string \<Rightarrow> string \<Rightarrow> state_op_stats \<times> filter_state_store" where
  "store_delete s connection_id filter_name user_key =
     (let (dropped, inner) = drop_entry (fss_inner s) (state_key_of connection_id filter_name user_key) in
      (default_stats\<lparr>st_evicted_items := (if dropped then 1 else 0), st_state_items := items_of inner\<rparr>,
       s\<lparr>fss_inner := inner\<rparr>))"

definition sweep_expired :: "filter_state_store \<Rightarrow> time \<Rightarrow> state_op_stats \<times> filter_state_store" where
  "sweep_expired s now =
     (let (inner, stats) = sweep_expired_locked (fss_inner s) (lim_ttl (fss_limits s)) now default_stats in
      (stats\<lparr>st_state_items := items_of inner\<rparr>, s\<lparr>fss_inner := inner\<rparr>))"

section \<open>The invariant\<close>

text \<open>Bytes really held, against the bytes accounted for.\<close>

abbreviation entry_len :: "state_entry \<Rightarrow> nat" where
  "entry_len e \<equiv> length (ent_value e)"

definition held_by_connection :: "state_index \<Rightarrow> string \<Rightarrow> nat" where
  "held_by_connection inner c = weight_of entry_len (\<lambda>k. key_connection_id k = c) (idx_entries inner)"

definition held_by_filter :: "state_index \<Rightarrow> string \<Rightarrow> nat" where
  "held_by_filter inner f = weight_of entry_len (\<lambda>k. key_filter_name k = f) (idx_entries inner)"

definition held_total :: "state_index \<Rightarrow> nat" where
  "held_total inner = weight_of entry_len (\<lambda>k. True) (idx_entries inner)"

definition index_wf :: "state_index \<Rightarrow> bool" where
  "index_wf inner \<longleftrightarrow> hm_wf (idx_entries inner) \<and> hm_wf (idx_connection_bytes inner)
     \<and> hm_wf (idx_filter_bytes inner)"

definition index_covered :: "state_index \<Rightarrow> bool" where
  "index_covered inner \<longleftrightarrow>
     (\<forall>c. held_by_connection inner c \<le> bytes_used (idx_connection_bytes inner) c)
   \<and> (\<forall>f. held_by_filter inner f \<le> bytes_used (idx_filter_bytes inner) f)
   \<and> held_total inner \<le> idx_total_bytes inner"

definition index_exact :: "state_index \<Rightarrow> bool" where
  "index_exact inner \<longleftrightarrow>
     (\<forall>c. held_by_connection inner c = bytes_used (idx_connection_bytes inner) c)
   \<and> (\<forall>f. held_by_filter inner f = bytes_used (idx_filter_bytes inner) f)
   \<and> held_total inner = idx_total_bytes inner"

definition index_bounded :: "filter_state_limits \<Rightarrow> state_index \<Rightarrow> bool" where
  "index_bounded L inner \<longleftrightarrow>
     (\<forall>c. bytes_used (idx_connection_bytes inner) c \<le> lim_max_connection_bytes L)
   \<and> (\<forall>f. bytes_used (idx_filter_bytes inner) f \<le> lim_max_filter_bytes L)
   \<and> idx_total_bytes inner \<le> lim_max_total_bytes L
   \<and> (\<forall>k e. hm_get (idx_entries inner) k = Some e \<longrightarrow> entry_len e \<le> lim_max_entry_bytes L)"

definition store_inv :: "filter_state_store \<Rightarrow> bool" where
  "store_inv s \<longleftrightarrow> index_wf (fss_inner s) \<and> index_covered (fss_inner s)
     \<and> index_bounded (fss_limits s) (fss_inner s)"

definition exact_inv :: "filter_state_store \<Rightarrow> bool" where
  "exact_inv s \<longleftrightarrow> index_wf (fss_inner s) \<and> index_exact (fss_inner s)"

lemmas held_defs = held_by_connection_def held_by_filter_def held_total_def
lemmas index_inv_defs = index_wf_def index_covered_def index_bounded_def index_exact_def

section \<open>The byte accounts\<close>

lemma bytes_used_insert [simp]:
  "bytes_used (hm_insert c n m) c' = (if c' = c then n else bytes_used m c')"
  by (simp add: bytes_used_def)

lemma bytes_used_release [simp]:
  "bytes_used (release_bytes c len m) c' = (if c' = c then bytes_used m c - len else bytes_used m c')"
  by (auto simp: release_bytes_def bytes_used_def split: option.splits)

lemma hm_wf_release [simp]: "hm_wf m \<Longrightarrow> hm_wf (release_bytes c len m)"
  by (auto simp: release_bytes_def split: option.splits)

lemma drop_entry_None [simp]: "hm_get (idx_entries inner) key = None \<Longrightarrow> drop_entry inner key = (False, inner)"
  by (simp add: drop_entry_def)

lemma drop_entry_entries [simp]:
  "hm_get (idx_entries (snd (drop_entry inner key))) = (hm_get (idx_entries inner))(key := None)"
  by (auto simp: drop_entry_def Let_def split: option.splits)

lemma drop_entry_fst [simp]: "fst (drop_entry inner key) \<longleftrightarrow> hm_get (idx_entries inner) key \<noteq> None"
  by (auto simp: drop_entry_def Let_def split: option.splits)

lemma drop_entry_wf [simp]: "index_wf inner \<Longrightarrow> index_wf (snd (drop_entry inner key))"
  by (auto simp: drop_entry_def Let_def index_wf_def split: option.splits)

lemma drop_entry_held:
  assumes "index_wf inner" and "hm_get (idx_entries inner) key = Some e"
  shows "held_by_connection inner c = held_by_connection (snd (drop_entry inner key)) c
           + (if key_connection_id key = c then entry_len e else 0)"
    and "held_by_filter inner f = held_by_filter (snd (drop_entry inner key)) f
           + (if key_filter_name key = f then entry_len e else 0)"
    and "held_total inner = held_total (snd (drop_entry inner key)) + entry_len e"
  using assms weight_of_remove [of "idx_entries inner" key e entry_len]
  by (simp_all add: held_defs index_wf_def drop_entry_def Let_def)

lemma drop_entry_accounts:
  assumes "hm_get (idx_entries inner) key = Some e"
  shows "bytes_used (idx_connection_bytes (snd (drop_entry inner key))) c
           = bytes_used (idx_connection_bytes inner) c - (if key_connection_id key = c then entry_len e else 0)"
    and "bytes_used (idx_filter_bytes (snd (drop_entry inner key))) f
           = bytes_used (idx_filter_bytes inner) f - (if key_filter_name key = f then entry_len e else 0)"
    and "idx_total_bytes (snd (drop_entry inner key)) = idx_total_bytes inner - entry_len e"
  using assms by (simp_all add: drop_entry_def Let_def)

lemma index_coveredD:
  assumes "index_covered inner"
  shows "held_by_connection inner c \<le> bytes_used (idx_connection_bytes inner) c"
    and "held_by_filter inner f \<le> bytes_used (idx_filter_bytes inner) f"
    and "held_total inner \<le> idx_total_bytes inner"
  using assms by (simp_all add: index_covered_def)

lemma index_exactD:
  assumes "index_exact inner"
  shows "held_by_connection inner c = bytes_used (idx_connection_bytes inner) c"
    and "held_by_filter inner f = bytes_used (idx_filter_bytes inner) f"
    and "held_total inner = idx_total_bytes inner"
  using assms by (simp_all add: index_exact_def)

lemma index_boundedD:
  assumes "index_bounded L inner"
  shows "bytes_used (idx_connection_bytes inner) c \<le> lim_max_connection_bytes L"
    and "bytes_used (idx_filter_bytes inner) f \<le> lim_max_filter_bytes L"
    and "idx_total_bytes inner \<le> lim_max_total_bytes L"
    and "hm_get (idx_entries inner) k = Some e \<Longrightarrow> entry_len e \<le> lim_max_entry_bytes L"
  using assms by (auto simp: index_bounded_def)

lemma drop_entry_covered [simp]:
  assumes "index_wf inner" and "index_covered inner"
  shows "index_covered (snd (drop_entry inner key))"
proof (cases "hm_get (idx_entries inner) key")
  case None
  with assms show ?thesis by simp
next
  case (Some e)
  note held = drop_entry_held [OF assms(1) Some] and acc = drop_entry_accounts [OF Some]
    and cov = index_coveredD [OF assms(2)]
  have "held_by_connection (snd (drop_entry inner key)) c
          \<le> bytes_used (idx_connection_bytes (snd (drop_entry inner key))) c" for c
    using cov(1) [of c] held(1) [of c] acc(1) [of c] by (simp split: if_splits)
  moreover have "held_by_filter (snd (drop_entry inner key)) f
          \<le> bytes_used (idx_filter_bytes (snd (drop_entry inner key))) f" for f
    using cov(2) [of f] held(2) [of f] acc(2) [of f] by (simp split: if_splits)
  moreover have "held_total (snd (drop_entry inner key)) \<le> idx_total_bytes (snd (drop_entry inner key))"
    using cov(3) held(3) acc(3) by simp
  ultimately show ?thesis by (simp add: index_covered_def)
qed

lemma drop_entry_exact [simp]:
  assumes "index_wf inner" and "index_exact inner"
  shows "index_exact (snd (drop_entry inner key))"
proof (cases "hm_get (idx_entries inner) key")
  case None
  with assms show ?thesis by simp
next
  case (Some e)
  note held = drop_entry_held [OF assms(1) Some] and acc = drop_entry_accounts [OF Some]
    and ex = index_exactD [OF assms(2)]
  have "held_by_connection (snd (drop_entry inner key)) c
          = bytes_used (idx_connection_bytes (snd (drop_entry inner key))) c" for c
    using ex(1) [of c] held(1) [of c] acc(1) [of c] by (simp split: if_splits)
  moreover have "held_by_filter (snd (drop_entry inner key)) f
          = bytes_used (idx_filter_bytes (snd (drop_entry inner key))) f" for f
    using ex(2) [of f] held(2) [of f] acc(2) [of f] by (simp split: if_splits)
  moreover have "held_total (snd (drop_entry inner key)) = idx_total_bytes (snd (drop_entry inner key))"
    using ex(3) held(3) acc(3) by simp
  ultimately show ?thesis by (simp add: index_exact_def)
qed

lemma drop_entry_bounded [simp]:
  assumes "index_bounded L inner"
  shows "index_bounded L (snd (drop_entry inner key))"
proof (cases "hm_get (idx_entries inner) key")
  case None
  with assms show ?thesis by simp
next
  case (Some e)
  note acc = drop_entry_accounts [OF Some] and bnd = index_boundedD [OF assms]
  show ?thesis
    unfolding index_bounded_def acc drop_entry_entries
    using bnd by (auto intro: le_trans [OF diff_le_self] split: if_splits)
qed

lemma drop_entry_length:
  "index_wf inner \<Longrightarrow> length (idx_entries (snd (drop_entry inner key)))
     = length (idx_entries inner) - (if fst (drop_entry inner key) then 1 else 0)"
  using weight_of_remove [of "idx_entries inner" key _ "\<lambda>_. 1" "\<lambda>_. True"]
  by (auto simp: drop_entry_def Let_def index_wf_def weight_of_def case_prod_unfold
      sum_list_triv split: option.splits)

section \<open>Sweeping\<close>

lemma drop_entries_keeps:
  assumes "\<And>i k. P i \<Longrightarrow> P (snd (drop_entry i k))" and "P inner"
  shows "P (fst (drop_entries keys inner stats))"
  using assms(2)
proof (induction keys arbitrary: inner stats)
  case (Cons k ks)
  then show ?case using assms(1) [of inner k] by (simp add: case_prod_unfold)
qed simp

lemma drop_entries_entries [simp]:
  "hm_get (idx_entries (fst (drop_entries keys inner stats))) k
     = (if k \<in> set keys then None else hm_get (idx_entries inner) k)"
  by (induction keys arbitrary: inner stats) (auto simp: case_prod_unfold)

lemma drop_entries_evicted:
  "index_wf inner \<Longrightarrow>
   st_evicted_items (snd (drop_entries keys inner stats)) + items_of (fst (drop_entries keys inner stats))
     = st_evicted_items stats + items_of inner"
proof (induction keys arbitrary: inner stats)
  case (Cons k ks)
  let ?i = "snd (drop_entry inner k)"
  have "items_of ?i = items_of inner - (if fst (drop_entry inner k) then 1 else 0)"
  proof -
    have "fst (drop_entry inner k) \<Longrightarrow> 0 < length (idx_entries inner)"
      by (cases "idx_entries inner") auto
    with drop_entry_length [OF Cons.prems, of k] show ?thesis
      by (auto simp: items_of_def of_nat_diff Suc_le_eq split: if_splits)
  qed
  with Cons.IH [of ?i] Cons.prems show ?case by (simp add: case_prod_unfold)
qed simp

lemma drop_entries_frame [simp]:
  "st_limit_hit (snd (drop_entries keys inner stats)) = st_limit_hit stats"
  "st_read_bytes (snd (drop_entries keys inner stats)) = st_read_bytes stats"
  "st_write_bytes (snd (drop_entries keys inner stats)) = st_write_bytes stats"
  by (induction keys arbitrary: inner stats) (auto simp: case_prod_unfold)

abbreviation swept :: "filter_state_store \<Rightarrow> time \<Rightarrow> state_index" where
  "swept s now \<equiv> fst (sweep_expired_locked (fss_inner s) (lim_ttl (fss_limits s)) now default_stats)"

lemma sweep_keeps:
  assumes "\<And>i k. P i \<Longrightarrow> P (snd (drop_entry i k))" and "P inner"
  shows "P (fst (sweep_expired_locked inner ttl now stats))"
  unfolding sweep_expired_locked_def by (rule drop_entries_keeps) (use assms in auto)

lemma sweep_wf [simp]: "index_wf inner \<Longrightarrow> index_wf (fst (sweep_expired_locked inner ttl now stats))"
  by (rule sweep_keeps) auto

lemma sweep_bounded [simp]:
  "index_bounded L inner \<Longrightarrow> index_bounded L (fst (sweep_expired_locked inner ttl now stats))"
  by (rule sweep_keeps) auto

lemma sweep_covered [simp]:
  "index_wf inner \<Longrightarrow> index_covered inner \<Longrightarrow> index_covered (fst (sweep_expired_locked inner ttl now stats))"
  using sweep_keeps [of "\<lambda>i. index_wf i \<and> index_covered i"] by auto

lemma sweep_exact [simp]:
  "index_wf inner \<Longrightarrow> index_exact inner \<Longrightarrow> index_exact (fst (sweep_expired_locked inner ttl now stats))"
  using sweep_keeps [of "\<lambda>i. index_wf i \<and> index_exact i"] by auto

lemma sweep_entries:
  assumes "index_wf inner"
  shows "hm_get (idx_entries (fst (sweep_expired_locked inner ttl now stats))) k
     = (case hm_get (idx_entries inner) k of
          None \<Rightarrow> None
        | Some e \<Rightarrow> if entry_expired ttl now e then None else Some e)"
proof -
  have "k \<in> set (map fst (filter (\<lambda>(key, entry). entry_expired ttl now entry) (idx_entries inner)))
     \<longleftrightarrow> (\<exists>e. hm_get (idx_entries inner) k = Some e \<and> entry_expired ttl now e)"
    using assms by (force simp: index_wf_def hm_wf_def)
  then show ?thesis by (auto simp: sweep_expired_locked_def split: option.splits)
qed

section \<open>Storing\<close>

text \<open>The value that a put writes, after its sweep.\<close>

abbreviation old_len :: "state_index \<Rightarrow> state_key \<Rightarrow> nat" where
  "old_len inner key \<equiv> (case hm_get (idx_entries inner) key of None \<Rightarrow> 0 | Some e \<Rightarrow> entry_len e)"

definition write_entry :: "state_index \<Rightarrow> state_key \<Rightarrow> time \<Rightarrow> bytes \<Rightarrow> state_index" where
  "write_entry inner key now value =
     (let delta = length value - old_len inner key in
      inner\<lparr>
        idx_total_bytes := idx_total_bytes inner + delta,
        idx_connection_bytes := hm_insert (key_connection_id key)
          (bytes_used (idx_connection_bytes inner) (key_connection_id key) + delta) (idx_connection_bytes inner),
        idx_filter_bytes := hm_insert (key_filter_name key)
          (bytes_used (idx_filter_bytes inner) (key_filter_name key) + delta) (idx_filter_bytes inner),
        idx_entries := hm_insert key
          \<lparr>ent_value = value, ent_created_at = now, ent_last_access_at = now\<rparr> (idx_entries inner)\<rparr>)"

definition put_fits :: "filter_state_limits \<Rightarrow> state_index \<Rightarrow> state_key \<Rightarrow> bytes \<Rightarrow> bool" where
  "put_fits L inner key value \<longleftrightarrow>
     (let delta = length value - old_len inner key in
      bytes_used (idx_connection_bytes inner) (key_connection_id key) + delta \<le> lim_max_connection_bytes L
    \<and> bytes_used (idx_filter_bytes inner) (key_filter_name key) + delta \<le> lim_max_filter_bytes L
    \<and> idx_total_bytes inner + delta \<le> lim_max_total_bytes L)"

lemma state_key_of_sel [simp]:
  "key_connection_id (state_key_of c f k) = c"
  "key_filter_name (state_key_of c f k) = f"
  "key_user_key (state_key_of c f k) = k"
  by (simp_all add: state_key_of_def)

lemma state_key_of_inject [simp]:
  "state_key_of c f k = state_key_of c' f' k' \<longleftrightarrow> c = c' \<and> f = f' \<and> k = k'"
  by (simp add: state_key_of_def)

text \<open>The three outcomes of a put on the store: untouched, swept only, swept and written.\<close>

lemma store_put_store:
  "snd (store_put s now c f k value) =
     (if length value > lim_max_entry_bytes (fss_limits s) then s
      else if put_fits (fss_limits s) (swept s now) (state_key_of c f k) value
        then s\<lparr>fss_inner := write_entry (swept s now) (state_key_of c f k) now value\<rparr>
      else s\<lparr>fss_inner := swept s now\<rparr>)"
  by (auto simp: store_put_def put_fits_def write_entry_def Let_def case_prod_unfold)

lemma store_put_outcome:
  "fst (fst (store_put s now c f k value)) \<in> {Stored, Replaced} \<longleftrightarrow>
     length value \<le> lim_max_entry_bytes (fss_limits s)
     \<and> put_fits (fss_limits s) (swept s now) (state_key_of c f k) value"
  by (auto simp: store_put_def put_fits_def Let_def case_prod_unfold)

lemma write_entry_entries [simp]:
  "hm_get (idx_entries (write_entry inner key now value)) = (hm_get (idx_entries inner))
     (key \<mapsto> \<lparr>ent_value = value, ent_created_at = now, ent_last_access_at = now\<rparr>)"
  by (simp add: write_entry_def Let_def)

lemma write_entry_wf [simp]: "index_wf inner \<Longrightarrow> index_wf (write_entry inner key now value)"
  by (simp add: write_entry_def Let_def index_wf_def)

lemma write_entry_weight:
  assumes "index_wf inner"
  shows "weight_of entry_len P (idx_entries (write_entry inner key now value)) + (if P key then old_len inner key else 0)
       = weight_of entry_len P (idx_entries inner) + (if P key then length value else 0)"
  using assms weight_of_insert_new [of "idx_entries inner" key entry_len P]
    weight_of_insert_old [of "idx_entries inner" key _ entry_len P]
  by (auto simp: write_entry_def Let_def index_wf_def split: option.splits)

lemma write_entry_held:
  assumes "index_wf inner"
  shows "held_by_connection (write_entry inner key now value) c + (if key_connection_id key = c then old_len inner key else 0)
       = held_by_connection inner c + (if key_connection_id key = c then length value else 0)"
    and "held_by_filter (write_entry inner key now value) f + (if key_filter_name key = f then old_len inner key else 0)
       = held_by_filter inner f + (if key_filter_name key = f then length value else 0)"
    and "held_total (write_entry inner key now value) + old_len inner key = held_total inner + length value"
  using write_entry_weight [OF assms, of _ key now "value"] unfolding held_defs by (metis (mono_tags, lifting))+

lemma write_entry_accounts [simp]:
  "bytes_used (idx_connection_bytes (write_entry inner key now value)) c
     = bytes_used (idx_connection_bytes inner) c
       + (if key_connection_id key = c then length value - old_len inner key else 0)"
  "bytes_used (idx_filter_bytes (write_entry inner key now value)) f
     = bytes_used (idx_filter_bytes inner) f
       + (if key_filter_name key = f then length value - old_len inner key else 0)"
  "idx_total_bytes (write_entry inner key now value)
     = idx_total_bytes inner + (length value - old_len inner key)"
  by (simp_all add: write_entry_def Let_def)

lemma write_entry_covered:
  assumes "index_wf inner" and "index_covered inner"
  shows "index_covered (write_entry inner key now value)"
proof -
  note held = write_entry_held [OF assms(1), of key now "value"] and cov = index_coveredD [OF assms(2)]
  show ?thesis
    unfolding index_covered_def write_entry_accounts
  proof (intro conjI allI)
    fix c
    show "held_by_connection (write_entry inner key now value) c \<le> bytes_used (idx_connection_bytes inner) c
        + (if key_connection_id key = c then length value - old_len inner key else 0)"
      using held(1) [of c] cov(1) [of c] by (simp split: if_splits)
  next
    fix f
    show "held_by_filter (write_entry inner key now value) f \<le> bytes_used (idx_filter_bytes inner) f
        + (if key_filter_name key = f then length value - old_len inner key else 0)"
      using held(2) [of f] cov(2) [of f] by (simp split: if_splits)
  next
    show "held_total (write_entry inner key now value)
        \<le> idx_total_bytes inner + (length value - old_len inner key)"
      using held(3) cov(3) by simp
  qed
qed

lemma write_entry_exact:
  assumes "index_wf inner" and "index_exact inner" and "old_len inner key \<le> length value"
  shows "index_exact (write_entry inner key now value)"
proof -
  note held = write_entry_held [OF assms(1), of key now "value"] and ex = index_exactD [OF assms(2)]
  show ?thesis
    unfolding index_exact_def write_entry_accounts
  proof (intro conjI allI)
    fix c
    show "held_by_connection (write_entry inner key now value) c = bytes_used (idx_connection_bytes inner) c
        + (if key_connection_id key = c then length value - old_len inner key else 0)"
      using held(1) [of c] ex(1) [of c] assms(3) by (simp split: if_splits)
  next
    fix f
    show "held_by_filter (write_entry inner key now value) f = bytes_used (idx_filter_bytes inner) f
        + (if key_filter_name key = f then length value - old_len inner key else 0)"
      using held(2) [of f] ex(2) [of f] assms(3) by (simp split: if_splits)
  next
    show "held_total (write_entry inner key now value)
        = idx_total_bytes inner + (length value - old_len inner key)"
      using held(3) ex(3) assms(3) by simp
  qed
qed

lemma write_entry_bounded:
  assumes "index_bounded L inner" and "put_fits L inner key value" and "length value \<le> lim_max_entry_bytes L"
  shows "index_bounded L (write_entry inner key now value)"
  using assms(2,3) index_boundedD [OF assms(1)]
  unfolding index_bounded_def write_entry_accounts write_entry_entries put_fits_def Let_def
  by (auto split: if_splits)

section \<open>Every operation keeps the invariant\<close>

lemma touch_weight:
  assumes "hm_wf m" and "hm_get m k = Some e"
  shows "weight_of entry_len P (hm_insert k (e\<lparr>ent_last_access_at := now\<rparr>) m) = weight_of entry_len P m"
  using weight_of_insert_old [OF assms, of entry_len P "e\<lparr>ent_last_access_at := now\<rparr>"]
  by (simp split: if_splits)

lemma touch_index:
  fixes now :: time
  assumes "hm_get (idx_entries inner) key = Some e" and "index_wf inner"
  defines "inner' \<equiv> inner\<lparr>idx_entries := hm_insert key (e\<lparr>ent_last_access_at := now\<rparr>) (idx_entries inner)\<rparr>"
  shows "index_wf inner'"
    and "index_covered inner' \<longleftrightarrow> index_covered inner"
    and "index_exact inner' \<longleftrightarrow> index_exact inner"
    and "index_bounded L inner \<Longrightarrow> index_bounded L inner'"
  using assms touch_weight [of "idx_entries inner" key e]
  by (auto simp: index_inv_defs held_defs split: if_splits)

lemma store_get_inv: "store_inv s \<Longrightarrow> store_inv (snd (store_get s now c f k))"
  by (auto simp: store_get_def Let_def case_prod_unfold store_inv_def touch_index split: option.splits)

lemma store_put_inv: "store_inv s \<Longrightarrow> store_inv (snd (store_put s now c f k value))"
  by (auto simp: store_put_store store_inv_def intro: write_entry_covered write_entry_bounded)

lemma store_delete_inv: "store_inv s \<Longrightarrow> store_inv (snd (store_delete s c f k))"
  by (simp add: store_delete_def Let_def case_prod_unfold store_inv_def)

lemma sweep_expired_inv: "store_inv s \<Longrightarrow> store_inv (snd (sweep_expired s now))"
  by (simp add: sweep_expired_def Let_def case_prod_unfold store_inv_def)

lemma new_store_inv: "store_inv (new_store L)"
  by (simp add: store_inv_def new_store_def default_index_def index_inv_defs held_defs bytes_used_def)

lemma store_op_limits [simp]:
  "fss_limits (snd (store_get s now c f k)) = fss_limits s"
  "fss_limits (snd (store_put s now c f k value)) = fss_limits s"
  "fss_limits (snd (store_delete s c f k)) = fss_limits s"
  "fss_limits (snd (sweep_expired s now)) = fss_limits s"
  by (auto simp: store_get_def store_put_store store_delete_def sweep_expired_def Let_def
      case_prod_unfold split: option.splits)

section \<open>Reachable stores\<close>

inductive store_step :: "filter_state_store \<Rightarrow> filter_state_store \<Rightarrow> bool" where
  step_get: "store_step s (snd (store_get s now c f k))"
| step_put: "store_step s (snd (store_put s now c f k value))"
| step_delete: "store_step s (snd (store_delete s c f k))"
| step_sweep: "store_step s (snd (sweep_expired s now))"

interpretation fss: invariant_system "\<lambda>s. \<exists>L. s = new_store L" store_step store_inv
  by unfold_locales
    (auto simp: new_store_inv elim!: store_step.cases
      intro: store_get_inv store_put_inv store_delete_inv sweep_expired_inv)

lemma reach_limits: "reach store_step s t \<Longrightarrow> fss_limits t = fss_limits s"
  by (induction rule: reach.induct) (auto elim!: store_step.cases)

section \<open>One owner at a time\<close>

text \<open>The owner of an entry is its connection and its filter; a script acts for one owner.\<close>

definition key_owner :: "state_key \<Rightarrow> string \<times> string" where
  "key_owner k = (key_connection_id k, key_filter_name k)"

text \<open>A step carries the set of entries that may lapse in it: for a step that sweeps, at least the
  entries that have outlived the time to live at the reading of the clock it sweeps with.\<close>

definition lapsed_at :: "time \<Rightarrow> time set \<Rightarrow> state_entry set" where
  "lapsed_at ttl readings = {e. \<exists>now \<in> readings. entry_expired ttl now e}"

inductive owner_step ::
  "string \<times> string \<Rightarrow> state_entry set \<Rightarrow> filter_state_store \<Rightarrow> filter_state_store \<Rightarrow> bool" where
  owner_get: "owner_step (c, f) lapsed s (snd (store_get s now c f k))"
| owner_put: "lapsed_at (lim_ttl (fss_limits s)) {now} \<subseteq> lapsed \<Longrightarrow>
    owner_step (c, f) lapsed s (snd (store_put s now c f k value))"
| owner_delete: "owner_step (c, f) lapsed s (snd (store_delete s c f k))"
| owner_sweep: "lapsed_at (lim_ttl (fss_limits s)) {now} \<subseteq> lapsed \<Longrightarrow>
    owner_step (c, f) lapsed s (snd (sweep_expired s now))"

abbreviation entry_at :: "filter_state_store \<Rightarrow> state_key \<Rightarrow> state_entry option" where
  "entry_at s k \<equiv> hm_get (idx_entries (fss_inner s)) k"

lemma owner_step_store_step: "owner_step who lapsed s t \<Longrightarrow> store_step s t"
  by (induction rule: owner_step.induct) (auto intro: store_step.intros)

lemma owner_step_mono: "owner_step who lapsed s t \<Longrightarrow> lapsed \<subseteq> lapsed' \<Longrightarrow> owner_step who lapsed' s t"
  by (induction rule: owner_step.induct) (blast intro: owner_step.intros)+

lemma owner_reach_mono:
  "reach (owner_step who lapsed) s t \<Longrightarrow> lapsed \<subseteq> lapsed' \<Longrightarrow> reach (owner_step who lapsed') s t"
  by (erule reach_mono) (rule owner_step_mono)

lemma owner_reach_limits: "reach (owner_step who lapsed) s t \<Longrightarrow> fss_limits t = fss_limits s"
  by (rule reach_limits, erule reach_mono) (rule owner_step_store_step)

lemma owner_step_foreign:
  assumes "owner_step who lapsed s t" and "index_wf (fss_inner s)" and "key_owner key \<noteq> who"
  shows "entry_at t key = entry_at s key
       \<or> entry_at t key = None \<and> (\<exists>e \<in> lapsed. entry_at s key = Some e)"
  using assms
proof (induction rule: owner_step.induct)
  case (owner_get c f lapsed s now k)
  then have "key \<noteq> state_key_of c f k" by (auto simp: key_owner_def)
  then show ?case by (auto simp: store_get_def Let_def split: option.splits)
next
  case (owner_put s now lapsed c f k v)
  then have "key \<noteq> state_key_of c f k" by (auto simp: key_owner_def)
  with owner_put show ?case
    by (auto simp: store_put_store sweep_entries lapsed_at_def split: option.splits)
next
  case (owner_delete c f lapsed s k)
  then have "key \<noteq> state_key_of c f k" by (auto simp: key_owner_def)
  then show ?case by (simp add: store_delete_def Let_def case_prod_unfold)
next
  case (owner_sweep s now lapsed c f)
  then show ?case
    by (auto simp: sweep_expired_def Let_def case_prod_unfold sweep_entries lapsed_at_def
        split: option.splits)
qed

interpretation fss_shared: shared_store "\<lambda>s. \<exists>L. s = new_store L" store_inv owner_step entry_at key_owner
proof unfold_locales
  fix s t
  show "\<exists>L. s = new_store L \<Longrightarrow> store_inv s" by (rule fss.initial_inv)
  show "store_inv s \<Longrightarrow> \<exists>who lapsed. owner_step who lapsed s t \<Longrightarrow> store_inv t"
    using fss.step_inv owner_step_store_step by blast
next
  fix s t who lapsed k
  assume "store_inv s" "owner_step who lapsed s t" "key_owner k \<noteq> who"
  then show "entry_at t k = entry_at s k \<or> entry_at t k = None \<and> (\<exists>e \<in> lapsed. entry_at s k = Some e)"
    using owner_step_foreign by (simp add: store_inv_def)
qed

section \<open>Properties\<close>

subsection \<open>Limits\<close>

text \<open>C2: in every store that any sequence of gets, puts, deletes and sweeps reaches from a new
  one, the bytes held for a connection, for a filter and in total, and the size of each entry,
  are within the configured limits.\<close>

theorem store_within_limits:
  assumes "reach store_step (new_store L) s"
  shows "held_by_connection (fss_inner s) c \<le> lim_max_connection_bytes L
       \<and> held_by_filter (fss_inner s) f \<le> lim_max_filter_bytes L
       \<and> held_total (fss_inner s) \<le> lim_max_total_bytes L
       \<and> (\<forall>k e. hm_get (idx_entries (fss_inner s)) k = Some e \<longrightarrow>
            length (ent_value e) \<le> lim_max_entry_bytes L)"
proof -
  have inv: "store_inv s" and L: "fss_limits s = L"
    using fss.reach_inv [OF _ assms] reach_limits [OF assms] by (auto simp: new_store_def)
  then have cov: "index_covered (fss_inner s)" and bnd: "index_bounded L (fss_inner s)"
    by (auto simp: store_inv_def)
  show ?thesis
    using index_coveredD [OF cov] index_boundedD [OF bnd] by (blast intro: le_trans)
qed

definition tiny_limits :: filter_state_limits where
  "tiny_limits = \<lparr>lim_ttl = 100, lim_max_entry_bytes = 4, lim_max_connection_bytes = 4,
     lim_max_filter_bytes = 8, lim_max_total_bytes = 8\<rparr>"

theorem store_within_limits_witness:
  "held_total (fss_inner (snd (store_put (new_store tiny_limits) 5 ''c'' ''f'' ''k'' ''abc''))) = 3
   \<and> held_total (fss_inner (snd (store_put (new_store tiny_limits) 5 ''c'' ''f'' ''k'' ''abc''))) \<le> 8"
proof -
  have r: "reach store_step (new_store tiny_limits)
      (snd (store_put (new_store tiny_limits) 5 ''c'' ''f'' ''k'' ''abc''))"
    by (rule reach.intros, rule reach.intros, rule store_step.intros)
  have "held_total (fss_inner (snd (store_put (new_store tiny_limits) 5 ''c'' ''f'' ''k'' ''abc''))) = 3"
    by code_simp
  moreover have "lim_max_total_bytes tiny_limits = 8" by (simp add: tiny_limits_def)
  ultimately show ?thesis using store_within_limits [OF r] by auto
qed

text \<open>C33: with limits for which a full account plus one entry is still a \<open>usize\<close>, a put on a
  store within its invariant never overflows: with every addition checked it comes to an end and
  has exactly the outcome, the statistics and the store of \<open>store_put\<close>.\<close>

theorem put_no_overflow:
  assumes "store_inv s"
    and "lim_max_connection_bytes (fss_limits s) + lim_max_entry_bytes (fss_limits s) \<le> usize_max"
    and "lim_max_filter_bytes (fss_limits s) + lim_max_entry_bytes (fss_limits s) \<le> usize_max"
    and "lim_max_total_bytes (fss_limits s) + lim_max_entry_bytes (fss_limits s) \<le> usize_max"
  shows "store_put_checked s now c f k value = Some (store_put s now c f k value)"
proof (cases "length value > lim_max_entry_bytes (fss_limits s)")
  case True
  then show ?thesis by (simp add: store_put_checked_def store_put_def Let_def)
next
  case False
  let ?d = "length value - old_len (swept s now) (state_key_of c f k)"
  have "index_bounded (fss_limits s) (swept s now)"
    using assms(1) by (simp add: store_inv_def)
  note bnd = index_boundedD(1) [OF this, of c] index_boundedD(2) [OF this, of f] index_boundedD(3) [OF this]
  from False have "?d \<le> lim_max_entry_bytes (fss_limits s)" by simp
  with bnd assms(2-4)
  have "bytes_used (idx_connection_bytes (swept s now)) c + ?d \<le> usize_max"
    and "bytes_used (idx_filter_bytes (swept s now)) f + ?d \<le> usize_max"
    and "idx_total_bytes (swept s now) + ?d \<le> usize_max"
    by linarith+
  with False show ?thesis
    by (simp add: store_put_checked_def store_put_def usize_add_def Let_def case_prod_unfold)
qed

theorem put_no_overflow_witness:
  "store_put_checked (new_store tiny_limits) 5 ''c'' ''f'' ''k'' ''abc''
     = Some (store_put (new_store tiny_limits) 5 ''c'' ''f'' ''k'' ''abc'')"
  by (rule put_no_overflow [OF new_store_inv])
    (simp_all add: new_store_def tiny_limits_def usize_max_def)

subsection \<open>Reading back what was stored\<close>

text \<open>C32: a get within the time to live of an accepted put on the same connection, filter and key
  returns exactly the bytes that were put.\<close>

theorem put_then_get:
  assumes "fst (fst (store_put s now c f k value)) \<in> {Stored, Replaced}"
    and "now' - now \<le> lim_ttl (fss_limits s)"
  shows "fst (fst (store_get (snd (store_put s now c f k value)) now' c f k)) = Some value"
proof -
  have "snd (store_put s now c f k value)
      = s\<lparr>fss_inner := write_entry (swept s now) (state_key_of c f k) now value\<rparr>"
    using assms(1) unfolding store_put_outcome by (simp add: store_put_store)
  with assms(2) show ?thesis by (simp add: store_get_def Let_def)
qed

theorem put_then_get_witness:
  "fst (fst (store_get (snd (store_put (new_store tiny_limits) 5 ''c'' ''f'' ''k'' ''abc'')) 105 ''c'' ''f'' ''k''))
     = Some ''abc''"
proof (rule put_then_get)
  show "fst (fst (store_put (new_store tiny_limits) 5 ''c'' ''f'' ''k'' ''abc'')) \<in> {Stored, Replaced}"
    by code_simp
  show "105 - 5 \<le> lim_ttl (fss_limits (new_store tiny_limits))" by code_simp
qed

text \<open>a put that is turned down sets the limit flag and stores nothing: every entry either is
  as it was or, when the put got as far as its sweep, had outlived the time to live.\<close>

theorem rejected_put_stores_nothing:
  assumes "index_wf (fss_inner s)"
    and "fst (fst (store_put s now c f k value)) \<notin> {Stored, Replaced}"
  shows "st_limit_hit (snd (fst (store_put s now c f k value)))
       \<and> (\<forall>key. hm_get (idx_entries (fss_inner (snd (store_put s now c f k value)))) key
            = (case hm_get (idx_entries (fss_inner s)) key of
                 None \<Rightarrow> None
               | Some e \<Rightarrow> if length value \<le> lim_max_entry_bytes (fss_limits s)
                    \<and> entry_expired (lim_ttl (fss_limits s)) now e then None else Some e))"
proof -
  have "st_limit_hit (snd (fst (store_put s now c f k value)))"
    using assms(2) by (auto simp: store_put_def Let_def case_prod_unfold split: if_splits)
  moreover have "\<not> (length value \<le> lim_max_entry_bytes (fss_limits s)
      \<and> put_fits (fss_limits s) (swept s now) (state_key_of c f k) value)"
    using assms(2) unfolding store_put_outcome .
  ultimately show ?thesis
    using sweep_entries [OF assms(1)] by (auto simp: store_put_store split: option.splits)
qed

theorem rejected_put_stores_nothing_witness:
  "fst (fst (store_put (snd (store_put (new_store tiny_limits) 0 ''c'' ''f'' ''k'' ''abc'')) 1 ''c'' ''f'' ''j'' ''xy''))
     = RejectedConnectionLimit
   \<and> st_limit_hit (snd (fst (store_put (snd (store_put (new_store tiny_limits) 0 ''c'' ''f'' ''k'' ''abc'')) 1 ''c'' ''f'' ''j'' ''xy'')))"
proof -
  let ?s = "snd (store_put (new_store tiny_limits) 0 ''c'' ''f'' ''k'' ''abc'')"
  have o: "fst (fst (store_put ?s 1 ''c'' ''f'' ''j'' ''xy'')) = RejectedConnectionLimit"
    by code_simp
  have "index_wf (fss_inner ?s)"
    using store_put_inv [OF new_store_inv] unfolding store_inv_def by blast
  then have "st_limit_hit (snd (fst (store_put ?s 1 ''c'' ''f'' ''j'' ''xy'')))"
    using rejected_put_stores_nothing [of ?s 1 "''c''" "''f''" "''j''" "''xy''"] o by simp
  with o show ?thesis by simp
qed

subsection \<open>Expiry\<close>

text \<open>a sweep removes exactly the entries that were idle or alive for longer than the time to
  live, and reports how many it removed and how many are left.\<close>

theorem sweep_removes_expired:
  assumes "index_wf (fss_inner s)"
  shows "hm_get (idx_entries (fss_inner (snd (sweep_expired s now)))) key
           = (case hm_get (idx_entries (fss_inner s)) key of
                None \<Rightarrow> None
              | Some e \<Rightarrow> if now - ent_last_access_at e > lim_ttl (fss_limits s)
                    \<or> now - ent_created_at e > lim_ttl (fss_limits s) then None else Some e)
       \<and> st_evicted_items (fst (sweep_expired s now))
           = int (length (idx_entries (fss_inner s))) - int (length (idx_entries (fss_inner (snd (sweep_expired s now)))))
       \<and> st_state_items (fst (sweep_expired s now)) = int (length (idx_entries (fss_inner (snd (sweep_expired s now)))))"
proof -
  have "st_evicted_items (snd (sweep_expired_locked (fss_inner s) (lim_ttl (fss_limits s)) now default_stats))
      + items_of (swept s now) = items_of (fss_inner s)"
    using drop_entries_evicted [OF assms] unfolding sweep_expired_locked_def
    by (simp add: default_stats_def)
  then show ?thesis
    using sweep_entries [OF assms, of "lim_ttl (fss_limits s)" now default_stats key]
    by (simp add: sweep_expired_def Let_def case_prod_unfold entry_expired_def items_of_def cong: option.case_cong)
qed

theorem sweep_removes_expired_witness:
  "hm_get (idx_entries (fss_inner (snd (sweep_expired (snd (store_put (new_store tiny_limits) 0 ''c'' ''f'' ''k'' ''abc'')) 101))))
     (state_key_of ''c'' ''f'' ''k'') = None
   \<and> st_evicted_items (fst (sweep_expired (snd (store_put (new_store tiny_limits) 0 ''c'' ''f'' ''k'' ''abc'')) 101)) = 1"
proof -
  let ?s = "snd (store_put (new_store tiny_limits) 0 ''c'' ''f'' ''k'' ''abc'')"
  have wf: "index_wf (fss_inner ?s)"
    using store_put_inv [OF new_store_inv] unfolding store_inv_def by blast
  have e: "idx_entries (fss_inner ?s)
      = [(state_key_of ''c'' ''f'' ''k'', \<lparr>ent_value = ''abc'', ent_created_at = 0, ent_last_access_at = 0\<rparr>)]"
    and l: "lim_ttl (fss_limits ?s) = 100"
    and z: "idx_entries (fss_inner (snd (sweep_expired ?s 101))) = []"
    by code_simp+
  from sweep_removes_expired [OF wf, of 101 "state_key_of ''c'' ''f'' ''k''"] show ?thesis
    by (simp add: e l z)
qed

subsection \<open>Drift of the byte accounts\<close>

text \<open>the accounts are exact as long as no put replaces an entry by a shorter one: get, delete
  and sweep keep them exact, and so does every put whose value is at least as long as the live
  entry it replaces.\<close>

theorem accounts_stay_exact:
  assumes "exact_inv s"
  shows "exact_inv (snd (store_get s now c f k))
       \<and> exact_inv (snd (store_delete s c f k))
       \<and> exact_inv (snd (sweep_expired s now))
       \<and> (old_len (swept s now) (state_key_of c f k) \<le> length value
            \<longrightarrow> exact_inv (snd (store_put s now c f k value)))"
proof (intro conjI impI)
  show "exact_inv (snd (store_get s now c f k))"
    using assms by (auto simp: store_get_def Let_def exact_inv_def touch_index split: option.splits)
  show "exact_inv (snd (store_delete s c f k))"
    using assms by (simp add: store_delete_def Let_def case_prod_unfold exact_inv_def)
  show "exact_inv (snd (sweep_expired s now))"
    using assms by (simp add: sweep_expired_def Let_def case_prod_unfold exact_inv_def)
  assume "old_len (swept s now) (state_key_of c f k) \<le> length value"
  then show "exact_inv (snd (store_put s now c f k value))"
    using assms by (auto simp: store_put_store exact_inv_def intro: write_entry_exact)
qed

theorem accounts_stay_exact_witness:
  "exact_inv (snd (store_put (new_store tiny_limits) 0 ''c'' ''f'' ''k'' ''abc''))"
proof -
  have "exact_inv (new_store tiny_limits)"
    by (simp add: exact_inv_def new_store_def default_index_def index_inv_defs held_defs bytes_used_def)
  from accounts_stay_exact [OF this, of 0 "''c''" "''f''" "''k''" "''abc''"] show ?thesis
    by (simp add: new_store_def default_index_def sweep_expired_locked_def)
qed

text \<open>shrinking an entry is never credited. After an entry that fills a connection's allowance
  is replaced by an empty one and deleted, the store holds nothing, and yet every later put of
  that connection is turned down for its connection limit.\<close>

theorem shrinking_put_leaks_allowance:
  fixes t t' :: time and c f k f' k' :: string
  assumes "length v1 = lim_max_connection_bytes L" and "length v1 \<le> lim_max_entry_bytes L"
    and "length v1 \<le> lim_max_filter_bytes L" and "length v1 \<le> lim_max_total_bytes L"
    and "v3 \<noteq> []" and "length v3 \<le> lim_max_entry_bytes L"
  defines "s1 \<equiv> snd (store_put (new_store L) t c f k v1)"
  defines "s2 \<equiv> snd (store_put s1 t c f k [])"
  defines "s3 \<equiv> snd (store_delete s2 c f k)"
  shows "idx_entries (fss_inner s3) = [] \<and> fst (fst (store_put s3 t' c f' k' v3)) = RejectedConnectionLimit"
proof -
  let ?key = "state_key_of c f k"
  let ?e = "\<lambda>v. \<lparr>ent_value = v, ent_created_at = t, ent_last_access_at = t\<rparr>"
  let ?n = "length v1"
  have sw: "sweep_expired_locked i ttl t default_stats = (i, default_stats)"
    if "idx_entries i = [(?key, ?e v)]" for i ttl v
    using that by (simp add: sweep_expired_locked_def entry_expired_def)
  have sw0: "sweep_expired_locked i ttl t' default_stats = (i, default_stats)" if "idx_entries i = []" for i ttl t'
    using that by (simp add: sweep_expired_locked_def)
  have s1: "s1 = \<lparr>fss_limits = L, fss_inner = \<lparr>idx_entries = [(?key, ?e v1)], idx_connection_bytes = [(c, ?n)],
      idx_filter_bytes = [(f, ?n)], idx_total_bytes = ?n\<rparr>\<rparr>"
    using assms(1-4) unfolding s1_def new_store_def default_index_def
    by (simp add: store_put_store sw0 put_fits_def write_entry_def bytes_used_def Let_def)
  have s2: "s2 = \<lparr>fss_limits = L, fss_inner = \<lparr>idx_entries = [(?key, ?e [])], idx_connection_bytes = [(c, ?n)],
      idx_filter_bytes = [(f, ?n)], idx_total_bytes = ?n\<rparr>\<rparr>"
    using assms(1-4) unfolding s2_def s1
    by (simp add: store_put_store sw put_fits_def write_entry_def bytes_used_def Let_def)
  have s3: "idx_entries (fss_inner s3) = [] \<and> bytes_used (idx_connection_bytes (fss_inner s3)) c = ?n \<and> fss_limits s3 = L"
    unfolding s3_def s2 store_delete_def
    by (simp add: drop_entry_def Let_def case_prod_unfold bytes_used_def release_bytes_def)
  with assms(1,5,6) show ?thesis
    by (simp add: store_put_def Let_def sw0 state_key_of_def)
qed

theorem shrinking_put_leaks_allowance_witness:
  "fst (fst (store_put (snd (store_delete (snd (store_put (snd (store_put (new_store tiny_limits) 0 ''c'' ''f'' ''k'' ''abcd''))
     0 ''c'' ''f'' ''k'' [])) ''c'' ''f'' ''k'')) 1 ''c'' ''f'' ''k'' ''x'')) = RejectedConnectionLimit"
  using shrinking_put_leaks_allowance [of "''abcd''" tiny_limits "''x''" 0 "''c''" "''f''" "''k''" 1]
  by (simp add: tiny_limits_def)

end
