(* ===== verification/RuntimeState.thy ===== *)
theory RuntimeState
  imports StateStore
begin

text \<open>
  The state that a running Roto script sees (\<open>src/src/filters/runtime_state.rs\<close>) and the resource
  statistics of one filter run (\<open>FilterResourceStats\<close> in \<open>src/src/mitm/flow/capture_service.rs\<close>).
  The thread-local slot and the guards share one context object, so contexts live in an explicit
  heap and slot and guards hold addresses of it. A script reaches the host only through
  \<open>state_get\<close>, \<open>state_put\<close> and \<open>state_delete\<close>; it is a tree of such calls. Each call of
  \<open>Instant::now\<close> takes the next reading of a clock; a put takes its reading before the check of
  the entry size, which does not use it, where the source takes it after. \<open>script_calls\<close> is a run
  of a script told without slot and contexts, against which the guarded run is proved right.
\<close>

section \<open>Statistics\<close>

record filter_resource_stats =
  frs_state_read_bytes :: int
  frs_state_write_bytes :: int
  frs_state_items :: int
  frs_evicted_items :: int
  frs_limit_hit :: bool

definition default_resource_stats :: filter_resource_stats where
  "default_resource_stats = \<lparr>frs_state_read_bytes = 0, frs_state_write_bytes = 0,
     frs_state_items = 0, frs_evicted_items = 0, frs_limit_hit = False\<rparr>"

definition merge_stats :: "filter_resource_stats \<Rightarrow> filter_resource_stats \<Rightarrow> filter_resource_stats" where
  "merge_stats self rhs = \<lparr>
     frs_state_read_bytes = frs_state_read_bytes self + frs_state_read_bytes rhs,
     frs_state_write_bytes = frs_state_write_bytes self + frs_state_write_bytes rhs,
     frs_state_items = frs_state_items rhs,
     frs_evicted_items = frs_evicted_items self + frs_evicted_items rhs,
     frs_limit_hit = (frs_limit_hit self \<or> frs_limit_hit rhs)\<rparr>"

section \<open>Contexts, the slot and the guards\<close>

record runtime_state_context =
  rsc_connection_id :: string
  rsc_filter_name :: string
  rsc_has_store :: bool
  rsc_stats :: filter_resource_stats

record thread_state =
  ts_heap :: "runtime_state_context list"
  ts_slot :: "nat option"
  ts_store :: filter_state_store
  ts_clock :: "nat \<Rightarrow> time"
  ts_ticks :: nat

record runtime_state_guard =
  rsg_previous :: "nat option"
  rsg_current :: nat

definition read_clock :: "thread_state \<Rightarrow> time \<times> thread_state" where
  "read_clock ts = (ts_clock ts (ts_ticks ts), ts\<lparr>ts_ticks := Suc (ts_ticks ts)\<rparr>)"

definition guard_enter :: "string \<Rightarrow> string \<Rightarrow> bool \<Rightarrow> thread_state \<Rightarrow> runtime_state_guard \<times> thread_state" where
  "guard_enter connection_id filter_name has_store ts =
     (let current = length (ts_heap ts);
          ctx = \<lparr>rsc_connection_id = connection_id, rsc_filter_name = filter_name,
                 rsc_has_store = has_store, rsc_stats = default_resource_stats\<rparr>
      in (\<lparr>rsg_previous = ts_slot ts, rsg_current = current\<rparr>,
          ts\<lparr>ts_heap := ts_heap ts @ [ctx], ts_slot := Some current\<rparr>))"

definition guard_finish :: "runtime_state_guard \<Rightarrow> thread_state \<Rightarrow> filter_resource_stats \<times> thread_state" where
  "guard_finish g ts = (rsc_stats (ts_heap ts ! rsg_current g), ts\<lparr>ts_slot := rsg_previous g\<rparr>)"

definition current_context :: "thread_state \<Rightarrow> runtime_state_context option" where
  "current_context ts = map_option (\<lambda>a. ts_heap ts ! a) (ts_slot ts)"

definition add_op_stats :: "state_op_stats \<Rightarrow> filter_resource_stats \<Rightarrow> filter_resource_stats" where
  "add_op_stats stats acc = acc\<lparr>
     frs_state_read_bytes := frs_state_read_bytes acc + st_read_bytes stats,
     frs_state_write_bytes := frs_state_write_bytes acc + st_write_bytes stats,
     frs_evicted_items := frs_evicted_items acc + st_evicted_items stats,
     frs_state_items := st_state_items stats,
     frs_limit_hit := (frs_limit_hit acc \<or> st_limit_hit stats)\<rparr>"

definition accumulate :: "state_op_stats \<Rightarrow> thread_state \<Rightarrow> thread_state" where
  "accumulate stats ts = (case ts_slot ts of
     None \<Rightarrow> ts
   | Some a \<Rightarrow>
       (let ctx = ts_heap ts ! a in
        ts\<lparr>ts_heap := (ts_heap ts)[a := ctx\<lparr>rsc_stats := add_op_stats stats (rsc_stats ctx)\<rparr>]\<rparr>))"

section \<open>The calls a script can make\<close>

definition state_get_text :: "string \<Rightarrow> thread_state \<Rightarrow> string option \<times> thread_state" where
  "state_get_text key ts = (case current_context ts of
     None \<Rightarrow> (None, ts)
   | Some ctx \<Rightarrow>
       if \<not> rsc_has_store ctx then (None, ts)
       else
         (let (now, ts1) = read_clock ts;
              ((val, op_stats), store) =
                store_get (ts_store ts1) now (rsc_connection_id ctx) (rsc_filter_name ctx) key
          in (map_option from_utf8_lossy val, accumulate op_stats (ts1\<lparr>ts_store := store\<rparr>))))"

definition state_put_text :: "string \<Rightarrow> string \<Rightarrow> thread_state \<Rightarrow> bool \<times> thread_state" where
  "state_put_text key val ts = (case current_context ts of
     None \<Rightarrow> (False, ts)
   | Some ctx \<Rightarrow>
       if \<not> rsc_has_store ctx then (False, ts)
       else
         (let (now, ts1) = read_clock ts;
              ((outcome, op_stats), store) =
                store_put (ts_store ts1) now (rsc_connection_id ctx) (rsc_filter_name ctx) key val
          in (outcome = Stored \<or> outcome = Replaced, accumulate op_stats (ts1\<lparr>ts_store := store\<rparr>))))"

definition state_delete :: "string \<Rightarrow> thread_state \<Rightarrow> bool \<times> thread_state" where
  "state_delete key ts = (case current_context ts of
     None \<Rightarrow> (False, ts)
   | Some ctx \<Rightarrow>
       if \<not> rsc_has_store ctx then (False, ts)
       else
         (let (op_stats, store) =
                store_delete (ts_store ts) (rsc_connection_id ctx) (rsc_filter_name ctx) key
          in (st_evicted_items op_stats > 0, accumulate op_stats (ts\<lparr>ts_store := store\<rparr>))))"

text \<open>A script: what it returns, or the next call with the rest of the script. \<open>state_get\<close> hands
  the empty string to the script where \<open>state_get_text\<close> returns nothing.\<close>

datatype 'r roto_prog =
    Return 'r
  | StateGet string "string \<Rightarrow> 'r roto_prog"
  | StatePut string string "bool \<Rightarrow> 'r roto_prog"
  | StateDelete string "bool \<Rightarrow> 'r roto_prog"

primrec run_prog :: "'r roto_prog \<Rightarrow> thread_state \<Rightarrow> 'r \<times> thread_state" where
  "run_prog (Return r) ts = (r, ts)"
| "run_prog (StateGet key cont) ts =
     (let (v, ts') = state_get_text key ts in run_prog (cont (case v of None \<Rightarrow> [] | Some t \<Rightarrow> t)) ts')"
| "run_prog (StatePut key val cont) ts =
     (let (ok, ts') = state_put_text key val ts in run_prog (cont ok) ts')"
| "run_prog (StateDelete key cont) ts =
     (let (ok, ts') = state_delete key ts in run_prog (cont ok) ts')"

text \<open>One filter run as \<open>FlowFilterRuntime\<close> makes it: enter, run, finish.\<close>

definition run_guarded ::
  "string \<Rightarrow> string \<Rightarrow> bool \<Rightarrow> 'r roto_prog \<Rightarrow> thread_state \<Rightarrow> ('r \<times> filter_resource_stats) \<times> thread_state" where
  "run_guarded connection_id filter_name has_store prog ts =
     (let (g, ts1) = guard_enter connection_id filter_name has_store ts;
          (r, ts2) = run_prog prog ts1;
          (stats, ts3) = guard_finish g ts2
      in ((r, stats), ts3))"

section \<open>What a call leaves alone\<close>

text \<open>Calls keep the slot, the heap's size and every context but the current one; and the owner,
  the presence of a store and the clock of the current context.\<close>

definition same_frame :: "thread_state \<Rightarrow> thread_state \<Rightarrow> bool" where
  "same_frame ts ts' \<longleftrightarrow>
     ts_slot ts' = ts_slot ts \<and> ts_clock ts' = ts_clock ts \<and> length (ts_heap ts') = length (ts_heap ts)
   \<and> (\<forall>a < length (ts_heap ts). Some a \<noteq> ts_slot ts \<longrightarrow> ts_heap ts' ! a = ts_heap ts ! a)
   \<and> (\<forall>a < length (ts_heap ts).
        rsc_connection_id (ts_heap ts' ! a) = rsc_connection_id (ts_heap ts ! a)
      \<and> rsc_filter_name (ts_heap ts' ! a) = rsc_filter_name (ts_heap ts ! a)
      \<and> rsc_has_store (ts_heap ts' ! a) = rsc_has_store (ts_heap ts ! a))"

lemma same_frame_refl [simp]: "same_frame ts ts"
  by (simp add: same_frame_def)

lemma same_frame_trans: "same_frame ts ts' \<Longrightarrow> same_frame ts' ts'' \<Longrightarrow> same_frame ts ts''"
  unfolding same_frame_def by simp

lemma same_frame_store [simp]: "same_frame ts (ts'\<lparr>ts_store := s\<rparr>) \<longleftrightarrow> same_frame ts ts'"
  and same_frame_ticks [simp]: "same_frame ts (ts'\<lparr>ts_ticks := n\<rparr>) \<longleftrightarrow> same_frame ts ts'"
  by (simp_all add: same_frame_def)

lemma same_frame_accumulate: "same_frame ts ts' \<Longrightarrow> same_frame ts (accumulate stats ts')"
  by (auto simp: same_frame_def accumulate_def Let_def nth_list_update_any split: option.splits)

lemma accumulate_store [simp]: "ts_store (accumulate stats ts) = ts_store ts"
  by (simp add: accumulate_def Let_def split: option.splits)

lemma call_frames:
  "same_frame ts (snd (state_get_text key ts))"
  "same_frame ts (snd (state_put_text key val ts))"
  "same_frame ts (snd (state_delete key ts))"
  by (auto simp: state_get_text_def state_put_text_def state_delete_def read_clock_def Let_def
      case_prod_unfold intro!: same_frame_accumulate split: option.splits)

lemma run_prog_frame: "same_frame ts (snd (run_prog prog ts))"
proof (induction prog arbitrary: ts)
  case (StateGet key cont)
  then show ?case using same_frame_trans [OF call_frames(1) [of ts key]]
    by (auto simp: Let_def case_prod_unfold)
next
  case (StatePut key val cont)
  then show ?case using same_frame_trans [OF call_frames(2) [of ts key val]]
    by (auto simp: Let_def case_prod_unfold)
next
  case (StateDelete key cont)
  then show ?case using same_frame_trans [OF call_frames(3) [of ts key]]
    by (auto simp: Let_def case_prod_unfold)
qed simp

text \<open>The slot holds an address of the heap.\<close>

definition slot_ok :: "thread_state \<Rightarrow> bool" where
  "slot_ok ts \<longleftrightarrow> (case ts_slot ts of None \<Rightarrow> True | Some a \<Rightarrow> a < length (ts_heap ts))"

lemma same_frame_slot_ok: "same_frame ts ts' \<Longrightarrow> slot_ok ts' \<longleftrightarrow> slot_ok ts"
  by (simp add: same_frame_def slot_ok_def split: option.splits)

section \<open>A script acts for one owner\<close>

definition ctx_owner :: "runtime_state_context \<Rightarrow> string \<times> string" where
  "ctx_owner ctx = (rsc_connection_id ctx, rsc_filter_name ctx)"

lemma same_frame_owner:
  assumes "same_frame ts ts'" and "slot_ok ts" and "current_context ts = Some ctx"
  shows "\<exists>ctx'. current_context ts' = Some ctx' \<and> ctx_owner ctx' = ctx_owner ctx"
proof -
  from assms(3) obtain a where a: "ts_slot ts = Some a" and ctx: "ctx = ts_heap ts ! a"
    by (auto simp: current_context_def)
  from assms(2) a have "a < length (ts_heap ts)" by (simp add: slot_ok_def)
  with assms(1) a ctx show ?thesis
    by (auto simp: same_frame_def current_context_def ctx_owner_def)
qed

text \<open>The readings of the clock between two states, and the entries that have outlived the time
  to live at one of them.\<close>

abbreviation readings :: "thread_state \<Rightarrow> thread_state \<Rightarrow> time set" where
  "readings ts ts' \<equiv> ts_clock ts ` {ts_ticks ts..<ts_ticks ts'}"

abbreviation lapsed_in :: "thread_state \<Rightarrow> thread_state \<Rightarrow> state_entry set" where
  "lapsed_in ts ts' \<equiv> lapsed_at (lim_ttl (fss_limits (ts_store ts))) (readings ts ts')"

lemma accumulate_ticks [simp]:
  "ts_ticks (accumulate stats ts) = ts_ticks ts" "ts_clock (accumulate stats ts) = ts_clock ts"
  by (simp_all add: accumulate_def Let_def split: option.splits)

lemma call_ticks:
  "ts_ticks ts \<le> ts_ticks (snd (state_get_text key ts))"
  "ts_ticks ts \<le> ts_ticks (snd (state_put_text key val ts))"
  "ts_ticks ts \<le> ts_ticks (snd (state_delete key ts))"
  by (auto simp: state_get_text_def state_put_text_def state_delete_def read_clock_def Let_def
      case_prod_unfold split: option.splits)

lemma run_prog_ticks: "ts_ticks ts \<le> ts_ticks (snd (run_prog prog ts))"
proof (induction prog arbitrary: ts)
  case (StateGet key cont)
  then show ?case
    by (auto simp: Let_def case_prod_unfold intro: le_trans [OF call_ticks(1) [of ts key]])
next
  case (StatePut key val cont)
  then show ?case
    by (auto simp: Let_def case_prod_unfold intro: le_trans [OF call_ticks(2) [of ts key val]])
next
  case (StateDelete key cont)
  then show ?case
    by (auto simp: Let_def case_prod_unfold intro: le_trans [OF call_ticks(3) [of ts key]])
qed simp

lemma call_owner_steps:
  assumes "current_context ts = Some ctx"
  shows "reach (owner_step (ctx_owner ctx) (lapsed_in ts (snd (state_get_text key ts))))
           (ts_store ts) (ts_store (snd (state_get_text key ts)))"
    and "reach (owner_step (ctx_owner ctx) (lapsed_in ts (snd (state_put_text key val ts))))
           (ts_store ts) (ts_store (snd (state_put_text key val ts)))"
    and "reach (owner_step (ctx_owner ctx) (lapsed_in ts (snd (state_delete key ts))))
           (ts_store ts) (ts_store (snd (state_delete key ts)))"
  using assms
  by (auto simp: state_get_text_def state_put_text_def state_delete_def read_clock_def Let_def
      case_prod_unfold ctx_owner_def intro: reach.intros reach_one owner_step.intros)

lemma owner_steps_chain:
  assumes "current_context ts = Some ctx" and "slot_ok ts" and fr: "same_frame ts ts'"
    and first: "reach (owner_step (ctx_owner ctx) (lapsed_in ts ts')) (ts_store ts) (ts_store ts')"
    and ticks: "ts_ticks ts \<le> ts_ticks ts'" "ts_ticks ts' \<le> ts_ticks ts''"
    and rest: "\<And>ctx'. current_context ts' = Some ctx' \<Longrightarrow> slot_ok ts' \<Longrightarrow>
           reach (owner_step (ctx_owner ctx') (lapsed_in ts' ts'')) (ts_store ts') (ts_store ts'')"
  shows "reach (owner_step (ctx_owner ctx) (lapsed_in ts ts'')) (ts_store ts) (ts_store ts'')"
proof -
  obtain ctx' where c: "current_context ts' = Some ctx'" and o: "ctx_owner ctx' = ctx_owner ctx"
    using same_frame_owner [OF fr assms(2,1)] by blast
  have ok: "slot_ok ts'" using same_frame_slot_ok [OF fr] assms(2) by simp
  have "ts_clock ts' = ts_clock ts" and "fss_limits (ts_store ts') = fss_limits (ts_store ts)"
    using fr owner_reach_limits [OF first] by (auto simp: same_frame_def)
  then have "lapsed_in ts' ts'' \<subseteq> lapsed_in ts ts''" and "lapsed_in ts ts' \<subseteq> lapsed_in ts ts''"
    using ticks by (auto simp: lapsed_at_def)
  with rest [OF c ok] first show ?thesis
    unfolding o by (blast intro: reach_trans owner_reach_mono)
qed

lemma run_prog_owner_steps:
  "current_context ts = Some ctx \<Longrightarrow> slot_ok ts \<Longrightarrow>
   reach (owner_step (ctx_owner ctx) (lapsed_in ts (snd (run_prog prog ts))))
     (ts_store ts) (ts_store (snd (run_prog prog ts)))"
proof (induction prog arbitrary: ts ctx)
  case (Return r)
  then show ?case by (simp add: reach_refl)
next
  case (StateGet key cont)
  show ?case
    unfolding run_prog.simps Let_def case_prod_unfold
    by (rule owner_steps_chain [OF StateGet.prems call_frames(1) call_owner_steps(1) [OF StateGet.prems(1)]
          call_ticks(1) run_prog_ticks])
      (rule StateGet.IH, auto)
next
  case (StatePut key val cont)
  show ?case
    unfolding run_prog.simps Let_def case_prod_unfold
    by (rule owner_steps_chain [OF StatePut.prems call_frames(2) call_owner_steps(2) [OF StatePut.prems(1)]
          call_ticks(2) run_prog_ticks])
      (rule StatePut.IH, auto)
next
  case (StateDelete key cont)
  show ?case
    unfolding run_prog.simps Let_def case_prod_unfold
    by (rule owner_steps_chain [OF StateDelete.prems call_frames(3) call_owner_steps(3) [OF StateDelete.prems(1)]
          call_ticks(3) run_prog_ticks])
      (rule StateDelete.IH, auto)
qed

lemma guard_enter_context:
  "current_context (snd (guard_enter c f has ts)) = Some \<lparr>rsc_connection_id = c, rsc_filter_name = f,
     rsc_has_store = has, rsc_stats = default_resource_stats\<rparr>"
  "slot_ok (snd (guard_enter c f has ts))"
  "ts_store (snd (guard_enter c f has ts)) = ts_store ts"
  by (simp_all add: guard_enter_def Let_def current_context_def slot_ok_def)

lemma guard_enter_clock:
  "ts_clock (snd (guard_enter c f has ts)) = ts_clock ts"
  "ts_ticks (snd (guard_enter c f has ts)) = ts_ticks ts"
  by (simp_all add: guard_enter_def Let_def)

lemma run_guarded_owner_steps:
  "reach (owner_step (c, f) (lapsed_in ts (snd (run_guarded c f has prog ts))))
     (ts_store ts) (ts_store (snd (run_guarded c f has prog ts)))"
  using run_prog_owner_steps [OF guard_enter_context(1) guard_enter_context(2), of c f has ts prog]
  by (simp add: run_guarded_def Let_def case_prod_unfold guard_finish_def guard_enter_context
      ctx_owner_def guard_enter_clock)

section \<open>What a script does, told without the slot\<close>

text \<open>A run of a script by itself: the store calls it makes for its connection and filter, each
  with the next reading of the clock, and the statistics each of them returned. There is no slot
  and no context here; without a store every call fails and reaches nothing.\<close>

primrec script_calls ::
  "'r roto_prog \<Rightarrow> string \<Rightarrow> string \<Rightarrow> bool \<Rightarrow> (nat \<Rightarrow> time) \<Rightarrow> filter_state_store \<Rightarrow> nat
   \<Rightarrow> 'r \<times> state_op_stats list \<times> filter_state_store \<times> nat" where
  "script_calls (Return r) c f has clock s n = (r, [], s, n)"
| "script_calls (StateGet key cont) c f has clock s n =
     (if has then
        (let ((found, st), s1) = store_get s (clock n) c f key;
             (r, sts, rest) = script_calls (cont (case found of None \<Rightarrow> [] | Some b \<Rightarrow> from_utf8_lossy b))
                c f has clock s1 (Suc n)
         in (r, st # sts, rest))
      else script_calls (cont []) c f has clock s n)"
| "script_calls (StatePut key val cont) c f has clock s n =
     (if has then
        (let ((put_outcome, st), s1) = store_put s (clock n) c f key val;
             (r, sts, rest) = script_calls (cont (put_outcome \<in> {Stored, Replaced})) c f has clock s1 (Suc n)
         in (r, st # sts, rest))
      else script_calls (cont False) c f has clock s n)"
| "script_calls (StateDelete key cont) c f has clock s n =
     (if has then
        (let (st, s1) = store_delete s c f key;
             (r, sts, rest) = script_calls (cont (st_evicted_items st > 0)) c f has clock s1 n
         in (r, st # sts, rest))
      else script_calls (cont False) c f has clock s n)"

text \<open>The statistics of a run: sums over its calls, the number of items after the last one, and
  whether any of them hit a limit.\<close>

definition calls_summary :: "state_op_stats list \<Rightarrow> filter_resource_stats" where
  "calls_summary sts = \<lparr>
     frs_state_read_bytes = sum_list (map st_read_bytes sts),
     frs_state_write_bytes = sum_list (map st_write_bytes sts),
     frs_state_items = (if sts = [] then 0 else st_state_items (last sts)),
     frs_evicted_items = sum_list (map st_evicted_items sts),
     frs_limit_hit = (\<exists>st \<in> set sts. st_limit_hit st)\<rparr>"

lemma calls_summary_snoc: "calls_summary (sts @ [st]) = add_op_stats st (calls_summary sts)"
  by (auto simp: calls_summary_def add_op_stats_def)

lemma fold_add_op_stats: "fold add_op_stats sts default_resource_stats = calls_summary sts"
proof (induction sts rule: rev_induct)
  case Nil
  show ?case by (simp add: calls_summary_def default_resource_stats_def)
next
  case (snoc st sts)
  then show ?case by (simp add: calls_summary_snoc)
qed

text \<open>A thread that runs for a context, against a run by itself.\<close>

definition runs_for :: "thread_state \<Rightarrow> runtime_state_context \<Rightarrow> bool" where
  "runs_for ts ctx \<longleftrightarrow> slot_ok ts \<and> current_context ts = Some ctx"

definition after_call ::
  "thread_state \<Rightarrow> state_op_stats \<Rightarrow> filter_state_store \<Rightarrow> nat \<Rightarrow> thread_state" where
  "after_call ts st s n = accumulate st (ts\<lparr>ts_ticks := n, ts_store := s\<rparr>)"

lemma runs_for_after_call:
  "runs_for ts ctx \<Longrightarrow>
   runs_for (after_call ts st s n) (ctx\<lparr>rsc_stats := add_op_stats st (rsc_stats ctx)\<rparr>)"
  by (auto simp: runs_for_def after_call_def accumulate_def current_context_def slot_ok_def Let_def
      split: option.splits)

lemma after_call_sel [simp]:
  "ts_store (after_call ts st s n) = s" "ts_ticks (after_call ts st s n) = n"
  "ts_clock (after_call ts st s n) = ts_clock ts"
  by (simp_all add: after_call_def)

lemma calls_for:
  assumes "runs_for ts ctx" and "rsc_has_store ctx"
  shows "state_get_text key ts =
      (let ((found, st), s) = store_get (ts_store ts) (ts_clock ts (ts_ticks ts))
             (rsc_connection_id ctx) (rsc_filter_name ctx) key
       in (map_option from_utf8_lossy found, after_call ts st s (Suc (ts_ticks ts))))"
    and "state_put_text key val ts =
      (let ((put_outcome, st), s) = store_put (ts_store ts) (ts_clock ts (ts_ticks ts))
             (rsc_connection_id ctx) (rsc_filter_name ctx) key val
       in (put_outcome \<in> {Stored, Replaced}, after_call ts st s (Suc (ts_ticks ts))))"
    and "state_delete key ts =
      (let (st, s) = store_delete (ts_store ts) (rsc_connection_id ctx) (rsc_filter_name ctx) key
       in (st_evicted_items st > 0, after_call ts st s (ts_ticks ts)))"
  using assms
  by (auto simp: runs_for_def state_get_text_def state_put_text_def state_delete_def read_clock_def
      after_call_def Let_def case_prod_unfold)

lemma calls_without_store:
  assumes "runs_for ts ctx" and "\<not> rsc_has_store ctx"
  shows "state_get_text key ts = (None, ts)" "state_put_text key val ts = (False, ts)"
    "state_delete key ts = (False, ts)"
  using assms by (auto simp: runs_for_def state_get_text_def state_put_text_def state_delete_def)

lemma run_prog_calls:
  assumes "runs_for ts ctx"
    and "script_calls prog (rsc_connection_id ctx) (rsc_filter_name ctx) (rsc_has_store ctx)
           (ts_clock ts) (ts_store ts) (ts_ticks ts) = (r, sts, s, n)"
  shows "fst (run_prog prog ts) = r \<and> ts_store (snd (run_prog prog ts)) = s
       \<and> ts_ticks (snd (run_prog prog ts)) = n
       \<and> runs_for (snd (run_prog prog ts)) (ctx\<lparr>rsc_stats := fold add_op_stats sts (rsc_stats ctx)\<rparr>)"
  using assms
proof (induction prog arbitrary: ts ctx r sts s n)
  case (Return r)
  then show ?case by auto
next
  case (StateGet key cont)
  show ?case
  proof (cases "rsc_has_store ctx")
    case True
    note next_run = StateGet.IH [OF rangeI runs_for_after_call [OF StateGet.prems(1)]]
    from True StateGet.prems(2) next_run show ?thesis
      by (fastforce simp: calls_for [OF StateGet.prems(1) True] Let_def split: prod.splits option.splits)
  next
    case False
    with StateGet.prems StateGet.IH [OF rangeI StateGet.prems(1)] show ?thesis
      by (auto simp: calls_without_store [OF StateGet.prems(1) False])
  qed
next
  case (StatePut key val cont)
  show ?case
  proof (cases "rsc_has_store ctx")
    case True
    note next_run = StatePut.IH [OF rangeI runs_for_after_call [OF StatePut.prems(1)]]
    from True StatePut.prems(2) next_run show ?thesis
      by (fastforce simp: calls_for [OF StatePut.prems(1) True] Let_def split: prod.splits)
  next
    case False
    with StatePut.prems StatePut.IH [OF rangeI StatePut.prems(1)] show ?thesis
      by (auto simp: calls_without_store [OF StatePut.prems(1) False])
  qed
next
  case (StateDelete key cont)
  show ?case
  proof (cases "rsc_has_store ctx")
    case True
    note next_run = StateDelete.IH [OF rangeI runs_for_after_call [OF StateDelete.prems(1)]]
    from True StateDelete.prems(2) next_run show ?thesis
      by (fastforce simp: calls_for [OF StateDelete.prems(1) True] Let_def split: prod.splits)
  next
    case False
    with StateDelete.prems StateDelete.IH [OF rangeI StateDelete.prems(1)] show ?thesis
      by (auto simp: calls_without_store [OF StateDelete.prems(1) False])
  qed
qed

lemma run_guarded_calls:
  assumes "script_calls prog c f has (ts_clock ts) (ts_store ts) (ts_ticks ts) = (r, sts, s, n)"
  shows "fst (run_guarded c f has prog ts) = (r, calls_summary sts)"
    and "ts_store (snd (run_guarded c f has prog ts)) = s"
    and "ts_ticks (snd (run_guarded c f has prog ts)) = n"
proof -
  let ?ctx = "\<lparr>rsc_connection_id = c, rsc_filter_name = f, rsc_has_store = has,
     rsc_stats = default_resource_stats\<rparr>" and ?ts1 = "snd (guard_enter c f has ts)"
  have "runs_for ?ts1 ?ctx" by (simp add: runs_for_def guard_enter_context)
  from run_prog_calls [OF this, of prog] assms
  have run: "fst (run_prog prog ?ts1) = r" "ts_store (snd (run_prog prog ?ts1)) = s"
      "ts_ticks (snd (run_prog prog ?ts1)) = n"
    and cur: "current_context (snd (run_prog prog ?ts1)) = Some (?ctx\<lparr>rsc_stats := calls_summary sts\<rparr>)"
    by (simp_all add: guard_enter_context guard_enter_clock runs_for_def fold_add_op_stats)
  have "ts_slot (snd (run_prog prog ?ts1)) = Some (length (ts_heap ts))"
    using run_prog_frame [of ?ts1 prog] by (simp add: same_frame_def guard_enter_def Let_def)
  with cur have "rsc_stats (ts_heap (snd (run_prog prog ?ts1)) ! length (ts_heap ts)) = calls_summary sts"
    by (simp add: current_context_def)
  then show "fst (run_guarded c f has prog ts) = (r, calls_summary sts)"
    and "ts_store (snd (run_guarded c f has prog ts)) = s"
    and "ts_ticks (snd (run_guarded c f has prog ts)) = n"
    using run by (simp_all add: run_guarded_def Let_def case_prod_unfold guard_finish_def
        guard_enter_def [of c f has ts])
qed

section \<open>Properties\<close>

text \<open>C30: whatever a script does, running it for a connection and a filter keeps the store's
  invariant, so the limits hold after any number of script runs, and the entries of every other
  connection and filter stay exactly as they are (value and times), except that an entry may be
  gone which had outlived the time to live at a reading of the clock that this run took.\<close>

theorem script_is_confined:
  assumes "store_inv (ts_store ts)" and "run_guarded c f has prog ts = (res, ts')"
  shows "store_inv (ts_store ts')
       \<and> (\<forall>key. (key_connection_id key, key_filter_name key) \<noteq> (c, f) \<longrightarrow>
            entry_at (ts_store ts') key = entry_at (ts_store ts) key
          \<or> (\<exists>e n. entry_at (ts_store ts) key = Some e \<and> entry_at (ts_store ts') key = None
               \<and> ts_ticks ts \<le> n \<and> n < ts_ticks ts'
               \<and> entry_expired (lim_ttl (fss_limits (ts_store ts))) (ts_clock ts n) e))"
proof (intro conjI allI impI)
  have steps: "reach (owner_step (c, f) (lapsed_in ts ts')) (ts_store ts) (ts_store ts')"
    using run_guarded_owner_steps [of c f ts has prog] assms(2) by simp
  show "store_inv (ts_store ts')"
    by (rule fss_shared.own_reach_inv [OF steps assms(1)])
  fix key :: state_key
  assume "(key_connection_id key, key_filter_name key) \<noteq> (c, f)"
  then have "key_owner key \<noteq> (c, f)" by (simp add: key_owner_def)
  from fss_shared.own_reach_foreign [OF steps assms(1) this]
  show "entry_at (ts_store ts') key = entry_at (ts_store ts) key
      \<or> (\<exists>e n. entry_at (ts_store ts) key = Some e \<and> entry_at (ts_store ts') key = None
           \<and> ts_ticks ts \<le> n \<and> n < ts_ticks ts'
           \<and> entry_expired (lim_ttl (fss_limits (ts_store ts))) (ts_clock ts n) e)"
    by (auto simp: lapsed_at_def)
qed

definition idle_thread :: thread_state where
  "idle_thread = \<lparr>ts_heap = [], ts_slot = None, ts_store = new_store tiny_limits,
     ts_clock = (\<lambda>n. 10 * n), ts_ticks = 0\<rparr>"

text \<open>Two entries of another filter: one is still alive when the script's put sweeps, one is not.\<close>

definition shared_thread :: thread_state where
  "shared_thread = idle_thread\<lparr>
     ts_store := snd (store_put (snd (store_put (new_store tiny_limits) 0 ''d'' ''g'' ''old'' ''a''))
       60 ''d'' ''g'' ''new'' ''b''), ts_ticks := 11\<rparr>"

theorem script_is_confined_witness:
  "entry_at (ts_store shared_thread) (state_key_of ''d'' ''g'' ''old'') \<noteq> None
   \<and> entry_at (ts_store (snd (run_guarded ''c'' ''f'' True (StatePut ''k'' ''abc'' Return) shared_thread)))
        (state_key_of ''d'' ''g'' ''old'') = None
   \<and> entry_expired 100 (ts_clock shared_thread 11)
        (the (entry_at (ts_store shared_thread) (state_key_of ''d'' ''g'' ''old'')))"
proof -
  let ?k = "state_key_of ''d'' ''g'' ''old''"
  have inv: "store_inv (ts_store shared_thread)"
    by (simp add: shared_thread_def store_put_inv new_store_inv)
  have vals: "entry_at (ts_store shared_thread) ?k \<noteq> None"
      "entry_at (ts_store (snd (run_guarded ''c'' ''f'' True (StatePut ''k'' ''abc'' Return) shared_thread))) ?k = None"
      "ts_ticks shared_thread = 11"
      "ts_ticks (snd (run_guarded ''c'' ''f'' True (StatePut ''k'' ''abc'' Return) shared_thread)) = 12"
      "lim_ttl (fss_limits (ts_store shared_thread)) = 100"
    by code_simp+
  have "(key_connection_id ?k, key_filter_name ?k) \<noteq> (''c'', ''f'')" by simp
  with script_is_confined [OF inv surjective_pairing, of "''c''" "''f''" True "StatePut ''k'' ''abc'' Return"] vals
  obtain e n where "entry_at (ts_store shared_thread) ?k = Some e" "11 \<le> n" "n < 12"
      "entry_expired 100 (ts_clock shared_thread n) e"
    by fastforce
  moreover from this have "n = 11" by simp
  ultimately show ?thesis using vals by simp
qed

text \<open>C31: after a guarded run the thread's slot and context are what they were and every context
  that existed before is untouched, so runs nest; the result, the store and the statistics are those
  of the script run by itself, whatever was accumulated before: sums over the calls of this run.\<close>

theorem guarded_run_restores:
  assumes "slot_ok ts" and "run_guarded c f has prog ts = ((r, stats), ts')"
  shows "ts_slot ts' = ts_slot ts
       \<and> (\<forall>a < length (ts_heap ts). ts_heap ts' ! a = ts_heap ts ! a)
       \<and> current_context ts' = current_context ts
       \<and> (\<exists>sts. script_calls prog c f has (ts_clock ts) (ts_store ts) (ts_ticks ts)
                  = (r, sts, ts_store ts', ts_ticks ts')
            \<and> stats = calls_summary sts)"
proof -
  let ?ts1 = "snd (guard_enter c f has ts)"
  have fr: "same_frame ?ts1 (snd (run_prog prog ?ts1))" by (rule run_prog_frame)
  have slot: "ts_slot ?ts1 = Some (length (ts_heap ts))" and heap: "length (ts_heap ?ts1) = Suc (length (ts_heap ts))"
    by (simp_all add: guard_enter_def Let_def)
  have old: "ts_heap (snd (run_prog prog ?ts1)) ! a = ts_heap ts ! a" if "a < length (ts_heap ts)" for a
  proof -
    have "ts_heap (snd (run_prog prog ?ts1)) ! a = ts_heap ?ts1 ! a"
      using fr slot heap that unfolding same_frame_def by auto
    then show ?thesis using that by (simp add: guard_enter_def Let_def nth_append)
  qed
  have ts': "ts' = (snd (run_prog prog ?ts1))\<lparr>ts_slot := ts_slot ts\<rparr>"
    using assms(2) by (auto simp: run_guarded_def Let_def case_prod_unfold guard_finish_def
        guard_enter_def [of c f has ts])
  obtain r' sts s n where calls:
    "script_calls prog c f has (ts_clock ts) (ts_store ts) (ts_ticks ts) = (r', sts, s, n)"
    by (metis prod_cases4)
  from run_guarded_calls [OF this] assms(2) calls
  have "script_calls prog c f has (ts_clock ts) (ts_store ts) (ts_ticks ts)
      = (r, sts, ts_store ts', ts_ticks ts') \<and> stats = calls_summary sts"
    by simp
  with assms(1) old show ?thesis
    by (auto simp: ts' current_context_def slot_ok_def split: option.splits)
qed

theorem guarded_run_restores_witness:
  "ts_slot (snd (run_guarded ''c'' ''f'' True (StatePut ''k'' ''abcdef'' Return) idle_thread)) = None
   \<and> frs_limit_hit (snd (fst (run_guarded ''c'' ''f'' True (StatePut ''k'' ''abcdef'' Return) idle_thread)))"
proof -
  have "slot_ok idle_thread" by (simp add: slot_ok_def idle_thread_def)
  from guarded_run_restores [OF this, of "''c''" "''f''" True "StatePut ''k'' ''abcdef'' Return"]
  have "ts_slot (snd (run_guarded ''c'' ''f'' True (StatePut ''k'' ''abcdef'' Return) idle_thread)) = ts_slot idle_thread"
    by (metis prod.collapse)
  then show ?thesis by (simp add: idle_thread_def) code_simp
qed

end
