(* ===== verification/RotoRuntime.thy ===== *)
theory RotoRuntime
  imports RotoAction RuntimeState Paths
begin

text \<open>
  Compiled filters (\<open>src/src/filters/runtime.rs\<close>): what a compiled Roto package exports, how a filter
  answers a request or a response, and the ordered set of filters. A script function is a function
  into \<open>roto_prog\<close>, since it may call the state functions while it runs; the Roto compiler is the
  parameter \<open>compile\<close>. The connect functions have no state calls and are plain functions.
\<close>

section \<open>Sequencing scripts\<close>

primrec roto_bind :: "'a roto_prog \<Rightarrow> ('a \<Rightarrow> 'b roto_prog) \<Rightarrow> 'b roto_prog" where
  "roto_bind (Return a) f = f a"
| "roto_bind (StateGet key cont) f = StateGet key (\<lambda>v. roto_bind (cont v) f)"
| "roto_bind (StatePut key val cont) f = StatePut key val (\<lambda>v. roto_bind (cont v) f)"
| "roto_bind (StateDelete key cont) f = StateDelete key (\<lambda>v. roto_bind (cont v) f)"

lemma run_prog_bind:
  "run_prog (roto_bind p f) ts = (let (a, ts') = run_prog p ts in run_prog (f a) ts')"
  by (induction p arbitrary: ts) (simp_all add: Let_def case_prod_unfold)

text \<open>Calling an optional script function and keeping a non-empty trimmed result.\<close>

definition non_empty_roto_string :: "string \<Rightarrow> string option" where
  "non_empty_roto_string s = (if trim s = [] then None else Some (trim s))"

section \<open>Compiled filters\<close>

record compiled_roto_filter =
  crf_on_request :: "(roto_request_data \<Rightarrow> bool roto_prog) option"
  crf_on_response :: "(roto_response_data \<Rightarrow> bool roto_prog) option"
  crf_connect_action :: "(roto_connect_data \<Rightarrow> roto_connect_action_data) option"
  crf_request_action :: "(roto_request_data \<Rightarrow> roto_request_action_data roto_prog) option"
  crf_response_action :: "(roto_response_data \<Rightarrow> roto_response_action_data roto_prog) option"
  crf_request_mark :: "(roto_request_data \<Rightarrow> string roto_prog) option"
  crf_response_mark :: "(roto_response_data \<Rightarrow> string roto_prog) option"
  crf_request_header_name :: "(roto_request_data \<Rightarrow> string roto_prog) option"
  crf_request_header_value :: "(roto_request_data \<Rightarrow> string roto_prog) option"
  crf_response_header_name :: "(roto_response_data \<Rightarrow> string roto_prog) option"
  crf_response_header_value :: "(roto_response_data \<Rightarrow> string roto_prog) option"
  crf_request_body :: "(roto_request_data \<Rightarrow> string roto_prog) option"
  crf_request_body_content_type :: "(roto_request_data \<Rightarrow> string roto_prog) option"
  crf_response_body :: "(roto_response_data \<Rightarrow> string roto_prog) option"
  crf_response_body_content_type :: "(roto_response_data \<Rightarrow> string roto_prog) option"

definition no_functions :: compiled_roto_filter where
  "no_functions = \<lparr>crf_on_request = None, crf_on_response = None, crf_connect_action = None,
     crf_request_action = None, crf_response_action = None, crf_request_mark = None, crf_response_mark = None,
     crf_request_header_name = None, crf_request_header_value = None, crf_response_header_name = None,
     crf_response_header_value = None, crf_request_body = None, crf_request_body_content_type = None,
     crf_response_body = None, crf_response_body_content_type = None\<rparr>"

datatype roto_program = MetadataOnly | Compiled nat compiled_roto_filter

record compiled_filter =
  cf_definition :: filter_definition
  cf_priority :: int
  cf_program :: roto_program

definition metadata_only :: "filter_definition \<Rightarrow> int \<Rightarrow> compiled_filter" where
  "metadata_only definit prio = \<lparr>cf_definition = definit, cf_priority = prio, cf_program = MetadataOnly\<rparr>"

definition compiled :: "filter_definition \<Rightarrow> int \<Rightarrow> compiled_roto_filter \<Rightarrow> compiled_filter" where
  "compiled definit prio filt = \<lparr>cf_definition = definit, cf_priority = prio,
     cf_program = Compiled (length (fd_script definit)) filt\<rparr>"

definition filter_name :: "compiled_filter \<Rightarrow> string" where
  "filter_name f = (case fm_name (fd_metadata (cf_definition f)) of
     Some name \<Rightarrow> name
   | None \<Rightarrow> (case Option.bind (path_file_stem (fd_path (cf_definition f))) from_utf8 of
       Some name \<Rightarrow> name
     | None \<Rightarrow> ''unnamed''))"

definition filter_trigger_of :: "compiled_filter \<Rightarrow> filter_trigger" where
  "filter_trigger_of f = fm_trigger (fd_metadata (cf_definition f))"

section \<open>Compiling\<close>

record roto_package =
  pk_ping :: "bool option"
  pk_request_bool :: "string \<Rightarrow> (roto_request_data \<Rightarrow> bool roto_prog) option"
  pk_response_bool :: "string \<Rightarrow> (roto_response_data \<Rightarrow> bool roto_prog) option"
  pk_connect_action :: "string \<Rightarrow> (roto_connect_data \<Rightarrow> roto_connect_action_data) option"
  pk_request_action :: "string \<Rightarrow> (roto_request_data \<Rightarrow> roto_request_action_data roto_prog) option"
  pk_response_action :: "string \<Rightarrow> (roto_response_data \<Rightarrow> roto_response_action_data roto_prog) option"
  pk_request_string :: "string \<Rightarrow> (roto_request_data \<Rightarrow> string roto_prog) option"
  pk_response_string :: "string \<Rightarrow> (roto_response_data \<Rightarrow> string roto_prog) option"

datatype compile_error = CompileFailed string | MissingPing string | PingFalse string

definition compile_roto_filter_file ::
  "(string \<Rightarrow> string + roto_package) \<Rightarrow> string \<Rightarrow> compile_error + compiled_roto_filter" where
  "compile_roto_filter_file compile path = (case compile path of
     Inl err \<Rightarrow> Inl (CompileFailed err)
   | Inr package \<Rightarrow> (case pk_ping package of
       None \<Rightarrow> Inl (MissingPing path)
     | Some ping \<Rightarrow>
         if \<not> ping then Inl (PingFalse path)
         else Inr \<lparr>
           crf_on_request = pk_request_bool package ''on_request'',
           crf_on_response = pk_response_bool package ''on_response'',
           crf_connect_action = pk_connect_action package ''connect_action'',
           crf_request_action = pk_request_action package ''request_action'',
           crf_response_action = pk_response_action package ''response_action'',
           crf_request_mark = pk_request_string package ''request_mark'',
           crf_response_mark = pk_response_string package ''response_mark'',
           crf_request_header_name = pk_request_string package ''request_header_name'',
           crf_request_header_value = pk_request_string package ''request_header_value'',
           crf_response_header_name = pk_response_string package ''response_header_name'',
           crf_response_header_value = pk_response_string package ''response_header_value'',
           crf_request_body = pk_request_string package ''request_body'',
           crf_request_body_content_type = pk_request_string package ''request_body_content_type'',
           crf_response_body = pk_response_string package ''response_body'',
           crf_response_body_content_type = pk_response_string package ''response_body_content_type''\<rparr>))"

section \<open>Running a filter\<close>

definition run_connect_action :: "compiled_filter \<Rightarrow> filter_connect \<Rightarrow> connect_action option" where
  "run_connect_action f conn = (case cf_program f of
     MetadataOnly \<Rightarrow> None
   | Compiled _ filt \<Rightarrow>
       map_option (\<lambda>func. connect_action_of (func (roto_connect_data_of conn))) (crf_connect_action filt))"

definition call_non_empty :: "('d \<Rightarrow> string roto_prog) option \<Rightarrow> 'd \<Rightarrow> string option roto_prog" where
  "call_non_empty func data = (case func of
     None \<Rightarrow> Return None
   | Some f \<Rightarrow> roto_bind (f data) (\<lambda>s. Return (non_empty_roto_string s)))"

text \<open>The optional header of the older callbacks: the name is asked for first, the value only if the
  name is not empty.\<close>

definition call_header ::
  "('d \<Rightarrow> string roto_prog) option \<Rightarrow> ('d \<Rightarrow> string roto_prog) option \<Rightarrow> 'd \<Rightarrow> (string \<times> string) option roto_prog" where
  "call_header name_fn value_fn data = (case (name_fn, value_fn) of
     (Some nf, Some vf) \<Rightarrow>
       roto_bind (call_non_empty (Some nf) data) (\<lambda>name. case name of
         None \<Rightarrow> Return None
       | Some n \<Rightarrow> roto_bind (vf data) (\<lambda>v. Return (Some (n, v))))
   | _ \<Rightarrow> Return None)"

definition call_body ::
  "('d \<Rightarrow> string roto_prog) option \<Rightarrow> ('d \<Rightarrow> string roto_prog) option \<Rightarrow> 'd \<Rightarrow> (string \<times> string option) option roto_prog" where
  "call_body body_fn content_type_fn data = (case body_fn of
     None \<Rightarrow> Return None
   | Some bf \<Rightarrow>
       roto_bind (bf data) (\<lambda>body.
       roto_bind (call_non_empty content_type_fn data) (\<lambda>ct. Return (Some (body, ct)))))"

definition on_request ::
  "('rx, 'p) script_lib \<Rightarrow> compiled_filter \<Rightarrow> filter_request \<Rightarrow> (string + request_action) roto_prog" where
  "on_request L f req = (case cf_program f of
     MetadataOnly \<Rightarrow>
       Return (Inr (api_request_mark_color
         (api_request_set_header request_pass ''x-inspect-request-filter'' (filter_name f)) (filter_name f) ''green''))
   | Compiled _ filt \<Rightarrow>
       (let req_data = from_filter_request req in
        case crf_request_action filt of
          Some request_action \<Rightarrow>
            roto_bind (request_action req_data) (\<lambda>action.
              Return (Inr (into_request_action L action (fb_text (fr_body req)))))
        | None \<Rightarrow> (case crf_on_request filt of
            None \<Rightarrow> Return (Inr request_pass)
          | Some on_req \<Rightarrow>
              roto_bind (on_req req_data) (\<lambda>matched.
              if \<not> matched then Return (Inr request_pass)
              else
                roto_bind (call_non_empty (crf_request_mark filt) req_data) (\<lambda>mark.
                let label = (case mark of Some m \<Rightarrow> m | None \<Rightarrow> ''roto:'' @ filter_name f);
                    action0 = api_request_mark_color
                      (api_request_set_header request_pass ''x-inspect-roto-request-filter'' (filter_name f)) label ''green''
                in roto_bind (call_header (crf_request_header_name filt) (crf_request_header_value filt) req_data) (\<lambda>header.
                let action1 = (case header of Some (name, val) \<Rightarrow> api_request_set_header action0 name val | None \<Rightarrow> action0)
                in roto_bind (call_body (crf_request_body filt) (crf_request_body_content_type filt) req_data) (\<lambda>body.
                Return (Inr (case body of
                   Some (text, ct) \<Rightarrow> api_request_set_body_text action1 text ct
                 | None \<Rightarrow> action1)))))))))"

definition on_response ::
  "('rx, 'p) script_lib \<Rightarrow> compiled_filter \<Rightarrow> filter_response \<Rightarrow> (string + response_action) roto_prog" where
  "on_response L f res = (case cf_program f of
     MetadataOnly \<Rightarrow>
       Return (Inr (api_response_mark_color
         (api_response_set_header response_pass ''x-inspect-filter'' (filter_name f)) (''filtered:'' @ filter_name f) ''green''))
   | Compiled _ filt \<Rightarrow>
       (let res_data = from_filter_response res in
        case crf_response_action filt of
          Some response_action \<Rightarrow>
            roto_bind (response_action res_data) (\<lambda>action.
              Return (Inr (into_response_action L action (fb_text (fp_body res)))))
        | None \<Rightarrow> (case crf_on_response filt of
            None \<Rightarrow> Return (Inr response_pass)
          | Some on_res \<Rightarrow>
              roto_bind (on_res res_data) (\<lambda>matched.
              if \<not> matched then Return (Inr response_pass)
              else
                roto_bind (call_non_empty (crf_response_mark filt) res_data) (\<lambda>mark.
                let label = (case mark of Some m \<Rightarrow> m | None \<Rightarrow> ''roto-res:'' @ filter_name f);
                    action0 = api_response_mark_color
                      (api_response_set_header response_pass ''x-inspect-roto-response-filter'' (filter_name f)) label ''green''
                in roto_bind (call_header (crf_response_header_name filt) (crf_response_header_value filt) res_data) (\<lambda>header.
                let action1 = (case header of Some (name, val) \<Rightarrow> api_response_set_header action0 name val | None \<Rightarrow> action0)
                in roto_bind (call_body (crf_response_body filt) (crf_response_body_content_type filt) res_data) (\<lambda>body.
                Return (Inr (case body of
                   Some (text, ct) \<Rightarrow> api_response_set_body_text action1 text ct
                 | None \<Rightarrow> action1)))))))))"

definition on_completed :: "compiled_filter \<Rightarrow> filter_flow \<Rightarrow> (string + completed_action) roto_prog" where
  "on_completed f flow = Return (Inr completed_pass)"

section \<open>The filter set\<close>

definition filter_order :: "compiled_filter \<Rightarrow> int \<times> path_component list" where
  "filter_order f = (cf_priority f, path_components (fd_path (cf_definition f)))"

definition new_filter_set :: "compiled_filter list \<Rightarrow> compiled_filter list" where
  "new_filter_set filters = sort_key filter_order filters"

definition matching_connect :: "compiled_filter list \<Rightarrow> filter_connect_view \<Rightarrow> compiled_filter list" where
  "matching_connect fs conn = filter (\<lambda>f. matches_connect (filter_trigger_of f) conn) fs"

definition matching_request :: "compiled_filter list \<Rightarrow> filter_request_view \<Rightarrow> compiled_filter list" where
  "matching_request fs req = filter (\<lambda>f. matches_request (filter_trigger_of f) req) fs"

definition matching_response :: "compiled_filter list \<Rightarrow> filter_response_view \<Rightarrow> compiled_filter list" where
  "matching_response fs res = filter (\<lambda>f. matches_response (filter_trigger_of f) res) fs"

definition matching_completed :: "compiled_filter list \<Rightarrow> filter_request_view \<Rightarrow> compiled_filter list" where
  "matching_completed fs req = filter (\<lambda>f. matches_completed (filter_trigger_of f) req) fs"

section \<open>Properties\<close>

lemma filter_sort_key_sorted: "sorted (map f (filter P (sort_key f xs)))"
  by (metis filter_sort sorted_sort_key)

text \<open>The filters that match a request are exactly the loaded filters whose trigger selects it, each
  as often as it is loaded, in the order of priority and then of path; filters with the same
  priority and path keep the order in which they were loaded.\<close>

theorem matching_request_ordered:
  "set (matching_request (new_filter_set fs) req) = {f \<in> set fs. matches_request (filter_trigger_of f) req}
   \<and> sorted (map filter_order (matching_request (new_filter_set fs) req))
   \<and> (\<forall>k. filter (\<lambda>f. filter_order f = k) (matching_request (new_filter_set fs) req)
        = filter (\<lambda>f. filter_order f = k) (matching_request fs req))"
proof (intro conjI allI)
  show "set (matching_request (new_filter_set fs) req) = {f \<in> set fs. matches_request (filter_trigger_of f) req}"
    by (auto simp: matching_request_def new_filter_set_def)
  show "sorted (map filter_order (matching_request (new_filter_set fs) req))"
    unfolding matching_request_def new_filter_set_def by (rule filter_sort_key_sorted)
  fix k
  have "matching_request (new_filter_set fs) req = sort_key filter_order (matching_request fs req)"
    by (simp add: matching_request_def new_filter_set_def filter_sort)
  then show "filter (\<lambda>f. filter_order f = k) (matching_request (new_filter_set fs) req)
      = filter (\<lambda>f. filter_order f = k) (matching_request fs req)"
    by (simp add: sort_key_stable)
qed

text \<open>A script is taken into service only if the compiler accepts it and its \<open>ping\<close> exists and
  returns true, and then a request without a request function of the script goes through
  unchanged.\<close>

theorem compile_requires_ping:
  "((\<exists>filt. compile_roto_filter_file compile path = Inr filt) \<longleftrightarrow>
      (\<exists>package. compile path = Inr package \<and> pk_ping package = Some True))
   \<and> (\<forall>filt. compile_roto_filter_file compile path = Inr filt \<longrightarrow>
        crf_request_action filt = None \<longrightarrow> crf_on_request filt = None \<longrightarrow>
        run_prog (on_request L (compiled definit prio filt) req) ts = (Inr request_pass, ts))"
  by (auto simp: compile_roto_filter_file_def on_request_def compiled_def Let_def split: sum.splits option.splits)

definition empty_package :: "bool option \<Rightarrow> roto_package" where
  "empty_package ping = \<lparr>pk_ping = ping, pk_request_bool = (\<lambda>_. None), pk_response_bool = (\<lambda>_. None),
     pk_connect_action = (\<lambda>_. None), pk_request_action = (\<lambda>_. None), pk_response_action = (\<lambda>_. None),
     pk_request_string = (\<lambda>_. None), pk_response_string = (\<lambda>_. None)\<rparr>"

theorem compile_requires_ping_witness:
  "(\<exists>filt. compile_roto_filter_file (\<lambda>_. Inr (empty_package (Some True))) ''a.roto'' = Inr filt)
   \<and> \<not> (\<exists>filt. compile_roto_filter_file (\<lambda>_. Inr (empty_package (Some False))) ''a.roto'' = Inr filt)"
  using compile_requires_ping [of "\<lambda>_. Inr (empty_package (Some True))" "''a.roto''", THEN conjunct1]
    compile_requires_ping [of "\<lambda>_. Inr (empty_package (Some False))" "''a.roto''", THEN conjunct1]
  by (simp add: empty_package_def)

end
