(* ===== verification/FilterRuntime.thy ===== *)
theory FilterRuntime
  imports RotoRuntime FilterBridge
begin

text \<open>
  Running the filters of a flow (\<open>src/src/mitm/flow/filter_runtime.rs\<close>): the loops over the matching
  filters, the statistics recorded for every run, and the quarantine of slow filters. The time a
  run takes is the next reading of \<open>frt_elapsed\<close>, in nanoseconds; moving a file into quarantine and
  reloading the filter directory are file system work, whose outcomes are the fields of
  \<open>runtime_env\<close>.
\<close>

section \<open>State\<close>

record filter_exec_stat =
  fes_id :: string
  fes_seq :: nat
  fes_flow_key :: string
  fes_phase :: string
  fes_filter_id :: string
  fes_filter_name :: string
  fes_elapsed_us :: int
  fes_result_code :: int
  fes_resource_stats :: filter_resource_stats

record runtime_env =
  env_quarantine_var :: "string option"
  env_generated_filters_dir :: string
  env_filters_dir :: string
  env_quarantine_generated_filter :: "string \<Rightarrow> bool"
  env_quarantine_filter_file :: "string \<Rightarrow> bool"
  env_reload :: "compiled_filter list option"

record flow_filter_runtime =
  frt_current :: "compiled_filter list"
  frt_thread :: thread_state
  frt_has_store :: bool
  frt_quarantined_once :: "path_component list set"
  frt_quarantines :: "string list"
  frt_stats :: "filter_exec_stat list"
  frt_elapsed :: "nat \<Rightarrow> nat"
  frt_runs :: nat

text \<open>\<open>frt_quarantines\<close> is the log of the files moved into quarantine, in order.\<close>

section \<open>The threshold and the quarantine\<close>

definition jit_quarantine_threshold :: "runtime_env \<Rightarrow> nat" where
  "jit_quarantine_threshold env =
     (case Option.bind (env_quarantine_var env) (parse_uint u64_max) of
        None \<Rightarrow> 1000
      | Some ms \<Rightarrow> if ms > 0 then ms else 1000)"

definition is_over_jit_threshold :: "runtime_env \<Rightarrow> nat \<Rightarrow> bool" where
  "is_over_jit_threshold env elapsed \<longleftrightarrow> elapsed > jit_quarantine_threshold env * 1000000"

definition quarantine_slow_filter :: "runtime_env \<Rightarrow> string \<Rightarrow> flow_filter_runtime \<Rightarrow> bool \<times> flow_filter_runtime" where
  "quarantine_slow_filter env path rt =
     (if path_components path \<in> frt_quarantined_once rt then (False, rt)
      else
        (let rt1 = rt\<lparr>frt_quarantined_once := insert (path_components path) (frt_quarantined_once rt)\<rparr> in
         if path_starts_with path (env_generated_filters_dir env) then
           (if env_quarantine_generated_filter env path
            then (True, rt1\<lparr>frt_quarantines := frt_quarantines rt1 @ [path]\<rparr>) else (False, rt1))
         else if path_starts_with path (path_join (env_filters_dir env) ''generated'') then
           (if env_quarantine_filter_file env path
            then (True, rt1\<lparr>frt_quarantines := frt_quarantines rt1 @ [path]\<rparr>) else (False, rt1))
         else (False, rt1)))"

definition reload_after_quarantine :: "runtime_env \<Rightarrow> flow_filter_runtime \<Rightarrow> flow_filter_runtime" where
  "reload_after_quarantine env rt = (case env_reload env of None \<Rightarrow> rt | Some fs \<Rightarrow> rt\<lparr>frt_current := fs\<rparr>)"

definition sweep_state_stats :: "flow_filter_runtime \<Rightarrow> filter_resource_stats \<times> flow_filter_runtime" where
  "sweep_state_stats rt =
     (if \<not> frt_has_store rt then (default_resource_stats, rt)
      else
        (let (now, ts) = read_clock (frt_thread rt);
             (op, store) = sweep_expired (ts_store ts) now
         in (\<lparr>frs_state_read_bytes = st_read_bytes op, frs_state_write_bytes = st_write_bytes op,
              frs_state_items = st_state_items op, frs_evicted_items = st_evicted_items op,
              frs_limit_hit = st_limit_hit op\<rparr>,
             rt\<lparr>frt_thread := ts\<lparr>ts_store := store\<rparr>\<rparr>)))"

section \<open>One run\<close>

text \<open>\<open>Duration::as_micros() as i64\<close>: the cast keeps the low 64 bits.\<close>

definition micros_i64 :: "nat \<Rightarrow> int" where
  "micros_i64 elapsed = sint (of_nat (elapsed div 1000) :: 64 word)"

definition exec_filter ::
  "runtime_env \<Rightarrow> string \<Rightarrow> string \<Rightarrow> nat \<Rightarrow> string \<Rightarrow> compiled_filter \<Rightarrow> (string + 'a) roto_prog
   \<Rightarrow> flow_filter_runtime \<Rightarrow> ((string + 'a) \<times> bool) \<times> flow_filter_runtime" where
  "exec_filter env phase flow_id seq flow_key f prog rt =
     (let (swept, rt1) = sweep_state_stats rt;
          ((result, run_stats), ts) = run_guarded flow_key (filter_name f) (frt_has_store rt1) prog (frt_thread rt1);
          elapsed = frt_elapsed rt1 (frt_runs rt1);
          rt2 = rt1\<lparr>frt_thread := ts, frt_runs := Suc (frt_runs rt1)\<rparr>;
          resource_stats = merge_stats swept run_stats;
          code0 = (case result of Inr _ \<Rightarrow> 0 | Inl _ \<Rightarrow> 1);
          code1 = (if frs_limit_hit resource_stats then 3 else code0);
          (quarantined, rt3) = (if is_over_jit_threshold env elapsed
             then quarantine_slow_filter env (fd_path (cf_definition f)) rt2 else (False, rt2));
          result_code = (if quarantined then 2 else code1);
          stat = \<lparr>fes_id = flow_id, fes_seq = seq, fes_flow_key = flow_key, fes_phase = phase,
                  fes_filter_id = fd_id (cf_definition f), fes_filter_name = filter_name f,
                  fes_elapsed_us = micros_i64 elapsed, fes_result_code = result_code,
                  fes_resource_stats = resource_stats\<rparr>
      in ((result, quarantined), rt3\<lparr>frt_stats := frt_stats rt3 @ [stat]\<rparr>))"

section \<open>The loops\<close>

fun connect_loop :: "filter_connect \<Rightarrow> compiled_filter list \<Rightarrow> connect_action \<Rightarrow> connect_action" where
  "connect_loop conn [] combined = combined"
| "connect_loop conn (f # fs) combined =
     (case run_connect_action f conn of
        None \<Rightarrow> connect_loop conn fs combined
      | Some action \<Rightarrow>
          (let combined1 = merge_connect_action combined action in
           if \<not> ca_continue_filters combined1 then combined1 else connect_loop conn fs combined1))"

definition run_connect_filters :: "filter_connect_view \<Rightarrow> filter_connect \<Rightarrow> flow_filter_runtime \<Rightarrow> connect_action" where
  "run_connect_filters connect_view conn rt =
     connect_loop conn (matching_connect (frt_current rt) connect_view) connect_pass"

fun request_loop ::
  "('rx, 'p) script_lib \<Rightarrow> runtime_env \<Rightarrow> filter_request \<Rightarrow> compiled_filter list \<Rightarrow> request_action \<Rightarrow> bool
   \<Rightarrow> flow_filter_runtime \<Rightarrow> request_action \<times> bool \<times> flow_filter_runtime" where
  "request_loop L env req [] combined needs_reload rt = (combined, needs_reload, rt)"
| "request_loop L env req (f # fs) combined needs_reload rt =
     (case exec_filter env ''request'' (fr_id req) (fr_seq req) (fr_flow_key req) f (on_request L f req) rt of
        ((result, quarantined), rt1) \<Rightarrow>
          (case result of
             Inl err \<Rightarrow> request_loop L env req fs combined (needs_reload \<or> quarantined) rt1
           | Inr action \<Rightarrow>
               (let combined1 = merge_request_action combined action in
                if \<not> ra_continue_filters combined1 then (combined1, needs_reload \<or> quarantined, rt1)
                else request_loop L env req fs combined1 (needs_reload \<or> quarantined) rt1)))"

definition run_request_filters ::
  "('rx, 'p) script_lib \<Rightarrow> runtime_env \<Rightarrow> filter_request_view \<Rightarrow> filter_request \<Rightarrow> flow_filter_runtime
   \<Rightarrow> request_action \<times> flow_filter_runtime" where
  "run_request_filters L env req_view req rt =
     (case request_loop L env req (matching_request (frt_current rt) req_view) request_pass False rt of
        (combined, needs_reload, rt1) \<Rightarrow>
          (combined, if needs_reload then reload_after_quarantine env rt1 else rt1))"

fun response_loop ::
  "('rx, 'p) script_lib \<Rightarrow> runtime_env \<Rightarrow> filter_flow \<Rightarrow> filter_response \<Rightarrow> compiled_filter list \<Rightarrow> response_action
   \<Rightarrow> bool \<Rightarrow> flow_filter_runtime \<Rightarrow> response_action \<times> bool \<times> flow_filter_runtime" where
  "response_loop L env flow res [] combined needs_reload rt = (combined, needs_reload, rt)"
| "response_loop L env flow res (f # fs) combined needs_reload rt =
     (case exec_filter env ''response'' (ff_id flow) (ff_seq flow) (ff_flow_key flow) f (on_response L f res) rt of
        ((result, quarantined), rt1) \<Rightarrow>
          (case result of
             Inl err \<Rightarrow> response_loop L env flow res fs combined (needs_reload \<or> quarantined) rt1
           | Inr action \<Rightarrow>
               (let combined1 = merge_response_action combined action in
                if \<not> sa_continue_filters combined1 then (combined1, needs_reload \<or> quarantined, rt1)
                else response_loop L env flow res fs combined1 (needs_reload \<or> quarantined) rt1)))"

definition run_response_filters ::
  "('rx, 'p) script_lib \<Rightarrow> runtime_env \<Rightarrow> filter_response_view \<Rightarrow> filter_flow \<Rightarrow> filter_response
   \<Rightarrow> flow_filter_runtime \<Rightarrow> response_action \<times> flow_filter_runtime" where
  "run_response_filters L env res_view flow res rt =
     (case response_loop L env flow res (matching_response (frt_current rt) res_view) response_pass False rt of
        (combined, needs_reload, rt1) \<Rightarrow>
          (combined, if needs_reload then reload_after_quarantine env rt1 else rt1))"

fun completed_loop ::
  "runtime_env \<Rightarrow> filter_flow \<Rightarrow> compiled_filter list \<Rightarrow> bool \<Rightarrow> flow_filter_runtime \<Rightarrow> bool \<times> flow_filter_runtime" where
  "completed_loop env flow [] needs_reload rt = (needs_reload, rt)"
| "completed_loop env flow (f # fs) needs_reload rt =
     (case exec_filter env ''completed'' (ff_id flow) (ff_seq flow) (ff_flow_key flow) f (on_completed f flow) rt of
        ((result, quarantined), rt1) \<Rightarrow>
          (case result of
             Inl err \<Rightarrow> completed_loop env flow fs (needs_reload \<or> quarantined) rt1
           | Inr action \<Rightarrow>
               if \<not> da_continue_filters action then (needs_reload \<or> quarantined, rt1)
               else completed_loop env flow fs (needs_reload \<or> quarantined) rt1))"

definition run_completed_filters ::
  "runtime_env \<Rightarrow> filter_request_view \<Rightarrow> filter_flow \<Rightarrow> flow_filter_runtime \<Rightarrow> flow_filter_runtime" where
  "run_completed_filters env req_view flow rt =
     (case completed_loop env flow (matching_completed (frt_current rt) req_view) False rt of
        (needs_reload, rt1) \<Rightarrow> if needs_reload then reload_after_quarantine env rt1 else rt1)"

section \<open>What one run does\<close>

lemma quarantine_frame:
  "frt_thread (snd (quarantine_slow_filter env path rt)) = frt_thread rt"
  "frt_stats (snd (quarantine_slow_filter env path rt)) = frt_stats rt"
  "frt_current (snd (quarantine_slow_filter env path rt)) = frt_current rt"
  "frt_has_store (snd (quarantine_slow_filter env path rt)) = frt_has_store rt"
  by (auto simp: quarantine_slow_filter_def Let_def)

lemma sweep_frame:
  "frt_stats (snd (sweep_state_stats rt)) = frt_stats rt"
  "frt_quarantined_once (snd (sweep_state_stats rt)) = frt_quarantined_once rt"
  "frt_quarantines (snd (sweep_state_stats rt)) = frt_quarantines rt"
  by (auto simp: sweep_state_stats_def Let_def case_prod_unfold)

text \<open>The state after the script has run and a slow filter has been dealt with; what is left is to
  record the statistics.\<close>

definition after_run ::
  "runtime_env \<Rightarrow> string \<Rightarrow> compiled_filter \<Rightarrow> 'r roto_prog \<Rightarrow> flow_filter_runtime \<Rightarrow> flow_filter_runtime" where
  "after_run env flow_key f prog rt =
     (let rt1 = snd (sweep_state_stats rt);
          ts = snd (run_guarded flow_key (filter_name f) (frt_has_store rt1) prog (frt_thread rt1));
          rt2 = rt1\<lparr>frt_thread := ts, frt_runs := Suc (frt_runs rt1)\<rparr>
      in if is_over_jit_threshold env (frt_elapsed rt1 (frt_runs rt1))
         then snd (quarantine_slow_filter env (fd_path (cf_definition f)) rt2) else rt2)"

lemma exec_filter_state:
  obtains stat where
    "snd (exec_filter env phase i n k f prog rt) =
       (after_run env k f prog rt)\<lparr>frt_stats := frt_stats (after_run env k f prog rt) @ [stat]\<rparr>"
    "fes_filter_name stat = filter_name f" "fes_phase stat = phase" "fes_flow_key stat = k"
proof -
  define rt1 where "rt1 = snd (sweep_state_stats rt)"
  define run where "run = run_guarded k (filter_name f) (frt_has_store rt1) prog (frt_thread rt1)"
  define rt2 where "rt2 = rt1\<lparr>frt_thread := snd run, frt_runs := Suc (frt_runs rt1)\<rparr>"
  define q where "q = (if is_over_jit_threshold env (frt_elapsed rt1 (frt_runs rt1))
      then quarantine_slow_filter env (fd_path (cf_definition f)) rt2 else (False, rt2))"
  define res_stats where "res_stats = merge_stats (fst (sweep_state_stats rt)) (snd (fst run))"
  define stat where "stat = \<lparr>fes_id = i, fes_seq = n, fes_flow_key = k, fes_phase = phase,
      fes_filter_id = fd_id (cf_definition f), fes_filter_name = filter_name f,
      fes_elapsed_us = micros_i64 (frt_elapsed rt1 (frt_runs rt1)),
      fes_result_code = (if fst q then 2 else if frs_limit_hit res_stats then 3
        else case fst (fst run) of Inl _ \<Rightarrow> 1 | Inr _ \<Rightarrow> 0),
      fes_resource_stats = res_stats\<rparr>"
  have "snd (exec_filter env phase i n k f prog rt) = (snd q)\<lparr>frt_stats := frt_stats (snd q) @ [stat]\<rparr>"
    unfolding exec_filter_def Let_def case_prod_unfold stat_def res_stats_def q_def rt2_def run_def rt1_def
    by (simp only: snd_conv)
  moreover have "snd q = after_run env k f prog rt"
    by (simp add: q_def after_run_def Let_def rt1_def rt2_def run_def)
  ultimately show thesis using that [of stat] by (simp add: stat_def)
qed

lemma after_run_stats: "frt_stats (after_run env k f prog rt) = frt_stats rt"
  by (simp add: after_run_def Let_def quarantine_frame sweep_frame)

lemma exec_filter_stats:
  "\<exists>stat. frt_stats (snd (exec_filter env phase i n k f prog rt)) = frt_stats rt @ [stat]
     \<and> fes_filter_name stat = filter_name f \<and> fes_phase stat = phase \<and> fes_flow_key stat = k"
  by (rule exec_filter_state [of env phase i n k f prog rt]) (auto simp: after_run_stats)

section \<open>The invariant of the runtime\<close>

text \<open>The store keeps its invariant, no file is quarantined twice, and only files below one of the two
  directories of generated filters are.\<close>

definition generated_path :: "runtime_env \<Rightarrow> string \<Rightarrow> bool" where
  "generated_path env path \<longleftrightarrow> path_starts_with path (env_generated_filters_dir env)
     \<or> path_starts_with path (path_join (env_filters_dir env) ''generated'')"

definition runtime_inv :: "runtime_env \<Rightarrow> flow_filter_runtime \<Rightarrow> bool" where
  "runtime_inv env rt \<longleftrightarrow> store_inv (ts_store (frt_thread rt)) \<and> distinct (map path_components (frt_quarantines rt))
     \<and> path_components ` set (frt_quarantines rt) \<subseteq> frt_quarantined_once rt
     \<and> (\<forall>path \<in> set (frt_quarantines rt). generated_path env path)"

lemma quarantine_inv: "runtime_inv env rt \<Longrightarrow> runtime_inv env (snd (quarantine_slow_filter env path rt))"
  by (auto simp: quarantine_slow_filter_def runtime_inv_def generated_path_def Let_def)

lemma sweep_inv: "runtime_inv env rt \<Longrightarrow> runtime_inv env (snd (sweep_state_stats rt))"
  by (auto simp: sweep_state_stats_def runtime_inv_def Let_def case_prod_unfold read_clock_def sweep_expired_inv)

lemma guarded_store_inv:
  "store_inv (ts_store ts) \<Longrightarrow> store_inv (ts_store (snd (run_guarded c f has prog ts)))"
  by (rule fss_shared.own_reach_inv [OF run_guarded_owner_steps])

lemma runtime_inv_fields:
  "runtime_inv env (rt\<lparr>frt_stats := x\<rparr>) = runtime_inv env rt"
  "runtime_inv env (rt\<lparr>frt_current := fs\<rparr>) = runtime_inv env rt"
  by (simp_all add: runtime_inv_def)

lemma after_run_inv:
  assumes "runtime_inv env rt"
  shows "runtime_inv env (after_run env k f prog rt)"
proof -
  let ?rt1 = "snd (sweep_state_stats rt)"
  let ?run = "run_guarded k (filter_name f) (frt_has_store ?rt1) prog (frt_thread ?rt1)"
  let ?rt2 = "?rt1\<lparr>frt_thread := snd ?run, frt_runs := Suc (frt_runs ?rt1)\<rparr>"
  have "runtime_inv env ?rt1" using assms by (rule sweep_inv)
  then have "runtime_inv env ?rt2"
    using guarded_store_inv [of "frt_thread ?rt1"] by (simp add: runtime_inv_def)
  then show ?thesis
    using quarantine_inv [of env ?rt2] by (simp add: after_run_def Let_def)
qed

lemma exec_filter_inv:
  "runtime_inv env rt \<Longrightarrow> runtime_inv env (snd (exec_filter env phase i n k f prog rt))"
  by (rule exec_filter_state [of env phase i n k f prog rt]) (simp add: runtime_inv_fields after_run_inv)

lemma request_loop_inv: "runtime_inv env rt \<Longrightarrow> runtime_inv env (snd (snd (request_loop L env req fs c nr rt)))"
proof (induction fs arbitrary: c nr rt)
  case (Cons f fs)
  obtain r q rt1 where e: "exec_filter env ''request'' (fr_id req) (fr_seq req) (fr_flow_key req) f (on_request L f req) rt = ((r, q), rt1)"
    by (metis prod.collapse)
  then have "runtime_inv env rt1" by (metis Cons.prems exec_filter_inv snd_conv)
  with e Cons.IH show ?case by (cases r) (simp_all add: Let_def)
qed simp

lemma response_loop_inv: "runtime_inv env rt \<Longrightarrow> runtime_inv env (snd (snd (response_loop L env flow res fs c nr rt)))"
proof (induction fs arbitrary: c nr rt)
  case (Cons f fs)
  obtain r q rt1 where e: "exec_filter env ''response'' (ff_id flow) (ff_seq flow) (ff_flow_key flow) f (on_response L f res) rt = ((r, q), rt1)"
    by (metis prod.collapse)
  then have "runtime_inv env rt1" by (metis Cons.prems exec_filter_inv snd_conv)
  with e Cons.IH show ?case by (cases r) (simp_all add: Let_def)
qed simp

lemma completed_loop_inv: "runtime_inv env rt \<Longrightarrow> runtime_inv env (snd (completed_loop env flow fs nr rt))"
proof (induction fs arbitrary: nr rt)
  case (Cons f fs)
  obtain r q rt1 where e: "exec_filter env ''completed'' (ff_id flow) (ff_seq flow) (ff_flow_key flow) f (on_completed f flow) rt = ((r, q), rt1)"
    by (metis prod.collapse)
  then have "runtime_inv env rt1" by (metis Cons.prems exec_filter_inv snd_conv)
  with e Cons.IH show ?case by (cases r) (simp_all add: Let_def)
qed simp

text \<open>The outcomes of the file system work may differ from run to run; the two directories do not.\<close>

definition same_dirs :: "runtime_env \<Rightarrow> runtime_env \<Rightarrow> bool" where
  "same_dirs env env' \<longleftrightarrow> env_generated_filters_dir env' = env_generated_filters_dir env
     \<and> env_filters_dir env' = env_filters_dir env"

lemma same_dirs_inv: "same_dirs env env' \<Longrightarrow> runtime_inv env' = runtime_inv env"
  by (simp add: same_dirs_def runtime_inv_def generated_path_def fun_eq_iff)

inductive runtime_step :: "('rx, 'p) script_lib \<Rightarrow> runtime_env \<Rightarrow> flow_filter_runtime \<Rightarrow> flow_filter_runtime \<Rightarrow> bool" for L env where
  step_request: "same_dirs env env' \<Longrightarrow> runtime_step L env rt (snd (run_request_filters L env' req_view req rt))"
| step_response: "same_dirs env env' \<Longrightarrow> runtime_step L env rt (snd (run_response_filters L env' res_view flow res rt))"
| step_completed: "same_dirs env env' \<Longrightarrow> runtime_step L env rt (run_completed_filters env' req_view flow rt)"

lemma reload_inv: "runtime_inv env (reload_after_quarantine env rt) = runtime_inv env rt"
  by (simp add: reload_after_quarantine_def runtime_inv_fields split: option.split)

lemma phases_inv:
  assumes "runtime_inv env rt"
  shows "runtime_inv env (snd (run_request_filters L env req_view req rt))"
    and "runtime_inv env (snd (run_response_filters L env res_view flow res rt))"
    and "runtime_inv env (run_completed_filters env req_view flow rt)"
  using assms
  by (auto simp: run_request_filters_def run_response_filters_def run_completed_filters_def reload_inv split: prod.splits)
     (metis request_loop_inv response_loop_inv completed_loop_inv snd_conv)+

definition new_runtime :: "compiled_filter list \<Rightarrow> thread_state \<Rightarrow> bool \<Rightarrow> (nat \<Rightarrow> nat) \<Rightarrow> flow_filter_runtime" where
  "new_runtime filters ts has_store elapsed = \<lparr>frt_current = filters, frt_thread = ts, frt_has_store = has_store,
     frt_quarantined_once = {}, frt_quarantines = [], frt_stats = [], frt_elapsed = elapsed, frt_runs = 0\<rparr>"

interpretation rt: invariant_system
  "\<lambda>rt. \<exists>fs ts has el limits. rt = new_runtime fs ts has el \<and> ts_store ts = new_store limits"
  "runtime_step L env" "runtime_inv env"
  for L :: "('rx, 'p) script_lib" and env :: runtime_env
proof unfold_locales
  fix s t :: flow_filter_runtime
  show "\<exists>fs ts has el limits. s = new_runtime fs ts has el \<and> ts_store ts = new_store limits \<Longrightarrow> runtime_inv env s"
    by (auto simp: new_runtime_def runtime_inv_def new_store_inv)
  show "runtime_inv env s \<Longrightarrow> runtime_step L env s t \<Longrightarrow> runtime_inv env t"
    by (elim runtime_step.cases) (metis phases_inv same_dirs_inv)+
qed

text \<open>C9: Over any sequence of filter runs, whatever the scripts do and however slow they are, and whatever
  comes of the moves and reloads in between: the state store stays within its invariant, no filter
  file is moved into quarantine twice, under any spelling of its path, and only files
  below the directories of generated filters are moved there; a hand-written filter never is.\<close>

theorem quarantine_once_and_generated_only:
  assumes "ts_store ts = new_store limits" and "reach (runtime_step L env) (new_runtime fs ts has el) rt"
  shows "store_inv (ts_store (frt_thread rt)) \<and> distinct (map path_components (frt_quarantines rt))
     \<and> (\<forall>path \<in> set (frt_quarantines rt). generated_path env path)"
proof -
  have "runtime_inv env rt" by (rule rt.reach_inv [OF _ assms(2)]) (use assms(1) in blast)
  then show ?thesis by (simp add: runtime_inv_def)
qed

definition idle_env :: runtime_env where
  "idle_env = \<lparr>env_quarantine_var = Some ''5'', env_generated_filters_dir = ''/tmp/gen'', env_filters_dir = ''filters'',
     env_quarantine_generated_filter = (\<lambda>_. True), env_quarantine_filter_file = (\<lambda>_. True), env_reload = None\<rparr>"

definition sample_filter :: "string \<Rightarrow> compiled_filter" where
  "sample_filter path = \<lparr>cf_definition = \<lparr>fd_id = path, fd_source_kind = Persistent, fd_file_name = path,
     fd_script_hash = '''', fd_path = path, fd_source = '''', fd_metadata = default_metadata, fd_script = ''''\<rparr>,
     cf_priority = 1, cf_program = MetadataOnly\<rparr>"

definition sample_request :: filter_request where
  "sample_request = \<lparr>fr_id = ''1'', fr_seq = 1, fr_flow_key = ''k'', fr_method = ''GET'', fr_scheme = ''https'',
     fr_host = ''h'', fr_path = ''/'', fr_query = '''', fr_version = ''HTTP/1.1'', fr_headers = [],
     fr_body = \<lparr>fb_bytes = '''', fb_text = None, fb_content_type = None, fb_encoding = None, fb_truncated = False\<rparr>,
     fr_tls_sni = None\<rparr>"

definition sample_view :: filter_request_view where
  "sample_view = \<lparr>vw_host = ''h'', vw_path = ''/'', vw_method = ''GET''\<rparr>"

definition slow_runtime :: flow_filter_runtime where
  "slow_runtime = new_runtime [sample_filter ''/tmp/gen/a.roto'', sample_filter ''own.roto''] idle_thread True (\<lambda>_. 9000000)"

theorem quarantine_once_and_generated_only_witness:
  "fst (quarantine_slow_filter idle_env ''/tmp/gen/a.roto'' slow_runtime)
   \<and> is_over_jit_threshold idle_env (frt_elapsed slow_runtime 0)
   \<and> distinct (frt_quarantines (snd (run_request_filters plain_lib idle_env sample_view sample_request slow_runtime)))"
proof -
  let ?rt = "snd (run_request_filters plain_lib idle_env sample_view sample_request slow_runtime)"
  have "ts_store idle_thread = new_store tiny_limits" by (simp add: idle_thread_def)
  moreover have "reach (runtime_step plain_lib idle_env)
      (new_runtime [sample_filter ''/tmp/gen/a.roto'', sample_filter ''own.roto''] idle_thread True (\<lambda>_. 9000000)) ?rt"
    unfolding slow_runtime_def by (rule reach_one, rule step_request) (simp add: same_dirs_def)
  ultimately have "distinct (map path_components (frt_quarantines ?rt))"
    using quarantine_once_and_generated_only by blast
  then have "distinct (frt_quarantines ?rt)" by (simp add: distinct_map)
  moreover have "fst (quarantine_slow_filter idle_env ''/tmp/gen/a.roto'' slow_runtime)"
    by (simp add: quarantine_slow_filter_def slow_runtime_def new_runtime_def idle_env_def path_starts_with_def
        path_components_def Let_def)
  moreover have "is_over_jit_threshold idle_env (frt_elapsed slow_runtime 0)"
    by (simp add: is_over_jit_threshold_def jit_quarantine_threshold_def idle_env_def parse_uint_def digits_value_def
        is_ascii_digit_def u64_max_def slow_runtime_def new_runtime_def)
  ultimately show ?thesis by simp
qed

section \<open>The filter chain\<close>

text \<open>The reference reading of a phase: run the filters in order, collect their actions, and stop after
  the first whose own action does not go on; a filter that fails contributes nothing.\<close>

fun chain_trace ::
  "('f \<Rightarrow> 's \<Rightarrow> (('e + 'a) \<times> bool) \<times> 's) \<Rightarrow> ('a \<Rightarrow> bool) \<Rightarrow> 'f list \<Rightarrow> 's \<Rightarrow> 'a list \<times> bool \<times> 's" where
  "chain_trace exec own_on [] s = ([], False, s)"
| "chain_trace exec own_on (f # fs) s =
     (case exec f s of
        ((Inl err, q), s1) \<Rightarrow> (case chain_trace exec own_on fs s1 of (as, q', s') \<Rightarrow> (as, q \<or> q', s'))
      | ((Inr a, q), s1) \<Rightarrow>
          if own_on a then (case chain_trace exec own_on fs s1 of (as, q', s') \<Rightarrow> (a # as, q \<or> q', s'))
          else ([a], q, s1))"

abbreviation request_exec where
  "request_exec L env req f rt \<equiv>
     exec_filter env ''request'' (fr_id req) (fr_seq req) (fr_flow_key req) f (on_request L f req) rt"

abbreviation response_exec where
  "response_exec L env flow res f rt \<equiv>
     exec_filter env ''response'' (ff_id flow) (ff_seq flow) (ff_flow_key flow) f (on_response L f res) rt"

lemma request_loop_trace:
  "request_loop L env req fs c nr rt =
     (case chain_trace (request_exec L env req) request_own_on fs rt of
        (as, q, rt') \<Rightarrow> (foldl merge_request_action c as, nr \<or> q, rt'))"
proof (induction fs arbitrary: c nr rt)
  case (Cons f fs)
  obtain r q rt1 where e: "request_exec L env req f rt = ((r, q), rt1)" by (metis prod.collapse)
  with Cons.IH show ?case
    by (cases r) (auto simp: Let_def req.merge_on split: prod.splits)
qed simp

lemma response_loop_trace:
  "response_loop L env flow res fs c nr rt =
     (case chain_trace (response_exec L env flow res) sa_continue_filters fs rt of
        (as, q, rt') \<Rightarrow> (foldl merge_response_action c as, nr \<or> q, rt'))"
proof (induction fs arbitrary: c nr rt)
  case (Cons f fs)
  obtain r q rt1 where e: "response_exec L env flow res f rt = ((r, q), rt1)" by (metis prod.collapse)
  with Cons.IH show ?case
    by (cases r) (auto simp: Let_def res.merge_on split: prod.splits)
qed simp

lemma chain_trace_stops: "a \<in> set (butlast (fst (chain_trace exec own_on fs s))) \<Longrightarrow> own_on a"
proof (induction fs arbitrary: s)
  case (Cons f fs)
  obtain r q s1 where e: "exec f s = ((r, q), s1)" by (metis prod.collapse)
  with Cons.prems Cons.IH [of s1] show ?case by (cases r) (auto split: if_splits prod.splits)
qed simp

text \<open>A filter that never fails contributes one action and one line of statistics.\<close>

lemma chain_trace_names:
  assumes ok: "\<And>f s. \<exists>a. fst (fst (exec f s)) = Inr a"
    and log: "\<And>f s. \<exists>e. stats (snd (exec f s)) = stats s @ [e] \<and> name e = fname f"
  shows "case chain_trace exec own_on fs s of (as, q, s') \<Rightarrow>
    map name (drop (length (stats s)) (stats s')) = map fname (take (length as) fs)
    \<and> length (stats s) \<le> length (stats s') \<and> take (length (stats s)) (stats s') = stats s
    \<and> (as = [] \<or> own_on (last as) \<longrightarrow> length as = length fs)"
proof (induction fs arbitrary: s)
  case (Cons f fs)
  obtain r q s1 where e: "exec f s = ((r, q), s1)" by (metis prod.collapse)
  obtain a where r: "r = Inr a" using ok [of f s] e by auto
  obtain x where x: "stats s1 = stats s @ [x]" "name x = fname f" using log [of f s] e by auto
  show ?case
  proof (cases "own_on a")
    case False
    with e r x show ?thesis by simp
  next
    case True
    obtain as q' s' where t: "chain_trace exec own_on fs s1 = (as, q', s')" using prod_cases3 by blast
    have len: "length (stats s1) \<le> length (stats s')" and tk: "take (length (stats s1)) (stats s') = stats s @ [x]"
      and dr: "map name (drop (length (stats s1)) (stats s')) = map fname (take (length as) fs)"
      and all: "as = [] \<or> own_on (last as) \<longrightarrow> length as = length fs"
      using Cons.IH [of s1] t x by auto
    have s': "stats s' = stats s @ [x] @ drop (length (stats s1)) (stats s')"
      using tk by (metis append.assoc append_take_drop_id)
    have "drop (length (stats s)) (stats s') = [x] @ drop (length (stats s1)) (stats s')"
      by (subst s') simp
    moreover have "take (length (stats s)) (stats s') = stats s" by (subst s') simp
    ultimately show ?thesis using e r True t dr x len all by (auto split: if_splits)
  qed
qed simp

lemma on_request_ok: "\<exists>a ts'. run_prog (on_request L f req) ts = (Inr a, ts')"
  by (auto simp: on_request_def run_prog_bind Let_def case_prod_unfold split: roto_program.split option.split)

lemma exec_filter_result:
  "fst (fst (exec_filter env phase i n k f prog rt)) =
     fst (run_prog prog (snd (guard_enter k (filter_name f) (frt_has_store (snd (sweep_state_stats rt)))
       (frt_thread (snd (sweep_state_stats rt))))))"
  by (simp add: exec_filter_def run_guarded_def Let_def case_prod_unfold)

text \<open>C1: Running the request filters is running the matching filters in order up to the first that stops,
  and folding their actions: every filter that ran is in the statistics, in order; all marks are
  kept; the response is dropped if one filter asked for it; and the patch is the last one made,
  whole, so that an earlier filter's patch has no effect.\<close>

theorem request_filters_chain:
  "case chain_trace (request_exec L env req) request_own_on (matching_request (frt_current rt) req_view) rt of
     (as, q, rt') \<Rightarrow>
       (let (action, rt2) = run_request_filters L env req_view req rt; ran = take (length as) (matching_request (frt_current rt) req_view) in
        action = foldl merge_request_action request_pass as
        \<and> list_all request_own_on (butlast as)
        \<and> (ra_continue_filters action \<longrightarrow> ran = matching_request (frt_current rt) req_view)
        \<and> map fes_filter_name (drop (length (frt_stats rt)) (frt_stats rt2)) = map filter_name ran
        \<and> ra_marks action = concat (map ra_marks as)
        \<and> (ra_drop_client_response action \<longleftrightarrow> list_ex ra_drop_client_response as)
        \<and> ra_request action = foldl (\<lambda>p a. case ra_request a of None \<Rightarrow> p | Some p' \<Rightarrow> Some p') None as)"
proof -
  let ?fs = "matching_request (frt_current rt) req_view"
  obtain as q rt' where t: "chain_trace (request_exec L env req) request_own_on ?fs rt = (as, q, rt')"
    using prod_cases3 by blast
  have ok: "\<exists>a. fst (fst (request_exec L env req f s)) = Inr a" for f s
    unfolding exec_filter_result by (metis fst_conv on_request_ok)
  have log: "\<exists>e. frt_stats (snd (request_exec L env req f s)) = frt_stats s @ [e] \<and> fes_filter_name e = filter_name f" for f s
    using exec_filter_stats by blast
  have names: "map fes_filter_name (drop (length (frt_stats rt)) (frt_stats rt')) = map filter_name (take (length as) ?fs)"
    and all: "as = [] \<or> request_own_on (last as) \<longrightarrow> length as = length ?fs"
    using chain_trace_names [where exec = "request_exec L env req" and stats = frt_stats and name = fes_filter_name
        and fname = filter_name and own_on = request_own_on and fs = ?fs and s = rt, OF ok log] t by auto
  have run: "run_request_filters L env req_view req rt =
      (foldl merge_request_action request_pass as, if q then reload_after_quarantine env rt' else rt')"
    by (simp add: run_request_filters_def request_loop_trace t)
  have stats: "frt_stats (if q then reload_after_quarantine env rt' else rt') = frt_stats rt'"
    by (simp add: reload_after_quarantine_def split: option.split)
  have patch: "ra_request (foldl merge_request_action request_pass as)
      = foldl (\<lambda>p a. case ra_request a of None \<Rightarrow> p | Some p' \<Rightarrow> Some p') None as"
    by (induction as rule: rev_induct) (simp_all add: req.pass_laws req.merge_patch split: option.split)
  have stops: "list_all request_own_on (butlast as)"
    using chain_trace_stops [of _ "request_exec L env req" request_own_on ?fs rt] t by (auto simp: list_all_iff)
  show ?thesis
    using t run stats names all patch stops
    by (simp add: req.chain_on req.chain_marks req.chain_dropped list_ex_iff)
qed

definition one_filter_runtime :: flow_filter_runtime where
  "one_filter_runtime = new_runtime [sample_filter ''a.roto''] idle_thread False (\<lambda>_. 0)"

theorem request_filters_chain_witness:
  "map fes_filter_name (frt_stats (snd (run_request_filters plain_lib idle_env sample_view sample_request one_filter_runtime))) = [''a'']
   \<and> map mk_label (ra_marks (fst (run_request_filters plain_lib idle_env sample_view sample_request one_filter_runtime))) = [''a'']"
proof -
  let ?f = "sample_filter ''a.roto''" and ?rt = one_filter_runtime
  let ?a = "api_request_mark_color (api_request_set_header request_pass ''x-inspect-request-filter'' ''a'') ''a'' ''green''"
  have name: "filter_name ?f = ''a''" by code_simp
  have m: "matching_request (frt_current ?rt) sample_view = [?f]"
    by (simp add: one_filter_runtime_def new_runtime_def matching_request_def filter_trigger_of_def sample_filter_def
        default_metadata_def default_trigger_def matches_request_def matches_phase_def matches_host_def matches_path_def
        matches_method_def matches_any_glob_def glob_match_def)
  have ex: "fst (fst (request_exec plain_lib idle_env sample_request ?f ?rt)) = Inr ?a"
    by (simp only: exec_filter_result) (simp add: on_request_def sample_filter_def name [unfolded sample_filter_def])
  obtain q rt1 where "request_exec plain_lib idle_env sample_request ?f ?rt = ((Inr ?a, q), rt1)"
    using ex by (metis prod.collapse)
  then have "chain_trace (request_exec plain_lib idle_env sample_request) request_own_on [?f] ?rt = ([?a], q, rt1)"
    by (simp add: request_own_on_def api_request_mark_color_def api_request_set_header_def request_pass_def)
  then show ?thesis
    using request_filters_chain [where L = plain_lib and env = idle_env and req = sample_request and rt = ?rt and req_view = sample_view]
    by (simp add: m name case_prod_unfold Let_def)
      (simp add: one_filter_runtime_def new_runtime_def api_request_mark_color_def api_request_set_header_def request_pass_def
        merge_request_action_def Let_def)
qed

end
