(* ===== verification/Dispatcher.thy ===== *)
theory Dispatcher
  imports OutboundHttp StreamBody FilterRuntime
begin

text \<open>
  The dispatch of a flow (\<open>src/src/mitm/flow/dispatcher.rs\<close>): a request is given to the filters,
  committed, answered synthetically or sent upstream; the response is collected, probed or streamed,
  given to the filters, committed and returned. The state \<open>flow_dispatcher\<close> holds what the struct
  shares: the capture world, the filter runtime, the event channel, the pool of outbound clients,
  the sequence counter, and the log of the upstream calls. The upstream client, the request context
  of \<open>rama\<close>, the clock and the source of UUIDs are fields of \<open>dispatch_env\<close>. Extensions of a message
  are the fields the code reads from them.
\<close>

section \<open>Data\<close>

datatype flow_dispatch_error = BadRequest | UpstreamError string | Internal capture_error

record ('h, 'u) http_request =
  hq_parts :: "('h, 'u) request_parts"
  hq_tls_sni :: "string option"
  hq_upstream_proxy :: "string option"
  hq_body :: body

record ('h, 'u) upstream_request =
  upq_parts :: "('h, 'u) request_parts"
  upq_proxy :: "string option"
  upq_body :: bytes

record 'h upstream_flow_result =
  ufr_parts :: "'h response_parts"
  ufr_tls :: "json option"
  ufr_body :: inner_body
  ufr_err :: "string option"
  ufr_status :: "nat option"
  ufr_remote_addr :: "string option"

record connect_dispatch_output =
  cdo_host :: string
  cdo_port :: nat
  cdo_action :: connect_action

record 'h finalize_context =
  fnc_input :: response_dispatch_input
  fnc_parts :: "'h response_parts"
  fnc_threshold :: nat

datatype 'h client_body =
    FullBody bytes
  | EventStream sse_capture_body
  | Download streaming_capture_body "'h finalize_context"

record 'h client_response =
  cr_parts :: "'h response_parts"
  cr_body :: "'h client_body"

record dispatcher_config =
  dfg_service :: capture_service
  dfg_upstream_proxy :: "string option"
  dfg_stream_body_threshold_bytes :: nat
  dfg_sse_capture_max_events :: nat
  dfg_sse_capture_max_event_bytes :: nat

record ('h, 'u, 'e, 'j) flow_dispatcher =
  fld_capture :: capture_world
  fld_filters :: flow_filter_runtime
  fld_events :: 'e
  fld_outbound :: "'j outbound_http_pool option"
  fld_seq :: "64 word"
  fld_uuids :: nat
  fld_ticks :: nat
  fld_upstream_calls :: "('h, 'u) upstream_request list"

record ('h, 'u, 'q, 'rx, 'p, 'e, 'j) dispatch_env =
  den_capture :: "('h, 'u, 'q) capture_env"
  den_script :: "('rx, 'p) script_lib"
  den_runtime :: runtime_env
  den_request_context :: "('h, 'u) request_parts \<Rightarrow> (string \<times> string) option"
  den_uuid :: "nat \<Rightarrow> uuid"
  den_now :: "nat \<Rightarrow> date_time"
  den_clock :: "nat \<Rightarrow> nat"
  den_upstream :: "('h, 'u) upstream_request \<Rightarrow> 'h upstream_flow_result"
  den_events :: "(flow_event, 'e) mpsc"
  den_jobs :: "(outbound_http_job, 'j) mpsc"

abbreviation den_http where "den_http E \<equiv> ce_http (den_capture E)"
abbreviation den_decoders where "den_decoders E \<equiv> ce_decoders (den_capture E)"

type_synonym ('h, 'u, 'e, 'j, 'a) dispatch = "(('h, 'u, 'e, 'j) flow_dispatcher, flow_dispatch_error, 'a) fallible"

section \<open>Reading the clock, committing\<close>

definition elapsed_since :: "('h, 'u, 'q, 'rx, 'p, 'e, 'j) dispatch_env \<Rightarrow> nat \<Rightarrow> ('h, 'u, 'e, 'j) flow_dispatcher \<Rightarrow> int \<times> ('h, 'u, 'e, 'j) flow_dispatcher" where
  "elapsed_since E started d = (as_i64 (den_clock E (fld_ticks d) - started), d\<lparr>fld_ticks := Suc (fld_ticks d)\<rparr>)"

definition in_capture :: "'a capture_io \<Rightarrow> ('h, 'u, 'e, 'j, 'a) dispatch" where
  "in_capture io d =
     (case io (fld_capture d) of
        (Inl err, w) \<Rightarrow> (Inl (Internal err), d\<lparr>fld_capture := w\<rparr>)
      | (Inr a, w) \<Rightarrow> (Inr a, d\<lparr>fld_capture := w\<rparr>))"

section \<open>How a response body is treated\<close>

datatype response_body_mode = Collect | Stream | Probe

definition is_sse_response :: "('h, 'u, 'q) http_lib \<Rightarrow> 'h \<Rightarrow> bool" where
  "is_sse_response H headers =
     (case header_str H headers ''content-type'' of
        None \<Rightarrow> False
      | Some v \<Rightarrow> eq_ignore_ascii_case (trim (hd (split_char (CHR '';'') v))) ''text/event-stream'')"

definition response_status_never_has_body :: "nat \<Rightarrow> bool" where
  "response_status_never_has_body status \<longleftrightarrow> (100 \<le> status \<and> status < 200) \<or> status = 204 \<or> status = 304"

definition content_length :: "('h, 'u, 'q) http_lib \<Rightarrow> 'h \<Rightarrow> nat option" where
  "content_length H headers = Option.bind (header_str H headers ''content-length'') (parse_uint usize_max)"

definition is_compressed_response :: "('h, 'u, 'q) http_lib \<Rightarrow> 'h \<Rightarrow> bool" where
  "is_compressed_response H headers =
     (case header_str H headers ''content-encoding'' of
        None \<Rightarrow> False
      | Some v \<Rightarrow> list_ex (\<lambda>part. to_ascii_lowercase (trim part) \<in> {''gzip'', ''x-gzip'', ''br'', ''zstd'', ''deflate''})
          (split_char (CHR '','') v))"

definition is_probably_text_content_type :: "string \<Rightarrow> bool" where
  "is_probably_text_content_type ct \<longleftrightarrow> starts_with ct ''text/'' \<or> ct = ''application/json'' \<or> ends_with ct ''+json''
     \<or> ct = ''application/xml'' \<or> ends_with ct ''+xml'' \<or> ct = ''application/javascript''
     \<or> ct = ''application/x-javascript'' \<or> ct = ''application/ecmascript'' \<or> ct = ''application/x-www-form-urlencoded''"

definition is_probably_binary_response :: "('h, 'u, 'q) http_lib \<Rightarrow> 'h \<Rightarrow> bool" where
  "is_probably_binary_response H headers =
     (case normalized_content_type H headers of
        None \<Rightarrow> False
      | Some ct \<Rightarrow>
          if is_probably_text_content_type ct then False
          else starts_with ct ''image/'' \<or> starts_with ct ''video/'' \<or> starts_with ct ''audio/''
             \<or> ct = ''application/octet-stream'' \<or> ct = ''application/pdf'' \<or> ct = ''application/zip''
             \<or> ct = ''application/x-zip-compressed'' \<or> ct = ''application/gzip'' \<or> ct = ''application/x-gzip''
             \<or> ct = ''application/x-tar'' \<or> ct = ''application/x-7z-compressed'' \<or> ct = ''application/vnd.rar''
             \<or> ct = ''application/vnd.microsoft.portable-executable'' \<or> starts_with ct ''application/vnd.'')"

definition response_body_mode_of :: "('h, 'u, 'q) http_lib \<Rightarrow> string \<Rightarrow> nat \<Rightarrow> 'h \<Rightarrow> nat \<Rightarrow> response_body_mode" where
  "response_body_mode_of H method status headers threshold =
     (if threshold = 0 then Collect
      else if eq_ignore_ascii_case method ''HEAD'' then Collect
      else if response_status_never_has_body status then Collect
      else case content_length H headers of
             Some len \<Rightarrow> if len > threshold then Stream else Collect
           | None \<Rightarrow>
               if is_compressed_response H headers then Probe
               else if is_probably_binary_response H headers then Probe
               else Collect)"

definition notice_lines :: "string list \<Rightarrow> string" where
  "notice_lines ls = concat (map (\<lambda>l. l @ [LF]) ls)"

definition streaming_response_capture_notice :: "('h, 'u, 'q) http_lib \<Rightarrow> 'h \<Rightarrow> nat \<Rightarrow> nat \<Rightarrow> bool \<Rightarrow> bytes" where
  "streaming_response_capture_notice H headers threshold streamed_bytes interrupted =
     (let content_type = (case normalized_content_type H headers of Some ct \<Rightarrow> ct | None \<Rightarrow> ''<unknown>'');
          content_len = (case content_length H headers of Some n \<Rightarrow> show_nat n | None \<Rightarrow> ''<unknown>'');
          content_encoding = (case header_str H headers ''content-encoding'' of Some e \<Rightarrow> e | None \<Rightarrow> ''<none>'');
          stream_status = (if interrupted then ''interrupted before upstream EOF or dropped before normal completion''
                           else ''completed normally'')
      in notice_lines
        [''<response body streamed by inspect>'', [],
         ''This response body was not fully buffered or captured.'', [],
         ''Reason:'',
         ''  inspect switched this response to streaming mode because it matched the'',
         ''  stream_body_threshold_bytes policy or a streaming body heuristic.'', [],
         ''Configuration:'',
         ''  stream_body_threshold_bytes = '' @ show_nat threshold, [],
         ''Observed response metadata:'',
         ''  content-type: '' @ content_type,
         ''  content-encoding: '' @ content_encoding,
         ''  content-length: '' @ content_len, [],
         ''Streaming result:'',
         ''  status: '' @ stream_status,
         ''  streamed-bytes-observed-by-inspect: '' @ show_nat streamed_bytes, [],
         ''Notes:'',
         ''  - The response was forwarded to the client as a stream.'',
         ''  - The complete response body is not stored in this capture.'',
         ''  - streamed-bytes-observed-by-inspect is counted from body data frames that'',
         ''    inspect actually observed while forwarding the stream.'',
         ''  - This value may differ from the Content-Length header if the client cancels,'',
         ''    the upstream connection ends early, the upstream header is inaccurate, or the'',
         ''    response uses protocol framing where Content-Length is absent.'',
         ''  - Whole-body Roto response filters, response-body rewrites, completed filters,'',
         ''    and captured-response outbound HTTP payloads are skipped for this streamed body.'',
         ''  - Set stream_body_threshold_bytes = 0 to disable threshold-based streaming.''])"

section \<open>Responses the dispatcher makes\<close>

definition status_response :: "('h, 'u, 'q) http_lib \<Rightarrow> nat \<Rightarrow> 'h client_response" where
  "status_response H status =
     \<lparr>cr_parts = \<lparr>sp_status = status, sp_version = HTTP_11, sp_headers = hl_empty H\<rparr>, cr_body = FullBody []\<rparr>"

definition builder_response ::
  "('h, 'u, 'q) http_lib \<Rightarrow> nat \<Rightarrow> http_version \<Rightarrow> filter_header list \<Rightarrow> bytes \<Rightarrow> 'h response_parts \<times> bytes" where
  "builder_response H status version headers body =
     (case (hl_status_from_u16 H status, builder_headers H headers) of
        (Some st, Some hs) \<Rightarrow> (\<lparr>sp_status = st, sp_version = version, sp_headers = hs\<rparr>, body)
      | _ \<Rightarrow> (\<lparr>sp_status = 500, sp_version = HTTP_11, sp_headers = hl_empty H\<rparr>, []))"

definition dropped_response :: "('h, 'u, 'q) http_lib \<Rightarrow> 'h client_response" where
  "dropped_response H =
     (case builder_response H 444 HTTP_11 [\<lparr>fh_name = ''connection'', fh_value = ''close''\<rparr>] [] of
        (parts, body) \<Rightarrow> \<lparr>cr_parts = parts, cr_body = FullBody body\<rparr>)"

definition build_synthetic_response ::
  "('h, 'u, 'q) http_lib \<Rightarrow> http_version \<Rightarrow> filter_synthetic_response \<Rightarrow> 'h response_parts \<times> inner_body" where
  "build_synthetic_response H version synthetic =
     (case builder_response H (syn_status synthetic) version (syn_headers synthetic) (syn_body synthetic) of
        (parts, body) \<Rightarrow> (parts, Plain (if body = [] then [] else [Item (Data body)])))"

section \<open>The request\<close>

definition dispatch_connect_filters ::
  "('h, 'u, 'q, 'rx, 'p, 'e, 'j) dispatch_env \<Rightarrow> string \<Rightarrow> nat \<Rightarrow> ('h, 'u, 'e, 'j) flow_dispatcher
   \<Rightarrow> connect_dispatch_output \<times> ('h, 'u, 'e, 'j) flow_dispatcher" where
  "dispatch_connect_filters E host port d =
     (let connect = \<lparr>fc_id = uu_text (den_uuid E (fld_uuids d)), fc_host = host, fc_port = port\<rparr>;
          action = run_connect_filters \<lparr>cv_host = host, cv_port = port\<rparr> connect (fld_filters d)
      in (\<lparr>cdo_host = host, cdo_port = port, cdo_action = action\<rparr>, d\<lparr>fld_uuids := Suc (fld_uuids d)\<rparr>))"

text \<open>The counter is fetched and one added to it; both wrap at 64 bits.\<close>

definition next_seq :: "64 word \<Rightarrow> nat" where
  "next_seq counter = unat (counter + 1)"

definition flow_key_of :: "nat \<Rightarrow> uuid \<Rightarrow> string" where
  "flow_key_of seq uuid = pad_zero 6 (show_nat seq) @ ''-'' @ take 8 (uu_simple uuid)"

definition new_request_context ::
  "('h, 'u, 'q, 'rx, 'p, 'e, 'j) dispatch_env \<Rightarrow> dispatcher_config \<Rightarrow> ('h, 'u) http_request
   \<Rightarrow> ('h, 'u, 'e, 'j, 'u request_dispatch_context) dispatch" where
  "new_request_context E C req d =
     (let seq = next_seq (fld_seq d);
          uuid = den_uuid E (fld_uuids d);
          time = den_now E (fld_ticks d);
          started_at = den_clock E (fld_ticks d);
          d1 = d\<lparr>fld_seq := fld_seq d + 1, fld_uuids := Suc (fld_uuids d), fld_ticks := Suc (fld_ticks d)\<rparr>
      in case den_request_context E (hq_parts req) of
           None \<Rightarrow> (Inl BadRequest, d1)
         | Some (protocol, host) \<Rightarrow>
             (Inr \<lparr>rdc_id = uuid, rdc_seq = seq, rdc_flow_key = flow_key_of seq uuid,
                   rdc_flow_dir = path_join (csv_flows_dir (dfg_service C)) (flow_key_of seq uuid),
                   rdc_time = time, rdc_started_at = started_at, rdc_tls_sni = hq_tls_sni req, rdc_protocol = protocol,
                   rdc_host = host, rdc_uri = rp_uri (hq_parts req), rdc_method = rp_method (hq_parts req)\<rparr>, d1))"

definition dispatch_request_filters ::
  "('h, 'u, 'q, 'rx, 'p, 'e, 'j) dispatch_env \<Rightarrow> 'u request_dispatch_context \<Rightarrow> ('h, 'u) request_parts \<Rightarrow> bytes
   \<Rightarrow> ('h, 'u, 'e, 'j) flow_dispatcher
   \<Rightarrow> (request_dispatch_output \<times> ('h, 'u) request_parts \<times> bytes) \<times> ('h, 'u, 'e, 'j) flow_dispatcher" where
  "dispatch_request_filters E ctx parts body d =
     (let H = den_http E;
          view = context_request_view H ctx (rp_method parts);
          filter_request = build_filter_request H (den_decoders E) (uu_text (rdc_id ctx)) (rdc_seq ctx) (rdc_flow_key ctx)
            parts (rdc_protocol ctx) (rdc_host ctx) body (rdc_tls_sni ctx);
          (action, rt) = run_request_filters (den_script E) (den_runtime E) view filter_request (fld_filters d);
          (parts1, body1) = (case ra_request action of
             Some patch \<Rightarrow> apply_request_patch H patch (parts, body) | None \<Rightarrow> (parts, body))
      in ((\<lparr>rdo_filter_request = filter_request, rdo_marks = flow_marks_from_request_action action,
            rdo_synthetic_response = ra_synthetic_response action,
            rdo_drop_client_response = ra_drop_client_response action\<rparr>, parts1, body1),
          d\<lparr>fld_filters := rt\<rparr>))"

definition request_capture ::
  "'u request_dispatch_context \<Rightarrow> ('h, 'u) request_parts \<Rightarrow> bytes \<Rightarrow> ('h, 'u) effective_request_capture" where
  "request_capture ctx parts body =
     \<lparr>qc_id = uu_text (rdc_id ctx), qc_seq = rdc_seq ctx, qc_flow_key = rdc_flow_key ctx, qc_time = rdc_time ctx,
      qc_flow_dir = rdc_flow_dir ctx, qc_method = rp_method parts, qc_uri = rp_uri parts, qc_version = rp_version parts,
      qc_headers = rp_headers parts, qc_body_bytes = body, qc_protocol = rdc_protocol ctx, qc_host = rdc_host ctx,
      qc_tls_sni = rdc_tls_sni ctx\<rparr>"

definition dispatch_commit_request ::
  "('h, 'u, 'q, 'rx, 'p, 'e, 'j) dispatch_env \<Rightarrow> dispatcher_config \<Rightarrow> 'u request_dispatch_context \<Rightarrow> ('h, 'u) request_parts
   \<Rightarrow> bytes \<Rightarrow> flow_mark list \<Rightarrow> ('h, 'u, 'e, 'j, unit) dispatch" where
  "dispatch_commit_request E C ctx parts body marks =
     try_then (in_capture (commit_request (den_capture E) (dfg_service C) (request_capture ctx parts body))) (\<lambda>commit d.
       (Inr (), d\<lparr>fld_events := publish_request_committed (den_events E) commit marks (fld_events d)\<rparr>))"

section \<open>The response\<close>

definition response_capture ::
  "response_dispatch_input \<Rightarrow> 'h response_parts \<Rightarrow> bytes \<Rightarrow> int option \<Rightarrow> bool option \<Rightarrow> int \<Rightarrow> 'h effective_response_capture" where
  "response_capture input parts body size_override truncated_override elapsed_ms =
     \<lparr>sc_id = uu_text (rdi_id input), sc_seq = rdi_seq input, sc_flow_key = rdi_flow_key input,
      sc_flow_dir = rdi_flow_dir input, sc_status = sp_status parts, sc_version = sp_version parts,
      sc_headers = sp_headers parts, sc_body_bytes = body, sc_body_size_override = size_override,
      sc_body_truncated_override = truncated_override, sc_elapsed_ms = elapsed_ms, sc_origin = rdi_origin input,
      sc_upstream_status = rdi_upstream_status input, sc_upstream_remote_addr = rdi_upstream_remote_addr input,
      sc_tls_sni = rdi_tls_sni input, sc_tls_upstream = rdi_tls_upstream input,
      sc_upstream_error_message = rdi_upstream_error_message input\<rparr>"

definition dispatch_commit_response ::
  "('h, 'u, 'q, 'rx, 'p, 'e, 'j) dispatch_env \<Rightarrow> dispatcher_config \<Rightarrow> response_dispatch_input \<Rightarrow> 'h response_parts \<Rightarrow> bytes
   \<Rightarrow> int \<Rightarrow> ('h, 'u, 'e, 'j, response_commit) dispatch" where
  "dispatch_commit_response E C input parts body elapsed_ms =
     in_capture (commit_response (den_capture E) (dfg_service C) (response_capture input parts body None None elapsed_ms))"

definition dispatch_response_filters ::
  "('h, 'u, 'q, 'rx, 'p, 'e, 'j) dispatch_env \<Rightarrow> response_dispatch_input \<Rightarrow> 'h response_parts \<Rightarrow> bytes \<Rightarrow> int
   \<Rightarrow> ('h, 'u, 'e, 'j) flow_dispatcher
   \<Rightarrow> (response_filter_dispatch_output \<times> 'h response_parts \<times> bytes) \<times> ('h, 'u, 'e, 'j) flow_dispatcher" where
  "dispatch_response_filters E input parts body elapsed_ms d =
     (let H = den_http E;
          view = \<lparr>rv_request = input_request_view input, rv_status = sp_status parts,
                  rv_content_type = normalized_content_type H (sp_headers parts)\<rparr>;
          filter_response = build_filter_response H (den_decoders E) parts body (rdi_upstream_status input) elapsed_ms;
          flow = \<lparr>ff_id = uu_text (rdi_id input), ff_seq = rdi_seq input, ff_flow_key = rdi_flow_key input,
                  ff_request = rdi_filter_request input, ff_response = Some filter_response\<rparr>;
          (action, rt) = run_response_filters (den_script E) (den_runtime E) view flow filter_response (fld_filters d);
          (parts1, body1) = (case sa_response action of
             Some patch \<Rightarrow> apply_response_patch H patch (parts, body) | None \<Rightarrow> (parts, body))
      in ((\<lparr>rfo_marks = flow_marks_from_response_action action, rfo_outbound_http = sa_outbound_http action,
            rfo_drop_client_response = sa_drop_client_response action\<rparr>, parts1, body1),
          d\<lparr>fld_filters := rt\<rparr>))"

definition reads_clock :: "outbound_http_body_source \<Rightarrow> bool" where
  "reads_clock src \<longleftrightarrow> src = CapturedResponseJson \<or> src = CapturedFlowJson"

fun resolve_outbound_http_jobs ::
  "('h, 'u, 'q, 'rx, 'p, 'e, 'j) dispatch_env \<Rightarrow> response_dispatch_input \<Rightarrow> 'h response_parts \<Rightarrow> bytes
   \<Rightarrow> outbound_http_job list \<Rightarrow> ('h, 'u, 'e, 'j) flow_dispatcher \<Rightarrow> outbound_http_job list \<times> ('h, 'u, 'e, 'j) flow_dispatcher" where
  "resolve_outbound_http_jobs E input parts body [] d = ([], d)"
| "resolve_outbound_http_jobs E input parts body (job # jobs) d =
     (let (ms, d1) = (if reads_clock (job_body job) then elapsed_since E (rdi_started_at input) d else (0, d));
          job1 = resolve_outbound_http_job (den_http E) (ce_json (den_capture E)) input parts body ms job;
          (rest, d2) = resolve_outbound_http_jobs E input parts body jobs d1
      in (job1 # rest, d2))"

definition dispatch_outbound_http ::
  "('h, 'u, 'q, 'rx, 'p, 'e, 'j) dispatch_env \<Rightarrow> outbound_http_job list \<Rightarrow> ('h, 'u, 'e, 'j) flow_dispatcher \<Rightarrow> ('h, 'u, 'e, 'j) flow_dispatcher" where
  "dispatch_outbound_http E jobs d =
     (if jobs = [] then d
      else case fld_outbound d of
             None \<Rightarrow> d
           | Some pool \<Rightarrow> d\<lparr>fld_outbound := Some (foldl (\<lambda>p job. try_enqueue (den_jobs E) job p) pool jobs)\<rparr>)"

definition dispatch_completed_filters ::
  "('h, 'u, 'q, 'rx, 'p, 'e, 'j) dispatch_env \<Rightarrow> response_dispatch_input \<Rightarrow> 'h response_parts \<Rightarrow> bytes \<Rightarrow> int
   \<Rightarrow> ('h, 'u, 'e, 'j) flow_dispatcher \<Rightarrow> ('h, 'u, 'e, 'j) flow_dispatcher" where
  "dispatch_completed_filters E input parts body elapsed_ms d =
     d\<lparr>fld_filters := run_completed_filters (den_runtime E) (input_request_view input)
         \<lparr>ff_id = uu_text (rdi_id input), ff_seq = rdi_seq input, ff_flow_key = rdi_flow_key input,
          ff_request = rdi_filter_request input,
          ff_response = Some (build_filter_response (den_http E) (den_decoders E) parts body (rdi_upstream_status input) elapsed_ms)\<rparr>
         (fld_filters d)\<rparr>"

definition dispatch_sse_response ::
  "('h, 'u, 'q, 'rx, 'p, 'e, 'j) dispatch_env \<Rightarrow> dispatcher_config \<Rightarrow> response_dispatch_input \<Rightarrow> 'h response_parts \<Rightarrow> inner_body
   \<Rightarrow> int \<Rightarrow> ('h, 'u, 'e, 'j, 'h client_response) dispatch" where
  "dispatch_sse_response E C input parts body elapsed_ms =
     try_then (dispatch_commit_response E C input parts [] elapsed_ms) (\<lambda>commit d.
       (Inr \<lparr>cr_parts = parts, cr_body = EventStream \<lparr>scb_inner = body,
           scb_capture = sse_start (dfg_sse_capture_max_events C) (dfg_sse_capture_max_event_bytes C)\<rparr>\<rparr>,
        d\<lparr>fld_events := publish_response_committed (den_events E) commit [] (fld_events d)\<rparr>))"

definition dispatch_streaming_response ::
  "dispatcher_config \<Rightarrow> response_dispatch_input \<Rightarrow> 'h response_parts \<Rightarrow> inner_body \<Rightarrow> ('h, 'u, 'e, 'j, 'h client_response) dispatch" where
  "dispatch_streaming_response C input parts body =
     try_return \<lparr>cr_parts = parts,
       cr_body = Download \<lparr>stb_inner = body, stb_finalize = new_finalize\<rparr>
         \<lparr>fnc_input = input, fnc_parts = parts, fnc_threshold = dfg_stream_body_threshold_bytes C\<rparr>\<rparr>"

text \<open>The task that finalizing spawns: it reads the counter, commits the notice in place of the body and
  publishes the response; an error is logged.\<close>

definition finalize_task ::
  "('h, 'u, 'q, 'rx, 'p, 'e, 'j) dispatch_env \<Rightarrow> dispatcher_config \<Rightarrow> 'h finalize_context \<Rightarrow> 64 word \<Rightarrow> bool
   \<Rightarrow> ('h, 'u, 'e, 'j) flow_dispatcher \<Rightarrow> ('h, 'u, 'e, 'j) flow_dispatcher" where
  "finalize_task E C ctx streamed interrupted d =
     (let (elapsed_ms, d1) = elapsed_since E (rdi_started_at (fnc_input ctx)) d;
          notice = streaming_response_capture_notice (den_http E) (sp_headers (fnc_parts ctx)) (fnc_threshold ctx)
            (unat streamed) interrupted;
          capture = response_capture (fnc_input ctx) (fnc_parts ctx) notice (Some (as_i64 (unat streamed))) (Some True) elapsed_ms
      in case in_capture (commit_response (den_capture E) (dfg_service C) capture) d1 of
           (Inl err, d2) \<Rightarrow> d2
         | (Inr commit, d2) \<Rightarrow> d2\<lparr>fld_events := publish_response_committed (den_events E) commit [] (fld_events d2)\<rparr>)"

definition dispatch_collected_response ::
  "('h, 'u, 'q, 'rx, 'p, 'e, 'j) dispatch_env \<Rightarrow> dispatcher_config \<Rightarrow> response_dispatch_input \<Rightarrow> 'h response_parts \<Rightarrow> bytes
   \<Rightarrow> int \<Rightarrow> ('h, 'u, 'e, 'j, 'h client_response) dispatch" where
  "dispatch_collected_response E C input parts body elapsed_ms d =
     (case dispatch_response_filters E input parts body elapsed_ms d of ((output, parts1, body1), d1) \<Rightarrow>
      case resolve_outbound_http_jobs E input parts1 body1 (rfo_outbound_http output) d1 of (jobs, d2) \<Rightarrow>
      try_then (dispatch_commit_response E C input parts1 body1 elapsed_ms) (\<lambda>commit d3.
        (let d4 = dispatch_completed_filters E input parts1 body1 elapsed_ms d3;
             d5 = d4\<lparr>fld_events := publish_response_committed (den_events E) commit (rfo_marks output) (fld_events d4)\<rparr>
         in (Inr (if rfo_drop_client_response output then dropped_response (den_http E)
                  else \<lparr>cr_parts = parts1, cr_body = FullBody body1\<rparr>), d5)))
        (dispatch_outbound_http E jobs d2))"

definition dispatch_response ::
  "('h, 'u, 'q, 'rx, 'p, 'e, 'j) dispatch_env \<Rightarrow> dispatcher_config \<Rightarrow> response_dispatch_input \<Rightarrow> 'h response_parts \<Rightarrow> inner_body
   \<Rightarrow> ('h, 'u, 'e, 'j, 'h client_response) dispatch" where
  "dispatch_response E C input parts body d =
     (case elapsed_since E (rdi_started_at input) d of (elapsed_ms, d1) \<Rightarrow>
      let threshold = dfg_stream_body_threshold_bytes C in
      if is_sse_response (den_http E) (sp_headers parts) then dispatch_sse_response E C input parts body elapsed_ms d1
      else
        (case response_body_mode_of (den_http E) (fr_method (rdi_filter_request input)) (sp_status parts) (sp_headers parts) threshold of
           Collect \<Rightarrow> dispatch_collected_response E C input parts (collect_body (inner_stream body)) elapsed_ms d1
         | Stream \<Rightarrow> dispatch_streaming_response C input parts body d1
         | Probe \<Rightarrow>
             (case probe_response_body (inner_stream body) threshold of
                Collected bytes \<Rightarrow> dispatch_collected_response E C input parts bytes elapsed_ms d1
              | Streamed pre rest \<Rightarrow>
                  dispatch_streaming_response C input parts (Prefixed \<lparr>ptb_prefix = Some pre, ptb_rest = rest\<rparr>) d1)))"

definition dispatch_synthetic_response ::
  "('h, 'u, 'q, 'rx, 'p, 'e, 'j) dispatch_env \<Rightarrow> dispatcher_config \<Rightarrow> 'u request_dispatch_context \<Rightarrow> http_version
   \<Rightarrow> filter_request \<Rightarrow> filter_synthetic_response \<Rightarrow> ('h, 'u, 'e, 'j, 'h client_response) dispatch" where
  "dispatch_synthetic_response E C ctx version filter_request synthetic =
     (case build_synthetic_response (den_http E) version synthetic of (parts, body) \<Rightarrow>
        dispatch_response E C
          (into_response_input (den_http E) ctx filter_request Synthetic None None None None) parts body)"

definition split_upstream_result ::
  "('h, 'u, 'q) http_lib \<Rightarrow> 'u request_dispatch_context \<Rightarrow> filter_request \<Rightarrow> 'h upstream_flow_result
   \<Rightarrow> response_dispatch_input \<times> 'h response_parts \<times> inner_body" where
  "split_upstream_result H ctx filter_request result =
     (into_response_input H ctx filter_request (if ufr_err result \<noteq> None then ProxyError else Upstream)
        (ufr_status result) (ufr_remote_addr result) (ufr_tls result) (ufr_err result),
      ufr_parts result, ufr_body result)"

definition dispatch_upstream_response ::
  "('h, 'u, 'q, 'rx, 'p, 'e, 'j) dispatch_env \<Rightarrow> dispatcher_config \<Rightarrow> 'u request_dispatch_context \<Rightarrow> filter_request
   \<Rightarrow> 'h upstream_flow_result \<Rightarrow> ('h, 'u, 'e, 'j, 'h client_response) dispatch" where
  "dispatch_upstream_response E C ctx filter_request result =
     (case split_upstream_result (den_http E) ctx filter_request result of (input, parts, body) \<Rightarrow>
        dispatch_response E C input parts body)"

section \<open>The whole flow\<close>

definition call_upstream ::
  "('h, 'u, 'q, 'rx, 'p, 'e, 'j) dispatch_env \<Rightarrow> ('h, 'u) upstream_request \<Rightarrow> ('h, 'u, 'e, 'j, 'h upstream_flow_result) dispatch" where
  "call_upstream E req d = (Inr (den_upstream E req), d\<lparr>fld_upstream_calls := fld_upstream_calls d @ [req]\<rparr>)"

definition dispatch_http ::
  "('h, 'u, 'q, 'rx, 'p, 'e, 'j) dispatch_env \<Rightarrow> dispatcher_config \<Rightarrow> ('h, 'u) http_request \<Rightarrow> ('h, 'u, 'e, 'j, 'h client_response) dispatch" where
  "dispatch_http E C req =
     (let proxy = (case dfg_upstream_proxy C of Some p \<Rightarrow> Some p | None \<Rightarrow> hq_upstream_proxy req) in
      try_then (new_request_context E C req) (\<lambda>ctx d.
        case dispatch_request_filters E ctx (hq_parts req) (collect_body (hq_body req)) d of ((output, parts, body), d1) \<Rightarrow>
        if rdo_drop_client_response output then
          try_then (dispatch_commit_request E C ctx parts body (rdo_marks output))
            (\<lambda>_. try_return (dropped_response (den_http E))) d1
        else
          try_then (dispatch_commit_request E C ctx parts body (rdo_marks output)) (\<lambda>_.
            case rdo_synthetic_response output of
              Some synthetic \<Rightarrow>
                dispatch_synthetic_response E C ctx (rp_version parts) (rdo_filter_request output) synthetic
            | None \<Rightarrow>
                try_then (call_upstream E \<lparr>upq_parts = parts, upq_proxy = proxy, upq_body = body\<rparr>)
                  (dispatch_upstream_response E C ctx (rdo_filter_request output))) d1))"

definition dispatch ::
  "('h, 'u, 'q, 'rx, 'p, 'e, 'j) dispatch_env \<Rightarrow> dispatcher_config \<Rightarrow> ('h, 'u) http_request \<Rightarrow> ('h, 'u, 'e, 'j) flow_dispatcher
   \<Rightarrow> 'h client_response \<times> ('h, 'u, 'e, 'j) flow_dispatcher" where
  "dispatch E C req d =
     (case dispatch_http E C req d of
        (Inr response, d1) \<Rightarrow> (response, d1)
      | (Inl BadRequest, d1) \<Rightarrow> (status_response (den_http E) 400, d1)
      | (Inl err, d1) \<Rightarrow> (status_response (den_http E) 500, d1))"

section \<open>What the steps leave alone\<close>

named_theorems dispatch_frame

text \<open>Two dispatchers that differ neither in the counter nor in the calls made upstream.\<close>

definition same_calls :: "('h, 'u, 'e, 'j) flow_dispatcher \<Rightarrow> ('h, 'u, 'e, 'j) flow_dispatcher \<Rightarrow> bool" where
  "same_calls d d' \<longleftrightarrow> fld_upstream_calls d' = fld_upstream_calls d \<and> fld_seq d' = fld_seq d"

lemma same_calls_trans: "same_calls d d' \<Longrightarrow> same_calls d' d'' \<Longrightarrow> same_calls d d''"
  by (simp add: same_calls_def)

lemma same_calls_fields [simp]:
  "same_calls d d"
  "same_calls d (d\<lparr>fld_events := x1\<rparr>)" "same_calls d (d\<lparr>fld_filters := x2\<rparr>)" "same_calls d (d\<lparr>fld_capture := x3\<rparr>)"
  "same_calls d (d\<lparr>fld_outbound := x4\<rparr>)" "same_calls d (d\<lparr>fld_ticks := x5\<rparr>)"
  by (simp_all add: same_calls_def)

lemma elapsed_calls [dispatch_frame]: "same_calls d (snd (elapsed_since E s d))"
  by (simp add: elapsed_since_def)

lemma in_capture_calls [dispatch_frame]: "same_calls d (snd (in_capture io d))"
  by (simp add: in_capture_def split: prod.split sum.split)

lemma commit_request_calls [dispatch_frame]: "same_calls d (snd (dispatch_commit_request E C ctx parts body marks d))"
  using in_capture_calls [of d "commit_request (den_capture E) (dfg_service C) (request_capture ctx parts body)"]
  by (auto simp: dispatch_commit_request_def try_then_def same_calls_def split: prod.split sum.split)

lemma request_filters_calls [dispatch_frame]: "same_calls d (snd (dispatch_request_filters E ctx parts body d))"
  by (simp add: dispatch_request_filters_def Let_def split: prod.split)

lemma response_filters_calls [dispatch_frame]: "same_calls d (snd (dispatch_response_filters E input parts body ms d))"
  by (simp add: dispatch_response_filters_def Let_def split: prod.split)

lemma resolve_calls [dispatch_frame]: "same_calls d (snd (resolve_outbound_http_jobs E input parts body jobs d))"
proof (induction jobs arbitrary: d)
  case (Cons job jobs)
  then show ?case
    using elapsed_calls [of d E "rdi_started_at input"]
    by (auto simp: Let_def split: prod.split intro: same_calls_trans) (metis Cons.IH elapsed_calls same_calls_trans snd_conv)+
qed simp

lemma outbound_calls [dispatch_frame]: "same_calls d (dispatch_outbound_http E jobs d)"
  by (simp add: dispatch_outbound_http_def split: option.split)

lemma completed_calls [dispatch_frame]: "same_calls d (dispatch_completed_filters E input parts body ms d)"
  by (simp add: dispatch_completed_filters_def)

lemma commit_response_calls [dispatch_frame]: "same_calls d (snd (dispatch_commit_response E C input parts body ms d))"
  by (simp add: dispatch_commit_response_def in_capture_calls)

lemma sse_calls [dispatch_frame]: "same_calls d (snd (dispatch_sse_response E C input parts body ms d))"
  using commit_response_calls [of d E C input parts "[]" ms]
  by (auto simp: dispatch_sse_response_def try_then_def same_calls_def split: prod.split sum.split)

lemma streaming_calls [dispatch_frame]: "same_calls d (snd (dispatch_streaming_response C input parts body d))"
  by (simp add: dispatch_streaming_response_def try_return_def)

lemma collected_calls [dispatch_frame]: "same_calls d (snd (dispatch_collected_response E C input parts body ms d))"
proof -
  obtain out parts1 body1 d1 where f: "dispatch_response_filters E input parts body ms d = ((out, parts1, body1), d1)"
    by (metis prod.collapse)
  obtain jobs d2 where j: "resolve_outbound_http_jobs E input parts1 body1 (rfo_outbound_http out) d1 = (jobs, d2)"
    by fastforce
  let ?d3 = "dispatch_outbound_http E jobs d2"
  obtain r d4 where c: "dispatch_commit_response E C input parts1 body1 ms ?d3 = (r, d4)" by fastforce
  have "same_calls d d1" "same_calls d1 d2" "same_calls d2 ?d3" "same_calls ?d3 d4"
    using response_filters_calls [of d E input parts body ms] resolve_calls [of d1 E input parts1 body1 "rfo_outbound_http out"]
      outbound_calls [of d2 E jobs] commit_response_calls [of ?d3 E C input parts1 body1 ms]
    by (simp_all add: f j c)
  then have "same_calls d d4" by (blast intro: same_calls_trans)
  moreover have "same_calls d4 (snd (dispatch_collected_response E C input parts body ms d))"
    using completed_calls [of d4 E input parts1 body1 ms]
    by (auto simp: dispatch_collected_response_def f j try_then_def c same_calls_def Let_def split: sum.split)
  ultimately show ?thesis by (rule same_calls_trans)
qed

lemma response_calls [dispatch_frame]: "same_calls d (snd (dispatch_response E C input parts body d))"
proof -
  obtain ms d1 where e: "elapsed_since E (rdi_started_at input) d = (ms, d1)" by fastforce
  then have "same_calls d d1" using elapsed_calls [of d E "rdi_started_at input"] by simp
  moreover have "same_calls d1 (snd (dispatch_response E C input parts body d))"
    by (simp add: dispatch_response_def e Let_def sse_calls streaming_calls collected_calls
        split: response_body_mode.split probed_response_body.split)
  ultimately show ?thesis by (rule same_calls_trans)
qed

lemma synthetic_calls [dispatch_frame]: "same_calls d (snd (dispatch_synthetic_response E C ctx v fr syn d))"
  by (simp add: dispatch_synthetic_response_def response_calls split: prod.split)

lemma upstream_response_calls [dispatch_frame]: "same_calls d (snd (dispatch_upstream_response E C ctx fr res d))"
  by (simp add: dispatch_upstream_response_def response_calls split: prod.split)

section \<open>The request reaches upstream at most once\<close>

definition effective_proxy :: "dispatcher_config \<Rightarrow> ('h, 'u) http_request \<Rightarrow> string option" where
  "effective_proxy C req = (case dfg_upstream_proxy C of Some p \<Rightarrow> Some p | None \<Rightarrow> hq_upstream_proxy req)"

lemma dispatch_http_cases:
  assumes "new_request_context E C req d = (Inr ctx, d0)"
    and "dispatch_request_filters E ctx (hq_parts req) (collect_body (hq_body req)) d0 = ((out, parts, body), d1)"
    and "dispatch_commit_request E C ctx parts body (rdo_marks out) d1 = (committed, d2)"
  shows "dispatch_http E C req d = (case committed of
      Inl err \<Rightarrow> (Inl err, d2)
    | Inr _ \<Rightarrow> if rdo_drop_client_response out then (Inr (dropped_response (den_http E)), d2)
        else case rdo_synthetic_response out of
          Some syn \<Rightarrow> dispatch_synthetic_response E C ctx (rp_version parts) (rdo_filter_request out) syn d2
        | None \<Rightarrow> let call = \<lparr>upq_parts = parts, upq_proxy = effective_proxy C req, upq_body = body\<rparr> in
            dispatch_upstream_response E C ctx (rdo_filter_request out) (den_upstream E call)
              (d2\<lparr>fld_upstream_calls := fld_upstream_calls d2 @ [call]\<rparr>))"
  unfolding dispatch_http_def Let_def effective_proxy_def try_then_def [of "new_request_context E C req"]
  using assms
  by (simp add: try_then_def try_return_def call_upstream_def split: sum.split option.split)

text \<open>C3: A request goes upstream exactly when it could be committed to the capture and no filter dropped
  or answered it, then once, as the filters left it. If it could not be committed the dispatch ends
  with that error; a dropped request is answered with the status of a dropped response.\<close>

theorem upstream_called_iff_committed:
  assumes "new_request_context E C req d = (Inr ctx, d0)"
    and "dispatch_request_filters E ctx (hq_parts req) (collect_body (hq_body req)) d0 = ((out, parts, body), d1)"
    and "dispatch_commit_request E C ctx parts body (rdo_marks out) d1 = (committed, d2)"
    and "dispatch_http E C req d = (r, d')"
  shows "fld_upstream_calls d' = fld_upstream_calls d
      @ (if committed = Inr () \<and> \<not> rdo_drop_client_response out \<and> rdo_synthetic_response out = None
         then [\<lparr>upq_parts = parts, upq_proxy = effective_proxy C req,
                upq_body = body\<rparr>] else [])
    \<and> (\<forall>err. committed = Inl err \<longrightarrow> r = Inl err)
    \<and> (committed = Inr () \<and> rdo_drop_client_response out \<longrightarrow> r = Inr (dropped_response (den_http E)) \<and> d' = d2)"
proof -
  have "fld_upstream_calls d0 = fld_upstream_calls d"
    using assms(1) by (auto simp: new_request_context_def Let_def split: option.splits)
  moreover have "fld_upstream_calls d1 = fld_upstream_calls d0" "fld_upstream_calls d2 = fld_upstream_calls d1"
    using request_filters_calls [of d0 E ctx "hq_parts req" "collect_body (hq_body req)"]
      commit_request_calls [of d1 E C ctx parts body "rdo_marks out"]
    by (simp_all add: assms(2,3) same_calls_def)
  ultimately have d2: "fld_upstream_calls d2 = fld_upstream_calls d" by simp
  note eq = dispatch_http_cases [OF assms(1-3)]
  have syn: "fld_upstream_calls d' = fld_upstream_calls d2"
    if "dispatch_synthetic_response E C ctx v fr syn d2 = (r, d')" for v fr syn
    using that synthetic_calls [of d2 E C ctx v fr syn] by (simp add: same_calls_def)
  have up: "fld_upstream_calls d' = calls"
    if "dispatch_upstream_response E C ctx fr res (d2\<lparr>fld_upstream_calls := calls\<rparr>) = (r, d')" for fr res calls
    using that upstream_response_calls [of "d2\<lparr>fld_upstream_calls := calls\<rparr>" E C ctx fr res]
    by (simp add: same_calls_def)
  show ?thesis
    using assms(4) eq d2 by (auto simp: Let_def dest: syn up split: sum.splits if_splits option.splits)
qed

definition sample_dispatch_env ::
  "((string \<times> bytes) list, string \<times> string option, string \<times> string option, string, string,
    flow_event list_channel, outbound_http_job list_channel) dispatch_env" where
  "sample_dispatch_env = \<lparr>den_capture = sample_capture_env, den_script = plain_lib, den_runtime = idle_env,
     den_request_context = (\<lambda>_. Some (''https'', ''h'')),
     den_uuid = (\<lambda>n. \<lparr>uu_text = ''u'', uu_simple = ''0123456789abcdef''\<rparr>),
     den_now = (\<lambda>n. \<lparr>dt_rfc3339 = ''t'', dt_epoch_ms = 0\<rparr>), den_clock = (\<lambda>n. n),
     den_upstream = (\<lambda>_. \<lparr>ufr_parts = \<lparr>sp_status = 200, sp_version = HTTP_11, sp_headers = []\<rparr>, ufr_tls = None,
        ufr_body = Plain [Item (Data ''o''), NotReady, Item (Data ''k'')], ufr_err = None, ufr_status = Some 200,
        ufr_remote_addr = None\<rparr>),
     den_events = list_mpsc, den_jobs = list_mpsc\<rparr>"

definition sample_config :: dispatcher_config where
  "sample_config = \<lparr>dfg_service = sample_service None, dfg_upstream_proxy = None, dfg_stream_body_threshold_bytes = 4,
     dfg_sse_capture_max_events = 10, dfg_sse_capture_max_event_bytes = 100\<rparr>"

definition sample_dispatcher :: "((string \<times> bytes) list, string \<times> string option,
    flow_event list_channel, outbound_http_job list_channel) flow_dispatcher" where
  "sample_dispatcher = \<lparr>fld_capture = empty_world, fld_filters = new_runtime [] idle_thread False (\<lambda>_. 0),
     fld_events = \<lparr>lc_capacity = 8, lc_queue = []\<rparr>, fld_outbound = None, fld_seq = 0, fld_uuids = 0, fld_ticks = 0, fld_upstream_calls = []\<rparr>"

definition sample_http_request :: "((string \<times> bytes) list, string \<times> string option) http_request" where
  "sample_http_request = \<lparr>hq_parts = \<lparr>rp_method = ''GET'', rp_uri = (''/'', None), rp_version = HTTP_11, rp_headers = []\<rparr>,
     hq_tls_sni = None, hq_upstream_proxy = None, hq_body = []\<rparr>"

lemma no_filters_request:
  "frt_current rt = [] \<Longrightarrow> run_request_filters L env view req rt = (request_pass, rt)"
  by (simp add: run_request_filters_def matching_request_def)

lemma no_filters_response:
  "frt_current rt = [] \<Longrightarrow> run_response_filters L env view flow res rt = (response_pass, rt)"
  by (simp add: run_response_filters_def matching_response_def)

lemma dispatch_commit_request_ok:
  assumes "disk_ok (den_capture E)"
  shows "\<exists>d2. dispatch_commit_request E C ctx parts body marks d = (Inr (), d2)"
proof -
  obtain k w where "commit_request (den_capture E) (dfg_service C) (request_capture ctx parts body) (fld_capture d) = (Inr k, w)"
    using commit_request_ok [OF assms] by blast
  then show ?thesis by (simp add: dispatch_commit_request_def try_then_def in_capture_def)
qed

theorem upstream_called_iff_committed_witness:
  "map upq_body (fld_upstream_calls (snd (dispatch_http sample_dispatch_env sample_config sample_http_request sample_dispatcher))) = ['''']"
proof -
  let ?E = sample_dispatch_env and ?C = sample_config and ?q = sample_http_request
  obtain ctx d0 where 1: "new_request_context ?E ?C ?q sample_dispatcher = (Inr ctx, d0)"
    and f0: "frt_current (fld_filters d0) = []"
    by (simp add: new_request_context_def sample_dispatch_env_def sample_dispatcher_def new_runtime_def Let_def)
  have 2: "dispatch_request_filters ?E ctx (hq_parts ?q) (collect_body (hq_body ?q)) d0 =
     ((fst (fst (dispatch_request_filters ?E ctx (hq_parts ?q) [] d0)), hq_parts ?q, []), d0)"
    and keep: "\<not> rdo_drop_client_response (fst (fst (dispatch_request_filters ?E ctx (hq_parts ?q) [] d0)))"
      "rdo_synthetic_response (fst (fst (dispatch_request_filters ?E ctx (hq_parts ?q) [] d0))) = None"
    by (simp_all add: dispatch_request_filters_def Let_def no_filters_request [OF f0] request_pass_def collect_body_def sample_http_request_def)
  have ok: "disk_ok (den_capture ?E)" by (simp add: disk_ok_def sample_capture_env_def sample_dispatch_env_def)
  note dispatch_commit_request_ok [OF ok]
  then obtain d2 where 3: "dispatch_commit_request ?E ?C ctx (hq_parts ?q) []
      (rdo_marks (fst (fst (dispatch_request_filters ?E ctx (hq_parts ?q) [] d0)))) d0 = (Inr (), d2)" by blast
  have c0: "fld_upstream_calls sample_dispatcher = []" by (simp add: sample_dispatcher_def)
  obtain r d' where 4: "dispatch_http ?E ?C ?q sample_dispatcher = (r, d')" by fastforce
  show ?thesis
    using upstream_called_iff_committed [OF 1 2 3 4] keep c0 by (simp add: 4)
qed

section \<open>Responses that no filter touches\<close>

fun client_data :: "'h client_body \<Rightarrow> bytes" where
  "client_data (FullBody b) = b"
| "client_data (EventStream s) = body_data (inner_stream (scb_inner s))"
| "client_data (Download s _) = body_data (inner_stream (stb_inner s))"

definition passes_response ::
  "('h, 'u, 'q, 'rx, 'p, 'e, 'j) dispatch_env \<Rightarrow> response_dispatch_input \<Rightarrow> 'h response_parts \<Rightarrow> ('h, 'u, 'e, 'j) flow_dispatcher \<Rightarrow> bool" where
  "passes_response E input parts d \<longleftrightarrow> (\<forall>b ms. \<exists>out d'.
     dispatch_response_filters E input parts b ms d = ((out, parts, b), d') \<and> \<not> rfo_drop_client_response out)"

lemma no_filters_pass: "frt_current (fld_filters d) = [] \<Longrightarrow> passes_response E input parts d"
  by (simp add: passes_response_def dispatch_response_filters_def Let_def no_filters_response response_pass_def)

lemma passes_response_ticks:
  "passes_response E input parts d \<Longrightarrow> passes_response E input parts (d\<lparr>fld_ticks := n\<rparr>)"
proof (unfold passes_response_def, intro allI)
  fix b ms
  assume "\<forall>b ms. \<exists>out d'. dispatch_response_filters E input parts b ms d = ((out, parts, b), d') \<and> \<not> rfo_drop_client_response out"
  then obtain out d' where "dispatch_response_filters E input parts b ms d = ((out, parts, b), d')" "\<not> rfo_drop_client_response out"
    by blast
  then show "\<exists>out d'. dispatch_response_filters E input parts b ms (d\<lparr>fld_ticks := n\<rparr>) = ((out, parts, b), d') \<and> \<not> rfo_drop_client_response out"
    by (auto simp: dispatch_response_filters_def Let_def split: prod.splits)
qed

lemma dispatch_commit_response_ok:
  "disk_ok (den_capture E) \<Longrightarrow> \<exists>k d'. dispatch_commit_response E C input parts body ms d = (Inr k, d')"
  by (simp add: dispatch_commit_response_def in_capture_def commit_response_ok)

lemma collected_passes:
  assumes "disk_ok (den_capture E)" and "passes_response E input parts d"
  shows "\<exists>d'. dispatch_collected_response E C input parts body ms d = (Inr \<lparr>cr_parts = parts, cr_body = FullBody body\<rparr>, d')"
proof -
  obtain out d1 where f: "dispatch_response_filters E input parts body ms d = ((out, parts, body), d1)"
    and keep: "\<not> rfo_drop_client_response out"
    using assms(2) unfolding passes_response_def by blast
  obtain jobs d2 where j: "resolve_outbound_http_jobs E input parts body (rfo_outbound_http out) d1 = (jobs, d2)" by fastforce
  obtain k d3 where "dispatch_commit_response E C input parts body ms (dispatch_outbound_http E jobs d2) = (Inr k, d3)"
    using dispatch_commit_response_ok [OF assms(1)] by blast
  then show ?thesis by (simp add: dispatch_collected_response_def f j keep try_then_def Let_def)
qed

lemma response_unchanged:
  assumes "disk_ok (den_capture E)" and "passes_response E input parts d" and "\<not> body_fails (inner_stream body)"
  shows "\<exists>resp d'. dispatch_response E C input parts body d = (Inr resp, d')
    \<and> cr_parts resp = parts \<and> client_data (cr_body resp) = body_data (inner_stream body)"
proof -
  let ?d1 = "d\<lparr>fld_ticks := Suc (fld_ticks d)\<rparr>" and ?ms = "as_i64 (den_clock E (fld_ticks d) - rdi_started_at input)"
  let ?t = "dfg_stream_body_threshold_bytes C"
  have coll: "\<exists>d'. dispatch_collected_response E C input parts b ?ms ?d1 = (Inr \<lparr>cr_parts = parts, cr_body = FullBody b\<rparr>, d')" for b
    using collected_passes [OF assms(1) passes_response_ticks [OF assms(2)]] .
  have sse: "\<exists>resp d'. dispatch_sse_response E C input parts body ?ms ?d1 = (Inr resp, d') \<and> cr_parts resp = parts
      \<and> client_data (cr_body resp) = body_data (inner_stream body)"
    using dispatch_commit_response_ok [OF assms(1), of C input parts "[]" ?ms ?d1]
    by (auto simp: dispatch_sse_response_def try_then_def)
  have probe: "case probe_response_body (inner_stream body) ?t of
      Collected x \<Rightarrow> x = body_data (inner_stream body)
    | Streamed pre rest \<Rightarrow> body_data (inner_stream (Prefixed \<lparr>ptb_prefix = Some pre, ptb_rest = rest\<rparr>)) = body_data (inner_stream body)"
    using probe_loop_collected [of ?t "[]" "inner_stream body"] probe_loop_streamed [of ?t "[]" "inner_stream body"] assms(3)
    by (auto simp: probe_response_body_def prefix_stream_def split: probed_response_body.split)
  show ?thesis
    using coll [of "body_data (inner_stream body)"] sse probe assms(3)
    by (auto simp: dispatch_response_def elapsed_since_def Let_def collect_body_eq dispatch_streaming_response_def try_return_def
        split: response_body_mode.split probed_response_body.splits)
qed

text \<open>C5: A response that the filters leave alone reaches the client as upstream sent it, whichever way its
  body takes: collected, probed, probed and then streamed, streamed at once, or captured event by
  event. The head is the upstream head and the bytes are the upstream bytes, on a working disk and
  as long as the upstream body does not fail.\<close>

theorem response_passes_unchanged:
  assumes "disk_ok (den_capture E)" and "passes_response E input parts d" and "\<not> body_fails (inner_stream body)"
  shows "\<exists>resp d'. dispatch_response E C input parts body d = (Inr resp, d')
    \<and> cr_parts resp = parts \<and> client_data (cr_body resp) = body_data (inner_stream body)"
  using assms by (rule response_unchanged)

definition sample_input :: response_dispatch_input where
  "sample_input = \<lparr>rdi_id = \<lparr>uu_text = ''u'', uu_simple = ''0123456789abcdef''\<rparr>, rdi_seq = 1, rdi_flow_key = ''000001-01234567'',
     rdi_flow_dir = ''flows/000001-01234567'', rdi_started_at = 0, rdi_tls_sni = None, rdi_req_host = ''h'', rdi_req_path = ''/'',
     rdi_req_method = ''GET'', rdi_filter_request = sample_request, rdi_origin = Upstream, rdi_upstream_status = Some 200,
     rdi_upstream_remote_addr = None, rdi_tls_upstream = None, rdi_upstream_error_message = None\<rparr>"

theorem response_passes_unchanged_witness:
  "\<exists>resp d'. dispatch_response sample_dispatch_env sample_config sample_input
       \<lparr>sp_status = 200, sp_version = HTTP_11, sp_headers = [(''content-encoding'', ''br'')]\<rparr>
       (Plain [Item (Data ''abc''), Item (Data ''def''), Item (Data ''g'')]) sample_dispatcher = (Inr resp, d')
     \<and> client_data (cr_body resp) = ''abcdefg''"
proof -
  let ?E = sample_dispatch_env and ?b = "Plain [Item (Data ''abc''), Item (Data ''def''), Item (Data ''g'')]"
  have "disk_ok (den_capture ?E)" by (simp add: disk_ok_def sample_capture_env_def sample_dispatch_env_def)
  moreover have "passes_response ?E sample_input p sample_dispatcher" for p
    by (rule no_filters_pass) (simp add: sample_dispatcher_def new_runtime_def)
  moreover have "\<not> body_fails (inner_stream ?b)" by simp
  ultimately obtain resp d' where "dispatch_response ?E sample_config sample_input
       \<lparr>sp_status = 200, sp_version = HTTP_11, sp_headers = [(''content-encoding'', ''br'')]\<rparr> ?b sample_dispatcher = (Inr resp, d')"
    and "client_data (cr_body resp) = body_data (inner_stream ?b)"
    using response_passes_unchanged by blast
  then show ?thesis by simp
qed

section \<open>Flow keys\<close>

lemma next_context_seq:
  assumes "new_request_context E C req d = (r, d')"
  shows "fld_seq d' = fld_seq d + 1"
  using assms by (auto simp: new_request_context_def Let_def split: option.splits)

lemma dispatch_http_seq: "fld_seq (snd (dispatch_http E C req d)) = fld_seq d + 1"
proof -
  obtain r d0 where c: "new_request_context E C req d = (r, d0)" by fastforce
  note seq = next_context_seq [OF c]
  show ?thesis
  proof (cases r)
    case (Inl err)
    then show ?thesis using c seq by (simp add: dispatch_http_def try_then_def Let_def)
  next
    case (Inr ctx)
    obtain out parts body d1 where f: "dispatch_request_filters E ctx (hq_parts req) (collect_body (hq_body req)) d0 = ((out, parts, body), d1)"
      by (metis prod.collapse)
    obtain k d2 where k: "dispatch_commit_request E C ctx parts body (rdo_marks out) d1 = (k, d2)" by fastforce
    have "fld_seq d2 = fld_seq d0"
      using request_filters_calls [of d0 E ctx "hq_parts req" "collect_body (hq_body req)"]
        commit_request_calls [of d1 E C ctx parts body "rdo_marks out"] by (simp add: f k same_calls_def)
    moreover have "fld_seq (snd (dispatch_http E C req d)) = fld_seq d2"
      using dispatch_http_cases [OF c [unfolded Inr] f k] synthetic_calls [of d2 E C ctx "rp_version parts" "rdo_filter_request out"]
        upstream_response_calls [of "d2\<lparr>fld_upstream_calls := _\<rparr>" E C ctx "rdo_filter_request out"]
      by (simp add: same_calls_def Let_def split: sum.split option.split)
    ultimately show ?thesis using seq by simp
  qed
qed

definition run_dispatch ::
  "('h, 'u, 'q, 'rx, 'p, 'e, 'j) dispatch_env \<Rightarrow> dispatcher_config \<Rightarrow> ('h, 'u) http_request list \<Rightarrow> ('h, 'u, 'e, 'j) flow_dispatcher
   \<Rightarrow> ('h, 'u, 'e, 'j) flow_dispatcher" where
  "run_dispatch E C reqs d = foldl (\<lambda>d req. snd (dispatch E C req d)) d reqs"

lemma dispatch_seq: "fld_seq (snd (dispatch E C req d)) = fld_seq d + 1"
  using dispatch_http_seq [of E C req d]
  by (auto simp: dispatch_def split: prod.split sum.split flow_dispatch_error.split)

lemma run_dispatch_seq: "fld_seq (run_dispatch E C reqs d) = fld_seq d + of_nat (length reqs)"
  by (induction reqs arbitrary: d) (simp_all add: run_dispatch_def dispatch_seq add.assoc)

lemma pad_zero_not_in:
  "\<not> is_ascii_digit c \<Longrightarrow> c \<notin> set (pad_zero w (show_nat n))"
  using pad_zero_digits [OF show_nat_digits, of w n] by (auto simp: list_all_iff)

lemma dash_not_digit [simp]: "\<not> is_ascii_digit (CHR ''-'')" "\<not> is_ascii_digit (CHR ''/'')"
  by (simp_all add: is_ascii_digit_def)

lemma flow_key_of_inj: "flow_key_of n u = flow_key_of m v \<Longrightarrow> n = m"
proof -
  have cut: "takeWhile (\<lambda>c. c \<noteq> CHR ''-'') (flow_key_of n u) = pad_zero 6 (show_nat n)" for n u
    unfolding flow_key_of_def using pad_zero_not_in [of "CHR ''-''" 6 n] by (subst takeWhile_append2) auto
  assume "flow_key_of n u = flow_key_of m v"
  then show "n = m" using cut [of n u] cut [of m v] pad_zero_show_inj by metis
qed

lemma flow_key_relative: "flow_key_of n u \<noteq> [] \<and> hd (flow_key_of n u) \<noteq> CHR ''/''"
proof -
  have "pad_zero 6 (show_nat n) \<noteq> []" by (simp add: pad_zero_def)
  moreover have "CHR ''/'' \<notin> set (pad_zero 6 (show_nat n))"
    by (rule pad_zero_not_in) simp
  ultimately show ?thesis by (auto simp: flow_key_of_def hd_append dest: hd_in_set)
qed

text \<open>C7: No two flows share a directory. Along any sequence of dispatched requests, shorter than the range
  of the counter, two requests get different flow keys and different flow directories, whatever the
  UUIDs are.\<close>

theorem flow_keys_distinct:
  assumes "i < j" and "j < length reqs" and "length reqs < 2 ^ 64"
    and "new_request_context E C (reqs ! i) (run_dispatch E C (take i reqs) d) = (Inr ctx1, d1)"
    and "new_request_context E C (reqs ! j) (run_dispatch E C (take j reqs) d) = (Inr ctx2, d2)"
  shows "rdc_flow_key ctx1 \<noteq> rdc_flow_key ctx2 \<and> rdc_flow_dir ctx1 \<noteq> rdc_flow_dir ctx2"
proof -
  have key: "rdc_flow_key c = flow_key_of (next_seq (fld_seq d')) (rdc_id c)
      \<and> rdc_flow_dir c = path_join (csv_flows_dir (dfg_service C)) (rdc_flow_key c)"
    if "new_request_context E C req d' = (Inr c, d'')" for req d' c d''
    using that by (auto simp: new_request_context_def Let_def split: option.splits)
  have "(of_nat i :: 64 word) \<noteq> of_nat j"
    using assms(1-3) by (simp add: unat_of_nat word_unat_eq_iff)
  then have "next_seq (fld_seq (run_dispatch E C (take i reqs) d)) \<noteq> next_seq (fld_seq (run_dispatch E C (take j reqs) d))"
    using assms(1,2) by (simp add: run_dispatch_seq next_seq_def word_unat_eq_iff [symmetric])
  then have "rdc_flow_key ctx1 \<noteq> rdc_flow_key ctx2"
    using key [OF assms(4)] key [OF assms(5)] flow_key_of_inj by metis
  moreover from this have "rdc_flow_dir ctx1 \<noteq> rdc_flow_dir ctx2"
    using key [OF assms(4)] key [OF assms(5)] flow_key_relative path_join_inj by metis
  ultimately show ?thesis by blast
qed

theorem flow_keys_distinct_witness:
  "let q = sample_http_request; E = sample_dispatch_env; C = sample_config;
       key = (\<lambda>d. map_sum id rdc_flow_key (fst (new_request_context E C q d)))
   in key sample_dispatcher \<noteq> key (snd (dispatch E C q sample_dispatcher))"
proof -
  let ?q = sample_http_request and ?E = sample_dispatch_env and ?C = sample_config
  have ctx: "\<exists>c d'. new_request_context ?E ?C ?q d = (Inr c, d')" for d
    by (simp add: new_request_context_def sample_dispatch_env_def Let_def)
  obtain c1 d1 where 1: "new_request_context ?E ?C ?q sample_dispatcher = (Inr c1, d1)" using ctx by blast
  obtain c2 d2 where 2: "new_request_context ?E ?C ?q (snd (dispatch ?E ?C ?q sample_dispatcher)) = (Inr c2, d2)" using ctx by blast
  have "rdc_flow_key c1 \<noteq> rdc_flow_key c2"
    using flow_keys_distinct [of 0 1 "[?q, ?q]" ?E ?C sample_dispatcher c1 d1 c2 d2] 1 2 by (simp add: run_dispatch_def)
  then show ?thesis by (simp add: 1 2 Let_def)
qed

section \<open>The record of a flow\<close>

lemma capture_kept [dispatch_frame]:
  "fld_capture (snd (elapsed_since E s d)) = fld_capture d"
  "fld_capture (snd (dispatch_request_filters E ctx qparts body d)) = fld_capture d"
  "fld_capture (snd (dispatch_response_filters E input parts body ms d)) = fld_capture d"
  "fld_capture (dispatch_outbound_http E jobs d) = fld_capture d"
  "fld_capture (dispatch_completed_filters E input parts body ms d) = fld_capture d"
  by (simp_all add: elapsed_since_def dispatch_request_filters_def dispatch_response_filters_def dispatch_outbound_http_def
      dispatch_completed_filters_def Let_def split: prod.split option.split)

lemma resolve_capture_kept [dispatch_frame]:
  "fld_capture (snd (resolve_outbound_http_jobs E input parts body jobs d)) = fld_capture d"
  by (induction jobs arbitrary: d) (simp_all add: Let_def case_prod_unfold elapsed_since_def)

text \<open>The part of the capture world that recording is about.\<close>

abbreviation recorded where "recorded d \<equiv> cw_events (fld_capture d)"
abbreviation recording where "recording d \<equiv> cw_receiver_open (fld_capture d)"

lemma dispatch_commit_response_record:
  assumes "dispatch_commit_response E C input parts body ms d = (Inr k, d')" and "recording d"
  shows "\<exists>s. recorded d' = recorded d @ [ResponseEvent s] \<and> sm_flow_key s = rdi_flow_key input"
proof -
  let ?c = "response_capture input parts body None None ms"
  obtain w where "commit_response (den_capture E) (dfg_service C) ?c (fld_capture d) = (Inr k, w)" "d' = d\<lparr>fld_capture := w\<rparr>"
    using assms(1) by (auto simp: dispatch_commit_response_def in_capture_def split: prod.splits sum.splits)
  then show ?thesis
    using commit_response_events(3) [of "den_capture E" "dfg_service C" ?c "fld_capture d" "Inr k" w k] assms(2)
    by (auto simp: response_capture_def)
qed

lemma collected_record:
  assumes "dispatch_collected_response E C input parts body ms d = (Inr resp, d')" and "recording d"
  shows "\<exists>s. recorded d' = recorded d @ [ResponseEvent s] \<and> sm_flow_key s = rdi_flow_key input"
proof -
  obtain out parts1 body1 d1 where f: "dispatch_response_filters E input parts body ms d = ((out, parts1, body1), d1)"
    by (metis prod.collapse)
  obtain jobs d2 where j: "resolve_outbound_http_jobs E input parts1 body1 (rfo_outbound_http out) d1 = (jobs, d2)" by fastforce
  let ?d3 = "dispatch_outbound_http E jobs d2"
  have same: "fld_capture ?d3 = fld_capture d"
    using capture_kept(3) [of E input parts body ms d] resolve_capture_kept [of E input parts1 body1 "rfo_outbound_http out" d1]
    by (simp add: f j capture_kept(4))
  obtain k d4 where k: "dispatch_commit_response E C input parts1 body1 ms ?d3 = (Inr k, d4)"
    and d': "fld_capture d' = fld_capture d4"
    using assms(1) by (auto simp: dispatch_collected_response_def f j try_then_def Let_def capture_kept split: prod.splits sum.splits)
  show ?thesis using dispatch_commit_response_record [OF k] assms(2) same d' by simp
qed

lemma response_record:
  assumes "dispatch_response E C input parts body d = (Inr resp, d')" and "recording d"
  shows "(\<exists>s. recorded d' = recorded d @ [ResponseEvent s] \<and> sm_flow_key s = rdi_flow_key input)
    \<or> (recorded d' = recorded d \<and> (\<exists>s c. cr_body resp = Download s c \<and> fnc_input c = input))"
proof -
  obtain ms d1 where e: "elapsed_since E (rdi_started_at input) d = (ms, d1)" by fastforce
  then have same: "fld_capture d1 = fld_capture d" using capture_kept(1) [of E "rdi_started_at input" d] by simp
  have sse: "\<exists>s. recorded d' = recorded d1 @ [ResponseEvent s] \<and> sm_flow_key s = rdi_flow_key input"
    if "dispatch_sse_response E C input parts body ms d1 = (Inr resp, d')"
    using that dispatch_commit_response_record [of E C input parts "[]" ms d1] assms(2) same
    by (auto simp: dispatch_sse_response_def try_then_def split: prod.splits sum.splits)
  have coll: "\<exists>s. recorded d' = recorded d1 @ [ResponseEvent s] \<and> sm_flow_key s = rdi_flow_key input"
    if "dispatch_collected_response E C input parts b ms d1 = (Inr resp, d')" for b
    using collected_record [OF that] assms(2) same by simp
  show ?thesis
    using assms(1) same sse coll
    by (auto simp: dispatch_response_def e Let_def dispatch_streaming_response_def try_return_def
        split: if_splits response_body_mode.splits probed_response_body.splits)
qed

lemma dispatch_commit_request_record:
  assumes "dispatch_commit_request E C ctx parts body marks d = (Inr (), d')" and "recording d"
  shows "\<exists>q. recorded d' = recorded d @ [RequestEvent q] \<and> qm_flow_key q = rdc_flow_key ctx \<and> recording d'"
proof -
  let ?c = "request_capture ctx parts body"
  obtain k w where "commit_request (den_capture E) (dfg_service C) ?c (fld_capture d) = (Inr k, w)" "fld_capture d' = w"
    using assms(1) by (auto simp: dispatch_commit_request_def try_then_def in_capture_def split: prod.splits sum.splits)
  then show ?thesis
    using commit_request_events [of "den_capture E" "dfg_service C" ?c "fld_capture d" "Inr k" w] assms(2)
    by (auto simp: request_capture_def)
qed

lemma flow_keys_carried:
  "rdi_flow_key (into_response_input H ctx fr o1 u a t e) = rdc_flow_key ctx"
  by (simp add: into_response_input_def)

text \<open>The request is dropped: by the action of the request filters, before anything goes upstream.\<close>

definition request_dropped ::
  "('h, 'u, 'q, 'rx, 'p, 'e, 'j) dispatch_env \<Rightarrow> dispatcher_config \<Rightarrow> ('h, 'u) http_request \<Rightarrow> ('h, 'u, 'e, 'j) flow_dispatcher \<Rightarrow> bool" where
  "request_dropped E C req d = (case new_request_context E C req d of
     (Inl err, d0) \<Rightarrow> False
   | (Inr ctx, d0) \<Rightarrow>
       rdo_drop_client_response (fst (fst (dispatch_request_filters E ctx (hq_parts req) (collect_body (hq_body req)) d0))))"

text \<open>The record of a download is sent by the task that its end starts.\<close>

lemma finalize_task_record:
  assumes "disk_ok (den_capture E)" and "recording d"
  shows "\<exists>s. recorded (finalize_task E C ctx n i d) = recorded d @ [ResponseEvent s]
    \<and> sm_flow_key s = rdi_flow_key (fnc_input ctx)"
proof -
  obtain ms d1 where e: "elapsed_since E (rdi_started_at (fnc_input ctx)) d = (ms, d1)" by fastforce
  then have same: "fld_capture d1 = fld_capture d"
    using capture_kept(1) [of E "rdi_started_at (fnc_input ctx)" d] by simp
  let ?c = "response_capture (fnc_input ctx) (fnc_parts ctx)
      (streaming_response_capture_notice (den_http E) (sp_headers (fnc_parts ctx)) (fnc_threshold ctx) (unat n) i)
      (Some (as_i64 (unat n))) (Some True) ms"
  obtain k w where k: "commit_response (den_capture E) (dfg_service C) ?c (fld_capture d) = (Inr k, w)"
    using commit_response_ok [OF assms(1), of "dfg_service C" ?c "fld_capture d"] by blast
  then have "cw_events w = recorded d @ [ResponseEvent (response_metadata_of (den_capture E) (dfg_service C) ?c)]"
    using commit_response_events(3) [OF k refl assms(2)] by simp
  then show ?thesis
    using k by (simp add: finalize_task_def e same in_capture_def Let_def response_capture_def)
qed

lemma answered_flow_record:
  assumes "dispatch_http E C req d = (Inr resp, d')" and "recording d"
  shows "\<exists>q new. recorded d' = recorded d @ RequestEvent q # new
    \<and> (if request_dropped E C req d then new = [] \<and> resp = dropped_response (den_http E)
       else (\<exists>s. new = [ResponseEvent s] \<and> sm_flow_key s = qm_flow_key q)
          \<or> (new = [] \<and> (\<exists>b c. cr_body resp = Download b c \<and> rdi_flow_key (fnc_input c) = qm_flow_key q
               \<and> (\<forall>n i d1. disk_ok (den_capture E) \<and> recording d1 \<longrightarrow>
                    (\<exists>s. recorded (finalize_task E C c n i d1) = recorded d1 @ [ResponseEvent s]
                       \<and> sm_flow_key s = qm_flow_key q)))))"
proof -
  obtain ctx d0 where c: "new_request_context E C req d = (Inr ctx, d0)" and cap: "fld_capture d0 = fld_capture d"
    using assms(1) by (auto simp: dispatch_http_def Let_def try_then_def new_request_context_def split: option.splits prod.splits sum.splits)
  obtain out parts body d1 where f: "dispatch_request_filters E ctx (hq_parts req) (collect_body (hq_body req)) d0 = ((out, parts, body), d1)"
    by (metis prod.collapse)
  obtain k d2 where k: "dispatch_commit_request E C ctx parts body (rdo_marks out) d1 = (k, d2)" by fastforce
  note eq = dispatch_http_cases [OF c f k]
  have kk: "k = Inr ()" using eq assms(1) by (cases k) auto
  have cap1: "fld_capture d1 = fld_capture d"
    using capture_kept(2) [of E ctx "hq_parts req" "collect_body (hq_body req)" d0] by (simp add: f cap)
  obtain q where q: "recorded d2 = recorded d @ [RequestEvent q]" "qm_flow_key q = rdc_flow_key ctx" "recording d2"
    using dispatch_commit_request_record [OF k [unfolded kk]] cap1 assms(2) by auto
  have dropped: "request_dropped E C req d \<longleftrightarrow> rdo_drop_client_response out"
    by (simp add: request_dropped_def c f)
  show ?thesis
  proof (cases "rdo_drop_client_response out")
    case True
    then show ?thesis using eq kk assms(1) q by (auto simp: dropped)
  next
    case False
    obtain input ps b d3 where "dispatch_response E C input ps b d3 = (Inr resp, d')" "fld_capture d3 = fld_capture d2"
      and "rdi_flow_key input = rdc_flow_key ctx"
      using eq assms(1) False kk
      by (auto simp: Let_def dispatch_synthetic_response_def dispatch_upstream_response_def split_upstream_result_def flow_keys_carried
          split: option.splits prod.splits)
    then have "(\<exists>s. recorded d' = recorded d2 @ [ResponseEvent s] \<and> sm_flow_key s = qm_flow_key q)
      \<or> (recorded d' = recorded d2 \<and> (\<exists>b c. cr_body resp = Download b c \<and> rdi_flow_key (fnc_input c) = qm_flow_key q))"
      using response_record [of E C input ps b d3 resp d'] q by auto
    with False q(1) finalize_task_record [of E _ C] show ?thesis
      unfolding dropped by (elim disjE) (fastforce simp: append_assoc)+
  qed
qed

text \<open>C4: Every flow that is answered is on record, in order. When the dispatch of a request returns a
  response, and the receiving end of the database channel is open (\<open>recording\<close>), one request record
  has been sent to the database. If the request filters dropped the request that is all, and the
  response is the dropped one. Otherwise one response record of the same flow has followed it, also
  when a response filter drops what the client gets; or the response is a download, and then the
  task that the download's end starts sends that record on a working disk.\<close>

theorem answered_flow_is_recorded:
  assumes "dispatch_http E C req d = (Inr resp, d')" and "recording d"
  shows "\<exists>q new. recorded d' = recorded d @ RequestEvent q # new
    \<and> (if request_dropped E C req d then new = [] \<and> resp = dropped_response (den_http E)
       else (\<exists>s. new = [ResponseEvent s] \<and> sm_flow_key s = qm_flow_key q)
          \<or> (new = [] \<and> (\<exists>b c. cr_body resp = Download b c \<and> rdi_flow_key (fnc_input c) = qm_flow_key q
               \<and> (\<forall>n i d1. disk_ok (den_capture E) \<and> recording d1 \<longrightarrow>
                    (\<exists>s. recorded (finalize_task E C c n i d1) = recorded d1 @ [ResponseEvent s]
                       \<and> sm_flow_key s = qm_flow_key q)))))"
  using assms by (rule answered_flow_record)

lemma sample_flow_answered:
  "\<exists>resp d'. dispatch_http sample_dispatch_env sample_config sample_http_request sample_dispatcher = (Inr resp, d')"
proof -
  let ?E = sample_dispatch_env and ?C = sample_config and ?q = sample_http_request
  have ok: "disk_ok (den_capture ?E)" by (simp add: disk_ok_def sample_capture_env_def sample_dispatch_env_def)
  obtain ctx d0 where c: "new_request_context ?E ?C ?q sample_dispatcher = (Inr ctx, d0)"
    and f0: "frt_current (fld_filters d0) = []"
    by (simp add: new_request_context_def sample_dispatch_env_def sample_dispatcher_def new_runtime_def Let_def)
  obtain out parts body d1 where f: "dispatch_request_filters ?E ctx (hq_parts ?q) (collect_body (hq_body ?q)) d0 = ((out, parts, body), d1)"
    by (metis prod.collapse)
  have keep: "\<not> rdo_drop_client_response out" "rdo_synthetic_response out = None" and f1: "frt_current (fld_filters d1) = []"
    using f f0 by (auto simp: dispatch_request_filters_def Let_def no_filters_request [OF f0] request_pass_def)
  obtain d2 where k: "dispatch_commit_request ?E ?C ctx parts body (rdo_marks out) d1 = (Inr (), d2)"
    using dispatch_commit_request_ok [OF ok] by blast
  have f2: "frt_current (fld_filters d2) = []"
    using k f1 by (auto simp: dispatch_commit_request_def try_then_def in_capture_def split: prod.splits sum.splits)
  show ?thesis
    using dispatch_http_cases [OF c f k] keep
      response_unchanged [OF ok no_filters_pass, of "d2\<lparr>fld_upstream_calls := calls\<rparr>" "Plain [Item (Data ''o''), NotReady, Item (Data ''k'')]" for calls] f2
    by (auto simp: Let_def dispatch_upstream_response_def split_upstream_result_def sample_dispatch_env_def) meson
qed

theorem answered_flow_is_recorded_witness:
  "\<exists>resp d' q new. dispatch_http sample_dispatch_env sample_config sample_http_request sample_dispatcher = (Inr resp, d')
     \<and> recorded d' = RequestEvent q # new
     \<and> ((\<exists>s. new = [ResponseEvent s]) \<or> (\<exists>b c. cr_body resp = Download b c))"
proof -
  obtain resp d' where r: "dispatch_http sample_dispatch_env sample_config sample_http_request sample_dispatcher = (Inr resp, d')"
    using sample_flow_answered by blast
  obtain ctx d0 where c: "new_request_context sample_dispatch_env sample_config sample_http_request sample_dispatcher = (Inr ctx, d0)"
    and f0: "frt_current (fld_filters d0) = []"
    by (simp add: new_request_context_def sample_dispatch_env_def sample_dispatcher_def new_runtime_def Let_def)
  have "\<not> request_dropped sample_dispatch_env sample_config sample_http_request sample_dispatcher"
    by (simp add: request_dropped_def c dispatch_request_filters_def Let_def no_filters_request [OF f0] request_pass_def)
  moreover have "recording sample_dispatcher" and "recorded sample_dispatcher = []"
    by (simp_all add: sample_dispatcher_def empty_world_def)
  ultimately show ?thesis using answered_flow_is_recorded [OF r] by (auto simp: r)
qed

section \<open>What observers are told of a flow\<close>

lemma events_kept [dispatch_frame]:
  "fld_events (snd (elapsed_since E s d)) = fld_events d"
  "fld_events (snd (dispatch_request_filters E ctx qparts body d)) = fld_events d"
  "fld_events (snd (dispatch_response_filters E input parts body ms d)) = fld_events d"
  "fld_events (dispatch_outbound_http E jobs d) = fld_events d"
  "fld_events (dispatch_completed_filters E input parts body ms d) = fld_events d"
  by (simp_all add: elapsed_since_def dispatch_request_filters_def dispatch_response_filters_def dispatch_outbound_http_def
      dispatch_completed_filters_def Let_def split: prod.split option.split)

lemma resolve_events_kept [dispatch_frame]:
  "fld_events (snd (resolve_outbound_http_jobs E input parts body jobs d)) = fld_events d"
  by (induction jobs arbitrary: d) (simp_all add: Let_def case_prod_unfold elapsed_since_def)

text \<open>At most \<open>n\<close> records are sent to the database, and as many events, one for each record in order.\<close>

abbreviation events_held where "events_held E d \<equiv> mc_held (den_events E) (fld_events d)"
abbreviation events_room where "events_room E d n \<equiv> mc_room (den_events E) (fld_events d) n"

definition announced ::
  "('h, 'u, 'q, 'rx, 'p, 'e, 'j) dispatch_env \<Rightarrow> nat \<Rightarrow> ('h, 'u, 'e, 'j) flow_dispatcher \<Rightarrow> ('h, 'u, 'e, 'j) flow_dispatcher \<Rightarrow> bool" where
  "announced E n d d' \<longleftrightarrow> (\<forall>m. recording d \<and> events_room E d (n + m) \<longrightarrow>
     recording d' \<and> events_room E d' m \<and> (\<exists>es rs. recorded d' = recorded d @ rs
       \<and> events_held E d' = events_held E d @ es \<and> list_all2 announces es rs))"

lemma mc_room_mono: "mc_room M c n \<Longrightarrow> m \<le> n \<Longrightarrow> mc_room M c m"
  by (simp add: mc_room_def)

lemma announced_frame:
  "fld_capture d' = fld_capture d \<Longrightarrow> fld_events d' = fld_events d \<Longrightarrow> announced E n d d'"
  unfolding announced_def by (auto intro: mc_room_mono exI [of _ "[]"])

lemma announced_trans:
  assumes "announced E n d d'" and "announced E k d' d''"
  shows "announced E (n + k) d d''"
  unfolding announced_def
proof (intro allI impI)
  fix m
  assume "recording d \<and> events_room E d (n + k + m)"
  then have "recording d' \<and> events_room E d' (k + m) \<and> (\<exists>es rs. recorded d' = recorded d @ rs
       \<and> events_held E d' = events_held E d @ es \<and> list_all2 announces es rs)"
    using assms(1) [unfolded announced_def, rule_format, of "k + m"] by (simp only: add.assoc)
  moreover from this have "recording d'' \<and> events_room E d'' m \<and> (\<exists>es rs. recorded d'' = recorded d' @ rs
       \<and> events_held E d'' = events_held E d' @ es \<and> list_all2 announces es rs)"
    using assms(2) [unfolded announced_def, rule_format, of m] by simp
  ultimately show "recording d'' \<and> events_room E d'' m \<and> (\<exists>es rs. recorded d'' = recorded d @ rs
       \<and> events_held E d'' = events_held E d @ es \<and> list_all2 announces es rs)"
    by (metis append_assoc list_all2_appendI)
qed

text \<open>One record and its event.\<close>

lemma announced_one:
  assumes "mpsc_laws (den_events E)"
    and "recording d \<Longrightarrow> recording d' \<and> recorded d' = recorded d @ [r]"
    and "fld_events d' = publish (den_events E) e (fld_events d)" and "announces e r"
  shows "announced E 1 d d'"
proof -
  have "event_channel (den_events E)" using assms(1) by (simp add: event_channel_def tokio_channel_def)
  note room = event_channel.publish_room [OF this]
  show ?thesis
    unfolding announced_def
  proof (intro allI impI)
    fix m
    assume "recording d \<and> events_room E d (1 + m)"
    with assms(2-4) room [of "fld_events d" m e]
    show "recording d' \<and> events_room E d' m \<and> (\<exists>es rs. recorded d' = recorded d @ rs
       \<and> events_held E d' = events_held E d @ es \<and> list_all2 announces es rs)"
      by (auto intro!: exI [of _ "[e]"] exI [of _ "[r]"])
  qed
qed

lemma commit_request_announced:
  assumes "mpsc_laws (den_events E)" and "dispatch_commit_request E C ctx parts body marks d = (k, d')"
  shows "announced E 1 d d'"
proof -
  let ?c = "request_capture ctx parts body"
  obtain r w where c: "commit_request (den_capture E) (dfg_service C) ?c (fld_capture d) = (r, w)" by fastforce
  note ev = commit_request_events [OF c]
  show ?thesis
  proof (cases r)
    case (Inl err)
    then have "cw_events w = recorded d" "cw_receiver_open w = recording d" using ev by simp_all
    moreover have "fld_capture d' = w" "fld_events d' = fld_events d"
      using assms(2) c Inl by (auto simp: dispatch_commit_request_def try_then_def in_capture_def)
    ultimately show ?thesis
      unfolding announced_def by (auto intro: mc_room_mono exI [of _ "[]"])
  next
    case (Inr commit)
    have d': "fld_capture d' = w"
        "fld_events d' = publish (den_events E) (request_committed_event commit marks) (fld_events d)"
      using assms(2) c Inr
      by (auto simp: dispatch_commit_request_def try_then_def in_capture_def publish_request_committed_def)
    show ?thesis
      by (rule announced_one [OF assms(1) _ d'(2) request_announced [OF c [unfolded Inr]]])
        (use ev Inr d'(1) in simp)
  qed
qed

text \<open>The commit of a response and the publication that follows it, on all four paths.\<close>

lemma commit_response_announced:
  assumes "mpsc_laws (den_events E)"
    and "in_capture (commit_response (den_capture E) (dfg_service C) s) d = (k, d1)"
    and "fld_capture d' = fld_capture d1"
    and "fld_events d' = (case k of Inl err \<Rightarrow> fld_events d1
           | Inr commit \<Rightarrow> publish_response_committed (den_events E) commit marks (fld_events d1))"
  shows "announced E 1 d d'"
proof -
  obtain r w where c: "commit_response (den_capture E) (dfg_service C) s (fld_capture d) = (r, w)" by fastforce
  note ev = commit_response_events [OF c]
  have d1: "d1 = d\<lparr>fld_capture := w\<rparr>" using assms(2) c by (auto simp: in_capture_def split: sum.splits)
  show ?thesis
  proof (cases r)
    case (Inl err)
    then have "cw_events w = recorded d" "cw_receiver_open w = recording d" using ev by simp_all
    moreover have "fld_capture d' = w" "fld_events d' = fld_events d"
      using assms(2-4) c Inl by (auto simp: in_capture_def)
    ultimately show ?thesis
      unfolding announced_def by (auto intro: mc_room_mono exI [of _ "[]"])
  next
    case (Inr commit)
    then have k: "k = Inr commit" using assms(2) c by (auto simp: in_capture_def)
    have e: "fld_events d' = publish (den_events E) (response_committed_event commit marks) (fld_events d)"
      using assms(4) by (simp add: k d1 publish_response_committed_def)
    show ?thesis
    proof (rule announced_one [OF assms(1) _ e])
      show "recording d \<Longrightarrow> recording d' \<and> recorded d'
          = recorded d @ [ResponseEvent (response_metadata_of (den_capture E) (dfg_service C) s)]"
        using ev Inr assms(3) d1 by simp
      show "announces (response_committed_event commit marks)
          (ResponseEvent (response_metadata_of (den_capture E) (dfg_service C) s))"
        using commit_response_commit [OF c [unfolded Inr]] response_announced by simp
    qed
  qed
qed

lemma finalize_announced:
  assumes "mpsc_laws (den_events E)"
  shows "announced E 1 d (finalize_task E C ctx n i d)"
proof -
  obtain ms d1 where e: "elapsed_since E (rdi_started_at (fnc_input ctx)) d = (ms, d1)" by fastforce
  let ?c = "response_capture (fnc_input ctx) (fnc_parts ctx)
      (streaming_response_capture_notice (den_http E) (sp_headers (fnc_parts ctx)) (fnc_threshold ctx) (unat n) i)
      (Some (as_i64 (unat n))) (Some True) ms"
  obtain k d2 where k: "in_capture (commit_response (den_capture E) (dfg_service C) ?c) d1 = (k, d2)" by fastforce
  have "announced E 0 d d1"
    using capture_kept(1) [of E _ d] events_kept(1) [of E _ d] e by (metis announced_frame snd_conv)
  moreover have "announced E 1 d1 (finalize_task E C ctx n i d)"
    by (rule commit_response_announced [OF assms k, where marks = "[]"])
      (auto simp: finalize_task_def e k Let_def split: sum.split)
  ultimately show ?thesis using announced_trans by fastforce
qed

lemma sse_announced:
  assumes "mpsc_laws (den_events E)" and "dispatch_sse_response E C input parts body ms d = (k, d')"
  shows "announced E 1 d d'"
proof -
  obtain r d1 where c: "in_capture (commit_response (den_capture E) (dfg_service C)
      (response_capture input parts [] None None ms)) d = (r, d1)" by fastforce
  show ?thesis
    by (rule commit_response_announced [OF assms(1) c, where marks = "[]"])
      (use assms(2) c in \<open>auto simp: dispatch_sse_response_def dispatch_commit_response_def try_then_def split: sum.splits\<close>)
qed

lemma collected_announced:
  assumes "mpsc_laws (den_events E)" and "dispatch_collected_response E C input parts body ms d = (k, d')"
  shows "announced E 1 d d'"
proof -
  obtain out parts1 body1 d1 where f: "dispatch_response_filters E input parts body ms d = ((out, parts1, body1), d1)"
    by (metis prod.collapse)
  obtain jobs d2 where j: "resolve_outbound_http_jobs E input parts1 body1 (rfo_outbound_http out) d1 = (jobs, d2)" by fastforce
  let ?d3 = "dispatch_outbound_http E jobs d2"
  have "fld_capture ?d3 = fld_capture d" "fld_events ?d3 = fld_events d"
    using capture_kept(3) [of E input parts body ms d] events_kept(3) [of E input parts body ms d]
      resolve_capture_kept [of E input parts1 body1 "rfo_outbound_http out" d1]
      resolve_events_kept [of E input parts1 body1 "rfo_outbound_http out" d1]
    by (simp_all add: f j capture_kept(4) events_kept(4))
  then have "announced E 0 d ?d3" by (rule announced_frame)
  moreover obtain r d4 where c: "in_capture (commit_response (den_capture E) (dfg_service C)
      (response_capture input parts1 body1 None None ms)) ?d3 = (r, d4)" by fastforce
  have "announced E 1 ?d3 d'"
    by (rule commit_response_announced [OF assms(1) c, where marks = "rfo_marks out"])
      (use assms(2) c in \<open>auto simp: dispatch_collected_response_def f j dispatch_commit_response_def try_then_def
          Let_def capture_kept events_kept split: sum.splits\<close>)
  ultimately show ?thesis using announced_trans by fastforce
qed

lemma dispatch_response_announced:
  assumes "mpsc_laws (den_events E)" and "dispatch_response E C input parts body d = (k, d')"
  shows "announced E 1 d d'"
proof -
  obtain ms d1 where e: "elapsed_since E (rdi_started_at input) d = (ms, d1)" by fastforce
  have first: "announced E 0 d d1"
    using capture_kept(1) [of E _ d] events_kept(1) [of E _ d] e by (metis announced_frame snd_conv)
  have "announced E 1 d1 d'"
    using assms sse_announced [OF assms(1)] collected_announced [OF assms(1)] announced_frame [of d1 d1 E 1]
    by (auto simp: dispatch_response_def e Let_def dispatch_streaming_response_def try_return_def
        split: if_splits response_body_mode.splits probed_response_body.splits)
  with first show ?thesis using announced_trans by fastforce
qed

lemma announced_chain: "announced E 0 d d' \<Longrightarrow> announced E n d' d'' \<Longrightarrow> announced E n d d''"
  using announced_trans [of E 0 d d' n d''] by simp

lemma dispatch_http_announced:
  assumes "mpsc_laws (den_events E)" and "dispatch_http E C req d = (r, d')"
  shows "announced E 2 d d'"
proof -
  obtain c d0 where c: "new_request_context E C req d = (c, d0)" by fastforce
  have "fld_capture d0 = fld_capture d" "fld_events d0 = fld_events d"
    using c by (auto simp: new_request_context_def Let_def split: option.splits)
  then have a0: "announced E 0 d d0" by (rule announced_frame)
  show ?thesis
  proof (cases c)
    case (Inl err)
    then have "d' = d0" using assms(2) c by (auto simp: dispatch_http_def try_then_def Let_def)
    then show ?thesis using announced_trans [OF a0 announced_frame [of d0 d0 E 2]] by (simp add: numeral_2_eq_2)
  next
    case (Inr ctx)
    obtain out parts body d1 where f: "dispatch_request_filters E ctx (hq_parts req) (collect_body (hq_body req)) d0 = ((out, parts, body), d1)"
      by (metis prod.collapse)
    obtain k d2 where k: "dispatch_commit_request E C ctx parts body (rdo_marks out) d1 = (k, d2)" by fastforce
    have "fld_capture d1 = fld_capture d0" "fld_events d1 = fld_events d0"
      using capture_kept(2) [of E ctx "hq_parts req" "collect_body (hq_body req)" d0]
        events_kept(2) [of E ctx "hq_parts req" "collect_body (hq_body req)" d0] by (simp_all add: f)
    then have "announced E 0 d0 d1" by (rule announced_frame)
    moreover have "announced E 1 d1 d2" by (rule commit_request_announced [OF assms(1) k])
    ultimately have a2: "announced E 1 d d2" using a0 by (blast intro: announced_chain)
    have up: "announced E 1 d2 (d2\<lparr>fld_upstream_calls := calls\<rparr>)" for calls
      by (rule announced_frame) simp_all
    have tail: "announced E 1 d2 d'"
      if "dispatch_response E C input ps b (d2\<lparr>fld_upstream_calls := calls\<rparr>) = (r, d')" for input ps b calls
      using announced_trans [OF announced_frame [of "d2\<lparr>fld_upstream_calls := calls\<rparr>" d2 E 0]
          dispatch_response_announced [OF assms(1) that]] by simp
    have keep: "announced E 1 d2 d2" by (rule announced_frame) simp_all
    have "d' = d2 \<or> (\<exists>input ps b. dispatch_response E C input ps b d2 = (r, d'))
        \<or> (\<exists>input ps b calls. dispatch_response E C input ps b (d2\<lparr>fld_upstream_calls := calls\<rparr>) = (r, d'))"
      using dispatch_http_cases [OF c [unfolded Inr] f k, symmetric, unfolded assms(2)]
      by (auto simp: Let_def dispatch_synthetic_response_def dispatch_upstream_response_def
          split: sum.splits if_splits option.splits prod.splits)
    then have "announced E 1 d2 d'"
      using keep tail dispatch_response_announced [OF assms(1)] by blast
    then show ?thesis using announced_trans [OF a2, of 1 d'] by (simp add: numeral_2_eq_2)
  qed
qed

text \<open>C39: Observers are told of exactly what is recorded. While the database is recording and the queue of
  flow events has room, the dispatch of a request, whatever becomes of it, publishes one event for
  each record it sends to the database, in the same order and with the fields of the record; so does
  the task at the end of a download. An event that is not published, published before its commit,
  twice, or with other fields is excluded.\<close>

theorem dispatch_announces_records:
  assumes "mpsc_laws (den_events E)" and "recording d"
    and "dispatch_http E C req d = (r, d')" and "events_room E d 2"
  shows "(\<exists>rs es. recorded d' = recorded d @ rs \<and> events_held E d' = events_held E d @ es \<and> list_all2 announces es rs)
    \<and> (\<forall>ctx n i. \<exists>rs es. recorded (finalize_task E C ctx n i d) = recorded d @ rs
         \<and> events_held E (finalize_task E C ctx n i d) = events_held E d @ es \<and> list_all2 announces es rs)"
proof
  show "\<exists>rs es. recorded d' = recorded d @ rs \<and> events_held E d' = events_held E d @ es \<and> list_all2 announces es rs"
    using dispatch_http_announced [OF assms(1,3)] assms(2,4) unfolding announced_def by (metis add_0_right)
  show "\<forall>ctx n i. \<exists>rs es. recorded (finalize_task E C ctx n i d) = recorded d @ rs
         \<and> events_held E (finalize_task E C ctx n i d) = events_held E d @ es \<and> list_all2 announces es rs"
    using finalize_announced [OF assms(1), of d C] assms(2,4) unfolding announced_def by (metis one_add_one)
qed

theorem dispatch_announces_records_witness:
  "\<exists>q new. recorded (snd (dispatch_http sample_dispatch_env sample_config sample_http_request sample_dispatcher)) = q # new
     \<and> list_all2 announces
         (lc_queue (fld_events (snd (dispatch_http sample_dispatch_env sample_config sample_http_request sample_dispatcher))))
         (q # new)"
proof -
  let ?E = sample_dispatch_env and ?d = sample_dispatcher
  obtain resp d' where r: "dispatch_http ?E sample_config sample_http_request ?d = (Inr resp, d')"
    using sample_flow_answered by blast
  have rec: "recording ?d" "recorded ?d = []" by (simp_all add: sample_dispatcher_def empty_world_def)
  have laws: "mpsc_laws (den_events ?E)" and room: "events_room ?E ?d 2" and held: "events_held ?E d = lc_queue (fld_events d)" for d
    by (simp_all add: sample_dispatch_env_def list_mpsc_laws mc_room_def sample_dispatcher_def) (simp_all add: list_mpsc_def)
  obtain rs es where "recorded d' = recorded ?d @ rs" "events_held ?E d' = events_held ?E ?d @ es" "list_all2 announces es rs"
    using dispatch_announces_records [OF laws rec(1) r room] by blast
  then have "list_all2 announces (lc_queue (fld_events d')) (recorded d')"
    unfolding held by (simp add: sample_dispatcher_def empty_world_def)
  moreover obtain q new where "recorded d' = RequestEvent q # new" using answered_flow_record [OF r rec(1)] rec(2) by auto
  ultimately show ?thesis by (simp add: r)
qed

end
