(* ===== verification/FilterManager.thy ===== *)
theory FilterManager
  imports RotoRuntime FilterTypes
begin

text \<open>
  The filter manager (\<open>src/src/filters/manager.rs\<close>): reading filter files, their front matter, ids and
  priorities, compiling and loading the filter set, and the free names of the quarantine. The file
  system is the record \<open>fs_view\<close>, the TOML parser and the Roto compiler are parameters. A panic is
  the value \<open>None\<close> of an option around the result.
  A directory is read as a whole: where the source meets an entry it cannot read, after it has
  loaded and reported the entries before it, \<open>fs_read_dir\<close> has no result; the reload fails in both.
\<close>

section \<open>Hashes and ids\<close>

definition fnv_step :: "64 word \<Rightarrow> char \<Rightarrow> 64 word" where
  "fnv_step hash b = (Bit_Operations.xor hash (of_nat (byte b))) * 0x100000001b3"

definition hex16 :: "64 word \<Rightarrow> string" where
  "hex16 h = map (\<lambda>i. hex_digit ((unat h div 16 ^ i) mod 16)) (rev [0..<16])"

definition stable_hash_hex :: "string \<Rightarrow> string" where
  "stable_hash_hex s = hex16 (foldl fnv_step 0xcbf29ce484222325 s)"

definition script_hash :: "string \<Rightarrow> string" where
  "script_hash source = stable_hash_hex source"

definition generated_filter_id_prefix :: string where
  "generated_filter_id_prefix = ''inspect-generated:''"

definition is_reserved_generated_id :: "string \<Rightarrow> bool" where
  "is_reserved_generated_id filter_id = starts_with filter_id generated_filter_id_prefix"

definition filter_file_name :: "string \<Rightarrow> string" where
  "filter_file_name path = (case Option.bind (path_file_name path) from_utf8 of
     Some name \<Rightarrow> name | None \<Rightarrow> ''unknown.roto'')"

definition build_filter_id :: "filter_source_kind \<Rightarrow> string \<Rightarrow> string option \<Rightarrow> string \<Rightarrow> string" where
  "build_filter_id source_kind file_name explicit_id hash =
     (let raw = (case explicit_id of
         Some i \<Rightarrow> ''id'' @ [CHR 0x00] @ i
       | None \<Rightarrow> ''file'' @ [CHR 0x00] @ file_name)
      in ''filter-'' @ stable_hash_hex raw)"

section \<open>Filter sources\<close>

definition is_char_boundary :: "string \<Rightarrow> nat \<Rightarrow> bool" where
  "is_char_boundary s i \<longleftrightarrow> i = 0 \<or> i = length s \<or> (i < length s \<and> \<not> utf8_cont (byte (s ! i)))"

definition normalized_comment_line :: "string \<Rightarrow> string option" where
  "normalized_comment_line line =
     (let trimmed = trim_start line in
      map_option trim_start
        (case strip_prefix trimmed ''//!'' of Some r \<Rightarrow> Some r | None \<Rightarrow> strip_prefix trimmed ''//''))"

fun quote_scan :: "bool \<Rightarrow> bool \<Rightarrow> string \<Rightarrow> bool" where
  "quote_scan in_string escaped [] = in_string"
| "quote_scan in_string escaped (ch # cs) =
     (if escaped then quote_scan in_string False cs
      else if ch = CHR 0x5C \<and> in_string then quote_scan in_string True cs
      else if ch = CHR 0x22 then quote_scan (\<not> in_string) False cs
      else quote_scan in_string False cs)"

definition validate_front_matter_line :: "string \<Rightarrow> bool" where
  "validate_front_matter_line line = (\<not> quote_scan False False line)"

datatype parse_error = UnterminatedBlock | UnterminatedString string | TomlError

fun parse_error_text :: "parse_error \<Rightarrow> string" where
  "parse_error_text UnterminatedBlock = ''unterminated filter metadata block''"
| "parse_error_text (UnterminatedString line) = ''unterminated string in filter metadata line: '' @ line"
| "parse_error_text TomlError = ''parse TOML front matter''"

text \<open>The loop over the lines after the opening delimiter: \<open>in_front_matter\<close>, the TOML text and the
  script so far; the result tells whether the closing delimiter was found.\<close>

fun front_matter_loop :: "bool \<Rightarrow> string \<Rightarrow> string \<Rightarrow> string list \<Rightarrow> parse_error + bool \<times> string \<times> string" where
  "front_matter_loop in_front_matter toml_text script [] = Inr (\<not> in_front_matter, toml_text, script)"
| "front_matter_loop in_front_matter toml_text script (line # rest) =
     (if in_front_matter then
        (let normalized = (case normalized_comment_line line of Some n \<Rightarrow> n | None \<Rightarrow> line) in
         if trim normalized = ''+++'' then front_matter_loop False toml_text script rest
         else if \<not> validate_front_matter_line normalized then Inl (UnterminatedString normalized)
         else front_matter_loop True (toml_text @ normalized @ [CHR 0x0A]) script rest)
      else front_matter_loop False toml_text (script @ line @ [CHR 0x0A]) rest)"

definition front_matter_start :: "string list \<Rightarrow> nat" where
  "front_matter_start lines =
     sum_list (map (\<lambda>line. length line + 1) (takeWhile (\<lambda>line. trim line = []) lines))"

definition parse_filter_source ::
  "(string \<Rightarrow> filter_metadata option) \<Rightarrow> string \<Rightarrow> (parse_error + filter_metadata \<times> string) option" where
  "parse_filter_source toml source =
     (case dropWhile (\<lambda>line. trim line = []) (str_lines source) of
        [] \<Rightarrow> Some (Inr (default_metadata, []))
      | first_line # _ \<Rightarrow>
          if normalized_comment_line first_line \<noteq> Some ''+++'' then Some (Inr (default_metadata, source))
          else
            (let start_byte = front_matter_start (str_lines source) in
             if \<not> is_char_boundary source start_byte then None
             else
               (case front_matter_loop True [] [] (drop 1 (str_lines (drop start_byte source))) of
                  Inl err \<Rightarrow> Some (Inl err)
                | Inr (found_end, toml_text, script) \<Rightarrow>
                    if \<not> found_end then Some (Inl UnterminatedBlock)
                    else (case toml toml_text of
                            None \<Rightarrow> Some (Inl TomlError)
                          | Some metadata \<Rightarrow> Some (Inr (metadata, script))))))"

definition has_executable_roto_script :: "string \<Rightarrow> bool" where
  "has_executable_roto_script script =
     list_ex (\<lambda>line. line \<noteq> [] \<and> \<not> starts_with line ''//'' \<and> \<not> starts_with line ''/*''
        \<and> \<not> starts_with line ''*'' \<and> \<not> starts_with line ''*/'')
       (map trim (str_lines script))"

definition i32_max :: nat where "i32_max = 2147483647"

definition priority_from_file_name :: "string \<Rightarrow> int option" where
  "priority_from_file_name path =
     Option.bind (Option.bind (path_file_name path) from_utf8) (\<lambda>file_name.
     Option.bind (split_once (CHR ''-'') file_name) (\<lambda>(prefix, _).
       if prefix = [] \<or> \<not> list_all is_ascii_digit prefix then None
       else map_option int (parse_uint i32_max prefix)))"

section \<open>State\<close>

record filter_status =
  fst_filter_id :: string
  fst_source_kind :: string
  fst_file_name :: string
  fst_path :: string
  fst_explicit_id :: "string option"
  fst_name :: string
  fst_enabled :: bool
  fst_valid :: bool
  fst_priority :: "int option"
  fst_script_hash :: string
  fst_script_len :: nat
  fst_program_kind :: "string option"
  fst_last_error :: "string option"

text \<open>The time of loading, which the status also carries, is left out.\<close>

datatype manager_event = FilterStatus filter_status | FilterStatusPrune "string list"

record filter_manager =
  fmg_filters_dir :: string
  fmg_filter_dirs :: "string list"
  fmg_quarantine_dir :: string
  fmg_current :: "compiled_filter list"
  fmg_has_sender :: bool
  fmg_events :: "manager_event list"

record fs_view =
  fs_cwd :: string
  fs_exists :: "string \<Rightarrow> bool"
  fs_is_file :: "string \<Rightarrow> bool"
  fs_read_dir :: "string \<Rightarrow> string list option"
  fs_read_to_string :: "string \<Rightarrow> string option"
  fs_create_dir_all :: "string \<Rightarrow> bool"

datatype filter_error =
    ReadFilter string
  | ParseMetadata string parse_error
  | ReservedGeneratedId
  | CompileFilter string compile_error
  | ReadFiltersDir string
  | CreateQuarantineDir string

definition absolute_path :: "fs_view \<Rightarrow> string \<Rightarrow> string" where
  "absolute_path fs path = (if starts_with path ''/'' then path else path_join (fs_cwd fs) path)"

definition new_manager :: "fs_view \<Rightarrow> string \<Rightarrow> filter_manager" where
  "new_manager fs dir =
     (let filters_dir = absolute_path fs dir in
      \<lparr>fmg_filters_dir = filters_dir, fmg_filter_dirs = [filters_dir],
       fmg_quarantine_dir = path_join filters_dir ''quarantine'', fmg_current = [],
       fmg_has_sender = False, fmg_events = []\<rparr>)"

definition with_event_sender :: "filter_manager \<Rightarrow> filter_manager" where
  "with_event_sender m = m\<lparr>fmg_has_sender := True\<rparr>"

definition with_filter_dir :: "fs_view \<Rightarrow> filter_manager \<Rightarrow> string \<Rightarrow> filter_manager" where
  "with_filter_dir fs m dir = m\<lparr>fmg_filter_dirs := fmg_filter_dirs m @ [absolute_path fs dir]\<rparr>"

definition send_manager_event :: "manager_event \<Rightarrow> filter_manager \<Rightarrow> filter_manager" where
  "send_manager_event ev m = (if fmg_has_sender m then m\<lparr>fmg_events := fmg_events m @ [ev]\<rparr> else m)"

definition record_filter_status :: "filter_status \<Rightarrow> filter_manager \<Rightarrow> filter_manager" where
  "record_filter_status status = send_manager_event (FilterStatus status)"

definition prune_filter_statuses :: "string list \<Rightarrow> filter_manager \<Rightarrow> filter_manager" where
  "prune_filter_statuses file_names = send_manager_event (FilterStatusPrune file_names)"

definition filter_status_from_definition ::
  "filter_definition \<Rightarrow> int option \<Rightarrow> bool \<Rightarrow> string option \<Rightarrow> string option \<Rightarrow> filter_status" where
  "filter_status_from_definition d priority valid program_kind last_error =
     \<lparr>fst_filter_id = fd_id d, fst_source_kind = source_kind_as_str (fd_source_kind d),
      fst_file_name = fd_file_name d, fst_path = from_utf8_lossy (fd_path d), fst_explicit_id = fm_id (fd_metadata d),
      fst_name = (case fm_name (fd_metadata d) of
         Some n \<Rightarrow> n
       | None \<Rightarrow> (case Option.bind (path_file_stem (fd_path d)) from_utf8 of Some n \<Rightarrow> n | None \<Rightarrow> ''unnamed'')),
      fst_enabled = fm_enabled (fd_metadata d), fst_valid = valid, fst_priority = priority,
      fst_script_hash = fd_script_hash d, fst_script_len = length (fd_script d),
      fst_program_kind = program_kind, fst_last_error = last_error\<rparr>"

definition program_kind_for_filter :: "compiled_filter \<Rightarrow> string" where
  "program_kind_for_filter f = (case cf_program f of MetadataOnly \<Rightarrow> ''metadata-only'' | Compiled _ _ \<Rightarrow> ''compiled'')"

section \<open>Loading\<close>

definition compile_filter_definition ::
  "(string \<Rightarrow> string + roto_package) \<Rightarrow> filter_definition \<Rightarrow> int \<Rightarrow> filter_error + compiled_filter" where
  "compile_filter_definition compile d priority =
     (if \<not> has_executable_roto_script (fd_script d) then Inr (metadata_only d priority)
      else (case compile_roto_filter_file compile (fd_path d) of
              Inl err \<Rightarrow> Inl (CompileFilter (fd_path d) err)
            | Inr roto \<Rightarrow> Inr (compiled d priority roto)))"

definition definition_of ::
  "filter_source_kind \<Rightarrow> string \<Rightarrow> string \<Rightarrow> filter_metadata \<Rightarrow> string \<Rightarrow> filter_definition" where
  "definition_of source_kind path source metadata script =
     \<lparr>fd_id = build_filter_id source_kind (filter_file_name path) (fm_id metadata) (script_hash source),
      fd_source_kind = source_kind, fd_file_name = filter_file_name path, fd_script_hash = script_hash source,
      fd_path = path, fd_source = source, fd_metadata = metadata, fd_script = script\<rparr>"

definition filter_priority :: "string \<Rightarrow> filter_metadata \<Rightarrow> int" where
  "filter_priority path metadata = (case fm_priority metadata of
     Some p \<Rightarrow> p
   | None \<Rightarrow> (case priority_from_file_name path of Some p \<Rightarrow> p | None \<Rightarrow> 1000))"

definition load_filter ::
  "(string \<Rightarrow> filter_metadata option) \<Rightarrow> (string \<Rightarrow> string + roto_package) \<Rightarrow> fs_view \<Rightarrow> string \<Rightarrow> filter_source_kind
   \<Rightarrow> filter_manager \<Rightarrow> ((filter_error + compiled_filter option) \<times> filter_manager) option" where
  "load_filter toml compile fs path source_kind m =
     (case fs_read_to_string fs path of
        None \<Rightarrow> Some (Inl (ReadFilter path), m)
      | Some source \<Rightarrow>
          (case parse_filter_source toml source of
             None \<Rightarrow> None
           | Some (Inl err) \<Rightarrow>
               (let d = definition_of source_kind path source default_metadata [];
                    priority = (case priority_from_file_name path of Some p \<Rightarrow> Some p | None \<Rightarrow> Some 1000)
                in Some (Inl (ParseMetadata path err),
                     record_filter_status (filter_status_from_definition d priority False None
                       (Some (''invalid filter header/front matter: '' @ parse_error_text err))) m))
           | Some (Inr (metadata, script)) \<Rightarrow>
               (let d = definition_of source_kind path source metadata script;
                    priority = filter_priority path metadata
                in if source_kind = Persistent
                      \<and> (case fm_id metadata of Some i \<Rightarrow> is_reserved_generated_id i | None \<Rightarrow> False)
                   then Some (Inl ReservedGeneratedId,
                          record_filter_status (filter_status_from_definition d None False None
                            (Some (''persistent filter cannot use generated filter id prefix `'' @ generated_filter_id_prefix @ ''`''))) m)
                   else if \<not> fm_enabled metadata
                   then Some (Inr None,
                          record_filter_status (filter_status_from_definition d (Some priority) True (Some ''disabled'') None) m)
                   else (case compile_filter_definition compile d priority of
                      Inr f \<Rightarrow> Some (Inr (Some f),
                        record_filter_status (filter_status_from_definition (cf_definition f) (Some (cf_priority f)) True
                          (Some (program_kind_for_filter f)) None) m)
                    | Inl err \<Rightarrow> Some (Inl err,
                        record_filter_status (filter_status_from_definition d (Some priority) False None
                          (Some (''compile roto filter '' @ from_utf8_lossy path))) m)))))"

definition is_quarantined_path :: "filter_manager \<Rightarrow> string \<Rightarrow> bool" where
  "is_quarantined_path m path = path_starts_with path (fmg_quarantine_dir m)"

definition is_roto_file :: "fs_view \<Rightarrow> string \<Rightarrow> bool" where
  "is_roto_file fs path \<longleftrightarrow> fs_is_file fs path
     \<and> (case Option.bind (path_extension path) from_utf8 of
          Some e \<Rightarrow> eq_ignore_ascii_case e ''roto'' | None \<Rightarrow> False)"

text \<open>The loop over the entries of one directory, with the filters and the file names so far.\<close>

fun load_entries ::
  "(string \<Rightarrow> filter_metadata option) \<Rightarrow> (string \<Rightarrow> string + roto_package) \<Rightarrow> fs_view \<Rightarrow> filter_source_kind \<Rightarrow> string list
   \<Rightarrow> compiled_filter list \<times> string list \<Rightarrow> filter_manager \<Rightarrow> ((compiled_filter list \<times> string list) \<times> filter_manager) option" where
  "load_entries toml compile fs kind [] acc m = Some (acc, m)"
| "load_entries toml compile fs kind (path # paths) (filters, file_names) m =
     (if is_quarantined_path m path \<or> \<not> is_roto_file fs path
      then load_entries toml compile fs kind paths (filters, file_names) m
      else (case load_filter toml compile fs path kind m of
         None \<Rightarrow> None
       | Some (result, m1) \<Rightarrow>
           load_entries toml compile fs kind paths
             (case result of Inr (Some f) \<Rightarrow> filters @ [f] | _ \<Rightarrow> filters, file_names @ [filter_file_name path]) m1))"

fun load_dirs ::
  "(string \<Rightarrow> filter_metadata option) \<Rightarrow> (string \<Rightarrow> string + roto_package) \<Rightarrow> fs_view \<Rightarrow> string list
   \<Rightarrow> compiled_filter list \<times> string list \<Rightarrow> filter_manager
   \<Rightarrow> ((filter_error + compiled_filter list \<times> string list) \<times> filter_manager) option" where
  "load_dirs toml compile fs [] acc m = Some (Inr acc, m)"
| "load_dirs toml compile fs (dir # dirs) acc m =
     (if \<not> fs_exists fs dir then load_dirs toml compile fs dirs acc m
      else
        (let kind = (if path_components dir = path_components (fmg_filters_dir m) then Persistent else Generated) in
         case fs_read_dir fs dir of
           None \<Rightarrow> Some (Inl (ReadFiltersDir dir), m)
         | Some paths \<Rightarrow>
             (case load_entries toml compile fs kind paths acc m of
                None \<Rightarrow> None
              | Some (acc1, m1) \<Rightarrow> load_dirs toml compile fs dirs acc1 m1)))"

definition load_filter_set ::
  "(string \<Rightarrow> filter_metadata option) \<Rightarrow> (string \<Rightarrow> string + roto_package) \<Rightarrow> fs_view \<Rightarrow> filter_manager
   \<Rightarrow> ((filter_error + compiled_filter list \<times> string list) \<times> filter_manager) option" where
  "load_filter_set toml compile fs m =
     (case load_dirs toml compile fs (fmg_filter_dirs m) ([], []) m of
        None \<Rightarrow> None
      | Some (Inl err, m1) \<Rightarrow> Some (Inl err, m1)
      | Some (Inr (filters, file_names), m1) \<Rightarrow>
          Some (Inr (new_filter_set filters, remdups_adj (sort file_names)), m1))"

definition reload ::
  "(string \<Rightarrow> filter_metadata option) \<Rightarrow> (string \<Rightarrow> string + roto_package) \<Rightarrow> fs_view \<Rightarrow> filter_manager
   \<Rightarrow> ((filter_error + unit) \<times> filter_manager) option" where
  "reload toml compile fs m =
     (if \<not> fs_create_dir_all fs (fmg_quarantine_dir m) then Some (Inl (CreateQuarantineDir (fmg_quarantine_dir m)), m)
      else (case load_filter_set toml compile fs m of
         None \<Rightarrow> None
       | Some (Inl err, m1) \<Rightarrow> Some (Inl err, m1)
       | Some (Inr (filters, file_names), m1) \<Rightarrow>
           Some (Inr (), (prune_filter_statuses file_names m1)\<lparr>fmg_current := filters\<rparr>)))"

definition validate_filter_file ::
  "(string \<Rightarrow> filter_metadata option) \<Rightarrow> (string \<Rightarrow> string + roto_package) \<Rightarrow> fs_view \<Rightarrow> string \<Rightarrow> filter_manager
   \<Rightarrow> ((filter_error + unit) \<times> filter_manager) option" where
  "validate_filter_file toml compile fs path0 m =
     (let path = absolute_path fs path0;
          kind = (if list_ex (\<lambda>dir. path_components dir \<noteq> path_components (fmg_filters_dir m) \<and> path_starts_with path dir)
                       (fmg_filter_dirs m) then Generated else Persistent)
      in map_option (\<lambda>(result, m1). (case result of Inl err \<Rightarrow> Inl err | Inr _ \<Rightarrow> Inr (), m1))
           (load_filter toml compile fs path kind m))"

section \<open>Free names in the quarantine\<close>

text \<open>The search for a free name; \<open>existing\<close> lists the paths that exist, and \<open>fuel\<close> bounds the
  candidates tried. The counter of the source is an \<open>i32\<close>: the model agrees with it as long as
  fewer than 2^31 candidates are taken.\<close>

fun free_path :: "(nat \<Rightarrow> string) \<Rightarrow> string list \<Rightarrow> nat \<Rightarrow> nat \<Rightarrow> string option" where
  "free_path candidate existing 0 idx = None"
| "free_path candidate existing (Suc fuel) idx =
     (if candidate idx \<notin> set existing then Some (candidate idx)
      else free_path candidate existing fuel (Suc idx))"

definition unique_path :: "string \<Rightarrow> string \<Rightarrow> string list \<Rightarrow> string \<Rightarrow> string \<Rightarrow> string option" where
  "unique_path default_stem infix_text existing dir file_name =
     (let first = path_join dir file_name in
      if first \<notin> set existing then Some first
      else
        (let stem = (case Option.bind (path_file_stem file_name) from_utf8 of Some s \<Rightarrow> s | None \<Rightarrow> default_stem);
             extension = (case Option.bind (path_extension file_name) from_utf8 of Some e \<Rightarrow> e | None \<Rightarrow> ''roto'')
         in free_path (\<lambda>idx. path_join dir (stem @ infix_text @ show_nat idx @ ''.'' @ extension))
              existing (Suc (length existing)) 1))"

definition unique_quarantine_path :: "string list \<Rightarrow> string \<Rightarrow> string \<Rightarrow> string option" where
  "unique_quarantine_path = unique_path ''filter'' ''.quarantine-''"

definition unique_file_path :: "string list \<Rightarrow> string \<Rightarrow> string \<Rightarrow> string option" where
  "unique_file_path = unique_path ''generated'' ''-''"

section \<open>A free name is always found\<close>

lemma free_path_fresh: "free_path c ex fuel idx = Some p \<Longrightarrow> p \<notin> set ex"
  by (induction fuel arbitrary: idx) (auto split: if_splits)

lemma free_path_None: "free_path c ex fuel idx = None \<Longrightarrow> i \<in> {idx..<idx + fuel} \<Longrightarrow> c i \<in> set ex"
proof (induction fuel arbitrary: idx)
  case (Suc fuel)
  then show ?case by (cases "i = idx") (auto split: if_splits)
qed simp

lemma free_path_found:
  assumes "inj c"
  shows "\<exists>p. free_path c ex (Suc (length ex)) idx = Some p"
proof (rule ccontr)
  assume "\<nexists>p. free_path c ex (Suc (length ex)) idx = Some p"
  then have "free_path c ex (Suc (length ex)) idx = None" by (meson not_None_eq)
  then have "c ` {idx..<idx + Suc (length ex)} \<subseteq> set ex" by (intro image_subsetI free_path_None)
  then have "card (c ` {idx..<idx + Suc (length ex)}) \<le> card (set ex)" by (rule card_mono [rotated]) simp
  moreover have "card (c ` {idx..<idx + Suc (length ex)}) = Suc (length ex)"
    using assms by (subst card_image) (auto intro: inj_on_subset)
  ultimately show False using card_length [of ex] by simp
qed

lemma show_nat_inj: "show_nat m = show_nat n \<longleftrightarrow> m = n"
  by (metis digits_value_show_nat)

lemma starts_with_slash_front: "a \<noteq> [] \<Longrightarrow> starts_with (a @ b) ''/'' = starts_with a ''/''"
  by (cases a) auto

lemma candidates_inj:
  assumes "mid \<noteq> []"
  shows "inj (\<lambda>idx. path_join dir (stem @ mid @ show_nat idx @ ''.'' @ extension))"
proof (rule injI)
  fix i j
  assume eq: "path_join dir (stem @ mid @ show_nat i @ ''.'' @ extension)
      = path_join dir (stem @ mid @ show_nat j @ ''.'' @ extension)"
  have "starts_with (stem @ mid @ t) ''/'' = starts_with (stem @ mid) ''/''" for t
    using starts_with_slash_front [of "stem @ mid" t] assms by simp
  with eq have "show_nat i = show_nat j" by (auto simp: path_join_def split: if_splits)
  then show "i = j" by (simp add: show_nat_inj)
qed

lemma unique_path_found:
  assumes "mid \<noteq> []"
  shows "\<exists>p. unique_path stem0 mid existing dir file_name = Some p \<and> p \<notin> set existing"
  using free_path_found [OF candidates_inj [OF assms]] free_path_fresh
  by (simp add: unique_path_def Let_def del: free_path.simps) meson

text \<open>C29: Quarantine and generated files never overwrite a file: the search for a name ends, after at most
  as many candidates as there are files, with a path that does not exist, whatever the directory
  and the file name.\<close>

theorem unique_paths_fresh:
  "\<exists>p q. unique_quarantine_path existing dir file_name = Some p \<and> p \<notin> set existing
     \<and> unique_file_path existing dir file_name = Some q \<and> q \<notin> set existing"
  using unique_path_found [of "''.quarantine-''"] unique_path_found [of "''-''"]
  by (simp add: unique_quarantine_path_def unique_file_path_def)

section \<open>Loading one file\<close>

lemma send_frame [simp]:
  "fmg_current (send_manager_event ev m) = fmg_current m"
  "fmg_filters_dir (send_manager_event ev m) = fmg_filters_dir m"
  "fmg_filter_dirs (send_manager_event ev m) = fmg_filter_dirs m"
  "fmg_quarantine_dir (send_manager_event ev m) = fmg_quarantine_dir m"
  "fmg_has_sender (send_manager_event ev m) = fmg_has_sender m"
  by (simp_all add: send_manager_event_def)

lemmas load_unfold = load_filter_def record_filter_status_def Let_def filter_status_from_definition_def

text \<open>C28: Every filter file that could be read leaves exactly one status behind, under its own name: valid
  and without an error if the file was loaded or is disabled, invalid with the error text
  otherwise. A file that cannot be read leaves none.\<close>

theorem load_filter_reports:
  assumes "load_filter toml compile fs path kind m = Some (result, m')" and "fmg_has_sender m"
  shows "(result = Inl (ReadFilter path) \<and> m' = m \<and> fs_read_to_string fs path = None)
    \<or> (\<exists>st. m' = m\<lparr>fmg_events := fmg_events m @ [FilterStatus st]\<rparr> \<and> fst_file_name st = filter_file_name path
         \<and> (fst_valid st \<longleftrightarrow> (\<exists>r. result = Inr r)) \<and> (fst_last_error st = None \<longleftrightarrow> (\<exists>r. result = Inr r)))"
proof (cases "fs_read_to_string fs path")
  case None
  with assms show ?thesis by (simp add: load_filter_def)
next
  case (Some source)
  show ?thesis
  proof (cases "parse_filter_source toml source")
    case None
    with assms Some show ?thesis by (simp add: load_filter_def)
  next
    case parsed: (Some r)
    show ?thesis
    proof (cases r)
      case (Inl err)
      with assms Some parsed show ?thesis
        by (auto simp: load_unfold send_manager_event_def definition_of_def)
    next
      case (Inr md)
      obtain metadata script where md: "md = (metadata, script)" by fastforce
      from assms Some parsed Inr md show ?thesis
        by (auto simp: load_unfold send_manager_event_def definition_of_def compile_filter_definition_def
            metadata_only_def compiled_def split: if_splits sum.splits)
    qed
  qed
qed

text \<open>What a successful load says about the filter.\<close>

lemma load_filter_Some:
  assumes "load_filter toml compile fs path kind m = Some (Inr (Some f), m')"
  shows "fd_path (cf_definition f) = path \<and> fm_enabled (fd_metadata (cf_definition f))
    \<and> \<not> (kind = Persistent \<and> (\<exists>i. fm_id (fd_metadata (cf_definition f)) = Some i \<and> is_reserved_generated_id i))"
  using assms
  by (auto simp: load_filter_def Let_def definition_of_def compile_filter_definition_def metadata_only_def compiled_def
      split: option.splits sum.splits if_splits)

text \<open>The result of a load does not depend on the manager's state, and the load leaves all but the
  events alone.\<close>

lemma load_filter_result:
  "map_option fst (load_filter toml compile fs path kind m) = map_option fst (load_filter toml compile fs path kind m0)"
proof (cases "fs_read_to_string fs path")
  case (Some source)
  show ?thesis
  proof (cases "parse_filter_source toml source")
    case parsed: (Some r)
    show ?thesis
    proof (cases r)
      case (Inr md)
      obtain metadata script where "md = (metadata, script)" by fastforce
      with Some parsed Inr show ?thesis
        by (cases "compile_filter_definition compile (definition_of kind path source metadata script) (filter_priority path metadata)")
          (simp_all add: load_filter_def Let_def)
    qed (use Some parsed in \<open>simp add: load_filter_def Let_def\<close>)
  qed (use Some in \<open>simp add: load_filter_def\<close>)
qed (simp add: load_filter_def)

lemma load_filter_frame:
  "load_filter toml compile fs path kind m = Some (result, m') \<Longrightarrow> m' = m\<lparr>fmg_events := fmg_events m'\<rparr>"
  by (auto simp: load_unfold send_manager_event_def split: option.splits sum.splits if_splits)

section \<open>Loading the set\<close>

abbreviation loads where
  "loads toml compile fs m path kind f \<equiv>
     \<exists>m'. load_filter toml compile fs path kind m = Some (Inr (Some f), m')"

definition loadable :: "fs_view \<Rightarrow> filter_manager \<Rightarrow> string \<Rightarrow> bool" where
  "loadable fs m path \<longleftrightarrow> \<not> is_quarantined_path m path \<and> is_roto_file fs path"

lemma loads_any: "loads toml compile fs m path kind f \<longleftrightarrow> loads toml compile fs m0 path kind f"
  using load_filter_result [of toml compile fs path kind m m0]
  by (cases "load_filter toml compile fs path kind m"; cases "load_filter toml compile fs path kind m0") auto

lemma load_entries_frame:
  "load_entries toml compile fs kind paths acc m = Some (acc', m') \<Longrightarrow> m' = m\<lparr>fmg_events := fmg_events m'\<rparr>"
proof (induction paths arbitrary: acc m)
  case (Cons path paths)
  obtain filters names where acc: "acc = (filters, names)" by fastforce
  show ?case
  proof (cases "is_quarantined_path m path \<or> \<not> is_roto_file fs path")
    case True
    with Cons acc show ?thesis by simp
  next
    case False
    with Cons.prems acc obtain result m1 where l: "load_filter toml compile fs path kind m = Some (result, m1)"
      and r: "load_entries toml compile fs kind paths
        (case result of Inr (Some f) \<Rightarrow> filters @ [f] | _ \<Rightarrow> filters, names @ [filter_file_name path]) m1 = Some (acc', m')"
      by (auto split: option.splits)
    have "m' = m1\<lparr>fmg_events := fmg_events m'\<rparr>" by (rule Cons.IH [OF r])
    moreover have "m1 = m\<lparr>fmg_events := fmg_events m1\<rparr>" by (rule load_filter_frame [OF l])
    ultimately show ?thesis by (cases m; cases m1; cases m') simp
  qed
qed auto

lemma loadable_events [simp]: "loadable fs (m\<lparr>fmg_events := evs\<rparr>) path = loadable fs m path"
  by (simp add: loadable_def is_quarantined_path_def)

lemma load_entries_set:
  "load_entries toml compile fs kind paths acc m = Some (acc', m') \<Longrightarrow>
   set (fst acc') = set (fst acc) \<union> {f. \<exists>path \<in> set paths. loadable fs m path \<and> loads toml compile fs m0 path kind f}"
proof (induction paths arbitrary: acc m)
  case (Cons path paths)
  obtain filters names where acc: "acc = (filters, names)" by fastforce
  show ?case
  proof (cases "loadable fs m path")
    case False
    with Cons acc show ?thesis by (auto simp: loadable_def)
  next
    case True
    with Cons.prems acc obtain result m1 where l: "load_filter toml compile fs path kind m = Some (result, m1)"
      and r: "load_entries toml compile fs kind paths
        (case result of Inr (Some f) \<Rightarrow> filters @ [f] | _ \<Rightarrow> filters, names @ [filter_file_name path]) m1 = Some (acc', m')"
      by (auto simp: loadable_def split: option.splits)
    have m1: "loadable fs m1 p = loadable fs m p" for p
      using load_filter_frame [OF l] loadable_events by metis
    have one: "loads toml compile fs m0 path kind f \<longleftrightarrow> result = Inr (Some f)" for f
      using l loads_any [where m = m and ?m0.0 = m0 and f = f and path = path and kind = kind and fs = fs and toml = toml and compile = compile] by auto
    have "set (fst acc') = set (case result of Inr (Some f) \<Rightarrow> filters @ [f] | _ \<Rightarrow> filters)
        \<union> {f. \<exists>path \<in> set paths. loadable fs m path \<and> loads toml compile fs m0 path kind f}"
      using Cons.IH [OF r] by (simp add: m1)
    moreover have "set (case result of Inr (Some f) \<Rightarrow> filters @ [f] | _ \<Rightarrow> filters)
        = set filters \<union> {f. result = Inr (Some f)}"
      by (auto split: sum.splits option.splits)
    ultimately show ?thesis using acc True one by auto
  qed
qed auto

definition dir_kind :: "filter_manager \<Rightarrow> string \<Rightarrow> filter_source_kind" where
  "dir_kind m dir = (if path_components dir = path_components (fmg_filters_dir m) then Persistent else Generated)"

lemma events_frame:
  assumes "m1 = m\<lparr>fmg_events := evs\<rparr>"
  shows "fmg_current m1 = fmg_current m" "loadable fs m1 q = loadable fs m q" "dir_kind m1 d = dir_kind m d"
  unfolding assms by (simp_all add: dir_kind_def)

lemma load_dirs_frame:
  "load_dirs toml compile fs dirs acc m = Some (result, m') \<Longrightarrow> m' = m\<lparr>fmg_events := fmg_events m'\<rparr>"
proof (induction dirs arbitrary: acc m)
  case (Cons dir dirs)
  show ?case
  proof (cases "fs_exists fs dir \<and> fs_read_dir fs dir \<noteq> None")
    case True
    then obtain paths acc1 m1 where e: "load_entries toml compile fs (dir_kind m dir) paths acc m = Some (acc1, m1)"
      and r: "load_dirs toml compile fs dirs acc1 m1 = Some (result, m')"
      using Cons.prems by (auto simp: dir_kind_def Let_def split: option.splits)
    have "m' = m1\<lparr>fmg_events := fmg_events m'\<rparr>" by (rule Cons.IH [OF r])
    moreover have "m1 = m\<lparr>fmg_events := fmg_events m1\<rparr>" by (rule load_entries_frame [OF e])
    ultimately show ?thesis by (cases m; cases m1; cases m') simp
  next
    case False
    with Cons show ?thesis by (auto split: if_splits)
  qed
qed auto

lemma load_dirs_set:
  "load_dirs toml compile fs dirs acc m = Some (Inr acc', m') \<Longrightarrow>
   set (fst acc') = set (fst acc) \<union> {f. \<exists>dir \<in> set dirs. \<exists>paths path. fs_exists fs dir \<and> fs_read_dir fs dir = Some paths
     \<and> path \<in> set paths \<and> loadable fs m path \<and> loads toml compile fs m0 path (dir_kind m dir) f}"
proof (induction dirs arbitrary: acc m)
  case (Cons dir dirs)
  show ?case
  proof (cases "fs_exists fs dir")
    case True
    then obtain paths acc1 m1 where p: "fs_read_dir fs dir = Some paths"
      and e: "load_entries toml compile fs (dir_kind m dir) paths acc m = Some (acc1, m1)"
      and r: "load_dirs toml compile fs dirs acc1 m1 = Some (Inr acc', m')"
      using Cons.prems by (auto simp: dir_kind_def Let_def split: option.splits)
    have fr: "m1 = m\<lparr>fmg_events := fmg_events m1\<rparr>" by (rule load_entries_frame [OF e])
    note m1 = events_frame(2,3) [OF fr]
    show ?thesis
      unfolding Cons.IH [OF r, unfolded m1] load_entries_set [OF e, of m0] using True p by auto
  next
    case False
    with Cons.IH [of acc m] Cons.prems show ?thesis by auto
  qed
qed auto

lemma load_dirs_readable:
  "load_dirs toml compile fs dirs acc m = Some (Inr acc', m') \<Longrightarrow> dir \<in> set dirs \<Longrightarrow> fs_exists fs dir
   \<Longrightarrow> \<exists>paths. fs_read_dir fs dir = Some paths"
  by (induction dirs arbitrary: acc m) (auto simp: Let_def split: if_splits option.splits)

lemma reload_failed: "reload toml compile fs m = Some (Inl err, m') \<Longrightarrow> fmg_current m' = fmg_current m"
  using events_frame(1) [OF load_dirs_frame]
  by (auto simp: reload_def load_filter_set_def split: if_splits option.splits sum.splits)

lemma reload_loaded:
  assumes "reload toml compile fs m = Some (Inr u, m')"
  obtains filters names m1 where
    "load_dirs toml compile fs (fmg_filter_dirs m) ([], []) m = Some (Inr (filters, names), m1)"
    "fmg_current m' = new_filter_set filters" "fs_create_dir_all fs (fmg_quarantine_dir m)"
  using assms
  by (auto simp: reload_def load_filter_set_def prune_filter_statuses_def split: if_splits option.splits sum.splits)

lemma reload_filters:
  assumes "reload toml compile fs m = Some (Inr u, m')"
  shows "set (fmg_current m') = {f. \<exists>dir \<in> set (fmg_filter_dirs m). \<exists>paths path. fs_exists fs dir
      \<and> fs_read_dir fs dir = Some paths \<and> path \<in> set paths \<and> loadable fs m path
      \<and> loads toml compile fs m path (dir_kind m dir) f}"
    and "sorted (map filter_order (fmg_current m'))"
proof -
  obtain filters names m1 where d: "load_dirs toml compile fs (fmg_filter_dirs m) ([], []) m = Some (Inr (filters, names), m1)"
    and cur: "fmg_current m' = new_filter_set filters"
    using assms by (rule reload_loaded)
  show "set (fmg_current m') = {f. \<exists>dir \<in> set (fmg_filter_dirs m). \<exists>paths path. fs_exists fs dir
      \<and> fs_read_dir fs dir = Some paths \<and> path \<in> set paths \<and> loadable fs m path
      \<and> loads toml compile fs m path (dir_kind m dir) f}"
    using load_dirs_set [OF d, of m] by (simp add: cur new_filter_set_def)
  show "sorted (map filter_order (fmg_current m'))" by (simp add: cur new_filter_set_def)
qed

text \<open>C13: After a successful reload the current filters are exactly those that load from the filter files of
  the existing filter directories, outside the quarantine, in the order of priority and path. Each
  is enabled, and none from the user's directory carries an id reserved for generated filters. A
  file that fails to load keeps none of the others out, and a reload that fails as a whole keeps
  the previous filters.\<close>

theorem reload_loads_exactly:
  assumes "reload toml compile fs m = Some (result, m')"
  shows "case result of
      Inl err \<Rightarrow> fmg_current m' = fmg_current m
    | Inr _ \<Rightarrow>
        set (fmg_current m') = {f. \<exists>dir \<in> set (fmg_filter_dirs m). \<exists>paths path. fs_exists fs dir
          \<and> fs_read_dir fs dir = Some paths \<and> path \<in> set paths \<and> loadable fs m path
          \<and> loads toml compile fs m path (dir_kind m dir) f}
        \<and> sorted (map filter_order (fmg_current m'))
        \<and> (\<forall>f \<in> set (fmg_current m'). fm_enabled (fd_metadata (cf_definition f)))"
proof (cases result)
  case (Inl err)
  with assms reload_failed show ?thesis by auto
next
  case (Inr u)
  note filters = reload_filters [OF assms [unfolded Inr]]
  moreover have "\<forall>f \<in> set (fmg_current m'). fm_enabled (fd_metadata (cf_definition f))"
    unfolding filters(1) using load_filter_Some by blast
  ultimately show ?thesis using Inr by simp
qed

section \<open>Front matter\<close>

definition toml_line :: "string \<Rightarrow> bool" where
  "toml_line l \<longleftrightarrow> plain_line l \<and> ws_head l = 0 \<and> trim l \<noteq> ''+++'' \<and> validate_front_matter_line l"

text \<open>A filter file with the given front matter and script.\<close>

definition front_matter_source :: "string list \<Rightarrow> string list \<Rightarrow> string" where
  "front_matter_source toml_lines script_lines =
     unlines (''//! +++'' # map (\<lambda>l. ''//! '' @ l) toml_lines @ ''//! +++'' # script_lines)"

lemma ws_head_slash [simp]: "ws_head (CHR ''/'' # s) = 0"
  by (auto simp: ws_head_def is_ascii_ws_def ws2_def ws3_def split: list.split)

lemma trim_start_none: "ws_head s = 0 \<Longrightarrow> trim_start s = s"
  by (simp add: trim_start.simps)

lemma trim_start_space: "trim_start (CHR '' '' # s) = trim_start s"
  by (subst trim_start.simps) (simp add: ws_head_def is_ascii_ws_def)

lemma normalized_comment: "ws_head l = 0 \<Longrightarrow> normalized_comment_line (''//! '' @ l) = Some l"
  by (simp add: normalized_comment_line_def Let_def trim_start_none trim_start_space)

lemma normalized_delimiter: "normalized_comment_line ''//! +++'' = Some ''+++''"
  using normalized_comment [of "''+++''"] by (simp add: ws_head_def is_ascii_ws_def ws2_def ws3_def)

lemma loop_script: "front_matter_loop False t s ls = Inr (True, t, s @ unlines ls)"
  by (induction ls arbitrary: s) (simp_all add: unlines_def)

lemma loop_toml:
  "list_all toml_line ls \<Longrightarrow> front_matter_loop True t s (map (\<lambda>l. ''//! '' @ l) ls @ rest)
     = front_matter_loop True (t @ unlines ls) s rest"
proof (induction ls arbitrary: t)
  case (Cons l ls)
  then have "normalized_comment_line (''//! '' @ l) = Some l" "trim l \<noteq> ''+++''" "validate_front_matter_line l"
    using normalized_comment [of l] by (simp_all add: toml_line_def)
  with Cons show ?case by (simp add: unlines_def)
qed (simp add: unlines_def)

lemma plain_toml_line: "toml_line l \<Longrightarrow> plain_line (''//! '' @ l)"
  by (auto simp: toml_line_def plain_line_def ends_with_iff append_eq_append_conv2 Cons_eq_append_conv)



definition crlf_source :: string where
  "crlf_source = [CHR 0x0D, CHR 0x0A] @ ''//! +++'' @ [CHR 0x0D, CHR 0x0A] @ ''//! enabled = false'' @ [CHR 0x0D, CHR 0x0A]
     @ ''//! +++'' @ [CHR 0x0D, CHR 0x0A] @ ''fn ping() {}'' @ [CHR 0x0D, CHR 0x0A]"

text \<open>The start of the front matter is miscounted when blank lines that end with carriage return and
  line feed precede it: the opening delimiter is then taken for the closing one, the front matter
  is read as empty and becomes part of the script, so a filter that says it is disabled is
  enabled; and with a wide blank line the count can end inside a character, where slicing panics.\<close>

theorem crlf_front_matter_lost:
  "(toml '''' = Some default_metadata \<longrightarrow>
      (\<exists>script. parse_filter_source toml crlf_source = Some (Inr (default_metadata, script))
         \<and> fm_enabled default_metadata \<and> contains_sub script ''enabled = false''))
   \<and> parse_filter_source toml ([CHR 0x0D, CHR 0x0A, CHR 0x0D, CHR 0x0A, CHR 0xE3, CHR 0x80, CHR 0x80, CHR 0x0D, CHR 0x0A] @ ''//! +++'') = None"
proof (intro conjI impI)
  let ?script = "unlines [''//! enabled = false'', ''//! +++'', ''fn ping() {}'']"
  have "dropWhile (\<lambda>line. trim line = []) (str_lines crlf_source) =
      [''//! +++'', ''//! enabled = false'', ''//! +++'', ''fn ping() {}'']" by code_simp
  moreover have "front_matter_start (str_lines crlf_source) = 1" "is_char_boundary crlf_source 1" by code_simp+
  moreover have "front_matter_loop True [] [] (drop 1 (str_lines (drop 1 crlf_source))) = Inr (True, [], ?script)" by code_simp
  ultimately have "parse_filter_source toml crlf_source = Some (Inr (default_metadata, ?script))"
    if "toml '''' = Some default_metadata"
    using that by (simp add: parse_filter_source_def normalized_delimiter Let_def)
  moreover have "fm_enabled default_metadata" "contains_sub ?script ''enabled = false''" by code_simp+
  ultimately show "\<exists>script. parse_filter_source toml crlf_source = Some (Inr (default_metadata, script))
      \<and> fm_enabled default_metadata \<and> contains_sub script ''enabled = false''" if "toml '''' = Some default_metadata"
    using that by blast
next
  let ?s = "[CHR 0x0D, CHR 0x0A, CHR 0x0D, CHR 0x0A, CHR 0xE3, CHR 0x80, CHR 0x80, CHR 0x0D, CHR 0x0A] @ ''//! +++''"
  have "dropWhile (\<lambda>line. trim line = []) (str_lines ?s) = [''//! +++'']" by code_simp
  moreover have "front_matter_start (str_lines ?s) = 6" "\<not> is_char_boundary ?s 6" by code_simp+
  ultimately show "parse_filter_source toml ?s = None"
    by (simp add: parse_filter_source_def normalized_delimiter Let_def)
qed

theorem crlf_front_matter_lost_witness:
  "\<exists>script. parse_filter_source (\<lambda>t. if t = [] then Some default_metadata else None) crlf_source = Some (Inr (default_metadata, script))
     \<and> fm_enabled default_metadata \<and> contains_sub script ''enabled = false''"
  using crlf_front_matter_lost [of "\<lambda>t. if t = [] then Some default_metadata else None"] by simp

section \<open>Examples\<close>

definition one_file_fs :: fs_view where
  "one_file_fs = \<lparr>fs_cwd = ''/w'', fs_exists = (\<lambda>p. p = ''/w/f''), fs_is_file = (\<lambda>p. p = ''/w/f/010-a.roto''),
     fs_read_dir = (\<lambda>p. if p = ''/w/f'' then Some [''/w/f/010-a.roto''] else None),
     fs_read_to_string = (\<lambda>p. if p = ''/w/f/010-a.roto'' then Some ''// note'' else None),
     fs_create_dir_all = (\<lambda>_. True)\<rparr>"

definition no_compiler :: "string \<Rightarrow> string + roto_package" where
  "no_compiler = (\<lambda>_. Inl ''no compiler'')"

definition no_toml :: "string \<Rightarrow> filter_metadata option" where
  "no_toml = (\<lambda>_. None)"

theorem load_filter_reports_witness:
  "\<exists>st m'. load_filter no_toml no_compiler one_file_fs ''/w/f/010-a.roto'' Persistent
       (with_event_sender (new_manager one_file_fs ''f'')) = Some (Inr (Some (metadata_only
         (definition_of Persistent ''/w/f/010-a.roto'' ''// note'' default_metadata ''// note'') 10)), m')
     \<and> fmg_events m' = [FilterStatus st] \<and> fst_valid st"
proof -
  let ?m = "with_event_sender (new_manager one_file_fs ''f'')"
  let ?f = "metadata_only (definition_of Persistent ''/w/f/010-a.roto'' ''// note'' default_metadata ''// note'') 10"
  have p: "parse_filter_source no_toml ''// note'' = Some (Inr (default_metadata, ''// note''))" by code_simp
  have e: "\<not> has_executable_roto_script ''// note''" by code_simp
  have n: "filter_priority ''/w/f/010-a.roto'' default_metadata = 10"
    by (simp add: filter_priority_def default_metadata_def priority_from_file_name_def path_file_name_def path_components_def
        from_utf8_def utf8_valid.simps utf8_head_def utf8_width_def Let_def parse_uint_def digits_value_def is_ascii_digit_def i32_max_def)
  obtain m' where l: "load_filter no_toml no_compiler one_file_fs ''/w/f/010-a.roto'' Persistent ?m = Some (Inr (Some ?f), m')"
    using p e n
    by (simp add: load_filter_def one_file_fs_def Let_def compile_filter_definition_def definition_of_def default_metadata_def)
  have "fmg_has_sender ?m" "fmg_events ?m = []" by (simp_all add: with_event_sender_def new_manager_def Let_def)
  with load_filter_reports [OF l] l show ?thesis by auto
qed

theorem reload_loads_exactly_witness:
  "\<exists>m'. reload no_toml no_compiler one_file_fs (new_manager one_file_fs ''f'') = Some (Inr (), m')
     \<and> sorted (map filter_order (fmg_current m')) \<and> length (fmg_current m') = 1"
proof -
  let ?m = "new_manager one_file_fs ''f''"
  have p: "parse_filter_source no_toml ''// note'' = Some (Inr (default_metadata, ''// note''))" by code_simp
  have e: "\<not> has_executable_roto_script ''// note''" by code_simp
  have q: "\<not> is_quarantined_path ?m ''/w/f/010-a.roto''" "is_roto_file one_file_fs ''/w/f/010-a.roto''" by code_simp+
  have m: "fmg_filter_dirs ?m = [''/w/f'']" "fmg_has_sender ?m = False" by code_simp+
  have "\<exists>f m'. load_filter no_toml no_compiler one_file_fs ''/w/f/010-a.roto'' kind ?m = Some (Inr (Some f), m')" for kind
    using p e
    by (simp add: load_filter_def one_file_fs_def Let_def compile_filter_definition_def definition_of_def default_metadata_def)
  then obtain f m1 where l: "load_filter no_toml no_compiler one_file_fs ''/w/f/010-a.roto'' (dir_kind ?m ''/w/f'') ?m = Some (Inr (Some f), m1)"
    by blast
  then obtain m' where r: "reload no_toml no_compiler one_file_fs ?m = Some (Inr (), m')" and "fmg_current m' = new_filter_set [f]"
    using q m by (simp add: reload_def load_filter_set_def one_file_fs_def dir_kind_def Let_def)
  with reload_loads_exactly [OF r] show ?thesis by (simp add: new_filter_set_def)
qed

end
