(* ===== verification/CompactJson.thy ===== *)
theory CompactJson
  imports JsonPatch "HOL-Library.AList"
begin

text \<open>
  A small JSON printer and reader and a patch applier over the concrete values. They show that the
  laws assumed of \<open>serde_json\<close> and \<open>json_patch\<close> can hold together, and examples are evaluated with them.
\<close>

section \<open>Printing and reading\<close>

definition number_char :: "char \<Rightarrow> bool" where
  "number_char c \<longleftrightarrow> is_ascii_digit c \<or> c = CHR ''-'' \<or> c = CHR ''.''"

definition number_text :: "string \<Rightarrow> bool" where
  "number_text t \<longleftrightarrow> t \<noteq> [] \<and> list_all number_char t"

definition quoted :: "string \<Rightarrow> string" where
  "quoted s = CHR 0x22 # concat (map (\<lambda>c. if c = CHR 0x22 \<or> c = CHR 0x5C then [CHR 0x5C, c] else [c]) s) @ [CHR 0x22]"

fun read_quoted :: "string \<Rightarrow> (string \<times> string) option" where
  "read_quoted [] = None"
| "read_quoted (c # r) =
     (if c = CHR 0x22 then Some ([], r)
      else if c = CHR 0x5C then
        (case r of d # r' \<Rightarrow> map_option (\<lambda>(s, t). (d # s, t)) (read_quoted r') | [] \<Rightarrow> None)
      else map_option (\<lambda>(s, t). (c # s, t)) (read_quoted r))"

fun cj_print :: "json \<Rightarrow> string" where
  "cj_print JNull = ''null''"
| "cj_print (JBool b) = (if b then ''true'' else ''false'')"
| "cj_print (JNumber t) = t"
| "cj_print (JString s) = quoted s"
| "cj_print (JArray xs) = ''['' @ concat (map (\<lambda>x. cj_print x @ '','') xs) @ '']''"
| "cj_print (JObject ms) =
     CHR 0x7B # concat (map (\<lambda>(k, v). quoted k @ '':'' @ cj_print v @ '','') ms) @ [CHR 0x7D]"

fun cj_read :: "nat \<Rightarrow> string \<Rightarrow> (json \<times> string) option"
  and cj_items :: "nat \<Rightarrow> string \<Rightarrow> (json list \<times> string) option"
  and cj_members :: "nat \<Rightarrow> string \<Rightarrow> ((string \<times> json) list \<times> string) option" where
  "cj_read 0 s = None"
| "cj_read (Suc n) s =
     (if starts_with s ''null'' then Some (JNull, drop 4 s)
      else if starts_with s ''true'' then Some (JBool True, drop 4 s)
      else if starts_with s ''false'' then Some (JBool False, drop 5 s)
      else (case s of
          [] \<Rightarrow> None
        | c # r \<Rightarrow>
            if c = CHR 0x22 then map_option (\<lambda>(q, t). (JString q, t)) (read_quoted r)
            else if c = CHR ''['' then map_option (\<lambda>(xs, t). (JArray xs, t)) (cj_items n r)
            else if c = CHR 0x7B then map_option (\<lambda>(ms, t). (JObject ms, t)) (cj_members n r)
            else if number_char c then Some (JNumber (takeWhile number_char s), dropWhile number_char s)
            else None))"
| "cj_items 0 s = None"
| "cj_items (Suc n) s =
     (if starts_with s '']'' then Some ([], drop 1 s)
      else Option.bind (cj_read n s) (\<lambda>(x, t).
        if starts_with t '','' then map_option (\<lambda>(xs, u). (x # xs, u)) (cj_items n (drop 1 t)) else None))"
| "cj_members 0 s = None"
| "cj_members (Suc n) s =
     (if starts_with s [CHR 0x7D] then Some ([], drop 1 s)
      else if starts_with s [CHR 0x22] then Option.bind (read_quoted (drop 1 s)) (\<lambda>(k, t).
        if starts_with t '':'' then Option.bind (cj_read n (drop 1 t)) (\<lambda>(v, u).
          if starts_with u '','' then map_option (\<lambda>(ms, w). ((k, v) # ms, w)) (cj_members n (drop 1 u)) else None)
        else None)
      else None)"

definition cj_parse :: "string \<Rightarrow> json option" where
  "cj_parse s = (case cj_read (length s) s of
     Some (v, r) \<Rightarrow> if r = [] \<and> json_wf v then Some v else None
   | None \<Rightarrow> None)"

definition compact_json :: json_lib where
  "compact_json = \<lparr>js_to_string = cj_print, js_write = (\<lambda>v. Some (cj_print v)),
     js_to_vec = (\<lambda>v. Some (cj_print v)), js_to_pretty = (\<lambda>v. Some (cj_print v)),
     js_from_str = cj_parse, js_from_slice = cj_parse\<rparr>"

lemma read_quoted_quoted [simp]: "read_quoted (tl (quoted s) @ r) = Some (s, r)"
  by (induction s) (simp_all add: quoted_def)

lemma quoted_append [simp]: "quoted s @ r = CHR 0x22 # (tl (quoted s) @ r)"
  by (simp add: quoted_def)

definition stops :: "string \<Rightarrow> bool" where
  "stops r \<longleftrightarrow> r = [] \<or> \<not> number_char (hd r)"

lemma number_text_same: "number_text (same_number t) \<longleftrightarrow> number_text t"
  by (auto simp: same_number_def number_text_def number_char_def is_ascii_digit_def split: if_splits)

lemma starts_with_head: "starts_with s (p # ps) \<Longrightarrow> s \<noteq> [] \<and> hd s = p"
  by (auto simp: starts_with_iff)

lemma read_number:
  assumes "number_text t" "stops r"
  shows "cj_read (Suc n) (t @ r) = Some (JNumber t, r)"
proof -
  obtain c u where t: "t = c # u" "number_char c" "list_all number_char u"
    using assms(1) by (cases t) (auto simp: number_text_def)
  have "takeWhile number_char (u @ r) = u" "dropWhile number_char (u @ r) = r"
    using t(3) assms(2) by (auto simp: stops_def list_all_iff takeWhile_append dropWhile_append takeWhile_eq_Nil_iff
        dropWhile_eq_self_iff)
  moreover have "c \<noteq> CHR ''n'' \<and> c \<noteq> CHR ''t'' \<and> c \<noteq> CHR ''f'' \<and> c \<noteq> CHR 0x22 \<and> c \<noteq> CHR ''['' \<and> c \<noteq> CHR 0x7B"
    using t(2) by (auto simp: number_char_def is_ascii_digit_def)
  ultimately show ?thesis using t(2) by (simp add: t(1))
qed

lemma print_head:
  assumes "json_all number_text v"
  shows "cj_print v \<noteq> [] \<and> hd (cj_print v) \<noteq> CHR '']''"
proof (cases v)
  case (JNumber t)
  then have "number_text t" using assms by (simp add: number_text_same)
  with JNumber show ?thesis by (cases t) (auto simp: number_text_def number_char_def is_ascii_digit_def)
qed (use assms in \<open>auto simp: quoted_def\<close>)

lemma items_read:
  assumes "\<And>x n r. x \<in> set xs \<Longrightarrow> length (cj_print x) \<le> n \<Longrightarrow> stops r \<Longrightarrow> cj_read n (cj_print x @ r) = Some (x, r)"
    and "\<forall>x \<in> set xs. json_all number_text x"
    and "length (concat (map (\<lambda>x. cj_print x @ '','') xs)) < n"
  shows "cj_items n (concat (map (\<lambda>x. cj_print x @ '','') xs) @ '']'' @ r) = Some (xs, r)"
  using assms
proof (induction xs arbitrary: n)
  case Nil
  then show ?case by (cases n) simp_all
next
  case (Cons x xs)
  then obtain m where m: "n = Suc m" by (cases n) auto
  let ?t = "concat (map (\<lambda>x. cj_print x @ '','') xs) @ '']'' @ r"
  have "cj_read m (cj_print x @ CHR '','' # ?t) = Some (x, CHR '','' # ?t)"
    using Cons.prems m by (intro Cons.prems(1)) (auto simp: stops_def number_char_def is_ascii_digit_def)
  moreover have "cj_items m ?t = Some (xs, r)"
    using Cons.prems m by (intro Cons.IH) auto
  moreover have "\<not> starts_with (cj_print x @ CHR '','' # ?t) '']''"
    using print_head [of x] Cons.prems(2) by (auto dest: starts_with_head)
  ultimately show ?case by (simp add: m)
qed

lemma members_read:
  assumes "\<And>k v n r. (k, v) \<in> set ms \<Longrightarrow> length (cj_print v) \<le> n \<Longrightarrow> stops r \<Longrightarrow> cj_read n (cj_print v @ r) = Some (v, r)"
    and "length (concat (map (\<lambda>(k, v). quoted k @ '':'' @ cj_print v @ '','') ms)) < n"
  shows "cj_members n (concat (map (\<lambda>(k, v). quoted k @ '':'' @ cj_print v @ '','') ms) @ CHR 0x7D # r) = Some (ms, r)"
  using assms
proof (induction ms arbitrary: n)
  case Nil
  then show ?case by (cases n) simp_all
next
  case (Cons p ms)
  obtain k v where p: "p = (k, v)" by fastforce
  from Cons obtain m where m: "n = Suc m" by (cases n) auto
  let ?t = "concat (map (\<lambda>(k, v). quoted k @ '':'' @ cj_print v @ '','') ms) @ CHR 0x7D # r"
  have "cj_read m (cj_print v @ CHR '','' # ?t) = Some (v, CHR '','' # ?t)"
    using Cons.prems m p by (intro Cons.prems(1)) (auto simp: stops_def number_char_def is_ascii_digit_def)
  moreover have "cj_members m ?t = Some (ms, r)"
    using Cons.prems m p by (intro Cons.IH) auto
  ultimately show ?case by (simp add: m p)
qed

lemma read_print:
  "json_all number_text v \<Longrightarrow> length (cj_print v) \<le> n \<Longrightarrow> stops r \<Longrightarrow> cj_read n (cj_print v @ r) = Some (v, r)"
proof (induction v arbitrary: n r rule: cj_print.induct)
  case (3 t)
  then have "number_text t" by (simp add: number_text_same)
  with 3 show ?case by (cases n) (auto simp: read_number number_text_def simp del: cj_read.simps(2))
next
  case (4 s)
  then obtain m where "n = Suc m" by (cases n) (auto simp: quoted_def)
  then show ?case by simp
next
  case (5 xs)
  then obtain m where "n = Suc m" by (cases n) auto
  moreover from 5 this have "cj_items m (concat (map (\<lambda>x. cj_print x @ '','') xs) @ '']'' @ r) = Some (xs, r)"
    by (intro items_read) auto
  ultimately show ?case by simp
next
  case (6 ms)
  then obtain m where "n = Suc m" by (cases n) auto
  moreover from 6 this have "cj_members m (concat (map (\<lambda>(k, v). quoted k @ '':'' @ cj_print v @ '','') ms) @ CHR 0x7D # r) = Some (ms, r)"
    by (intro members_read) auto
  ultimately show ?case by simp
next
  case 1
  then show ?case by (cases n) simp_all
next
  case (2 b)
  then show ?case by (cases n) (auto split: if_splits)
qed

lemma parse_print: "json_wf v \<Longrightarrow> json_all number_text v \<Longrightarrow> cj_parse (cj_print v) = Some v"
  using read_print [of v "length (cj_print v)" "[]"] by (simp add: cj_parse_def stops_def)

lemma compact_json_laws: "json_laws compact_json number_text"
proof -
  have "json_wf v" if "cj_parse s = Some v" for s v
    using that by (auto simp: cj_parse_def split: option.splits if_splits)
  then show ?thesis by (auto simp: json_laws_def compact_json_def parse_print json_eq_doc)
qed

section \<open>Applying patches to values\<close>

fun cj_child :: "json \<Rightarrow> string \<Rightarrow> json option" where
  "cj_child (JObject ms) t = map_of ms t"
| "cj_child (JArray xs) t =
     (case token_index t of Some i \<Rightarrow> if i < length xs then Some (xs ! i) else None | None \<Rightarrow> None)"
| "cj_child _ t = None"

fun cj_set :: "json \<Rightarrow> string \<Rightarrow> json \<Rightarrow> json" where
  "cj_set (JObject ms) t v = JObject (AList.update t v ms)"
| "cj_set (JArray xs) t v = (case token_index t of Some i \<Rightarrow> JArray (xs[i := v]) | None \<Rightarrow> JArray xs)"
| "cj_set d t v = d"

fun cj_add :: "json \<Rightarrow> string \<Rightarrow> json \<Rightarrow> json option" where
  "cj_add (JObject ms) t v = Some (JObject (AList.update t v ms))"
| "cj_add (JArray xs) t v =
     (if t = ''-'' then Some (JArray (xs @ [v]))
      else (case token_index t of
          Some i \<Rightarrow> if i \<le> length xs then Some (JArray (take i xs @ v # drop i xs)) else None
        | None \<Rightarrow> None))"
| "cj_add _ t v = None"

fun cj_remove :: "json \<Rightarrow> string \<Rightarrow> json option" where
  "cj_remove (JObject ms) t = (if map_of ms t = None then None else Some (JObject (AList.delete t ms)))"
| "cj_remove (JArray xs) t =
     (case token_index t of
        Some i \<Rightarrow> if i < length xs then Some (JArray (take i xs @ drop (Suc i) xs)) else None
      | None \<Rightarrow> None)"
| "cj_remove _ t = None"

fun cj_update :: "(json \<Rightarrow> json option) \<Rightarrow> json \<Rightarrow> string list \<Rightarrow> json option" where
  "cj_update f d [] = f d"
| "cj_update f d (t # ts) = Option.bind (cj_child d t) (\<lambda>c. map_option (cj_set d t) (cj_update f c ts))"

fun cj_get :: "json \<Rightarrow> string list \<Rightarrow> json option" where
  "cj_get d [] = Some d"
| "cj_get d (t # ts) = Option.bind (cj_child d t) (\<lambda>c. cj_get c ts)"

datatype cj_op =
    CAdd "string list" json
  | CRemove "string list"
  | CReplace "string list" json
  | CMove "string list" "string list"

definition cj_add_at :: "string list \<Rightarrow> json \<Rightarrow> json \<Rightarrow> json option" where
  "cj_add_at p v d = (if p = [] then Some v else cj_update (\<lambda>c. cj_add c (last p) v) d (butlast p))"

definition cj_remove_at :: "string list \<Rightarrow> json \<Rightarrow> json option" where
  "cj_remove_at p d = (if p = [] then None else cj_update (\<lambda>c. cj_remove c (last p)) d (butlast p))"

fun cj_apply :: "cj_op \<Rightarrow> json \<Rightarrow> json option" where
  "cj_apply (CAdd p v) d = cj_add_at p v d"
| "cj_apply (CRemove p) d = cj_remove_at p d"
| "cj_apply (CReplace p v) d = cj_update (\<lambda>_. Some v) d p"
| "cj_apply (CMove from p) d = Option.bind (cj_get d from) (\<lambda>v. Option.bind (cj_remove_at from d) (cj_add_at p v))"

fun cj_patch :: "cj_op list \<Rightarrow> json \<Rightarrow> json option" where
  "cj_patch [] d = Some d"
| "cj_patch (op # ops) d = Option.bind (cj_apply op d) (cj_patch ops)"

definition cj_pointer :: "json \<Rightarrow> string \<Rightarrow> string list option" where
  "cj_pointer v k = Option.bind (get_str v k) pointer_tokens"

definition cj_op_of :: "json \<Rightarrow> cj_op option" where
  "cj_op_of v = Option.bind (cj_pointer v ''path'') (\<lambda>p.
     if get_str v ''op'' = Some ''add'' then map_option (CAdd p) (json_get v ''value'')
     else if get_str v ''op'' = Some ''remove'' then (if p = [] then None else Some (CRemove p))
     else if get_str v ''op'' = Some ''replace'' then map_option (CReplace p) (json_get v ''value'')
     else if get_str v ''op'' = Some ''move'' then Option.bind (cj_pointer v ''from'') (\<lambda>from.
       if from = [] \<or> take (length from) p = from then None else Some (CMove from p))
     else None)"

fun cj_ops_of :: "json \<Rightarrow> cj_op list option" where
  "cj_ops_of (JArray vs) = those (map cj_op_of vs)"
| "cj_ops_of _ = None"

definition compact_patch :: "cj_op list json_patch_lib" where
  "compact_patch = \<lparr>jp_diff = (\<lambda>_ b. [CReplace [] b]), jp_from_str = (\<lambda>s. Option.bind (cj_parse s) cj_ops_of),
     jp_write = (\<lambda>_. None), jp_to_pretty = (\<lambda>_. None), jp_patch = (\<lambda>d p. cj_patch p d), jp_merge = (\<lambda>_ b. b)\<rparr>"

text \<open>The value-level operations refine the document-level ones and keep values well formed.\<close>

fun op_doc :: "cj_op \<Rightarrow> patch_op" where
  "op_doc (CAdd p v) = OpAdd p (doc v)"
| "op_doc (CRemove p) = OpRemove p"
| "op_doc (CReplace p v) = OpReplace p (doc v)"
| "op_doc (CMove from p) = OpMove from p"

fun op_wf :: "cj_op \<Rightarrow> bool" where
  "op_wf (CAdd p v) = json_wf v"
| "op_wf (CReplace p v) = json_wf v"
| "op_wf _ = True"

lemma cj_child_doc: "map_option doc (cj_child d t) = doc_child (doc d) t"
  by (cases d) (auto simp: doc_object split: option.split)

lemma cj_set_doc: "doc (cj_set d t v) = set_child (doc d) t (doc v)"
  by (cases d) (auto simp: doc_object update_conv' map_update fun_eq_iff split: option.split)

lemma cj_add_doc: "map_option doc (cj_add d t v) = add_child (doc d) t (doc v)"
  by (cases d) (auto simp: doc_object update_conv' fun_eq_iff take_map drop_map split: option.split)

lemma cj_remove_doc: "map_option doc (cj_remove d t) = remove_child (doc d) t"
  by (cases d) (auto simp: doc_object delete_conv' fun_eq_iff take_map drop_map split: option.split)

lemma cj_child_wf: "json_wf d \<Longrightarrow> cj_child d t = Some c \<Longrightarrow> json_wf c"
  by (cases d) (auto dest: map_of_SomeD split: option.splits if_splits)

lemma json_wf_object:
  "json_wf (JObject ms) \<longleftrightarrow> distinct (map fst ms) \<and> (\<forall>k v. map_of ms k = Some v \<longrightarrow> json_wf v)"
  by auto

lemma cj_set_wf: "json_wf d \<Longrightarrow> json_wf v \<Longrightarrow> json_wf (cj_set d t v)"
  by (cases d)
    (auto simp: json_wf_object update_conv' distinct_update simp del: json_wf.simps(2) map_of_eq_Some_iff
      split: option.split if_splits dest: set_update_subset_insert [THEN subsetD])

lemma cj_add_wf: "json_wf d \<Longrightarrow> json_wf v \<Longrightarrow> cj_add d t v = Some c \<Longrightarrow> json_wf c"
  by (cases d)
    (auto simp: json_wf_object update_conv' distinct_update simp del: json_wf.simps(2) map_of_eq_Some_iff
      split: option.splits if_splits dest!: in_set_takeD in_set_dropD)

lemma cj_remove_wf: "json_wf d \<Longrightarrow> cj_remove d t = Some c \<Longrightarrow> json_wf c"
  by (cases d)
    (auto simp: json_wf_object delete_conv' distinct_delete simp del: json_wf.simps(2) map_of_eq_Some_iff
      split: option.splits if_splits dest!: in_set_takeD in_set_dropD)

lemma cj_update_doc:
  assumes "\<And>c. map_option doc (f c) = g (doc c)"
  shows "map_option doc (cj_update f d p) = doc_update g (doc d) p"
proof (induction p arbitrary: d)
  case (Cons t ts)
  then show ?case
    by (cases "cj_child d t")
      (simp_all add: cj_child_doc [symmetric] option.map_comp comp_def cj_set_doc flip: Cons.IH)
qed (simp add: assms)

lemma cj_update_wf:
  assumes "\<And>c c'. json_wf c \<Longrightarrow> f c = Some c' \<Longrightarrow> json_wf c'"
  shows "json_wf d \<Longrightarrow> cj_update f d p = Some d' \<Longrightarrow> json_wf d'"
proof (induction p arbitrary: d d')
  case (Cons t ts)
  then show ?case by (auto simp: bind_eq_Some_conv intro: cj_set_wf cj_child_wf)
qed (simp add: assms)

lemma cj_get_doc: "map_option doc (cj_get d p) = doc_get (doc d) p"
proof (induction p arbitrary: d)
  case (Cons t ts)
  then show ?case by (cases "cj_child d t") (simp_all add: cj_child_doc [symmetric])
qed simp

lemma cj_get_wf: "json_wf d \<Longrightarrow> cj_get d p = Some c \<Longrightarrow> json_wf c"
  by (induction p arbitrary: d) (auto simp: bind_eq_Some_conv dest: cj_child_wf)

lemma cj_at_doc:
  "map_option doc (cj_add_at p v d) = doc_add p (doc v) (doc d)"
  "map_option doc (cj_remove_at p d) = doc_remove p (doc d)"
  unfolding cj_add_at_def doc_add_def cj_remove_at_def doc_remove_def
  by (simp_all add: cj_update_doc cj_add_doc cj_remove_doc)

lemma cj_add_at_wf:
  assumes "json_wf d" "json_wf v" "cj_add_at p v d = Some d'"
  shows "json_wf d'"
proof (cases "p = []")
  case False
  then have "cj_update (\<lambda>c. cj_add c (last p) v) d (butlast p) = Some d'"
    using assms(3) by (simp add: cj_add_at_def)
  with assms(1) show ?thesis by (rule cj_update_wf [rotated]) (rule cj_add_wf [OF _ assms(2)])
qed (use assms in \<open>simp add: cj_add_at_def\<close>)

lemma cj_remove_at_wf:
  assumes "json_wf d" "cj_remove_at p d = Some d'"
  shows "json_wf d'"
proof (cases "p = []")
  case False
  then have "cj_update (\<lambda>c. cj_remove c (last p)) d (butlast p) = Some d'"
    using assms(2) by (simp add: cj_remove_at_def)
  with assms(1) show ?thesis by (rule cj_update_wf [rotated]) (rule cj_remove_wf)
qed (use assms in \<open>simp add: cj_remove_at_def\<close>)

lemma cj_apply_doc: "map_option doc (cj_apply op d) = doc_apply (op_doc op) (doc d)"
proof (cases op)
  case (CMove src p)
  show ?thesis
    by (cases "cj_get d src"; cases "cj_remove_at src d")
      (simp_all add: CMove cj_get_doc [symmetric] cj_at_doc [symmetric])
qed (simp_all add: cj_at_doc cj_update_doc)

lemma cj_apply_wf: "json_wf d \<Longrightarrow> op_wf op \<Longrightarrow> cj_apply op d = Some d' \<Longrightarrow> json_wf d'"
proof (cases op)
  case (CReplace p v)
  assume "json_wf d" "op_wf op" "cj_apply op d = Some d'"
  with CReplace show ?thesis using cj_update_wf [of "\<lambda>_. Some v"] by auto
qed (auto simp: bind_eq_Some_conv dest: cj_add_at_wf cj_remove_at_wf cj_get_wf)

lemma cj_patch_doc: "map_option doc (cj_patch ops d) = rfc6902_apply (map op_doc ops) (doc d)"
proof (induction ops arbitrary: d)
  case (Cons op ops)
  then show ?case by (cases "cj_apply op d") (simp_all add: cj_apply_doc [symmetric])
qed simp

lemma cj_patch_wf: "json_wf d \<Longrightarrow> \<forall>op \<in> set ops. op_wf op \<Longrightarrow> cj_patch ops d = Some d' \<Longrightarrow> json_wf d'"
  by (induction ops arbitrary: d) (auto simp: bind_eq_Some_conv dest: cj_apply_wf)

lemma get_str_member:
  "doc v = DObject m \<Longrightarrow> get_str v k = (case m k of Some (DString s) \<Rightarrow> Some s | _ \<Rightarrow> None)"
  by (auto simp: get_str_doc split: option.split jdoc.split)

lemma cj_op_doc: "map_option op_doc (cj_op_of v) = rfc_op (doc v)"
proof (cases "doc v")
  case (DObject m)
  have s: "get_str v k = Some s \<longleftrightarrow> m k = Some (DString s)" for k s
    by (auto simp: get_str_member [OF DObject] split: option.splits jdoc.splits)
  have p: "cj_pointer v k = doc_pointer m k" for k
    by (auto simp: cj_pointer_def doc_pointer_def get_str_member [OF DObject] split: option.splits jdoc.splits)
  have g: "m k = map_option doc (json_get v k)" for k
    using DObject json_get_doc [of v k] by simp
  show ?thesis
    by (cases "doc_pointer m ''path''"; cases "doc_pointer m ''from''"; cases "json_get v ''value''")
      (simp_all add: DObject cj_op_of_def s p g [of "''value''"])
qed (simp_all add: cj_op_of_def cj_pointer_def get_str_doc)

lemma cj_op_wf: "json_wf v \<Longrightarrow> cj_op_of v = Some op \<Longrightarrow> op_wf op"
  by (auto simp: cj_op_of_def bind_eq_Some_conv dest: json_wf_get split: if_splits)

lemma those_map_option: "those (map (\<lambda>x. map_option f (g x)) xs) = map_option (map f) (those (map g xs))"
  by (induction xs) (auto simp: option.map_comp comp_def split: option.split)

lemma those_Some_set: "those ys = Some zs \<Longrightarrow> z \<in> set zs \<Longrightarrow> Some z \<in> set ys"
  by (induction ys arbitrary: zs) (auto split: option.splits)

lemma cj_ops_doc: "map_option (map op_doc) (cj_ops_of v) = rfc_ops (doc v)"
  by (cases v) (simp_all add: doc_object cj_op_doc comp_def flip: those_map_option)

lemma cj_ops_wf: "json_wf v \<Longrightarrow> cj_ops_of v = Some ops \<Longrightarrow> \<forall>op \<in> set ops. op_wf op"
proof (cases v)
  case (JArray vs)
  assume "json_wf v" "cj_ops_of v = Some ops"
  then show ?thesis using JArray by (fastforce dest!: those_Some_set dest: cj_op_wf [OF _ sym])
qed simp_all

lemma compact_patch_laws: "patch_laws compact_json compact_patch"
  unfolding patch_laws_def
proof (intro allI impI)
  fix s v ops
  assume s: "js_from_str compact_json s = Some v" and ops: "rfc_ops (doc v) = Some ops"
  have "json_wf v" by (rule json_laws_wf [OF compact_json_laws s])
  obtain cops where c: "cj_ops_of v = Some cops" "map op_doc cops = ops"
    using ops cj_ops_doc [of v] by auto
  have "pred_option json_wf (cj_patch cops d)" if "json_wf d" for d
    using cj_patch_wf [OF that cj_ops_wf [OF \<open>json_wf v\<close> c(1)]] by (cases "cj_patch cops d") auto
  then show "\<exists>p. jp_from_str compact_patch s = Some p \<and> (\<forall>d. json_wf d \<longrightarrow>
      map_option doc (jp_patch compact_patch d p) = rfc6902_apply ops (doc d) \<and>
      pred_option json_wf (jp_patch compact_patch d p))"
    using s c by (auto simp: compact_patch_def compact_json_def cj_patch_doc)
qed

text \<open>A patch written as RFC 6902 text and read back consists of the same number of operations with
  the same meaning: each has the same document as the operation it was written from.\<close>

theorem patch_text_roundtrip:
  assumes "json_laws J N" "\<forall>op \<in> set ops. json_all N (to_rfc6902_value J op)"
  shows "map (\<lambda>op. doc (to_rfc6902_value J op))
      (json_patch_operations_from_rfc6902_json J (json_patch_operations_to_rfc6902_json J ops))
    = map (\<lambda>op. doc (to_rfc6902_value J op)) ops"
proof -
  obtain ws where "js_from_str J (json_patch_operations_to_rfc6902_json J ops) = Some (JArray ws)"
    "\<forall>w \<in> set ws. json_wf w" "map doc ws = map (\<lambda>op. doc (to_rfc6902_value J op)) ops"
    using written_patch [OF assms] .
  then show ?thesis
    using reread_operations [OF assms] by (simp add: json_patch_operations_from_rfc6902_json_def)
qed

theorem patch_text_roundtrip_witness:
  "map (\<lambda>op. doc (to_rfc6902_value compact_json op))
     (json_patch_operations_from_rfc6902_json compact_json (json_patch_operations_to_rfc6902_json compact_json
        [PatchAdd ''/a'' ''[1,]'', PatchMove ''/a'' ''/b'']))
   = map (\<lambda>op. doc (to_rfc6902_value compact_json op)) [PatchAdd ''/a'' ''[1,]'', PatchMove ''/a'' ''/b'']"
proof (rule patch_text_roundtrip [OF compact_json_laws])
  show "\<forall>op \<in> set [PatchAdd ''/a'' ''[1,]'', PatchMove ''/a'' ''/b'']. json_all number_text (to_rfc6902_value compact_json op)"
    by code_simp
qed

end
