(* ===== verification/JsonDiff.thy ===== *)
theory JsonDiff
  imports CompactJson
begin

text \<open>
  \<open>src/src/filters/engine/diff.rs\<close>, the events that describe how a message was edited, and the part of
  \<open>src/src/filters/engine/json/capture.rs\<close> that compares two JSON bodies and turns the events into the
  operations of a JSON patch. Shown: the pointers written for a path denote it, and applying the
  operations to the original document gives the edited one exactly when no array lost more than one
  item; in every other case the patch cannot be applied.
\<close>

section \<open>Diff events\<close>

datatype body_diff_source =
    BodyText | BodyJson | BodyXml | BodyHtml | BodyJavaScript | BodyCss | BodyAst string | BodyBinary

datatype diff_source = SrcHttpMeta | SrcHeader | SrcCookie | SrcUrl | SrcBody body_diff_source

datatype diff_path_segment =
    SegMethod | SegScheme | SegHost | SegPath | SegQuery
  | SegQueryParam string | SegHeader string | SegCookie string | SegSetCookie string
  | SegStatus | SegBody | JsonKey string | JsonIndex nat
  | XmlElement string | XmlAttribute string | XmlText
  | HtmlElement string nat | HtmlAttribute string | HtmlText
  | AstNode string nat | AstField string | TextRange nat nat

type_synonym diff_path = "diff_path_segment list"

datatype diff_node =
    NodeNull | NodeBool bool | NodeNumber string | NodeString string | NodeText string | NodeBytesLen nat
  | NodeHeader string string | NodeCookie string string | NodeJson string
  | NodeXml "string option" string | NodeHtml "string option" string | NodeAst string string
  | NodeBinary nat "string option"

datatype diff_event =
    DiffInsert diff_path diff_node diff_source
  | DiffDelete diff_path diff_node diff_source
  | DiffReplace diff_path diff_node diff_node diff_source
  | DiffMove diff_path diff_path diff_node diff_source

fun event_path :: "diff_event \<Rightarrow> diff_path" where
  "event_path (DiffInsert path _ _) = path"
| "event_path (DiffDelete path _ _) = path"
| "event_path (DiffReplace path _ _ _) = path"
| "event_path (DiffMove _ to _ _) = to"

fun event_source :: "diff_event \<Rightarrow> diff_source" where
  "event_source (DiffInsert _ _ source) = source"
| "event_source (DiffDelete _ _ source) = source"
| "event_source (DiffReplace _ _ _ source) = source"
| "event_source (DiffMove _ _ _ source) = source"

definition escape_path_segment :: "string \<Rightarrow> string" where
  "escape_path_segment s = replace_char (CHR ''/'') ''~1'' (replace_char (CHR ''~'') ''~0'' s)"

fun segment_text :: "diff_path_segment \<Rightarrow> string" where
  "segment_text SegMethod = ''method''"
| "segment_text SegScheme = ''scheme''"
| "segment_text SegHost = ''host''"
| "segment_text SegPath = ''path''"
| "segment_text SegQuery = ''query''"
| "segment_text (SegQueryParam name) = ''query/'' @ escape_path_segment name"
| "segment_text SegStatus = ''status''"
| "segment_text (SegHeader name) = ''headers/'' @ escape_path_segment name"
| "segment_text (SegCookie name) = ''cookies/'' @ escape_path_segment name"
| "segment_text (SegSetCookie name) = ''set-cookie/'' @ escape_path_segment name"
| "segment_text SegBody = ''body''"
| "segment_text (JsonKey key) = escape_path_segment key"
| "segment_text (JsonIndex index) = show_nat index"
| "segment_text (XmlElement name) = ''xml/'' @ escape_path_segment name"
| "segment_text (XmlAttribute name) = ''xml/@'' @ escape_path_segment name"
| "segment_text XmlText = ''xml/text''"
| "segment_text (HtmlElement tag ordinal) = ''html/'' @ escape_path_segment tag @ ''#'' @ show_nat ordinal"
| "segment_text (HtmlAttribute name) = ''html/@'' @ escape_path_segment name"
| "segment_text HtmlText = ''html/text''"
| "segment_text (AstNode kind ordinal) = ''ast/'' @ escape_path_segment kind @ ''#'' @ show_nat ordinal"
| "segment_text (AstField name) = ''field/'' @ escape_path_segment name"
| "segment_text (TextRange start stop) = ''text-range/'' @ show_nat start @ ''-'' @ show_nat stop"

definition path_text :: "diff_path \<Rightarrow> string" where
  "path_text segments =
     (if segments = [] then ''/'' else concat (map (\<lambda>segment. CHR ''/'' # segment_text segment) segments))"

definition body_json :: "diff_path_segment list \<Rightarrow> diff_path" where
  "body_json segments = SegBody # segments"

definition body_json_key_path :: "string list \<Rightarrow> diff_path" where
  "body_json_key_path keys = body_json (map JsonKey keys)"

definition quoted_short :: "(string \<Rightarrow> string option) \<Rightarrow> string \<Rightarrow> string" where
  "quoted_short U s =
     debug_str U (concat (take 80 (str_chars s))
       @ (if 80 < length (str_chars s) then [CHR 0xE2, CHR 0x80, CHR 0xA6] else []))"

fun node_summary :: "(string \<Rightarrow> string option) \<Rightarrow> diff_node \<Rightarrow> string" where
  "node_summary U NodeNull = ''null''"
| "node_summary U (NodeBool b) = (if b then ''true'' else ''false'')"
| "node_summary U (NodeNumber t) = t"
| "node_summary U (NodeString t) = quoted_short U t"
| "node_summary U (NodeText t) = quoted_short U t"
| "node_summary U (NodeBytesLen len) = show_nat len @ '' bytes''"
| "node_summary U (NodeHeader name val) = name @ '': '' @ quoted_short U val"
| "node_summary U (NodeCookie name val) = name @ ''='' @ quoted_short U val"
| "node_summary U (NodeJson raw) = ''json '' @ quoted_short U raw"
| "node_summary U (NodeXml name text) = (case name of
     Some n \<Rightarrow> ''xml <'' @ n @ ''> '' @ quoted_short U text
   | None \<Rightarrow> ''xml '' @ quoted_short U text)"
| "node_summary U (NodeHtml tag text) = (case tag of
     Some n \<Rightarrow> ''html <'' @ n @ ''> '' @ quoted_short U text
   | None \<Rightarrow> ''html '' @ quoted_short U text)"
| "node_summary U (NodeAst kind text) = ''ast '' @ kind @ '' '' @ quoted_short U text"
| "node_summary U (NodeBinary bytes_len content_type) = ''binary '' @ show_nat bytes_len @ '' bytes'' @
     (case content_type of Some ct \<Rightarrow> '', '' @ ct | None \<Rightarrow> [])"

fun event_summary :: "(string \<Rightarrow> string option) \<Rightarrow> diff_event \<Rightarrow> string" where
  "event_summary U (DiffInsert path node _) = ''insert '' @ path_text path @ '' = '' @ node_summary U node"
| "event_summary U (DiffDelete path old _) = ''delete '' @ path_text path @ '' = '' @ node_summary U old"
| "event_summary U (DiffReplace path old new _) =
     ''replace '' @ path_text path @ '': '' @ node_summary U old @ '' -> '' @ node_summary U new"
| "event_summary U (DiffMove from to node _) =
     ''move '' @ path_text from @ '' -> '' @ path_text to @ '' = '' @ node_summary U node"

section \<open>Comparing two JSON bodies\<close>

fun json_value_to_diff_node :: "json_lib \<Rightarrow> json \<Rightarrow> diff_node" where
  "json_value_to_diff_node J JNull = NodeNull"
| "json_value_to_diff_node J (JBool b) = NodeBool b"
| "json_value_to_diff_node J (JNumber t) = NodeNumber t"
| "json_value_to_diff_node J (JString s) = NodeString s"
| "json_value_to_diff_node J v = NodeJson (js_to_string J v)"

abbreviation json_insert :: "json_lib \<Rightarrow> diff_path_segment list \<Rightarrow> json \<Rightarrow> diff_event" where
  "json_insert J path v \<equiv> DiffInsert (body_json path) (json_value_to_diff_node J v) (SrcBody BodyJson)"

abbreviation json_delete :: "json_lib \<Rightarrow> diff_path_segment list \<Rightarrow> json \<Rightarrow> diff_event" where
  "json_delete J path v \<equiv> DiffDelete (body_json path) (json_value_to_diff_node J v) (SrcBody BodyJson)"

abbreviation json_replace :: "json_lib \<Rightarrow> diff_path_segment list \<Rightarrow> json \<Rightarrow> json \<Rightarrow> diff_event" where
  "json_replace J path v w \<equiv>
     DiffReplace (body_json path) (json_value_to_diff_node J v) (json_value_to_diff_node J w) (SrcBody BodyJson)"

lemma size_enumerate_zip [termination_simp]:
  "(i, x, y) \<in> set (enumerate n (zip xs ys)) \<Longrightarrow> f x < Suc (size_list f xs)"
  by (metis enumerate_eq_zip set_zip_rightD size_zip_left)

fun diff_json_value ::
  "json_lib \<Rightarrow> diff_path_segment list \<Rightarrow> json \<Rightarrow> json \<Rightarrow> diff_event list" where
  "diff_json_value J path (JObject original_map) (JObject edited_map) =
     (if json_eq (JObject original_map) (JObject edited_map) then [] else
        concat (map (\<lambda>(key, original_value).
            case map_of edited_map key of
              Some edited_value \<Rightarrow> diff_json_value J (path @ [JsonKey key]) original_value edited_value
            | None \<Rightarrow> [json_delete J (path @ [JsonKey key]) original_value]) original_map)
        @ concat (map (\<lambda>(key, edited_value).
            if map_of original_map key \<noteq> None then []
            else [json_insert J (path @ [JsonKey key]) edited_value]) edited_map))"
| "diff_json_value J path (JArray original_items) (JArray edited_items) =
     (if json_eq (JArray original_items) (JArray edited_items) then [] else
        (let common_len = min (length original_items) (length edited_items) in
         concat (map (\<lambda>(idx, original_item, edited_item).
            diff_json_value J (path @ [JsonIndex idx]) original_item edited_item)
            (enumerate 0 (zip original_items edited_items)))
         @ map (\<lambda>(idx, item). json_delete J (path @ [JsonIndex idx]) item)
            (drop common_len (enumerate 0 original_items))
         @ map (\<lambda>(idx, item). json_insert J (path @ [JsonIndex idx]) item)
            (drop common_len (enumerate 0 edited_items))))"
| "diff_json_value J path original edited =
     (if json_eq original edited then [] else [json_replace J path original edited])"

definition looks_like_json :: "string option \<Rightarrow> string \<Rightarrow> bool" where
  "looks_like_json content_type text \<longleftrightarrow>
     (case content_type of
        Some ct \<Rightarrow>
          (let ct = to_ascii_lowercase (trim (hd (split_char (CHR '';'') ct))) in
           ct = ''application/json'' \<or> ends_with ct ''+json'' \<or> ct = ''text/json'')
      | None \<Rightarrow> False)
     \<or> (let text = trim_start text in starts_with text [CHR 0x7B] \<or> starts_with text ''['')"

text \<open>The three functions below extend a list of events and say whether they did.\<close>

definition push_json_body_diff_events ::
  "json_lib \<Rightarrow> diff_event list \<Rightarrow> string \<Rightarrow> string \<Rightarrow> string option \<Rightarrow> diff_event list \<times> bool" where
  "push_json_body_diff_events J events original edited content_type =
     (if \<not> looks_like_json content_type original \<and> \<not> looks_like_json content_type edited then (events, False)
      else (case js_from_str J original of
          None \<Rightarrow> (events, False)
        | Some original_json \<Rightarrow> (case js_from_str J edited of
            None \<Rightarrow> (events, False)
          | Some edited_json \<Rightarrow> (events @ diff_json_value J [] original_json edited_json, True))))"

definition push_json_body_insert_event ::
  "json_lib \<Rightarrow> diff_event list \<Rightarrow> string \<Rightarrow> string option \<Rightarrow> diff_event list \<times> bool" where
  "push_json_body_insert_event J events text content_type =
     (if \<not> looks_like_json content_type text then (events, False)
      else (case js_from_str J text of
          None \<Rightarrow> (events, False)
        | Some v \<Rightarrow> (events @ [DiffInsert [SegBody] (json_value_to_diff_node J v) (SrcBody BodyJson)], True)))"

definition push_json_body_delete_event ::
  "json_lib \<Rightarrow> diff_event list \<Rightarrow> string \<Rightarrow> string option \<Rightarrow> diff_event list \<times> bool" where
  "push_json_body_delete_event J events text content_type =
     (if \<not> looks_like_json content_type text then (events, False)
      else (case js_from_str J text of
          None \<Rightarrow> (events, False)
        | Some v \<Rightarrow> (events @ [DiffDelete [SegBody] (json_value_to_diff_node J v) (SrcBody BodyJson)], True)))"

section \<open>From events to operations\<close>

definition escape_json_pointer_segment :: "string \<Rightarrow> string" where
  "escape_json_pointer_segment s = replace_char (CHR ''/'') ''~1'' (replace_char (CHR ''~'') ''~0'' s)"

fun pointer_loop :: "string \<Rightarrow> bool \<Rightarrow> diff_path_segment list \<Rightarrow> string option" where
  "pointer_loop out seen_body [] = (if seen_body then Some out else None)"
| "pointer_loop out seen_body (SegBody # segments) = pointer_loop out True segments"
| "pointer_loop out seen_body (JsonKey key # segments) =
     pointer_loop (if seen_body then out @ ''/'' @ escape_json_pointer_segment key else out) seen_body segments"
| "pointer_loop out seen_body (JsonIndex index # segments) =
     pointer_loop (if seen_body then out @ ''/'' @ show_nat index else out) seen_body segments"
| "pointer_loop out seen_body (_ # segments) = pointer_loop out seen_body segments"

definition json_pointer_from_diff_path :: "diff_path \<Rightarrow> string option" where
  "json_pointer_from_diff_path path = pointer_loop [] False path"

fun diff_node_to_json_patch_value :: "json_lib \<Rightarrow> diff_node \<Rightarrow> string" where
  "diff_node_to_json_patch_value J NodeNull = ''null''"
| "diff_node_to_json_patch_value J (NodeBool b) = (if b then ''true'' else ''false'')"
| "diff_node_to_json_patch_value J (NodeNumber t) = t"
| "diff_node_to_json_patch_value J (NodeString s) =
     (case js_write J (JString s) of Some t \<Rightarrow> t | None \<Rightarrow> ''null'')"
| "diff_node_to_json_patch_value J (NodeText s) =
     (case js_write J (JString s) of Some t \<Rightarrow> t | None \<Rightarrow> ''null'')"
| "diff_node_to_json_patch_value J (NodeJson raw) =
     (case js_from_str J raw of
        Some v \<Rightarrow> js_to_string J v
      | None \<Rightarrow> (case js_write J (JString raw) of Some t \<Rightarrow> t | None \<Rightarrow> ''null''))"
| "diff_node_to_json_patch_value J (NodeXml name text) =
     js_to_string J (JObject [(''name'', json_opt_string name), (''text'', JString text)])"
| "diff_node_to_json_patch_value J (NodeHtml tag text) =
     js_to_string J (JObject [(''tag'', json_opt_string tag), (''text'', JString text)])"
| "diff_node_to_json_patch_value J (NodeAst kind text) =
     js_to_string J (JObject [(''kind'', JString kind), (''text'', JString text)])"
| "diff_node_to_json_patch_value J (NodeBytesLen n) = show_nat n"
| "diff_node_to_json_patch_value J (NodeHeader name val) =
     js_to_string J (JObject [(''name'', JString name), (''value'', JString val)])"
| "diff_node_to_json_patch_value J (NodeCookie name val) =
     js_to_string J (JObject [(''name'', JString name), (''value'', JString val)])"
| "diff_node_to_json_patch_value J (NodeBinary bytes_len content_type) =
     js_to_string J (JObject [(''bytes_len'', json_int (int bytes_len)), (''content_type'', json_opt_string content_type)])"

definition json_patch_operation_from_diff_event ::
  "json_lib \<Rightarrow> diff_event \<Rightarrow> generated_json_patch_operation option" where
  "json_patch_operation_from_diff_event J event =
     (if event_source event \<noteq> SrcBody BodyJson then None
      else (case event of
          DiffInsert path node _ \<Rightarrow> map_option (\<lambda>p. PatchAdd p (diff_node_to_json_patch_value J node))
            (json_pointer_from_diff_path path)
        | DiffDelete path _ _ \<Rightarrow> map_option PatchRemove (json_pointer_from_diff_path path)
        | DiffReplace path _ new _ \<Rightarrow> map_option (\<lambda>p. PatchReplace p (diff_node_to_json_patch_value J new))
            (json_pointer_from_diff_path path)
        | DiffMove from to _ _ \<Rightarrow> Option.bind (json_pointer_from_diff_path from) (\<lambda>f.
            map_option (\<lambda>p. PatchMove f p) (json_pointer_from_diff_path to))))"

definition json_patch_operations_from_diff_events ::
  "json_lib \<Rightarrow> diff_event list \<Rightarrow> generated_json_patch_operation list" where
  "json_patch_operations_from_diff_events J events =
     List.map_filter (json_patch_operation_from_diff_event J) events"

section \<open>Pointers\<close>

fun segment_token :: "diff_path_segment \<Rightarrow> string option" where
  "segment_token (JsonKey key) = Some key"
| "segment_token (JsonIndex index) = Some (show_nat index)"
| "segment_token _ = None"

abbreviation tokens :: "diff_path_segment list \<Rightarrow> string list" where
  "tokens path \<equiv> List.map_filter segment_token path"

lemma tokens_simps [simp]:
  "tokens [] = []"
  "tokens (s # path) = (case segment_token s of Some t \<Rightarrow> t # tokens path | None \<Rightarrow> tokens path)"
  "tokens (path @ path') = tokens path @ tokens path'"
  by (simp_all add: map_filter_def split: option.split)

abbreviation escaped :: "string \<Rightarrow> string" where
  "escaped \<equiv> escape_json_pointer_segment"

lemma escaped_simps [simp]:
  "escaped [] = []"
  "escaped (c # s) = (if c = CHR ''~'' then ''~0'' else if c = CHR ''/'' then ''~1'' else [c]) @ escaped s"
  by (simp_all add: escape_json_pointer_segment_def replace_char_def)

lemma unescape_escaped [simp]: "unescape_token (escaped t) = Some t"
  by (induction t) simp_all

lemma slash_escaped [simp]: "CHR ''/'' \<notin> set (escaped t)"
  by (induction t) auto

lemma digits_not_special: "list_all is_ascii_digit s \<Longrightarrow> escaped s = s"
  by (induction s) (auto simp: is_ascii_digit_def)

lemma escaped_show_nat [simp]: "escaped (show_nat n) = show_nat n"
  using show_nat_digits by (rule digits_not_special)

definition pointer_text :: "string list \<Rightarrow> string" where
  "pointer_text ts = concat (map (\<lambda>t. CHR ''/'' # escaped t) ts)"

lemma pointer_text_simps [simp]:
  "pointer_text [] = []"
  "pointer_text (t # ts) = CHR ''/'' # escaped t @ pointer_text ts"
  by (simp_all add: pointer_text_def)

lemma split_pointer_text:
  "split_char (CHR ''/'') (escaped t @ pointer_text ts) = escaped t # map escaped ts"
proof (induction ts arbitrary: t)
  case (Cons u us)
  have "split_char (CHR ''/'') (escaped t @ pointer_text (u # us))
      = split_char (CHR ''/'') (escaped t) @ split_char (CHR ''/'') (escaped u @ pointer_text us)"
    unfolding pointer_text_simps by (rule split_char_append_sep)
  then show ?case by (simp add: Cons.IH split_char_singleton)
qed (simp add: split_char_singleton)

lemma those_Some_map [simp]: "those (map (\<lambda>x. Some (f x)) xs) = Some (map f xs)"
  by (induction xs) simp_all

lemma pointer_tokens_text [simp]: "pointer_tokens (pointer_text ts) = Some ts"
proof (cases ts)
  case (Cons t us)
  have "those (map unescape_token (map escaped us)) = Some us" by (simp add: comp_def)
  with Cons show ?thesis by (simp add: pointer_tokens_def split_pointer_text)
qed (simp add: pointer_tokens_def)

lemma pointer_loop_body: "pointer_loop out True path = Some (out @ pointer_text (tokens path))"
proof (induction path arbitrary: out)
  case (Cons s path)
  then show ?case by (cases s) simp_all
qed simp

lemma pointer_of_body_json [simp]:
  "json_pointer_from_diff_path (body_json path) = Some (pointer_text (tokens path))"
  by (simp add: json_pointer_from_diff_path_def body_json_def pointer_loop_body)

text \<open>The JSON pointer written for a path inside the body is read back, by the rules of RFC 6901, as
  the keys and indices of the path, whatever slashes and tildes the keys contain.\<close>

theorem pointer_roundtrip:
  "Option.bind (json_pointer_from_diff_path (body_json path)) pointer_tokens
     = Some (List.map_filter segment_token path)"
  by simp

lemma show_nat_head: "n \<noteq> 0 \<Longrightarrow> hd (show_nat n) \<noteq> CHR ''0''"
proof (induction n rule: show_nat.induct)
  case (1 n)
  show ?case
  proof (cases "n < 10")
    case True
    have "byte (char_of (48 + n) :: char) \<noteq> byte (CHR ''0'')" using True 1(2) by (simp add: byte_char_of)
    then have "char_of (48 + n) \<noteq> CHR ''0''" by metis
    with True show ?thesis by (subst show_nat.simps) simp
  next
    case False
    with 1 have "hd (show_nat (n div 10)) \<noteq> CHR ''0''" by auto
    with False show ?thesis by (subst show_nat.simps) simp
  qed
qed

lemma token_index_show_nat [simp]: "token_index (show_nat n) = Some n"
proof -
  have "show_nat 0 = ''0''" by code_simp
  then show ?thesis
    using show_nat_head [of n] show_nat_digits [of n] digits_value_show_nat [of n]
    by (cases "n = 0") (auto simp: token_index_def)
qed

lemma show_nat_not_dash [simp]: "show_nat n \<noteq> ''-''"
  using show_nat_digits [of n] by (auto simp: is_ascii_digit_def)

section \<open>Updating a document along a path\<close>

lemma child_set_child:
  "doc_child d t = Some c \<Longrightarrow> doc_child (set_child d t v) t = Some v"
  "doc_child d t = Some c \<Longrightarrow> set_child (set_child d t v) t w = set_child d t w"
  "doc_child d t = Some c \<Longrightarrow> set_child d t c = d"
  by (cases d; auto split: option.splits if_splits)+

lemma doc_update_at: "doc_get d p = Some c \<Longrightarrow> doc_update f d p = Option.bind (f c) (doc_put d p)"
proof (induction p arbitrary: d)
  case (Cons t ts)
  then show ?case by (cases "doc_child d t"; cases "f c") auto
qed simp

lemma doc_get_put:
  "doc_get d p = Some c \<Longrightarrow>
   \<exists>d'. doc_put d p v = Some d' \<and> doc_get d' p = Some v \<and> (\<forall>w. doc_put d' p w = doc_put d p w)"
proof (induction p arbitrary: d)
  case (Cons t ts)
  then obtain x where x: "doc_child d t = Some x" "doc_get x ts = Some c"
    by (auto simp: bind_eq_Some_conv)
  then obtain x' where "doc_put x ts v = Some x'" "doc_get x' ts = Some v" "\<forall>w. doc_put x' ts w = doc_put x ts w"
    using Cons.IH by blast
  moreover have "set_child (set_child d t x') t = set_child d t"
    using child_set_child(2) [OF x(1)] by blast
  ultimately show ?case using x child_set_child(1) [OF x(1)] by simp
qed simp

lemma doc_put_id: "doc_get d p = Some c \<Longrightarrow> doc_put d p c = Some d"
proof (induction p arbitrary: d)
  case (Cons t ts)
  then show ?case by (cases "doc_child d t") (auto simp: child_set_child(3))
qed simp

lemma doc_get_snoc: "doc_get d (p @ [t]) = Option.bind (doc_get d p) (\<lambda>c. doc_child c t)"
  by (induction p arbitrary: d) (auto simp: Option.bind_assoc)

lemma doc_update_append: "doc_update f d (p @ q) = doc_update (\<lambda>c. doc_update f c q) d p"
  by (induction p arbitrary: d) auto

lemma doc_put_snoc:
  "doc_get d p = Some c \<Longrightarrow> doc_child c t = Some x \<Longrightarrow> doc_put d (p @ [t]) v = doc_put d p (set_child c t v)"
  unfolding doc_update_append by (subst doc_update_at [where c = c]) simp_all

lemma doc_add_snoc: "doc_get d p = Some c \<Longrightarrow> doc_add (p @ [t]) v d = Option.bind (add_child c t v) (doc_put d p)"
  by (simp add: doc_add_def) (subst doc_update_at [where c = c], simp_all)

lemma doc_remove_snoc: "doc_get d p = Some c \<Longrightarrow> doc_remove (p @ [t]) d = Option.bind (remove_child c t) (doc_put d p)"
  by (simp add: doc_remove_def) (subst doc_update_at [where c = c], simp_all)

section \<open>Applying the operations of a comparison\<close>

text \<open>The operation an event stands for, once written as RFC 6902 and read by its rules.\<close>

definition event_op :: "json_lib \<Rightarrow> diff_event \<Rightarrow> patch_op option" where
  "event_op J e = Option.bind (json_patch_operation_from_diff_event J e) (\<lambda>op. rfc_op (doc (to_rfc6902_value J op)))"

fun run_events :: "json_lib \<Rightarrow> diff_event list \<Rightarrow> jdoc \<Rightarrow> jdoc option" where
  "run_events J [] d = Some d"
| "run_events J (e # es) d = Option.bind (event_op J e) (\<lambda>op. Option.bind (doc_apply op d) (run_events J es))"

lemma run_events_append: "run_events J (es @ fs) d = Option.bind (run_events J es d) (run_events J fs)"
proof (induction es arbitrary: d)
  case (Cons e es)
  then show ?case by (cases "event_op J e"; cases "doc_apply (the (event_op J e)) d") simp_all
qed simp

lemma run_events_append_fun:
  "run_events J (es @ fs) = (\<lambda>d. Option.bind (run_events J es d) (run_events J fs))"
  by (rule ext) (rule run_events_append)

lemma bind_run_Nil [simp]: "Option.bind x (run_events J []) = x"
  by (cases x) simp_all

abbreviation json_ok :: "(string \<Rightarrow> bool) \<Rightarrow> json \<Rightarrow> bool" where
  "json_ok N v \<equiv> json_wf v \<and> json_all N v"

lemma json_ok_member: "json_ok N (JObject ms) \<Longrightarrow> (k, v) \<in> set ms \<Longrightarrow> json_ok N v"
  by auto

lemma printed_twice:
  assumes J: "json_laws J N" and v: "json_ok N v"
  shows "doc (parse_json_patch_value J (diff_node_to_json_patch_value J (NodeJson (js_to_string J v)))) = doc v"
proof -
  obtain w where w: "js_from_str J (js_to_string J v) = Some w" "doc w = doc v" "json_wf w"
    using json_laws_print [OF J] v by blast
  with v have "json_all N w" using json_all_doc [of v N] json_all_doc [of w N] by simp
  with w show ?thesis by (simp add: parse_printed_value [OF J])
qed

lemma node_value:
  assumes J: "json_laws J N" and v: "json_ok N v"
  shows "doc (parse_json_patch_value J (diff_node_to_json_patch_value J (json_value_to_diff_node J v))) = doc v"
proof -
  have "doc (parse_json_patch_value J (js_to_string J v)) = doc v"
    using parse_printed_value [OF J] v by blast
  then show ?thesis
    using printed_twice [OF J v] by (cases v) (simp_all add: json_laws_scalars [OF J] json_laws_write [OF J])
qed

lemma event_op_insert:
  "json_laws J N \<Longrightarrow> json_ok N v \<Longrightarrow> event_op J (json_insert J path v) = Some (OpAdd (tokens path) (doc v))"
  by (simp add: event_op_def json_patch_operation_from_diff_event_def doc_object doc_pointer_def node_value)

lemma event_op_replace:
  "json_laws J N \<Longrightarrow> json_ok N w \<Longrightarrow> event_op J (json_replace J path v w) = Some (OpReplace (tokens path) (doc w))"
  by (simp add: event_op_def json_patch_operation_from_diff_event_def doc_object doc_pointer_def node_value)

lemma event_op_delete:
  "tokens path \<noteq> [] \<Longrightarrow> event_op J (json_delete J path v) = Some (OpRemove (tokens path))"
  by (simp add: event_op_def json_patch_operation_from_diff_event_def doc_object doc_pointer_def)

text \<open>No array loses more than one item.\<close>

fun patchable :: "json \<Rightarrow> json \<Rightarrow> bool" where
  "patchable (JObject original_map) (JObject edited_map) \<longleftrightarrow>
     json_eq (JObject original_map) (JObject edited_map) \<or>
     (\<forall>(k, v) \<in> set original_map. case map_of edited_map k of Some w \<Rightarrow> patchable v w | None \<Rightarrow> True)"
| "patchable (JArray original_items) (JArray edited_items) \<longleftrightarrow>
     json_eq (JArray original_items) (JArray edited_items) \<or>
     (length original_items \<le> Suc (length edited_items) \<and>
      (\<forall>(v, w) \<in> set (zip original_items edited_items). patchable v w))"
| "patchable _ _ \<longleftrightarrow> True"

subsection \<open>Members\<close>

lemma run_keyed:
  assumes step: "\<And>k v d m. (k, v) \<in> set xs \<Longrightarrow> doc_get d p = Some (DObject m) \<Longrightarrow> I (m k) k v \<Longrightarrow>
      run_events J (ev (k, v)) d = (if P k v then doc_put d p (DObject (m(k := r k v))) else None)"
    and "distinct (map fst xs)" and "doc_get d p = Some (DObject m)" and "\<forall>(k, v) \<in> set xs. I (m k) k v"
  shows "run_events J (concat (map ev xs)) d =
    (if \<forall>(k, v) \<in> set xs. P k v
     then doc_put d p (DObject (\<lambda>k. case map_of xs k of Some v \<Rightarrow> r k v | None \<Rightarrow> m k)) else None)"
  using assms
proof (induction xs arbitrary: d m)
  case Nil
  then show ?case by (simp add: doc_put_id)
next
  case (Cons x xs)
  obtain k v where x: "x = (k, v)" by fastforce
  have run: "run_events J (ev (k, v)) d = (if P k v then doc_put d p (DObject (m(k := r k v))) else None)"
    using Cons.prems x by auto
  show ?case
  proof (cases "P k v")
    case True
    obtain d' where d': "doc_put d p (DObject (m(k := r k v))) = Some d'" "doc_get d' p = Some (DObject (m(k := r k v)))"
      "\<forall>w. doc_put d' p w = doc_put d p w"
      using doc_get_put [OF Cons.prems(3)] by blast
    have fresh: "k \<notin> fst ` set xs" using Cons.prems(2) x by simp
    have "run_events J (concat (map ev xs)) d' =
      (if \<forall>(k, v) \<in> set xs. P k v
       then doc_put d' p (DObject (\<lambda>j. case map_of xs j of Some v \<Rightarrow> r j v | None \<Rightarrow> (m(k := r k v)) j)) else None)"
    proof (rule Cons.IH)
      show "\<forall>(j, v') \<in> set xs. I ((m(k := r k v)) j) j v'"
        using Cons.prems(4) fresh by (force simp: x)
    qed (use Cons.prems d'(2) in auto)
    moreover have "(\<lambda>j. case map_of xs j of Some v \<Rightarrow> r j v | None \<Rightarrow> (m(k := r k v)) j)
        = (\<lambda>j. case map_of (x # xs) j of Some v \<Rightarrow> r j v | None \<Rightarrow> m j)"
    proof -
      have "map_of xs k = None" using fresh by (simp add: map_of_eq_None_iff)
      then show ?thesis by (auto simp: fun_eq_iff x split: option.split)
    qed
    ultimately show ?thesis using run d'(1,3) True by (simp add: x run_events_append)
  qed (simp add: x run run_events_append)
qed

subsection \<open>Items\<close>

lemma run_items:
  assumes step: "\<And>i v w d ys. (i, v, w) \<in> set (enumerate n zs) \<Longrightarrow> doc_get d p = Some (DArray ys) \<Longrightarrow> i < length ys \<Longrightarrow>
      ys ! i = doc v \<Longrightarrow>
      run_events J (ev (i, v, w)) d = (if P v w then doc_put d p (DArray (ys[i := doc w])) else None)"
    and "doc_get d p = Some (DArray ys)" and "n + length zs \<le> length ys"
    and "\<forall>i < length zs. ys ! (n + i) = doc (fst (zs ! i))"
  shows "run_events J (concat (map ev (enumerate n zs))) d =
    (if \<forall>(v, w) \<in> set zs. P v w
     then doc_put d p (DArray (take n ys @ map (\<lambda>z. doc (snd z)) zs @ drop (n + length zs) ys)) else None)"
  using assms
proof (induction zs arbitrary: d ys n)
  case Nil
  then show ?case by (simp add: doc_put_id)
next
  case (Cons z zs)
  obtain v w where z: "z = (v, w)" by fastforce
  have "ys ! n = doc v" using Cons.prems(4) z by force
  then have run: "run_events J (ev (n, v, w)) d = (if P v w then doc_put d p (DArray (ys[n := doc w])) else None)"
    using Cons.prems(1) [of n v w d ys] Cons.prems(2,3) z by simp
  show ?case
  proof (cases "P v w")
    case True
    let ?ys = "ys[n := doc w]"
    obtain d' where d': "doc_put d p (DArray ?ys) = Some d'" "doc_get d' p = Some (DArray ?ys)"
      "\<forall>w. doc_put d' p w = doc_put d p w"
      using doc_get_put [OF Cons.prems(2)] by blast
    have "run_events J (concat (map ev (enumerate (Suc n) zs))) d' =
      (if \<forall>(v, w) \<in> set zs. P v w
       then doc_put d' p (DArray (take (Suc n) ?ys @ map (\<lambda>z. doc (snd z)) zs @ drop (Suc n + length zs) ?ys)) else None)"
    proof (rule Cons.IH)
      show "\<forall>i < length zs. ?ys ! (Suc n + i) = doc (fst (zs ! i))"
        using Cons.prems(4) by (metis Suc_less_eq add_Suc add_Suc_right length_Cons less_add_Suc1 nat_neq_iff nth_Cons_Suc nth_list_update_neq)
    qed (use Cons.prems d'(2) in auto)
    moreover have "take (Suc n) ?ys = take n ys @ [doc w]"
      using Cons.prems(3) by (simp add: take_Suc_conv_app_nth)
    ultimately show ?thesis using run d'(1,3) True by (simp add: z run_events_append)
  qed (simp add: z run run_events_append)
qed

lemma run_deletes_fail:
  assumes "doc_get d (tokens path) = Some (DArray ys)" "items \<noteq> []" "length ys < n + length items"
  shows "run_events J (map (\<lambda>(idx, item). json_delete J (path @ [JsonIndex idx]) item) (enumerate n items)) d = None"
  using assms
proof (induction items arbitrary: d ys n)
  case (Cons v items)
  show ?case
  proof (cases "n < length ys")
    case True
    let ?ys = "take n ys @ drop (Suc n) ys"
    obtain d' where "doc_put d (tokens path) (DArray ?ys) = Some d'" "doc_get d' (tokens path) = Some (DArray ?ys)"
      using doc_get_put [OF Cons.prems(1)] by blast
    moreover have "items \<noteq> []" using True Cons.prems(3) by auto
    ultimately show ?thesis
      using True Cons.IH [of d' ?ys "Suc n"] Cons.prems by (simp add: event_op_delete doc_remove_snoc)
  qed (use Cons.prems in \<open>simp add: event_op_delete doc_remove_snoc\<close>)
qed simp

lemma run_deletes:
  assumes d: "doc_get d (tokens path) = Some (DArray ys)" "length ys = n + length items"
  shows "run_events J (map (\<lambda>(idx, item). json_delete J (path @ [JsonIndex idx]) item) (enumerate n items)) d
    = (if length items \<le> 1 then doc_put d (tokens path) (DArray (take n ys)) else None)"
proof (cases items)
  case Nil
  with d show ?thesis by (simp add: doc_put_id)
next
  case (Cons v items')
  let ?ys = "take n ys @ drop (Suc n) ys"
  obtain d' where "doc_put d (tokens path) (DArray ?ys) = Some d'" "doc_get d' (tokens path) = Some (DArray ?ys)"
    using doc_get_put [OF d(1)] by blast
  then show ?thesis
    using d Cons run_deletes_fail [of d' path ?ys items' "Suc n" J]
    by (cases "items' = []") (auto simp: event_op_delete doc_remove_snoc)
qed

lemma run_inserts:
  assumes "json_laws J N" "\<forall>v \<in> set items. json_ok N v"
    and "doc_get d (tokens path) = Some (DArray ys)" "length ys = n"
  shows "run_events J (map (\<lambda>(idx, item). json_insert J (path @ [JsonIndex idx]) item) (enumerate n items)) d
    = doc_put d (tokens path) (DArray (ys @ map doc items))"
  using assms
proof (induction items arbitrary: d ys n)
  case (Cons v items)
  let ?ys = "ys @ [doc v]"
  obtain d' where d': "doc_put d (tokens path) (DArray ?ys) = Some d'" "doc_get d' (tokens path) = Some (DArray ?ys)"
    "\<forall>w. doc_put d' (tokens path) w = doc_put d (tokens path) w"
    using doc_get_put [OF Cons.prems(3)] by blast
  have "json_ok N v" using Cons.prems(2) by simp
  then show ?case
    using d' Cons.IH [of d' ?ys "Suc n"] Cons.prems by (simp add: event_op_insert doc_add_snoc)
qed (simp add: doc_put_id)

subsection \<open>The whole comparison\<close>

lemma diff_object:
  assumes J: "json_laws J N" and ok: "json_ok N (JObject om)" "json_ok N (JObject em)"
    and IH: "\<And>k v w d. (k, v) \<in> set om \<Longrightarrow> map_of em k = Some w \<Longrightarrow>
      doc_get d (tokens (path @ [JsonKey k])) = Some (doc v) \<Longrightarrow>
      run_events J (diff_json_value J (path @ [JsonKey k]) v w) d =
        (if patchable v w then doc_put d (tokens (path @ [JsonKey k])) (doc w) else None)"
    and neq: "\<not> json_eq (JObject om) (JObject em)" and d: "doc_get d (tokens path) = Some (doc (JObject om))"
  shows "run_events J (diff_json_value J path (JObject om) (JObject em)) d =
    (if patchable (JObject om) (JObject em) then doc_put d (tokens path) (doc (JObject em)) else None)"
proof -
  let ?p = "tokens path"
  let ?ev1 = "\<lambda>(k, v). case map_of em k of Some w \<Rightarrow> diff_json_value J (path @ [JsonKey k]) v w
      | None \<Rightarrow> [json_delete J (path @ [JsonKey k]) v]"
  let ?ev2 = "\<lambda>(k, w). if map_of om k \<noteq> None then [] else [json_insert J (path @ [JsonKey k]) w]"
  let ?P = "\<lambda>k v. case map_of em k of Some w \<Rightarrow> patchable v w | None \<Rightarrow> True"
  let ?e = "\<lambda>k. map_option doc (map_of em k)"
  let ?m1 = "\<lambda>k. case map_of om k of Some v \<Rightarrow> ?e k | None \<Rightarrow> (map_option doc \<circ> map_of om) k"
  have dist: "distinct (map fst om)" "distinct (map fst em)" using ok by simp_all
  have 1: "run_events J (concat (map ?ev1 om)) d =
    (if \<forall>(k, v) \<in> set om. ?P k v then doc_put d ?p (DObject ?m1) else None)"
  proof (rule run_keyed [where I = "\<lambda>x k v. x = Some (doc v)" and r = "\<lambda>k v. ?e k"])
    fix k v d m
    assume "(k, v) \<in> set om" "doc_get d ?p = Some (DObject m)" "m k = Some (doc v)"
    then show "run_events J (?ev1 (k, v)) d = (if ?P k v then doc_put d ?p (DObject (m(k := ?e k))) else None)"
      using IH [of k v _ d]
      by (cases "map_of em k")
        (simp_all add: event_op_delete doc_remove_snoc doc_get_snoc doc_put_snoc del: map_of_eq_Some_iff)
  next
    show "\<forall>(k, v) \<in> set om. (map_option doc \<circ> map_of om) k = Some (doc v)" using dist by auto
  qed (use dist d in \<open>simp_all add: doc_object comp_def\<close>)
  have 2: "run_events J (concat (map ?ev2 em)) d' =
    doc_put d' ?p (DObject (\<lambda>k. case map_of em k of Some w \<Rightarrow> Some (doc w) | None \<Rightarrow> ?m1 k))"
    if d': "doc_get d' ?p = Some (DObject ?m1)" for d'
  proof -
    have "run_events J (concat (map ?ev2 em)) d' =
      (if \<forall>(k, w) \<in> set em. True
       then doc_put d' ?p (DObject (\<lambda>k. case map_of em k of Some w \<Rightarrow> Some (doc w) | None \<Rightarrow> ?m1 k)) else None)"
    proof (rule run_keyed [where I = "\<lambda>x k w. map_of om k \<noteq> None \<longrightarrow> x = Some (doc w)"])
      fix k w d m
      assume "(k, w) \<in> set em" "doc_get d ?p = Some (DObject m)" "map_of om k \<noteq> None \<longrightarrow> m k = Some (doc w)"
      moreover from this(1) have "json_ok N w" by (rule json_ok_member [OF ok(2)])
      ultimately show "run_events J (?ev2 (k, w)) d =
          (if True then doc_put d ?p (DObject (m(k \<mapsto> doc w))) else None)"
        by (auto simp: event_op_insert [OF J] doc_add_snoc doc_put_id fun_upd_idem)
    qed (use dist d' in auto)
    then show ?thesis by simp
  qed
  have 3: "(\<lambda>k. case map_of em k of Some w \<Rightarrow> Some (doc w) | None \<Rightarrow> ?m1 k) = map_option doc \<circ> map_of em"
    by (auto simp: fun_eq_iff split: option.split)
  obtain d' where d': "doc_put d ?p (DObject ?m1) = Some d'" "doc_get d' ?p = Some (DObject ?m1)"
    "\<forall>w. doc_put d' ?p w = doc_put d ?p w"
    using doc_get_put [OF d] by blast
  have "run_events J (diff_json_value J path (JObject om) (JObject em)) d =
    Option.bind (run_events J (concat (map ?ev1 om)) d) (run_events J (concat (map ?ev2 em)))"
    using neq by (simp add: run_events_append del: json_eq.simps)
  also have "\<dots> = (if \<forall>(k, v) \<in> set om. ?P k v then doc_put d ?p (doc (JObject em)) else None)"
    using 1 2 [OF d'(2)] d' by (simp add: 3 doc_object)
  finally show ?thesis using neq by (simp del: json_eq.simps diff_json_value.simps)
qed

lemma enumerate_drop: "drop n (enumerate m xs) = enumerate (n + m) (drop n xs)"
  by (induction xs arbitrary: n m) (auto simp: drop_Cons split: nat.split)

lemma diff_array:
  assumes J: "json_laws J N" and ok: "json_ok N (JArray os)" "json_ok N (JArray es)"
    and IH: "\<And>i v w d. (i, v, w) \<in> set (enumerate 0 (zip os es)) \<Longrightarrow>
      doc_get d (tokens (path @ [JsonIndex i])) = Some (doc v) \<Longrightarrow>
      run_events J (diff_json_value J (path @ [JsonIndex i]) v w) d =
        (if patchable v w then doc_put d (tokens (path @ [JsonIndex i])) (doc w) else None)"
    and neq: "\<not> json_eq (JArray os) (JArray es)" and d: "doc_get d (tokens path) = Some (doc (JArray os))"
  shows "run_events J (diff_json_value J path (JArray os) (JArray es)) d =
    (if patchable (JArray os) (JArray es) then doc_put d (tokens path) (doc (JArray es)) else None)"
proof -
  let ?p = "tokens path" and ?n = "min (length os) (length es)"
  let ?ev = "\<lambda>(i, v, w). diff_json_value J (path @ [JsonIndex i]) v w"
  let ?del = "map (\<lambda>(i, v). json_delete J (path @ [JsonIndex i]) v) (enumerate ?n (drop ?n os))"
  let ?ins = "map (\<lambda>(i, v). json_insert J (path @ [JsonIndex i]) v) (enumerate ?n (drop ?n es))"
  let ?P = "\<forall>(v, w) \<in> set (zip os es). patchable v w"
  let ?ys = "take ?n (map doc es) @ drop ?n (map doc os)"
  have snds: "map (\<lambda>z. doc (snd z)) (zip os es) = take ?n (map doc es)"
    by (rule nth_equalityI) simp_all
  have 1: "run_events J (concat (map ?ev (enumerate 0 (zip os es)))) d = (if ?P then doc_put d ?p (DArray ?ys) else None)"
  proof -
    have "run_events J (concat (map ?ev (enumerate 0 (zip os es)))) d =
      (if ?P then doc_put d ?p (DArray (take 0 (map doc os) @ map (\<lambda>z. doc (snd z)) (zip os es)
        @ drop (0 + length (zip os es)) (map doc os))) else None)"
    proof (rule run_items)
      fix i v w d ys
      assume "(i, v, w) \<in> set (enumerate 0 (zip os es))" "doc_get d ?p = Some (DArray ys)" "i < length ys" "ys ! i = doc v"
      then show "run_events J (?ev (i, v, w)) d =
          (if patchable v w then doc_put d ?p (DArray (ys[i := doc w])) else None)"
        using IH [of i v w d] by (simp add: doc_get_snoc doc_put_snoc)
    qed (use d in auto)
    then show ?thesis by (simp add: snds)
  qed
  have 2: "Option.bind (run_events J ?del d') (run_events J ?ins) =
    (if length os \<le> Suc (length es) then doc_put d' ?p (DArray (map doc es)) else None)"
    if d': "doc_get d' ?p = Some (DArray ?ys)" for d'
  proof -
    have del: "run_events J ?del d' = (if length (drop ?n os) \<le> 1 then doc_put d' ?p (DArray (take ?n ?ys)) else None)"
      using d' by (rule run_deletes) simp
    obtain d'' where d'': "doc_put d' ?p (DArray (take ?n ?ys)) = Some d''" "doc_get d'' ?p = Some (DArray (take ?n ?ys))"
      "\<forall>w. doc_put d'' ?p w = doc_put d' ?p w"
      using doc_get_put [OF d'] by blast
    have "run_events J ?ins d'' = doc_put d'' ?p (DArray (take ?n ?ys @ map doc (drop ?n es)))"
    proof (rule run_inserts [OF J _ d''(2)])
      show "\<forall>v \<in> set (drop ?n es). json_ok N v" using ok(2) by (auto dest: in_set_dropD)
    qed simp
    moreover have "take ?n ?ys @ map doc (drop ?n es) = map doc es"
      by (metis (no_types, lifting) append_take_drop_id append_eq_conv_conj drop_map length_map length_take
          min.absorb2 min.cobounded2)
    moreover have "length (drop ?n os) \<le> 1 \<longleftrightarrow> length os \<le> Suc (length es)" by auto
    ultimately show ?thesis using del d'' by simp
  qed
  obtain d' where d': "doc_put d ?p (DArray ?ys) = Some d'" "doc_get d' ?p = Some (DArray ?ys)"
    "\<forall>w. doc_put d' ?p w = doc_put d ?p w"
    using doc_get_put [OF d] by blast
  have "run_events J (diff_json_value J path (JArray os) (JArray es)) d =
    Option.bind (run_events J (concat (map ?ev (enumerate 0 (zip os es)))) d)
      (\<lambda>d. Option.bind (run_events J ?del d) (run_events J ?ins))"
    using neq by (simp add: run_events_append_fun enumerate_drop Let_def del: json_eq.simps)
  also have "\<dots> = (if ?P \<and> length os \<le> Suc (length es) then doc_put d ?p (doc (JArray es)) else None)"
  proof (cases ?P)
    case True
    show ?thesis
      by (simp only: 1 eqTrueI [OF True] if_True d' Option.bind.bind_lunit 2 [OF d'(2)] doc.simps simp_thms)
  next
    case False
    then have "?P = False" by blast
    then show ?thesis by (simp only: 1 if_False Option.bind.bind_lzero simp_thms)
  qed
  finally show ?thesis using neq by (simp add: conj_commute del: json_eq.simps diff_json_value.simps)
qed

lemma diff_equal:
  assumes "json_eq a b" "json_wf a" "json_wf b" "doc_get d p = Some (doc a)"
  shows "Some d = doc_put d p (doc b)"
  using assms by (simp add: json_eq_doc doc_put_id)

lemma diff_leaf:
  assumes "json_laws J N" "json_ok N a" "json_ok N b" "doc_get d (tokens path) = Some (doc a)"
  shows "run_events J (if json_eq a b then [] else [json_replace J path a b]) d = doc_put d (tokens path) (doc b)"
  using assms diff_equal [of a b d "tokens path"] by (simp add: event_op_replace)

lemma diff_applies:
  "json_laws J N \<Longrightarrow> json_ok N a \<Longrightarrow> json_ok N b \<Longrightarrow> doc_get d (tokens path) = Some (doc a) \<Longrightarrow>
    run_events J (diff_json_value J path a b) d =
      (if patchable a b then doc_put d (tokens path) (doc b) else None)"
proof (induction J path a b arbitrary: d rule: diff_json_value.induct)
  case (1 J path om em)
  show ?case
  proof (cases "json_eq (JObject om) (JObject em)")
    case True
    with 1(3,4,5) diff_equal [OF True] show ?thesis by (simp del: json_eq.simps)
  next
    case False
    show ?thesis
    proof (rule diff_object [OF 1(2,3,4) _ False 1(5)])
      fix k v w d'
      assume "(k, v) \<in> set om" "map_of em k = Some w" "doc_get d' (tokens (path @ [JsonKey k])) = Some (doc v)"
      moreover from this have "json_ok N v" "json_ok N w"
        using 1(3,4) by (auto dest: map_of_SomeD)
      ultimately show "run_events J (diff_json_value J (path @ [JsonKey k]) v w) d' =
          (if patchable v w then doc_put d' (tokens (path @ [JsonKey k])) (doc w) else None)"
        using 1(1) [OF False _ refl _ 1(2)] by blast
    qed
  qed
next
  case (2 J path os es)
  show ?case
  proof (cases "json_eq (JArray os) (JArray es)")
    case True
    with 2(3,4,5) diff_equal [OF True] show ?thesis by (simp del: json_eq.simps)
  next
    case False
    show ?thesis
    proof (rule diff_array [OF 2(2,3,4) _ False 2(5)])
      fix i v w d'
      assume *: "(i, v, w) \<in> set (enumerate 0 (zip os es))" "doc_get d' (tokens (path @ [JsonIndex i])) = Some (doc v)"
      then have "(v, w) \<in> set (zip os es)" by (metis enumerate_eq_zip set_zip_rightD)
      then have "json_ok N v" "json_ok N w"
        using 2(3,4) by (auto dest: set_zip_leftD set_zip_rightD)
      with * show "run_events J (diff_json_value J (path @ [JsonIndex i]) v w) d' =
          (if patchable v w then doc_put d' (tokens (path @ [JsonIndex i])) (doc w) else None)"
        using 2(1) [OF False refl _ refl refl 2(2)] by blast
    qed
  qed
qed (use diff_leaf in \<open>simp_all only: diff_json_value.simps patchable.simps if_True\<close>)

section \<open>The generated patch as a whole\<close>

definition good_event :: "json_lib \<Rightarrow> (string \<Rightarrow> bool) \<Rightarrow> diff_event \<Rightarrow> bool" where
  "good_event J N e \<longleftrightarrow> event_op J e \<noteq> None \<and>
     (\<forall>op. json_patch_operation_from_diff_event J e = Some op \<longrightarrow> json_all N (to_rfc6902_value J op))"

lemma node_value_all:
  assumes J: "json_laws J N" and v: "json_ok N v"
  shows "json_all N (parse_json_patch_value J (diff_node_to_json_patch_value J (json_value_to_diff_node J v)))"
  using node_value [OF assms] v json_all_doc parse_json_patch_value_wf [OF J] by metis

lemma good_insert: "json_laws J N \<Longrightarrow> json_ok N v \<Longrightarrow> good_event J N (json_insert J path v)"
  using node_value_all [of J N v]
  by (auto simp: good_event_def event_op_insert json_patch_operation_from_diff_event_def)

lemma good_replace: "json_laws J N \<Longrightarrow> json_ok N w \<Longrightarrow> good_event J N (json_replace J path v w)"
  using node_value_all [of J N w]
  by (auto simp: good_event_def event_op_replace json_patch_operation_from_diff_event_def)

lemma good_delete: "tokens path \<noteq> [] \<Longrightarrow> good_event J N (json_delete J path v)"
  by (auto simp: good_event_def event_op_delete json_patch_operation_from_diff_event_def)

lemma good_leaf:
  "json_laws J N \<Longrightarrow> json_ok N b \<Longrightarrow> e \<in> set (if json_eq a b then [] else [json_replace J path a b]) \<Longrightarrow> good_event J N e"
  by (auto simp: good_replace split: if_splits)

lemma diff_events_good:
  "json_laws J N \<Longrightarrow> json_ok N a \<Longrightarrow> json_ok N b \<Longrightarrow> e \<in> set (diff_json_value J path a b) \<Longrightarrow> good_event J N e"
proof (induction J path a b rule: diff_json_value.induct)
  case (1 J path om em)
  then have neq: "\<not> json_eq (JObject om) (JObject em)" by (auto simp del: json_eq.simps split: if_splits)
  consider (old) k v where "(k, v) \<in> set om"
      "e \<in> set (case map_of em k of Some w \<Rightarrow> diff_json_value J (path @ [JsonKey k]) v w
        | None \<Rightarrow> [json_delete J (path @ [JsonKey k]) v])"
    | (new) k w where "(k, w) \<in> set em" "e = json_insert J (path @ [JsonKey k]) w"
    using 1(5) neq by (auto simp del: json_eq.simps split: if_splits)
  then show ?case
  proof cases
    case old
    show ?thesis
    proof (cases "map_of em k")
      case (Some w)
      then have "json_ok N v" "json_ok N w" using 1(3,4) old(1) by (auto dest: map_of_SomeD)
      then show ?thesis using 1(1) [OF neq old(1) refl Some 1(2)] old(2) Some by simp
    qed (use old in \<open>simp add: good_delete\<close>)
  next
    case new
    then show ?thesis using 1(2) json_ok_member [OF 1(4) new(1)] by (simp add: good_insert)
  qed
next
  case (2 J path os es)
  then have neq: "\<not> json_eq (JArray os) (JArray es)" by (auto simp del: json_eq.simps split: if_splits)
  let ?n = "min (length os) (length es)"
  consider (common) i v w where "(i, v, w) \<in> set (enumerate 0 (zip os es))" "e \<in> set (diff_json_value J (path @ [JsonIndex i]) v w)"
    | (old) i v where "e = json_delete J (path @ [JsonIndex i]) v"
    | (new) i w where "(i, w) \<in> set (drop ?n (enumerate 0 es))" "e = json_insert J (path @ [JsonIndex i]) w"
    using 2(5) neq by (auto simp del: json_eq.simps simp: Let_def split: if_splits)
  then show ?case
  proof cases
    case common
    then have "(v, w) \<in> set (zip os es)" by (metis enumerate_eq_zip set_zip_rightD)
    then have "json_ok N v" "json_ok N w" using 2(3,4) by (auto dest: set_zip_leftD set_zip_rightD)
    then show ?thesis using 2(1) [OF neq refl common(1) refl refl 2(2)] common(2) by simp
  next
    case old
    then show ?thesis by (simp add: good_delete)
  next
    case new
    then have "w \<in> set es" by (metis enumerate_eq_zip in_set_dropD set_zip_rightD)
    then have "json_ok N w" using 2(4) by simp
    with new(2) 2(2) show ?thesis by (simp add: good_insert)
  qed
qed (use good_leaf in \<open>simp_all only: diff_json_value.simps\<close>)

lemma run_events_ops:
  "\<forall>e \<in> set es. event_op J e \<noteq> None \<Longrightarrow>
   \<exists>ops. those (map (\<lambda>op. rfc_op (doc (to_rfc6902_value J op))) (json_patch_operations_from_diff_events J es)) = Some ops
     \<and> rfc6902_apply ops = run_events J es"
proof (induction es)
  case Nil
  have "rfc6902_apply [] = run_events J []" by (rule ext) simp
  moreover have "json_patch_operations_from_diff_events J [] = []"
    by (simp add: json_patch_operations_from_diff_events_def List.map_filter_simps)
  ultimately show ?case by (intro exI [of _ "[]"]) (simp only: list.map those.simps simp_thms)
next
  case (Cons e es)
  then obtain ops where ops: "those (map (\<lambda>op. rfc_op (doc (to_rfc6902_value J op)))
      (json_patch_operations_from_diff_events J es)) = Some ops" "rfc6902_apply ops = run_events J es" by auto
  obtain op p where "json_patch_operation_from_diff_event J e = Some op" "rfc_op (doc (to_rfc6902_value J op)) = Some p"
    using Cons.prems by (auto simp: event_op_def bind_eq_Some_conv)
  moreover from this have "rfc6902_apply (p # ops) = run_events J (e # es)"
    by (intro ext) (simp add: event_op_def ops(2))
  ultimately show ?case
    using ops(1)
    by (intro exI [of _ "p # ops"])
      (simp add: json_patch_operations_from_diff_events_def List.map_filter_simps del: run_events.simps rfc6902_apply.simps)
qed

text \<open>What the check of a patch answers, when applying the patch gives the edited document or nothing.\<close>

lemma validate_run:
  assumes J: "json_laws J N" and P: "patch_laws J P"
    and docs: "js_from_str J original = Some a" "js_from_str J edited = Some b" "json_all N b"
    and good: "\<forall>e \<in> set es. good_event J N e"
    and run: "run_events J es (doc a) = (if Q then Some (doc b) else None)"
  shows "validate_json_patch_operations J P original edited (json_patch_operations_from_diff_events J es) \<longleftrightarrow> Q"
proof -
  let ?ops = "json_patch_operations_from_diff_events J es"
  let ?text = "json_patch_operations_to_rfc6902_json J ?ops"
  have wf: "json_wf a" "json_wf b" using json_laws_wf [OF J] docs by blast+
  have "\<forall>op \<in> set ?ops. json_all N (to_rfc6902_value J op)"
    using good by (auto simp: json_patch_operations_from_diff_events_def map_filter_def good_event_def)
  then obtain ws where ws: "js_from_str J ?text = Some (JArray ws)"
    "map doc ws = map (\<lambda>op. doc (to_rfc6902_value J op)) ?ops"
    using written_patch [OF J] by metis
  obtain ops where ops: "those (map (\<lambda>op. rfc_op (doc (to_rfc6902_value J op))) ?ops) = Some ops"
    "rfc6902_apply ops = run_events J es"
    using run_events_ops [of es J] good by (auto simp: good_event_def)
  have "map rfc_op (map doc ws) = map (\<lambda>op. rfc_op (doc (to_rfc6902_value J op))) ?ops"
    by (simp add: ws(2) comp_def)
  then have "rfc_ops (doc (JArray ws)) = Some ops" using ops(1) by simp
  then obtain p where p: "jp_from_str P ?text = Some p"
    "map_option doc (jp_patch P a p) = run_events J es (doc a)" "pred_option json_wf (jp_patch P a p)"
    using P ws(1) wf(1) ops(2) unfolding patch_laws_def by metis
  show ?thesis
  proof (cases "jp_patch P a p")
    case None
    then have "\<not> Q" using p(2) run by auto
    with None p(1) docs show ?thesis
      by (simp add: validate_json_patch_operations_def apply_json_patch_rfc6902_json_def)
  next
    case (Some r)
    then have r: "Q" "doc r = doc b" "json_wf r" using p(2,3) run by (auto split: if_splits)
    then have "json_all N r" using docs(3) wf(2) by (simp add: json_all_doc)
    then obtain w where "js_from_str J (js_to_string J r) = Some w" "doc w = doc r" "json_wf w"
      using json_laws_print [OF J r(3)] by blast
    with r Some p(1) docs wf show ?thesis
      by (simp add: validate_json_patch_operations_def apply_json_patch_rfc6902_json_def json_laws_write [OF J]
          json_eq_doc)
  qed
qed

text \<open>C25: For two JSON bodies, the operations generated from their comparison pass the check that they
  turn the original body into the edited one exactly when no array of the original loses more than
  one item. Deletions are emitted with ascending original indices, so that in a longer run of them
  a later index is out of range when its turn comes.\<close>

theorem generated_patch_validates:
  assumes "json_laws J N" "patch_laws J P"
    and "js_from_str J original = Some a" "js_from_str J edited = Some b" "json_all N a" "json_all N b"
    and "push_json_body_diff_events J [] original edited content_type = (events, True)"
  shows "validate_json_patch_operations J P original edited (json_patch_operations_from_diff_events J events)
    \<longleftrightarrow> patchable a b"
proof (rule validate_run [OF assms(1-4,6)])
  have wf: "json_wf a" "json_wf b" using json_laws_wf [OF assms(1)] assms(3,4) by blast+
  have ev: "events = diff_json_value J [] a b"
    using assms(3,4,7) by (auto simp: push_json_body_diff_events_def split: if_splits)
  show "\<forall>e \<in> set events. good_event J N e"
    using diff_events_good assms(1,5,6) wf unfolding ev by blast
  show "run_events J events (doc a) = (if patchable a b then Some (doc b) else None)"
    using diff_applies [OF assms(1), of a b "doc a" "[]"] assms(5,6) wf unfolding ev by simp
qed

abbreviation shrunk_by_one :: "string \<times> string" where
  "shrunk_by_one \<equiv> (''[1,2,3,]'', ''[1,4,]'')"

abbreviation shrunk_by_two :: "string \<times> string" where
  "shrunk_by_two \<equiv> (''[1,2,3,]'', ''[1,]'')"

theorem generated_patch_validates_witness:
  "validate_json_patch_operations compact_json compact_patch (fst shrunk_by_one) (snd shrunk_by_one)
     (json_patch_operations_from_diff_events compact_json
       (fst (push_json_body_diff_events compact_json [] (fst shrunk_by_one) (snd shrunk_by_one) None)))
   \<and> \<not> validate_json_patch_operations compact_json compact_patch (fst shrunk_by_two) (snd shrunk_by_two)
     (json_patch_operations_from_diff_events compact_json
       (fst (push_json_body_diff_events compact_json [] (fst shrunk_by_two) (snd shrunk_by_two) None)))"
proof -
  let ?n = "\<lambda>t. JNumber t" and ?J = compact_json
  have parse: "js_from_str ?J ''[1,2,3,]'' = Some (JArray [?n ''1'', ?n ''2'', ?n ''3''])"
    "js_from_str ?J ''[1,4,]'' = Some (JArray [?n ''1'', ?n ''4''])"
    "js_from_str ?J ''[1,]'' = Some (JArray [?n ''1''])"
    by code_simp+
  have all: "json_all number_text (JArray [?n ''1'', ?n ''2'', ?n ''3''])"
    "json_all number_text (JArray [?n ''1'', ?n ''4''])" "json_all number_text (JArray [?n ''1''])"
    by code_simp+
  have looks: "looks_like_json None ''[1,2,3,]''" by code_simp
  have push: "push_json_body_diff_events ?J [] ''[1,2,3,]'' e None =
      (fst (push_json_body_diff_events ?J [] ''[1,2,3,]'' e None), True)"
    if "js_from_str ?J e \<noteq> None" for e
    using that parse(1) looks by (auto simp: push_json_body_diff_events_def)
  have "patchable (JArray [?n ''1'', ?n ''2'', ?n ''3'']) (JArray [?n ''1'', ?n ''4''])"
    "\<not> patchable (JArray [?n ''1'', ?n ''2'', ?n ''3'']) (JArray [?n ''1''])"
    by code_simp+
  then show ?thesis
    using generated_patch_validates [OF compact_json_laws compact_patch_laws parse(1,2) all(1,2) push]
      generated_patch_validates [OF compact_json_laws compact_patch_laws parse(1,3) all(1,3) push] parse
    by simp
qed

end
