(* ===== verification/Generator.thy ===== *)
theory Generator
  imports FilterManager JsonDiff
begin

text \<open>
  \<open>src/src/filters/generator.rs\<close>: filters made from selected text or from an edited message, and the
  Roto source written for them. The random part of a generated id is an argument, as are the two
  Unicode tables of the standard library: \<open>U\<close> (what \<open>{:?}\<close> escapes) and \<open>W\<close> (lower case beyond ASCII).
  Shown: the manager reads the front matter of a generated filter back line by line and finds a
  script in it, whatever the name, the triggers and the conditions are; a quoted string determines
  its value; and the filter made from an exchange selects that exchange.
\<close>

section \<open>Data\<close>

datatype generated_filter_phase = GenRequest | GenResponse

record generated_filter_trigger =
  gt_host :: "string list"
  gt_path :: "string list"
  gt_method :: "string list"

datatype generated_filter_condition =
    RequestHostEq string | RequestHostContains string
  | RequestPathEq string | RequestPathContains string
  | RequestMethodEq string | RequestQueryContains string
  | ResponseStatusEq nat | ResponseStatusAtLeast nat
  | ResponseContentTypeContains string
  | ResponseBodyContains string | ResponseBodyContainsAll "string list"

datatype generated_filter_action =
    GMark string
  | SetRequestHeader string string
  | RemoveRequestHeader string
  | SetRequestBodyText string string
  | ReplaceRequestBodyText string string
  | ReplaceRequestBodyTextOnce string string
  | ReplaceRequestBodyTextAll string string
  | ReplaceRequestBodyRegex string string
  | ReplaceRequestBodyTextWhenContains string string string
  | ReplaceRequestJsProperty string string string
  | ReplaceRequestCssDeclaration string string string
  | ReplaceRequestHtmlAttribute string string string string
  | ApplyRequestJsonPatch "generated_json_patch_operation list" string string
  | GSyntheticResponse nat string string
  | SetResponseStatus nat
  | SetResponseHeader string string
  | RemoveResponseHeader string
  | SetResponseBodyText string string
  | ReplaceResponseBodyText string string
  | ReplaceResponseBodyTextOnce string string
  | ReplaceResponseBodyTextAll string string
  | ReplaceResponseBodyRegex string string
  | ReplaceResponseBodyTextWhenContains string string string
  | ReplaceResponseJsProperty string string string
  | ReplaceResponseCssDeclaration string string string
  | ReplaceResponseHtmlAttribute string string string string
  | ApplyResponseJsonPatch "generated_json_patch_operation list" string string
  | GStop
  | GDrop

record generated_filter =
  gf_id :: "string option"
  gf_name :: string
  gf_priority :: int
  gf_enabled :: bool
  gf_phase :: generated_filter_phase
  gf_trigger :: generated_filter_trigger
  gf_conditions :: "generated_filter_condition list"
  gf_actions :: "generated_filter_action list"
  gf_notes :: "string list"

record generated_filter_builder =
  gb_name :: string
  gb_priority :: int
  gb_enabled :: bool
  gb_phase :: generated_filter_phase
  gb_trigger :: generated_filter_trigger
  gb_conditions :: "generated_filter_condition list"
  gb_actions :: "generated_filter_action list"

datatype generated_diff_confidence = DiffLow | DiffMedium | DiffHigh
datatype generated_diff_anchor_source = AnchorLine | AnchorPrefix | AnchorWholeOriginal | AnchorNone
datatype generated_diff_strategy = LineAnchor

record generated_diff_anchor =
  gda_text :: string
  gda_confidence :: generated_diff_confidence
  gda_source :: generated_diff_anchor_source

record generated_rewrite_request_input =
  gri_host :: string
  gri_method :: string
  gri_path :: string
  gri_query :: string
  gri_body_text :: "string option"

record generated_rewrite_response_input =
  gsi_status :: nat
  gsi_content_type :: "string option"
  gsi_body_text :: "string option"

record generated_rewrite_request =
  grr_host :: string
  grr_original_method :: string
  grr_edited_method :: string
  grr_original_path :: string
  grr_edited_path :: string
  grr_original_query :: string
  grr_edited_query :: string
  grr_original_body_text :: "string option"
  grr_edited_body_text :: "string option"
  grr_diff_strategy :: generated_diff_strategy

record generated_rewrite_response =
  grs_host :: string
  grs_request_method :: string
  grs_request_path :: string
  grs_original_status :: nat
  grs_edited_status :: nat
  grs_original_content_type :: "string option"
  grs_edited_content_type :: "string option"
  grs_original_body_text :: "string option"
  grs_edited_body_text :: "string option"
  grs_diff_strategy :: generated_diff_strategy

datatype generated_rewrite_draft =
    DraftRequest generated_rewrite_request
  | DraftResponse generated_rewrite_response

datatype generated_filter_selection_target =
    SelRequestHost | SelRequestPath | SelRequestQuery | SelRequestMethod
  | SelResponseStatus | SelResponseContentType | SelResponseBody

section \<open>Text\<close>

definition show_hex :: "nat \<Rightarrow> string" where
  "show_hex n = (if n < 16 then [hex_digit n] else [hex_digit (n div 16), hex_digit (n mod 16)])"

text \<open>One character of a quoted string; the control characters are those below the blank, the delete
  character and the block from U+0080 to U+009F.\<close>

definition quoted_char :: "string \<Rightarrow> string" where
  "quoted_char ch = (case ch of
     [c] \<Rightarrow>
       if c = CHR 0x5C then [CHR 0x5C, CHR 0x5C]
       else if c = CHR 0x22 then [CHR 0x5C, CHR 0x22]
       else if c = CHR 0x0A then [CHR 0x5C, CHR ''n'']
       else if c = CHR 0x0D then [CHR 0x5C, CHR ''r'']
       else if c = CHR 0x09 then [CHR 0x5C, CHR ''t'']
       else if byte c < 32 \<or> byte c = 127 then CHR 0x5C # CHR ''u'' # CHR 0x7B # show_hex (byte c) @ [CHR 0x7D]
       else [c]
   | [a, b] \<Rightarrow>
       if byte a = 194 \<and> 128 \<le> byte b \<and> byte b < 160
       then CHR 0x5C # CHR ''u'' # CHR 0x7B # show_hex (byte b) @ [CHR 0x7D] else [a, b]
   | _ \<Rightarrow> ch)"

definition quoted_string :: "string \<Rightarrow> string" where
  "quoted_string val = CHR 0x22 # concat (map quoted_char (str_chars val)) @ [CHR 0x22]"

definition toml_string :: "string \<Rightarrow> string" where
  "toml_string val = quoted_string val"

definition roto_string :: "string \<Rightarrow> string" where
  "roto_string val = quoted_string val"

definition toml_string_array :: "string list \<Rightarrow> string" where
  "toml_string_array vals = ''['' @ join_with '', '' (map toml_string vals) @ '']''"

definition is_ascii_alphanumeric_char :: "string \<Rightarrow> bool" where
  "is_ascii_alphanumeric_char ch = (case ch of
     [c] \<Rightarrow> is_ascii_digit c \<or> (65 \<le> byte c \<and> byte c \<le> 90) \<or> (97 \<le> byte c \<and> byte c \<le> 122)
   | _ \<Rightarrow> False)"

definition lower_chars :: "(string \<Rightarrow> string list) \<Rightarrow> string \<Rightarrow> string list" where
  "lower_chars W ch = (case ch of [c] \<Rightarrow> [[ascii_lower c]] | _ \<Rightarrow> W ch)"

fun slug_loop :: "string \<Rightarrow> bool \<Rightarrow> string list \<Rightarrow> string" where
  "slug_loop out last_was_dash [] = out"
| "slug_loop out last_was_dash (ch # chs) =
     (if is_ascii_alphanumeric_char ch then slug_loop (out @ ch) False chs
      else if \<not> last_was_dash then slug_loop (out @ ''-'') True chs
      else slug_loop out last_was_dash chs)"

definition trim_dashes :: "string \<Rightarrow> string" where
  "trim_dashes s = rev (dropWhile (\<lambda>c. c = CHR ''-'') (rev (dropWhile (\<lambda>c. c = CHR ''-'') s)))"

definition slugify_label :: "(string \<Rightarrow> string list) \<Rightarrow> string \<Rightarrow> string" where
  "slugify_label W name = trim_dashes (slug_loop [] False (concat (map (lower_chars W) (str_chars name))))"

definition generated_mark_label :: "(string \<Rightarrow> string list) \<Rightarrow> string \<Rightarrow> string" where
  "generated_mark_label W name =
     (let slug = slugify_label W name in if slug = [] then ''generated'' else ''generated-'' @ slug)"

definition choose_original_host :: "string \<Rightarrow> string \<Rightarrow> string" where
  "choose_original_host original_host edited_host = (if trim original_host \<noteq> [] then original_host else edited_host)"

definition take_chars :: "nat \<Rightarrow> string \<Rightarrow> string" where
  "take_chars n s = concat (take n (str_chars s))"

fun anchor_line :: "string \<Rightarrow> string list \<Rightarrow> string option" where
  "anchor_line edited [] = None"
| "anchor_line edited (line # lines) =
     (if length (str_chars (trim line)) < 8 then anchor_line edited lines
      else (let anchor = take_chars 96 (trim line) in
            if contains_sub edited anchor then Some anchor else anchor_line edited lines))"

definition common_text_anchor :: "string \<Rightarrow> string \<Rightarrow> string option" where
  "common_text_anchor original edited =
     (case anchor_line edited (str_lines original) of
        Some anchor \<Rightarrow> Some anchor
      | None \<Rightarrow>
          (let anchor = take_chars 96 original in
           if 8 \<le> length (str_chars anchor) then Some anchor else None))"

definition line_diff_anchor :: "string \<Rightarrow> string \<Rightarrow> generated_diff_anchor option" where
  "line_diff_anchor original edited =
     map_option (\<lambda>text. \<lparr>gda_text = text,
        gda_confidence = if contains_sub edited text then DiffHigh else DiffLow, gda_source = AnchorLine\<rparr>)
       (common_text_anchor original edited)"

definition diff_anchor :: "string \<Rightarrow> string \<Rightarrow> generated_diff_strategy \<Rightarrow> generated_diff_anchor option" where
  "diff_anchor original edited strategy = (case strategy of LineAnchor \<Rightarrow> line_diff_anchor original edited)"

definition response_body_rewrite_anchor ::
  "string option \<Rightarrow> string option \<Rightarrow> generated_diff_strategy \<Rightarrow> generated_filter_condition option" where
  "response_body_rewrite_anchor original_body_text edited_body_text strategy =
     Option.bind original_body_text (\<lambda>o_text. Option.bind edited_body_text (\<lambda>e_text.
       let original = trim o_text; edited = trim e_text in
       if original = [] \<or> original = edited then None
       else map_option (\<lambda>anchor. ResponseBodyContains (gda_text anchor)) (diff_anchor original edited strategy)))"

definition rsplit_once :: "char \<Rightarrow> string \<Rightarrow> (string \<times> string) option" where
  "rsplit_once c s = map_option (\<lambda>(a, b). (rev b, rev a)) (split_once c (rev s))"

definition path_trigger_for_original_path :: "string \<Rightarrow> string" where
  "path_trigger_for_original_path path =
     (if path = ''/'' \<or> path = [] then ''*''
      else if ends_with path ''/'' then path @ ''*''
      else (case rsplit_once (CHR ''/'') path of
          Some (front, _) \<Rightarrow> if front = [] then ''/*'' else front @ ''/*''
        | None \<Rightarrow> ''*''))"

definition content_type_prefix :: "string \<Rightarrow> string" where
  "content_type_prefix content_type = trim (hd (split_char (CHR '';'') content_type))"

definition normalize_selected_text :: "string \<Rightarrow> string option" where
  "normalize_selected_text selected_text =
     (let t = trim selected_text in if t = [] then None else Some (take_chars 4096 t))"

section \<open>The builder\<close>

definition default_generated_trigger :: generated_filter_trigger where
  "default_generated_trigger = \<lparr>gt_host = [''*''], gt_path = [''*''], gt_method = []\<rparr>"

definition normalized_trigger :: "generated_filter_trigger \<Rightarrow> generated_filter_trigger" where
  "normalized_trigger t =
     (let t1 = (if gt_host t = [] then t\<lparr>gt_host := [''*'']\<rparr> else t) in
      if gt_path t1 = [] then t1\<lparr>gt_path := [''*'']\<rparr> else t1)"

fun as_roto_phase :: "generated_filter_phase \<Rightarrow> string" where
  "as_roto_phase GenRequest = ''request''"
| "as_roto_phase GenResponse = ''response''"

fun default_phase :: "generated_filter_selection_target \<Rightarrow> generated_filter_phase" where
  "default_phase SelRequestHost = GenRequest"
| "default_phase SelRequestPath = GenRequest"
| "default_phase SelRequestQuery = GenRequest"
| "default_phase SelRequestMethod = GenRequest"
| "default_phase SelResponseStatus = GenResponse"
| "default_phase SelResponseContentType = GenResponse"
| "default_phase SelResponseBody = GenResponse"

definition new_builder :: "string \<Rightarrow> generated_filter_phase \<Rightarrow> generated_filter_builder" where
  "new_builder name phase = \<lparr>gb_name = name, gb_priority = 9000, gb_enabled = True, gb_phase = phase,
     gb_trigger = default_generated_trigger, gb_conditions = [], gb_actions = []\<rparr>"

definition builder_priority :: "int \<Rightarrow> generated_filter_builder \<Rightarrow> generated_filter_builder" where
  "builder_priority priority b = b\<lparr>gb_priority := priority\<rparr>"

definition builder_enabled :: "bool \<Rightarrow> generated_filter_builder \<Rightarrow> generated_filter_builder" where
  "builder_enabled enabled b = b\<lparr>gb_enabled := enabled\<rparr>"

definition request_context :: "string \<Rightarrow> string \<Rightarrow> string \<Rightarrow> generated_filter_builder \<Rightarrow> generated_filter_builder" where
  "request_context host path meth b = b\<lparr>gb_trigger := \<lparr>gt_host = [host], gt_path = [path], gt_method = [meth]\<rparr>\<rparr>"

definition host_triggers :: "string list \<Rightarrow> generated_filter_builder \<Rightarrow> generated_filter_builder" where
  "host_triggers hosts b = b\<lparr>gb_trigger := (gb_trigger b)\<lparr>gt_host := hosts\<rparr>\<rparr>"

definition path_triggers :: "string list \<Rightarrow> generated_filter_builder \<Rightarrow> generated_filter_builder" where
  "path_triggers paths b = b\<lparr>gb_trigger := (gb_trigger b)\<lparr>gt_path := paths\<rparr>\<rparr>"

definition method_triggers :: "string list \<Rightarrow> generated_filter_builder \<Rightarrow> generated_filter_builder" where
  "method_triggers methods b = b\<lparr>gb_trigger := (gb_trigger b)\<lparr>gt_method := methods\<rparr>\<rparr>"

definition host_trigger :: "string \<Rightarrow> generated_filter_builder \<Rightarrow> generated_filter_builder" where
  "host_trigger host b = host_triggers [host] b"

definition path_trigger :: "string \<Rightarrow> generated_filter_builder \<Rightarrow> generated_filter_builder" where
  "path_trigger path b = path_triggers [path] b"

definition method_trigger :: "string \<Rightarrow> generated_filter_builder \<Rightarrow> generated_filter_builder" where
  "method_trigger meth b = method_triggers [meth] b"

definition builder_condition :: "generated_filter_condition \<Rightarrow> generated_filter_builder \<Rightarrow> generated_filter_builder" where
  "builder_condition condition b = b\<lparr>gb_conditions := gb_conditions b @ [condition]\<rparr>"

definition builder_action :: "generated_filter_action \<Rightarrow> generated_filter_builder \<Rightarrow> generated_filter_builder" where
  "builder_action act b = b\<lparr>gb_actions := gb_actions b @ [act]\<rparr>"

definition builder_host_eq :: "string \<Rightarrow> generated_filter_builder \<Rightarrow> generated_filter_builder" where
  "builder_host_eq val b = builder_condition (RequestHostEq val) b"

definition builder_host_contains :: "string \<Rightarrow> generated_filter_builder \<Rightarrow> generated_filter_builder" where
  "builder_host_contains val b = builder_condition (RequestHostContains val) b"

definition builder_path_eq :: "string \<Rightarrow> generated_filter_builder \<Rightarrow> generated_filter_builder" where
  "builder_path_eq val b = builder_condition (RequestPathEq val) b"

definition builder_path_contains :: "string \<Rightarrow> generated_filter_builder \<Rightarrow> generated_filter_builder" where
  "builder_path_contains val b = builder_condition (RequestPathContains val) b"

definition builder_method_eq :: "string \<Rightarrow> generated_filter_builder \<Rightarrow> generated_filter_builder" where
  "builder_method_eq val b = builder_condition (RequestMethodEq val) b"

definition builder_query_contains :: "string \<Rightarrow> generated_filter_builder \<Rightarrow> generated_filter_builder" where
  "builder_query_contains val b = builder_condition (RequestQueryContains val) b"

definition builder_status_eq :: "nat \<Rightarrow> generated_filter_builder \<Rightarrow> generated_filter_builder" where
  "builder_status_eq val b = builder_condition (ResponseStatusEq val) b"

definition builder_status_at_least :: "nat \<Rightarrow> generated_filter_builder \<Rightarrow> generated_filter_builder" where
  "builder_status_at_least val b = builder_condition (ResponseStatusAtLeast val) b"

definition builder_content_type_contains :: "string \<Rightarrow> generated_filter_builder \<Rightarrow> generated_filter_builder" where
  "builder_content_type_contains val b = builder_condition (ResponseContentTypeContains val) b"

definition builder_body_contains :: "string \<Rightarrow> generated_filter_builder \<Rightarrow> generated_filter_builder" where
  "builder_body_contains val b = builder_condition (ResponseBodyContains val) b"

definition builder_body_contains_all :: "string list \<Rightarrow> generated_filter_builder \<Rightarrow> generated_filter_builder" where
  "builder_body_contains_all val b = builder_condition (ResponseBodyContainsAll val) b"

definition builder_mark :: "string \<Rightarrow> generated_filter_builder \<Rightarrow> generated_filter_builder" where
  "builder_mark label b = builder_action (GMark label) b"

definition builder_set_request_header :: "string \<Rightarrow> string \<Rightarrow> generated_filter_builder \<Rightarrow> generated_filter_builder" where
  "builder_set_request_header name val b = builder_action (SetRequestHeader name val) b"

definition builder_remove_request_header :: "string \<Rightarrow> generated_filter_builder \<Rightarrow> generated_filter_builder" where
  "builder_remove_request_header name b = builder_action (RemoveRequestHeader name) b"

definition builder_set_request_body_text :: "string \<Rightarrow> string \<Rightarrow> generated_filter_builder \<Rightarrow> generated_filter_builder" where
  "builder_set_request_body_text body content_type b = builder_action (SetRequestBodyText body content_type) b"

definition builder_replace_request_body_text :: "string \<Rightarrow> string \<Rightarrow> generated_filter_builder \<Rightarrow> generated_filter_builder" where
  "builder_replace_request_body_text old new b = builder_action (ReplaceRequestBodyText old new) b"

definition builder_replace_request_body_text_once :: "string \<Rightarrow> string \<Rightarrow> generated_filter_builder \<Rightarrow> generated_filter_builder" where
  "builder_replace_request_body_text_once old new b = builder_action (ReplaceRequestBodyTextOnce old new) b"

definition builder_replace_request_body_text_all :: "string \<Rightarrow> string \<Rightarrow> generated_filter_builder \<Rightarrow> generated_filter_builder" where
  "builder_replace_request_body_text_all old new b = builder_action (ReplaceRequestBodyTextAll old new) b"

definition builder_replace_request_body_regex :: "string \<Rightarrow> string \<Rightarrow> generated_filter_builder \<Rightarrow> generated_filter_builder" where
  "builder_replace_request_body_regex pattern replacement b = builder_action (ReplaceRequestBodyRegex pattern replacement) b"

definition builder_replace_request_body_text_when_contains :: "string \<Rightarrow> string \<Rightarrow> string \<Rightarrow> generated_filter_builder \<Rightarrow> generated_filter_builder" where
  "builder_replace_request_body_text_when_contains anchor old new b = builder_action (ReplaceRequestBodyTextWhenContains anchor old new) b"

definition builder_apply_request_json_patch :: "generated_json_patch_operation list \<Rightarrow> string \<Rightarrow> string \<Rightarrow> generated_filter_builder \<Rightarrow> generated_filter_builder" where
  "builder_apply_request_json_patch operations resulting_body content_type b = builder_action (ApplyRequestJsonPatch operations resulting_body content_type) b"

definition builder_synthetic_response :: "nat \<Rightarrow> string \<Rightarrow> string \<Rightarrow> generated_filter_builder \<Rightarrow> generated_filter_builder" where
  "builder_synthetic_response status body content_type b = builder_action (GSyntheticResponse status body content_type) b"

definition builder_set_response_status :: "nat \<Rightarrow> generated_filter_builder \<Rightarrow> generated_filter_builder" where
  "builder_set_response_status status b = builder_action (SetResponseStatus status) b"

definition builder_set_response_header :: "string \<Rightarrow> string \<Rightarrow> generated_filter_builder \<Rightarrow> generated_filter_builder" where
  "builder_set_response_header name val b = builder_action (SetResponseHeader name val) b"

definition builder_remove_response_header :: "string \<Rightarrow> generated_filter_builder \<Rightarrow> generated_filter_builder" where
  "builder_remove_response_header name b = builder_action (RemoveResponseHeader name) b"

definition builder_set_response_body_text :: "string \<Rightarrow> string \<Rightarrow> generated_filter_builder \<Rightarrow> generated_filter_builder" where
  "builder_set_response_body_text body content_type b = builder_action (SetResponseBodyText body content_type) b"

definition builder_replace_response_body_text :: "string \<Rightarrow> string \<Rightarrow> generated_filter_builder \<Rightarrow> generated_filter_builder" where
  "builder_replace_response_body_text old new b = builder_action (ReplaceResponseBodyText old new) b"

definition builder_replace_response_body_text_once :: "string \<Rightarrow> string \<Rightarrow> generated_filter_builder \<Rightarrow> generated_filter_builder" where
  "builder_replace_response_body_text_once old new b = builder_action (ReplaceResponseBodyTextOnce old new) b"

definition builder_replace_response_body_text_all :: "string \<Rightarrow> string \<Rightarrow> generated_filter_builder \<Rightarrow> generated_filter_builder" where
  "builder_replace_response_body_text_all old new b = builder_action (ReplaceResponseBodyTextAll old new) b"

definition builder_replace_response_body_regex :: "string \<Rightarrow> string \<Rightarrow> generated_filter_builder \<Rightarrow> generated_filter_builder" where
  "builder_replace_response_body_regex pattern replacement b = builder_action (ReplaceResponseBodyRegex pattern replacement) b"

definition builder_replace_response_body_text_when_contains :: "string \<Rightarrow> string \<Rightarrow> string \<Rightarrow> generated_filter_builder \<Rightarrow> generated_filter_builder" where
  "builder_replace_response_body_text_when_contains anchor old new b = builder_action (ReplaceResponseBodyTextWhenContains anchor old new) b"

definition builder_apply_response_json_patch :: "generated_json_patch_operation list \<Rightarrow> string \<Rightarrow> string \<Rightarrow> generated_filter_builder \<Rightarrow> generated_filter_builder" where
  "builder_apply_response_json_patch operations resulting_body content_type b = builder_action (ApplyResponseJsonPatch operations resulting_body content_type) b"

definition builder_stop :: "generated_filter_builder \<Rightarrow> generated_filter_builder" where
  "builder_stop b = builder_action GStop b"

definition builder_drop :: "generated_filter_builder \<Rightarrow> generated_filter_builder" where
  "builder_drop b = builder_action GDrop b"

definition selected_text ::
  "generated_filter_selection_target \<Rightarrow> string \<Rightarrow> generated_filter_builder \<Rightarrow> generated_filter_builder" where
  "selected_text target text b =
     (case normalize_selected_text text of
        None \<Rightarrow> b
      | Some t \<Rightarrow>
          (let b' = b\<lparr>gb_phase := default_phase target\<rparr> in
           case target of
             SelRequestHost \<Rightarrow> builder_condition (RequestHostContains t) b'
           | SelRequestPath \<Rightarrow> builder_condition (RequestPathContains t) b'
           | SelRequestQuery \<Rightarrow> builder_condition (RequestQueryContains t) b'
           | SelRequestMethod \<Rightarrow> builder_condition (RequestMethodEq t) b'
           | SelResponseStatus \<Rightarrow>
               (case parse_uint u16_max t of
                  Some status \<Rightarrow> builder_condition (ResponseStatusEq status) b'
                | None \<Rightarrow> b')
           | SelResponseContentType \<Rightarrow> builder_condition (ResponseContentTypeContains t) b'
           | SelResponseBody \<Rightarrow> builder_condition (ResponseBodyContains t) b'))"

definition from_selected_text ::
  "string \<Rightarrow> generated_filter_selection_target \<Rightarrow> string \<Rightarrow> generated_filter_builder" where
  "from_selected_text name target text = selected_text target text (new_builder name (default_phase target))"

definition build :: "(string \<Rightarrow> string list) \<Rightarrow> string \<Rightarrow> generated_filter_builder \<Rightarrow> generated_filter" where
  "build W uuid b = \<lparr>gf_id = Some (''inspect-generated:'' @ uuid), gf_name = gb_name b, gf_priority = gb_priority b,
     gf_enabled = gb_enabled b, gf_phase = gb_phase b, gf_trigger = normalized_trigger (gb_trigger b),
     gf_conditions = gb_conditions b,
     gf_actions = (if gb_actions b = [] then [GMark (generated_mark_label W (gb_name b))] else gb_actions b),
     gf_notes = []\<rparr>"

definition marking_filter :: "string \<Rightarrow> generated_filter_phase \<Rightarrow> generated_filter_condition \<Rightarrow> string \<Rightarrow> generated_filter" where
  "marking_filter name phase condition mark = \<lparr>gf_id = None, gf_name = name, gf_priority = 9000, gf_enabled = True,
     gf_phase = phase, gf_trigger = default_generated_trigger, gf_conditions = [condition],
     gf_actions = [GMark mark], gf_notes = []\<rparr>"

definition response_body_contains :: "string \<Rightarrow> string \<Rightarrow> string \<Rightarrow> generated_filter" where
  "response_body_contains name fragment mark = marking_filter name GenResponse (ResponseBodyContains fragment) mark"

definition response_status :: "string \<Rightarrow> nat \<Rightarrow> string \<Rightarrow> generated_filter" where
  "response_status name status mark = marking_filter name GenResponse (ResponseStatusEq status) mark"

definition request_path_contains :: "string \<Rightarrow> string \<Rightarrow> string \<Rightarrow> generated_filter" where
  "request_path_contains name fragment mark = marking_filter name GenRequest (RequestPathContains fragment) mark"

definition add_rewrite_note :: "string \<Rightarrow> generated_filter \<Rightarrow> generated_filter" where
  "add_rewrite_note note f = f\<lparr>gf_notes := gf_notes f @ [note]\<rparr>"

definition add_action :: "generated_filter_action \<Rightarrow> generated_filter \<Rightarrow> generated_filter" where
  "add_action act f = f\<lparr>gf_actions := gf_actions f @ [act]\<rparr>"

definition extend_actions :: "generated_filter_action list \<Rightarrow> generated_filter \<Rightarrow> generated_filter" where
  "extend_actions acts f = f\<lparr>gf_actions := gf_actions f @ acts\<rparr>"

fun is_response_body_rewrite :: "generated_filter_action \<Rightarrow> bool" where
  "is_response_body_rewrite (SetResponseBodyText _ _) = True"
| "is_response_body_rewrite (ReplaceResponseBodyText _ _) = True"
| "is_response_body_rewrite (ReplaceResponseBodyTextOnce _ _) = True"
| "is_response_body_rewrite (ReplaceResponseBodyTextAll _ _) = True"
| "is_response_body_rewrite (ReplaceResponseBodyRegex _ _) = True"
| "is_response_body_rewrite (ReplaceResponseBodyTextWhenContains _ _ _) = True"
| "is_response_body_rewrite (ReplaceResponseJsProperty _ _ _) = True"
| "is_response_body_rewrite (ReplaceResponseCssDeclaration _ _ _) = True"
| "is_response_body_rewrite (ReplaceResponseHtmlAttribute _ _ _ _) = True"
| "is_response_body_rewrite (ApplyResponseJsonPatch _ _ _) = True"
| "is_response_body_rewrite _ = False"

fun is_request_body_rewrite :: "generated_filter_action \<Rightarrow> bool" where
  "is_request_body_rewrite (SetRequestBodyText _ _) = True"
| "is_request_body_rewrite (ReplaceRequestBodyText _ _) = True"
| "is_request_body_rewrite (ReplaceRequestBodyTextOnce _ _) = True"
| "is_request_body_rewrite (ReplaceRequestBodyTextAll _ _) = True"
| "is_request_body_rewrite (ReplaceRequestBodyRegex _ _) = True"
| "is_request_body_rewrite (ReplaceRequestBodyTextWhenContains _ _ _) = True"
| "is_request_body_rewrite (ReplaceRequestJsProperty _ _ _) = True"
| "is_request_body_rewrite (ReplaceRequestCssDeclaration _ _ _) = True"
| "is_request_body_rewrite (ReplaceRequestHtmlAttribute _ _ _ _) = True"
| "is_request_body_rewrite (ApplyRequestJsonPatch _ _ _) = True"
| "is_request_body_rewrite _ = False"

definition replace_response_body_rewrite_action :: "generated_filter_action \<Rightarrow> generated_filter \<Rightarrow> generated_filter" where
  "replace_response_body_rewrite_action act f =
     f\<lparr>gf_actions := filter (\<lambda>a. \<not> is_response_body_rewrite a) (gf_actions f) @ [act]\<rparr>"

definition replace_request_body_rewrite_action :: "generated_filter_action \<Rightarrow> generated_filter \<Rightarrow> generated_filter" where
  "replace_request_body_rewrite_action act f =
     f\<lparr>gf_actions := filter (\<lambda>a. \<not> is_request_body_rewrite a) (gf_actions f) @ [act]\<rparr>"

section \<open>Filters from an edited message\<close>

definition new_request_input :: "string \<Rightarrow> string \<Rightarrow> string \<Rightarrow> string \<Rightarrow> generated_rewrite_request_input" where
  "new_request_input host meth path query =
     \<lparr>gri_host = host, gri_method = meth, gri_path = path, gri_query = query, gri_body_text = None\<rparr>"

definition request_input_changed :: "generated_rewrite_request_input \<Rightarrow> generated_rewrite_request_input \<Rightarrow> bool" where
  "request_input_changed a b \<longleftrightarrow> gri_host a \<noteq> gri_host b \<or> gri_method a \<noteq> gri_method b \<or> gri_path a \<noteq> gri_path b
     \<or> gri_query a \<noteq> gri_query b \<or> gri_body_text a \<noteq> gri_body_text b"

definition new_response_input :: "nat \<Rightarrow> generated_rewrite_response_input" where
  "new_response_input status = \<lparr>gsi_status = status, gsi_content_type = None, gsi_body_text = None\<rparr>"

definition response_input_changed :: "generated_rewrite_response_input \<Rightarrow> generated_rewrite_response_input \<Rightarrow> bool" where
  "response_input_changed a b \<longleftrightarrow> gsi_status a \<noteq> gsi_status b \<or> gsi_content_type a \<noteq> gsi_content_type b
     \<or> gsi_body_text a \<noteq> gsi_body_text b"

definition extract_request ::
  "generated_diff_strategy \<Rightarrow> generated_rewrite_request_input \<Rightarrow> generated_rewrite_request_input \<Rightarrow> generated_rewrite_request" where
  "extract_request strategy original edited =
     \<lparr>grr_host = choose_original_host (gri_host original) (gri_host edited),
      grr_original_method = gri_method original, grr_edited_method = gri_method edited,
      grr_original_path = gri_path original, grr_edited_path = gri_path edited,
      grr_original_query = gri_query original, grr_edited_query = gri_query edited,
      grr_original_body_text = gri_body_text original, grr_edited_body_text = gri_body_text edited,
      grr_diff_strategy = strategy\<rparr>"

definition extract_response ::
  "generated_diff_strategy \<Rightarrow> generated_rewrite_request_input \<Rightarrow> generated_rewrite_response_input
   \<Rightarrow> generated_rewrite_response_input \<Rightarrow> generated_rewrite_response" where
  "extract_response strategy request original edited =
     \<lparr>grs_host = gri_host request, grs_request_method = gri_method request, grs_request_path = gri_path request,
      grs_original_status = gsi_status original, grs_edited_status = gsi_status edited,
      grs_original_content_type = gsi_content_type original, grs_edited_content_type = gsi_content_type edited,
      grs_original_body_text = gsi_body_text original, grs_edited_body_text = gsi_body_text edited,
      grs_diff_strategy = strategy\<rparr>"

definition rewrite_request_changed :: "generated_rewrite_request \<Rightarrow> bool" where
  "rewrite_request_changed r \<longleftrightarrow> grr_original_method r \<noteq> grr_edited_method r \<or> grr_original_path r \<noteq> grr_edited_path r
     \<or> grr_original_query r \<noteq> grr_edited_query r \<or> grr_original_body_text r \<noteq> grr_edited_body_text r"

definition rewrite_response_changed :: "generated_rewrite_response \<Rightarrow> bool" where
  "rewrite_response_changed r \<longleftrightarrow> grs_original_status r \<noteq> grs_edited_status r
     \<or> grs_original_content_type r \<noteq> grs_edited_content_type r \<or> grs_original_body_text r \<noteq> grs_edited_body_text r"

fun draft_changed :: "generated_rewrite_draft \<Rightarrow> bool" where
  "draft_changed (DraftRequest r) = rewrite_request_changed r"
| "draft_changed (DraftResponse r) = rewrite_response_changed r"

definition debug_option :: "(string \<Rightarrow> string option) \<Rightarrow> string option \<Rightarrow> string" where
  "debug_option U v = (case v of None \<Rightarrow> ''None'' | Some s \<Rightarrow> ''Some('' @ debug_str U s @ '')'')"

definition request_builder :: "(string \<Rightarrow> string list) \<Rightarrow> string \<Rightarrow> generated_rewrite_request \<Rightarrow> generated_filter_builder" where
  "request_builder W name r =
     (let b0 = new_builder name GenRequest;
          b1 = host_trigger (grr_host r) b0;
          b2 = path_trigger (path_trigger_for_original_path (grr_original_path r)) b1;
          b3 = method_trigger (grr_original_method r) b2;
          b4 = builder_path_eq (grr_original_path r) b3;
          b5 = builder_mark (generated_mark_label W name) b4;
          b6 = (if grr_original_query r \<noteq> [] then builder_query_contains (grr_original_query r) b5 else b5);
          b7 = (if grr_original_method r \<noteq> grr_edited_method r
                then builder_condition (RequestMethodEq (grr_original_method r)) b6 else b6)
      in (case grr_edited_body_text r of
            Some body \<Rightarrow>
              if grr_original_body_text r \<noteq> grr_edited_body_text r
              then builder_set_request_body_text body ''text/plain; charset=utf-8'' b7 else b7
          | None \<Rightarrow> b7))"

definition request_rewrite_filter ::
  "(string \<Rightarrow> string option) \<Rightarrow> (string \<Rightarrow> string list) \<Rightarrow> string \<Rightarrow> string \<Rightarrow> generated_rewrite_request \<Rightarrow> generated_filter" where
  "request_rewrite_filter U W uuid name r =
     (let f0 = build W uuid (request_builder W name r);
          f1 = add_rewrite_note (''request rewrite draft: method '' @ debug_str U (grr_original_method r) @ '' -> ''
                 @ debug_str U (grr_edited_method r) @ '', path '' @ debug_str U (grr_original_path r) @ '' -> ''
                 @ debug_str U (grr_edited_path r) @ '', query '' @ debug_str U (grr_original_query r) @ '' -> ''
                 @ debug_str U (grr_edited_query r)) f0;
          f2 = (if grr_original_path r \<noteq> grr_edited_path r
                then add_rewrite_note ''request path changed, but set_path() is not exposed in the current Roto API'' f1 else f1);
          f3 = (if grr_original_query r \<noteq> grr_edited_query r
                then add_rewrite_note ''request query changed, but set_query() is not exposed in the current Roto API'' f2 else f2)
      in if grr_original_body_text r \<noteq> grr_edited_body_text r
         then add_rewrite_note ''request body changed; generated set_body_text() uses path/method/query conditions as the match anchor'' f3
         else f3)"

definition response_builder :: "(string \<Rightarrow> string list) \<Rightarrow> string \<Rightarrow> generated_rewrite_response \<Rightarrow> generated_filter_builder" where
  "response_builder W name r =
     (let b0 = new_builder name GenResponse;
          b1 = host_trigger (grs_host r) b0;
          b2 = path_trigger (path_trigger_for_original_path (grs_request_path r)) b1;
          b3 = method_trigger (grs_request_method r) b2;
          b4 = builder_status_eq (grs_original_status r) b3;
          b5 = builder_mark (generated_mark_label W name) b4;
          b6 = (case grs_original_content_type r of
                  Some content_type \<Rightarrow>
                    if trim content_type \<noteq> []
                    then builder_content_type_contains (content_type_prefix content_type) b5 else b5
                | None \<Rightarrow> b5);
          b7 = (case response_body_rewrite_anchor (grs_original_body_text r) (grs_edited_body_text r) (grs_diff_strategy r) of
                  Some anchor \<Rightarrow> builder_condition anchor b6
                | None \<Rightarrow> b6);
          b8 = (if grs_original_status r \<noteq> grs_edited_status r
                then builder_set_response_status (grs_edited_status r) b7 else b7)
      in (case grs_edited_body_text r of
            Some body \<Rightarrow>
              if grs_original_body_text r \<noteq> grs_edited_body_text r
              then builder_set_response_body_text body
                 (case grs_edited_content_type r of
                    Some ct \<Rightarrow> ct
                  | None \<Rightarrow> (case grs_original_content_type r of Some ct \<Rightarrow> ct | None \<Rightarrow> ''text/plain; charset=utf-8'')) b8
              else b8
          | None \<Rightarrow> b8))"

definition response_rewrite_filter ::
  "(string \<Rightarrow> string option) \<Rightarrow> (string \<Rightarrow> string list) \<Rightarrow> string \<Rightarrow> string \<Rightarrow> generated_rewrite_response \<Rightarrow> generated_filter" where
  "response_rewrite_filter U W uuid name r =
     add_rewrite_note (''response rewrite draft: status '' @ show_nat (grs_original_status r) @ '' -> ''
         @ show_nat (grs_edited_status r) @ '', content-type '' @ debug_option U (grs_original_content_type r) @ '' -> ''
         @ debug_option U (grs_edited_content_type r))
       (build W uuid (response_builder W name r))"

fun into_filter ::
  "(string \<Rightarrow> string option) \<Rightarrow> (string \<Rightarrow> string list) \<Rightarrow> string \<Rightarrow> string \<Rightarrow> generated_rewrite_draft \<Rightarrow> generated_filter" where
  "into_filter U W uuid name (DraftRequest r) = request_rewrite_filter U W uuid name r"
| "into_filter U W uuid name (DraftResponse r) = response_rewrite_filter U W uuid name r"

section \<open>Roto source\<close>

fun condition_roto :: "generated_filter_condition \<Rightarrow> string" where
  "condition_roto (RequestHostEq v) = ''req.host() == '' @ roto_string v"
| "condition_roto (RequestHostContains v) = ''req.host().contains('' @ roto_string v @ '')''"
| "condition_roto (RequestPathEq v) = ''req.path() == '' @ roto_string v"
| "condition_roto (RequestPathContains v) = ''req.path().contains('' @ roto_string v @ '')''"
| "condition_roto (RequestMethodEq v) = ''req.method() == '' @ roto_string v"
| "condition_roto (RequestQueryContains v) = ''req.query().contains('' @ roto_string v @ '')''"
| "condition_roto (ResponseStatusEq v) = ''res.status() == '' @ show_nat v"
| "condition_roto (ResponseStatusAtLeast v) = ''res.status() >= '' @ show_nat v"
| "condition_roto (ResponseContentTypeContains v) = ''res.content_type().contains('' @ roto_string v @ '')''"
| "condition_roto (ResponseBodyContains v) = ''res.body_text().contains('' @ roto_string v @ '')''"
| "condition_roto (ResponseBodyContainsAll vs) =
     (if vs = [] then ''true''
      else join_with (CHR 0x0A # ''        && '') (map (\<lambda>v. ''res.body_text().contains('' @ roto_string v @ '')'') vs))"

definition chained :: "string \<Rightarrow> string" where
  "chained s = CHR 0x0A # ''            '' @ s"

definition chain_call :: "string \<Rightarrow> string list \<Rightarrow> string" where
  "chain_call name args = chained (CHR ''.'' # name @ ''('' @ join_with '', '' args @ '')'')"

fun write_request_roto :: "json_lib \<Rightarrow> string \<Rightarrow> generated_filter_action \<Rightarrow> string" where
  "write_request_roto J out (GMark label) = out @ chain_call ''mark'' [roto_string label]"
| "write_request_roto J out (SetRequestHeader name val) = out @ chain_call ''set_header'' [roto_string name, roto_string val]"
| "write_request_roto J out (RemoveRequestHeader name) = out @ chain_call ''remove_header'' [roto_string name]"
| "write_request_roto J out (SetRequestBodyText body ct) = out @ chain_call ''set_body_text'' [roto_string body, roto_string ct]"
| "write_request_roto J out (ReplaceRequestBodyText old new) =
     out @ chain_call ''replace_body_text'' [roto_string old, roto_string new]"
| "write_request_roto J out (ReplaceRequestBodyTextOnce old new) =
     out @ chain_call ''replace_body_text_once'' [roto_string old, roto_string new]"
| "write_request_roto J out (ReplaceRequestBodyTextAll old new) =
     out @ chain_call ''replace_body_text_all'' [roto_string old, roto_string new]"
| "write_request_roto J out (ReplaceRequestBodyRegex pattern replacement) =
     out @ chain_call ''replace_body_regex'' [roto_string pattern, roto_string replacement]"
| "write_request_roto J out (ReplaceRequestBodyTextWhenContains anchor old new) =
     out @ chain_call ''replace_body_text_when_contains'' [roto_string anchor, roto_string old, roto_string new]"
| "write_request_roto J out (ReplaceRequestJsProperty property old new) =
     out @ chain_call ''replace_js_property'' [roto_string property, roto_string old, roto_string new]"
| "write_request_roto J out (ReplaceRequestCssDeclaration property old new) =
     out @ chain_call ''replace_css_declaration'' [roto_string property, roto_string old, roto_string new]"
| "write_request_roto J out (ReplaceRequestHtmlAttribute selector attribute old new) =
     out @ chain_call ''replace_html_attribute'' [roto_string selector, roto_string attribute, roto_string old, roto_string new]"
| "write_request_roto J out (ApplyRequestJsonPatch operations resulting_body ct) =
     write_json_patch_comments J out operations
     @ chain_call ''apply_json_patch'' [roto_string (json_patch_operations_to_rfc6902_json J operations), roto_string ct]"
| "write_request_roto J out (GSyntheticResponse status body ct) =
     out @ chain_call ''synthetic_response'' [show_nat status, roto_string body, roto_string ct]"
| "write_request_roto J out GStop = out @ chain_call ''stop'' []"
| "write_request_roto J out GDrop = out @ chain_call ''drop'' []"
| "write_request_roto J out _ = out @ chained ''// unsupported response action in request filter''"

fun write_response_roto :: "json_lib \<Rightarrow> string \<Rightarrow> generated_filter_action \<Rightarrow> string" where
  "write_response_roto J out (GMark label) = out @ chain_call ''mark'' [roto_string label]"
| "write_response_roto J out (SetResponseStatus status) = out @ chain_call ''set_status'' [show_nat status]"
| "write_response_roto J out (SetResponseHeader name val) = out @ chain_call ''set_header'' [roto_string name, roto_string val]"
| "write_response_roto J out (RemoveResponseHeader name) = out @ chain_call ''remove_header'' [roto_string name]"
| "write_response_roto J out (SetResponseBodyText body ct) = out @ chain_call ''set_body_text'' [roto_string body, roto_string ct]"
| "write_response_roto J out (ReplaceResponseBodyText old new) =
     out @ chain_call ''replace_body_text'' [roto_string old, roto_string new]"
| "write_response_roto J out (ReplaceResponseBodyTextOnce old new) =
     out @ chain_call ''replace_body_text_once'' [roto_string old, roto_string new]"
| "write_response_roto J out (ReplaceResponseBodyTextAll old new) =
     out @ chain_call ''replace_body_text_all'' [roto_string old, roto_string new]"
| "write_response_roto J out (ReplaceResponseBodyRegex pattern replacement) =
     out @ chain_call ''replace_body_regex'' [roto_string pattern, roto_string replacement]"
| "write_response_roto J out (ReplaceResponseBodyTextWhenContains anchor old new) =
     out @ chain_call ''replace_body_text_when_contains'' [roto_string anchor, roto_string old, roto_string new]"
| "write_response_roto J out (ReplaceResponseJsProperty property old new) =
     out @ chain_call ''replace_js_property'' [roto_string property, roto_string old, roto_string new]"
| "write_response_roto J out (ReplaceResponseCssDeclaration property old new) =
     out @ chain_call ''replace_css_declaration'' [roto_string property, roto_string old, roto_string new]"
| "write_response_roto J out (ReplaceResponseHtmlAttribute selector attribute old new) =
     out @ chain_call ''replace_html_attribute'' [roto_string selector, roto_string attribute, roto_string old, roto_string new]"
| "write_response_roto J out (ApplyResponseJsonPatch operations resulting_body ct) =
     write_json_patch_comments J out operations
     @ chain_call ''apply_json_patch'' [roto_string (json_patch_operations_to_rfc6902_json J operations), roto_string ct]"
| "write_response_roto J out GStop = out @ chain_call ''stop'' []"
| "write_response_roto J out GDrop = out @ chain_call ''drop'' []"
| "write_response_roto J out _ = out @ chained ''// unsupported request action in response filter''"

definition write_conditions :: "generated_filter \<Rightarrow> string" where
  "write_conditions f = join_with (CHR 0x0A # ''        && '') (map condition_roto (gf_conditions f))"

definition write_request_action_chain :: "json_lib \<Rightarrow> generated_filter \<Rightarrow> string" where
  "write_request_action_chain J f = foldl (write_request_roto J) ''RequestAction.pass()'' (gf_actions f)"

definition write_response_action_chain :: "json_lib \<Rightarrow> generated_filter \<Rightarrow> string" where
  "write_response_action_chain J f = foldl (write_response_roto J) ''ResponseAction.pass()'' (gf_actions f)"

definition guarded_chain :: "generated_filter \<Rightarrow> string \<Rightarrow> string \<Rightarrow> string" where
  "guarded_chain f chain pass =
     (if gf_conditions f = [] then ''    '' @ chain @ [CHR 0x0A] @ unlines [[CHR 0x7D]]
      else ''    if '' @ write_conditions f @ '' '' @ [CHR 0x7B, CHR 0x0A] @ ''        '' @ chain @ [CHR 0x0A]
        @ unlines [''    '' @ [CHR 0x7D] @ '' else '' @ [CHR 0x7B], ''        '' @ pass, ''    '' @ [CHR 0x7D], [CHR 0x7D]])"

definition write_request_action :: "json_lib \<Rightarrow> generated_filter \<Rightarrow> string" where
  "write_request_action J f =
     unlines [''fn request_action(req: Request) -> RequestAction '' @ [CHR 0x7B]]
     @ guarded_chain f (write_request_action_chain J f) ''RequestAction.pass()''"

definition write_response_action :: "json_lib \<Rightarrow> generated_filter \<Rightarrow> string" where
  "write_response_action J f =
     unlines [''fn response_action(res: Response) -> ResponseAction '' @ [CHR 0x7B]]
     @ guarded_chain f (write_response_action_chain J f) ''ResponseAction.pass()''"

text \<open>The lines between the delimiters, without their comment marks.\<close>

definition generated_toml_lines :: "generated_filter \<Rightarrow> string list" where
  "generated_toml_lines f =
     (case gf_id f of Some i \<Rightarrow> [''id = '' @ toml_string i] | None \<Rightarrow> [])
     @ [''name = '' @ toml_string (gf_name f),
        ''enabled = '' @ (if gf_enabled f then ''true'' else ''false''),
        ''priority = '' @ show_int (gf_priority f), [], ''[trigger]'',
        ''host = '' @ toml_string_array (gt_host (gf_trigger f)),
        ''path = '' @ toml_string_array (gt_path (gf_trigger f)),
        ''method = '' @ toml_string_array (gt_method (gf_trigger f)),
        ''phase = ['' @ toml_string (as_roto_phase (gf_phase f)) @ '']'']"

definition write_front_matter :: "generated_filter \<Rightarrow> string" where
  "write_front_matter f =
     unlines ([''//! +++''] @ map (\<lambda>l. if l = [] then ''//!'' else ''//! '' @ l) (generated_toml_lines f) @ [''//! +++''])"

definition generated_script :: "json_lib \<Rightarrow> generated_filter \<Rightarrow> string" where
  "generated_script J f =
     unlines ([[], ''// Generated by inspect pattern extractor.'',
        ''// Move this file to ./filters/ if you want to promote it to a normal filter.'']
        @ map (\<lambda>note. ''// '' @ note) (gf_notes f)
        @ (if gf_notes f \<noteq> [] then
            [''// TODO: convert this draft into concrete rewrite actions when the required Roto APIs are available.''] else [])
        @ [[], ''fn ping() -> bool '' @ [CHR 0x7B], ''    true'', [CHR 0x7D], []])
     @ (case gf_phase f of
          GenRequest \<Rightarrow> write_request_action J f
        | GenResponse \<Rightarrow> write_response_action J f)"

definition to_roto_source :: "json_lib \<Rightarrow> generated_filter \<Rightarrow> string" where
  "to_roto_source J f = write_front_matter f @ generated_script J f"

section \<open>Quoting\<close>

lemma concat_str_chars [simp]: "concat (str_chars s) = s"
proof (induction s rule: str_chars.induct)
  case (1 s)
  then show ?case by (subst str_chars.simps) simp
qed

definition plain_piece :: "string \<Rightarrow> bool" where
  "plain_piece ch \<longleftrightarrow> (\<exists>c. ch = [c]) \<or> (2 \<le> length ch \<and> (\<forall>c \<in> set ch. 128 \<le> byte c))"

lemma utf8_head_piece: "s \<noteq> [] \<Longrightarrow> plain_piece (take (fst (utf8_head s)) s)"
proof (cases "fst (utf8_head s) \<le> 1")
  case True
  then show "s \<noteq> [] \<Longrightarrow> ?thesis"
    using utf8_head_pos [of s] by (cases s) (auto simp: plain_piece_def take_Cons' le_Suc_eq)
next
  case False
  assume "s \<noteq> []"
  with False obtain a b r where s: "s = a # b # r" "128 \<le> byte a" "128 \<le> byte b"
    by (cases s; cases "tl s")
      (auto simp: utf8_head_def utf8_width_def utf8_second_def utf8_cont_def Let_def split: if_splits)
  then show ?thesis
    by (cases r; cases "tl r") (auto simp: utf8_head_def plain_piece_def utf8_cont_def Let_def numeral_eq_Suc)
qed

lemma str_chars_pieces: "ch \<in> set (str_chars s) \<Longrightarrow> plain_piece ch"
proof (induction s rule: str_chars.induct)
  case (1 s)
  then show ?case using utf8_head_piece [of s] by (subst (asm) (2) str_chars.simps) (auto split: if_splits)
qed

lemma hex_digit_plain:
  "n < 16 \<Longrightarrow> hex_digit n \<noteq> CHR 0x0A \<and> hex_digit n \<noteq> CHR 0x0D \<and> hex_digit n \<noteq> CHR 0x5C \<and> hex_digit n \<noteq> CHR 0x22 \<and> hex_digit n \<noteq> CHR 0x7D"
proof -
  assume "n < 16"
  then have "byte (hex_digit n) = (if n < 10 then 48 + n else 87 + n)" by (simp add: hex_digit_def byte_char_of)
  with \<open>n < 16\<close> show ?thesis by (auto split: if_splits)
qed

lemma show_hex_plain:
  "n < 256 \<Longrightarrow> c \<in> set (show_hex n) \<Longrightarrow> c \<noteq> CHR 0x0A \<and> c \<noteq> CHR 0x0D \<and> c \<noteq> CHR 0x5C \<and> c \<noteq> CHR 0x22 \<and> c \<noteq> CHR 0x7D"
  using hex_digit_plain [of n] hex_digit_plain [of "n div 16"] hex_digit_plain [of "n mod 16"]
    less_mult_imp_div_less [of n 16 16]
  by (auto simp: show_hex_def split: if_splits)

lemma quoted_char_cases:
  assumes "plain_piece ch"
  obtains (plain) "quoted_char ch = ch" "\<forall>c \<in> set ch. c \<noteq> CHR 0x0A \<and> c \<noteq> CHR 0x0D \<and> c \<noteq> CHR 0x5C \<and> c \<noteq> CHR 0x22"
  | (escape) c d where "ch = [c]" "quoted_char ch = [CHR 0x5C, d]"
      "(c, d) \<in> {(CHR 0x5C, CHR 0x5C), (CHR 0x22, CHR 0x22), (CHR 0x0A, CHR ''n''), (CHR 0x0D, CHR ''r''), (CHR 0x09, CHR ''t'')}"
  | (code) n where "quoted_char ch = CHR 0x5C # CHR ''u'' # CHR 0x7B # show_hex n @ [CHR 0x7D]" "n < 160"
      "ch = (if n < 128 then [char_of n] else [CHR 0xC2, char_of n])"
proof -
  show thesis
  proof (cases "\<exists>c. ch = [c]")
    case True
    then obtain c where c: "ch = [c]" by blast
    show thesis
    proof (cases "c \<in> {CHR 0x5C, CHR 0x22, CHR 0x0A, CHR 0x0D, CHR 0x09}")
      case True
      then show thesis using escape [OF c] by (auto simp: c quoted_char_def)
    next
      case False
      show thesis
      proof (cases "byte c < 32 \<or> byte c = 127")
        case True
        then have lt: "byte c < 128" by auto
        show thesis
        proof (rule code [of "byte c"])
          show "quoted_char ch = CHR 0x5C # CHR ''u'' # CHR 0x7B # show_hex (byte c) @ [CHR 0x7D]"
            using True False unfolding c quoted_char_def by simp
        qed (use lt in \<open>simp_all add: c\<close>)
      next
        case n: False
        with False show thesis using plain by (simp add: c quoted_char_def)
      qed
    qed
  next
    case False
    then have multi: "2 \<le> length ch" "\<forall>c \<in> set ch. 128 \<le> byte c" using assms by (auto simp: plain_piece_def)
    then have no: "\<forall>c \<in> set ch. c \<noteq> CHR 0x0A \<and> c \<noteq> CHR 0x0D \<and> c \<noteq> CHR 0x5C \<and> c \<noteq> CHR 0x22" by auto
    show thesis
    proof (cases "\<exists>a b. ch = [a, b] \<and> byte a = 194 \<and> byte b < 160")
      case True
      then obtain a b where ab: "ch = [a, b]" "byte a = 194" "byte b < 160" by blast
      have "char_of (194::nat) = CHR 0xC2" by code_simp
      then have "a = CHR 0xC2" using ab(2) char_of_char [of a] by metis
      then show thesis using code [of "byte b"] ab multi(2) by (simp add: quoted_char_def)
    next
      case False
      obtain a b r where ch: "ch = a # b # r" using multi(1) by (cases ch; cases "tl ch") auto
      with False have "quoted_char ch = ch" by (cases r) (auto simp: quoted_char_def)
      then show thesis using plain no by blast
    qed
  qed
qed

lemma quoted_string_no_breaks: "CHR 0x0A \<notin> set (quoted_string s)" "CHR 0x0D \<notin> set (quoted_string s)"
proof -
  have "CHR 0x0A \<notin> set (quoted_char ch) \<and> CHR 0x0D \<notin> set (quoted_char ch)" if "ch \<in> set (str_chars s)" for ch
    using str_chars_pieces [OF that]
  proof (cases rule: quoted_char_cases)
    case (code n)
    then show ?thesis using show_hex_plain [of n "CHR 0x0A"] show_hex_plain [of n "CHR 0x0D"] by auto
  qed auto
  then show "CHR 0x0A \<notin> set (quoted_string s)" "CHR 0x0D \<notin> set (quoted_string s)"
    by (auto simp: quoted_string_def)
qed

lemma quote_scan_plain:
  "\<forall>c \<in> set p. c \<noteq> CHR 0x5C \<and> c \<noteq> CHR 0x22 \<Longrightarrow> quote_scan b False (p @ r) = quote_scan b False r"
  by (induction p) auto

lemma quote_scan_piece:
  assumes "plain_piece ch"
  shows "quote_scan True False (quoted_char ch @ r) = quote_scan True False r"
  using assms
proof (cases rule: quoted_char_cases)
  case plain
  then show ?thesis by (simp add: quote_scan_plain)
next
  case (code n)
  have "quote_scan True False (show_hex n @ CHR 0x7D # r) = quote_scan True False (CHR 0x7D # r)"
    using code(2) show_hex_plain [of n] by (intro quote_scan_plain) auto
  then show ?thesis by (simp add: code(1))
qed auto

lemma quote_scan_quoted [simp]: "quote_scan False False (quoted_string s @ r) = quote_scan False False r"
proof -
  have "quote_scan True False (concat (map quoted_char chs) @ t) = quote_scan True False t"
    if "\<forall>ch \<in> set chs. plain_piece ch" for chs t
    using that by (induction chs) (simp_all add: quote_scan_piece)
  then show ?thesis using str_chars_pieces by (simp add: quoted_string_def)
qed

text \<open>A left inverse of the escapes, a device of the proof that quoting is injective. It models no lexer:
  those of Roto and TOML are not part of the sources, and TOML lacks the escape with braces.\<close>

definition hex_value :: "string \<Rightarrow> nat" where
  "hex_value s = foldl (\<lambda>n c. 16 * n + (if byte c < 58 then byte c - 48 else byte c - 87)) 0 s"

definition code_char :: "nat \<Rightarrow> string" where
  "code_char n = (if n < 128 then [char_of n] else [CHR 0xC2, char_of n])"

function undo_escapes :: "string \<Rightarrow> string option" where
  "undo_escapes [] = None"
| "undo_escapes (c # r) =
     (if c = CHR 0x22 then (if r = [] then Some [] else None)
      else if c \<noteq> CHR 0x5C then map_option (Cons c) (undo_escapes r)
      else (case r of
          [] \<Rightarrow> None
        | d # r' \<Rightarrow>
            if d = CHR ''n'' then map_option (Cons (CHR 0x0A)) (undo_escapes r')
            else if d = CHR ''r'' then map_option (Cons (CHR 0x0D)) (undo_escapes r')
            else if d = CHR ''t'' then map_option (Cons (CHR 0x09)) (undo_escapes r')
            else if d = CHR ''u'' then
              map_option (append (code_char (hex_value (takeWhile (\<lambda>x. x \<noteq> CHR 0x7D) (drop 1 r')))))
                (undo_escapes (drop 1 (dropWhile (\<lambda>x. x \<noteq> CHR 0x7D) (drop 1 r'))))
            else map_option (Cons d) (undo_escapes r')))"
  by pat_completeness auto
termination
proof (relation "measure length", goal_cases)
  case (6 c r d r')
  have "length (dropWhile (\<lambda>x. x \<noteq> CHR 0x7D) (drop 1 r')) \<le> length r'"
    using length_dropWhile_le [of "\<lambda>x. x \<noteq> CHR 0x7D" "drop 1 r'"] by simp
  with 6 show ?case by simp
qed auto

lemma hex_digit_value: "n < 16 \<Longrightarrow> (if byte (hex_digit n) < 58 then byte (hex_digit n) - 48 else byte (hex_digit n) - 87) = n"
  by (simp add: hex_digit_def byte_char_of)

lemma hex_value_show: "n < 256 \<Longrightarrow> hex_value (show_hex n) = n"
  using hex_digit_value [of n] hex_digit_value [of "n div 16"] hex_digit_value [of "n mod 16"]
    less_mult_imp_div_less [of n 16 16]
  by (simp add: hex_value_def show_hex_def)

lemma undo_escapes_plain:
  "\<forall>c \<in> set p. c \<noteq> CHR 0x5C \<and> c \<noteq> CHR 0x22 \<Longrightarrow> undo_escapes (p @ r) = map_option (append p) (undo_escapes r)"
proof (induction p)
  case Nil
  then show ?case by (cases "undo_escapes r") simp_all
next
  case (Cons c p)
  then show ?case by (simp add: option.map_comp comp_def)
qed

lemma undo_escapes_piece:
  assumes "plain_piece ch"
  shows "undo_escapes (quoted_char ch @ r) = map_option (append ch) (undo_escapes r)"
  using assms
proof (cases rule: quoted_char_cases)
  case plain
  then show ?thesis by (simp add: undo_escapes_plain)
next
  case (code n)
  have h: "\<forall>x \<in> set (show_hex n). x \<noteq> CHR 0x7D" using code(2) show_hex_plain [of n] by auto
  then have "takeWhile (\<lambda>x. x \<noteq> CHR 0x7D) (show_hex n @ CHR 0x7D # r) = show_hex n"
    "dropWhile (\<lambda>x. x \<noteq> CHR 0x7D) (show_hex n @ CHR 0x7D # r) = CHR 0x7D # r"
    by (simp_all add: takeWhile_append2 dropWhile_append2)
  then show ?thesis using code by (simp add: hex_value_show code_char_def)
next
  case (escape c d)
  have "(@) [c] = (#) c" by (rule ext) simp
  with escape show ?thesis by auto
qed

lemma undo_escapes_quoted: "undo_escapes (tl (quoted_string s)) = Some s"
proof -
  have "undo_escapes (concat (map quoted_char chs) @ [CHR 0x22]) = Some (concat chs)"
    if "\<forall>ch \<in> set chs. plain_piece ch" for chs
    using that by (induction chs) (simp_all add: undo_escapes_piece)
  then show ?thesis using str_chars_pieces by (simp add: quoted_string_def)
qed

text \<open>Inside a literal the scanner of the manager is within quotes after every character.\<close>

lemma quote_scan_open_plain:
  "\<forall>c \<in> set p. c \<noteq> CHR 0x5C \<and> c \<noteq> CHR 0x22 \<Longrightarrow> quote_scan True False (take k p)"
  using quote_scan_plain [of "take k p" True "[]"] by (auto dest: in_set_takeD)

lemma quote_scan_open_piece:
  assumes "plain_piece ch"
  shows "quote_scan True False (take k (quoted_char ch))"
  using assms
proof (cases rule: quoted_char_cases)
  case plain
  then show ?thesis by (simp add: quote_scan_open_plain)
next
  case (escape c d)
  then show ?thesis by (cases k; cases "k - 1") auto
next
  case (code n)
  let ?t = "CHR 0x7B # show_hex n @ [CHR 0x7D]"
  have "\<forall>c \<in> set ?t. c \<noteq> CHR 0x5C \<and> c \<noteq> CHR 0x22" using code(2) show_hex_plain [of n] by auto
  from quote_scan_open_plain [OF this] have "quote_scan True False (take j ?t)" for j .
  then show ?thesis unfolding code(1) by (cases k; cases "k - 1") auto
qed

lemma quote_scan_open_pieces:
  "\<forall>ch \<in> set chs. plain_piece ch \<Longrightarrow> quote_scan True False (take k (concat (map quoted_char chs)))"
proof (induction chs arbitrary: k)
  case (Cons ch chs)
  then show ?case
    using quote_scan_open_piece [of ch k] quote_scan_piece [of ch] by (cases "k \<le> length (quoted_char ch)") auto
qed simp

lemma quoted_char_visible:
  assumes "plain_piece ch" and "c \<in> set (quoted_char ch)"
  shows "32 \<le> byte c \<and> byte c \<noteq> 127"
proof -
  have hex: "32 \<le> byte c \<and> byte c \<noteq> 127" if "c \<in> set (show_hex n)" "n < 256" for n
    using that less_mult_imp_div_less [of n 16 16]
    by (auto simp: show_hex_def hex_digit_def byte_char_of split: if_splits)
  show ?thesis
    using assms
    by (auto simp: quoted_char_def plain_piece_def dest: hex split: list.splits if_splits)
qed



section \<open>The manager reads a generated filter\<close>

lemma str_lines_unlines_append:
  assumes "list_all plain_line ls"
  shows "str_lines (unlines ls @ rest) = ls @ str_lines rest"
  using assms
proof (induction ls)
  case (Cons l ls)
  let ?t = "unlines ls @ rest"
  have "unlines (l # ls) @ rest = l @ CHR 0x0A # ?t" by (simp add: unlines_def)
  then have "split_char (CHR 0x0A) (unlines (l # ls) @ rest) = l # split_char (CHR 0x0A) ?t"
    using Cons.prems by (simp add: split_char_append_sep split_char_singleton plain_line_def)
  then have "str_lines (unlines (l # ls) @ rest) = strip_cr l # str_lines ?t"
    by (simp add: str_lines_def Let_def)
  then show ?case using Cons by (simp add: strip_cr_plain)
qed (simp add: unlines_def)

text \<open>A line of front matter together with the TOML text it stands for.\<close>

definition front_line :: "string \<Rightarrow> string \<Rightarrow> bool" where
  "front_line raw l \<longleftrightarrow> plain_line raw \<and> normalized_comment_line raw = Some l \<and> trim l \<noteq> ''+++'' \<and> validate_front_matter_line l"

lemma loop_front_lines:
  "list_all2 front_line raws ls \<Longrightarrow> front_matter_loop True t s (raws @ rest) = front_matter_loop True (t @ unlines ls) s rest"
proof (induction raws ls arbitrary: t rule: list_all2_induct)
  case (Cons raw raws l ls)
  then show ?case by (simp add: front_line_def unlines_def)
qed (simp add: unlines_def)

lemma parse_front_lines:
  assumes lines: "list_all2 front_line raws ls"
  shows "parse_filter_source toml (unlines (''//! +++'' # raws @ [''//! +++'']) @ script) =
    Some (case toml (unlines ls) of
            None \<Rightarrow> Inl TomlError
          | Some metadata \<Rightarrow> Inr (metadata, unlines (str_lines script)))"
proof -
  let ?src = "unlines (''//! +++'' # raws @ [''//! +++'']) @ script"
  have delim: "plain_line ''//! +++''" "trim ''//! +++'' \<noteq> []" "trim ''+++'' = ''+++''" by code_simp+
  have "list_all plain_line raws"
    using lines by (induction rule: list_all2_induct) (simp_all add: front_line_def)
  then have src: "str_lines ?src = ''//! +++'' # raws @ ''//! +++'' # str_lines script"
    using delim(1) by (subst str_lines_unlines_append) simp_all
  have loop: "front_matter_loop True [] [] (raws @ ''//! +++'' # str_lines script) =
      Inr (True, unlines ls, unlines (str_lines script))"
    using loop_front_lines [OF lines, of "[]" "[]"] delim(3) by (simp add: normalized_delimiter loop_script)
  show ?thesis
    unfolding parse_filter_source_def src
    using delim loop src
    by (simp add: normalized_delimiter front_matter_start_def is_char_boundary_def Let_def split: option.split)
qed

lemma trim_end_prefix: "\<exists>w. s = trim_end s @ w"
proof -
  have "\<exists>w. t = w @ trim_rev t" for t
  proof (induction t rule: trim_rev.induct)
    case (1 t)
    show ?case
    proof (cases "ws_tail t = 0")
      case True
      then show ?thesis by (simp add: trim_rev.simps [of t])
    next
      case False
      with 1 obtain w where "drop (ws_tail t) t = w @ trim_rev (drop (ws_tail t) t)" by blast
      moreover have "trim_rev t = trim_rev (drop (ws_tail t) t)" using False by (simp add: trim_rev.simps [of t])
      ultimately have "t = (take (ws_tail t) t @ w) @ trim_rev t" by (metis append_take_drop_id append.assoc)
      then show ?thesis ..
    qed
  qed
  from this [of "rev s"] obtain w where "rev s = w @ trim_rev (rev s)" ..
  then have "s = rev (trim_rev (rev s)) @ rev w" by (metis rev_append rev_rev_ident)
  then show ?thesis unfolding trim_end_def ..
qed

lemma ws_head_visible: "33 \<le> byte c \<Longrightarrow> byte c < 128 \<Longrightarrow> ws_head (c # r) = 0"
proof -
  assume "33 \<le> byte c" "byte c < 128"
  then have "\<not> is_ascii_ws (byte c)" "\<not> ws2 (byte c) m" "\<not> ws3 (byte c) m n" for m n
    by (simp_all add: is_ascii_ws_def ws2_def ws3_def)
  then show ?thesis by (simp add: ws_head_def split: list.split)
qed

lemma front_line_text:
  assumes l: "l \<noteq> []" "97 \<le> byte (hd l) \<and> byte (hd l) \<le> 122 \<or> hd l = CHR ''[''"
    and plain: "CHR 0x0A \<notin> set l" "last l \<noteq> CHR 0x0D" and scan: "\<not> quote_scan False False l"
  shows "front_line (''//! '' @ l) l"
proof -
  obtain c r where c: "l = c # r" using l(1) by (cases l) auto
  have "33 \<le> byte c" "byte c < 128" using l(2) by (auto simp: c)
  then have ws: "ws_head l = 0" unfolding c by (rule ws_head_visible)
  have "trim l \<noteq> ''+++''"
  proof
    assume "trim l = ''+++''"
    then obtain w where "l = ''+++'' @ w"
      using trim_end_prefix [of l] ws by (auto simp: trim_def trim_start_none)
    then show False using l by simp
  qed
  moreover have "plain_line (''//! '' @ l)"
    using plain l(1) by (simp add: plain_line_def ends_with_single)
  ultimately show ?thesis
    using normalized_comment [OF ws] scan by (simp add: front_line_def validate_front_matter_line_def)
qed

lemma front_line_blank: "front_line ''//!'' []"
  by code_simp

lemma set_join_with: "set (join_with sep ws) \<subseteq> set sep \<union> (\<Union>w \<in> set ws. set w)"
  by (induction sep ws rule: join_with.induct) auto

lemma toml_array_facts:
  "CHR 0x0A \<notin> set (toml_string_array vs)" "quote_scan False False (toml_string_array vs @ r) = quote_scan False False r"
  "last (toml_string_array vs) = CHR '']''"
proof -
  show "CHR 0x0A \<notin> set (toml_string_array vs)"
    using set_join_with [of "'', ''" "map toml_string vs"] quoted_string_no_breaks(1)
    by (fastforce simp: toml_string_array_def toml_string_def)
  have "quote_scan False False (join_with '', '' (map toml_string vs) @ t) = quote_scan False False t" for t
    by (induction vs rule: induct_list012) (simp_all add: toml_string_def)
  then show "quote_scan False False (toml_string_array vs @ r) = quote_scan False False r"
    by (simp add: toml_string_array_def)
  show "last (toml_string_array vs) = CHR '']''" by (simp add: toml_string_array_def)
qed

lemma show_int_plain:
  "c \<in> set (show_int i) \<Longrightarrow> c \<noteq> CHR 0x0A \<and> c \<noteq> CHR 0x0D \<and> c \<noteq> CHR 0x5C \<and> c \<noteq> CHR 0x22"
  using show_nat_digits [of "nat i"] show_nat_digits [of "nat (- i)"]
  by (auto simp: show_int_def list_all_iff is_ascii_digit_def split: if_splits)

lemma quoted_string_last [simp]: "last (quoted_string s) = CHR 0x22" "quoted_string s \<noteq> []"
  by (simp_all add: quoted_string_def)

lemma generated_front_lines:
  "list_all2 front_line (map (\<lambda>l. if l = [] then ''//!'' else ''//! '' @ l) (generated_toml_lines f)) (generated_toml_lines f)"
proof -
  have "front_line (if l = [] then ''//!'' else ''//! '' @ l) l" if "l \<in> set (generated_toml_lines f)" for l
  proof (cases "l = []")
    case False
    have q: "CHR 0x0A \<notin> set (toml_string s)" "quote_scan False False (toml_string s @ r) = quote_scan False False r"
      "quote_scan False False (toml_string s) = False" "last (toml_string s) = CHR 0x22" "toml_string s \<noteq> []" for s r
      using quoted_string_no_breaks(1) [of s] quote_scan_quoted [of s "[]"] by (simp_all add: toml_string_def)
    have i: "quote_scan False False (show_int i) = False" "CHR 0x0A \<notin> set (show_int i)" "show_int i \<noteq> []"
      "last (show_int i) \<noteq> CHR 0x0D" for i
    proof -
      show "quote_scan False False (show_int i) = False"
        using quote_scan_plain [of "show_int i" False "[]"] show_int_plain [of _ i] by auto
      show n: "show_int i \<noteq> []" by (simp add: show_int_def)
      show "CHR 0x0A \<notin> set (show_int i)" "last (show_int i) \<noteq> CHR 0x0D"
        using show_int_plain [of _ i] last_in_set [OF n] by auto
    qed
    have a: "quote_scan False False (toml_string_array vs) = False" "toml_string_array vs \<noteq> []" for vs
      using toml_array_facts(2) [of vs "[]"] by (simp_all add: toml_string_array_def)
    have "(97 \<le> byte (hd l) \<and> byte (hd l) \<le> 122 \<or> hd l = CHR ''['') \<and> CHR 0x0A \<notin> set l \<and> last l \<noteq> CHR 0x0D
        \<and> \<not> quote_scan False False l"
      using that False
      by (auto simp: generated_toml_lines_def q i a toml_array_facts split: option.splits if_splits)
    with False show ?thesis using front_line_text [of l] by simp
  qed (simp add: front_line_blank)
  then show ?thesis by (simp add: list_all2_map1 list.rel_refl_strong)
qed

text \<open>C26: The filter manager reads back what the generator writes: the front matter of any generated filter,
  whatever its name, triggers and notes are, is taken apart into exactly the TOML lines that were
  written, none of them is rejected or ends the block early, and the rest is the generated script.\<close>

theorem generated_filter_read_back:
  "parse_filter_source toml (to_roto_source J f) =
    Some (case toml (unlines (generated_toml_lines f)) of
            None \<Rightarrow> Inl TomlError
          | Some metadata \<Rightarrow> Inr (metadata, unlines (str_lines (generated_script J f))))"
  using parse_front_lines [OF generated_front_lines [of f], of toml "generated_script J f"]
  by (simp add: to_roto_source_def write_front_matter_def)

section \<open>A generated filter selects the exchange it was made from\<close>

text \<open>What a condition asks of the data a script is given.\<close>

fun condition_holds :: "roto_request_data \<Rightarrow> roto_response_data \<Rightarrow> generated_filter_condition \<Rightarrow> bool" where
  "condition_holds req res (RequestHostEq v) \<longleftrightarrow> rqd_host req = v"
| "condition_holds req res (RequestHostContains v) \<longleftrightarrow> contains_sub (rqd_host req) v"
| "condition_holds req res (RequestPathEq v) \<longleftrightarrow> rqd_path req = v"
| "condition_holds req res (RequestPathContains v) \<longleftrightarrow> contains_sub (rqd_path req) v"
| "condition_holds req res (RequestMethodEq v) \<longleftrightarrow> rqd_method req = v"
| "condition_holds req res (RequestQueryContains v) \<longleftrightarrow> contains_sub (rqd_query req) v"
| "condition_holds req res (ResponseStatusEq v) \<longleftrightarrow> rsd_status res = v"
| "condition_holds req res (ResponseStatusAtLeast v) \<longleftrightarrow> v \<le> rsd_status res"
| "condition_holds req res (ResponseContentTypeContains v) \<longleftrightarrow> contains_sub (rsd_content_type res) v"
| "condition_holds req res (ResponseBodyContains v) \<longleftrightarrow> contains_sub (rsd_body_text res) v"
| "condition_holds req res (ResponseBodyContainsAll vs) \<longleftrightarrow> list_all (contains_sub (rsd_body_text res)) vs"

text \<open>The trigger the front matter of a generated filter states.\<close>

definition stated_trigger :: "generated_filter \<Rightarrow> filter_trigger" where
  "stated_trigger f = \<lparr>trg_host = gt_host (gf_trigger f), trg_path = gt_path (gf_trigger f),
     trg_method = gt_method (gf_trigger f),
     trg_phase = [case gf_phase f of GenRequest \<Rightarrow> Request | GenResponse \<Rightarrow> Response]\<rparr>"

lemma contains_sub_sublist: "contains_sub s p \<longleftrightarrow> sublist p s"
  by (auto simp: contains_sub_iff sublist_def)

lemma sublist_trans: "sublist a b \<Longrightarrow> sublist b c \<Longrightarrow> sublist a c"
  by (rule sublist_order.order.trans)

lemma trim_sublist: "sublist (trim s) s"
proof -
  obtain w where "s = w @ trim_start s" using trim_start_suffix by blast
  moreover obtain u where "trim_start s = trim_end (trim_start s) @ u" using trim_end_prefix by blast
  ultimately have "s = w @ trim s @ u" by (simp add: trim_def)
  then show ?thesis unfolding sublist_def by blast
qed

lemma take_chars_prefix: "prefix (take_chars n s) s"
proof -
  have "s = take_chars n s @ concat (drop n (str_chars s))"
    unfolding take_chars_def concat_append [symmetric] by simp
  then show ?thesis by (rule prefixI)
qed

lemma split_char_sublist: "w \<in> set (split_char c s) \<Longrightarrow> sublist w s"
proof (induction s arbitrary: w)
  case (Cons x xs)
  obtain v vs where v: "split_char c xs = v # vs" by (cases "split_char c xs") auto
  have p: "prefix v xs"
    using join_split_char [of c xs] by (cases vs) (auto simp: v prefix_def)
  consider "w = []" | "w = x # v" | "w \<in> set (split_char c xs)"
    using Cons.prems by (auto simp: v split: if_splits)
  then show ?case
  proof cases
    case 2
    with p have "prefix w (x # xs)" by simp
    then show ?thesis by (rule prefix_imp_sublist)
  next
    case 3
    then show ?thesis using Cons.IH by (simp add: sublist_Cons_right)
  qed simp
qed simp

lemma strip_cr_prefix: "prefix (strip_cr l) l"
proof (cases "strip_suffix l [CHR 0x0D]")
  case (Some r)
  then have "rev l = CHR 0x0D # rev r" by (auto simp: strip_suffix_def)
  then have "l = r @ [CHR 0x0D]" by (metis rev.simps(2) rev_rev_ident)
  then have "prefix r l" by simp
  with Some show ?thesis by (simp add: strip_cr_def)
qed (simp add: strip_cr_def)

lemma str_lines_sublist:
  assumes "l \<in> set (str_lines s)"
  shows "sublist l s"
proof -
  let ?ws = "split_char (CHR 0x0A) s"
  consider w where "w \<in> set (butlast ?ws)" "l = strip_cr w" | "l = last ?ws"
    using assms by (auto simp: str_lines_def Let_def split: if_splits)
  then show ?thesis
  proof cases
    case 1
    then have "sublist w s" by (intro split_char_sublist) (rule in_set_butlastD)
    moreover have "sublist l w" unfolding 1(2) by (rule prefix_imp_sublist [OF strip_cr_prefix])
    ultimately show ?thesis by (rule sublist_trans [rotated])
  next
    case 2
    have "last ?ws \<in> set ?ws" by simp
    then show ?thesis unfolding 2 by (rule split_char_sublist)
  qed
qed

lemma anchor_line_sublist:
  "anchor_line edited ls = Some a \<Longrightarrow> \<exists>l \<in> set ls. sublist a l"
proof (induction ls)
  case (Cons l ls)
  have sub: "sublist (take_chars 96 (trim l)) l"
    by (rule sublist_trans [OF prefix_imp_sublist [OF take_chars_prefix] trim_sublist])
  have "a = take_chars 96 (trim l) \<or> anchor_line edited ls = Some a"
    using Cons.prems unfolding anchor_line.simps Let_def by (metis option.inject)
  then show ?case using sub Cons.IH by (metis list.set_intros)
qed simp

lemma common_text_anchor_sublist:
  assumes "common_text_anchor original edited = Some a"
  shows "sublist a original"
proof (cases "anchor_line edited (str_lines original)")
  case None
  then have "a = take_chars 96 original"
    using assms by (simp add: common_text_anchor_def Let_def split: if_splits)
  then show ?thesis using prefix_imp_sublist [OF take_chars_prefix] by simp
next
  case (Some b)
  then have "anchor_line edited (str_lines original) = Some a"
    using assms by (simp add: common_text_anchor_def)
  then obtain l where "l \<in> set (str_lines original)" "sublist a l" using anchor_line_sublist by blast
  then show ?thesis using sublist_trans str_lines_sublist by blast
qed

lemma rewrite_anchor_holds:
  assumes "response_body_rewrite_anchor (Some body) edited strategy = Some c"
  shows "\<exists>a. c = ResponseBodyContains a \<and> contains_sub body a"
proof -
  obtain e a where "c = ResponseBodyContains a" "common_text_anchor (trim body) e = Some a"
    using assms by (cases strategy) (auto simp: response_body_rewrite_anchor_def Let_def diff_anchor_def
        line_diff_anchor_def bind_eq_Some_conv split: if_splits)
  moreover from this(2) have "sublist a body"
    by (rule sublist_trans [OF common_text_anchor_sublist trim_sublist])
  ultimately show ?thesis by (simp add: contains_sub_sublist)
qed

lemma content_type_prefix_holds: "contains_sub ct (content_type_prefix ct)"
proof -
  have "hd (split_char (CHR '';'') ct) \<in> set (split_char (CHR '';'') ct)" by simp
  then show ?thesis
    unfolding contains_sub_sublist content_type_prefix_def
    by (rule sublist_trans [OF trim_sublist split_char_sublist])
qed

lemma glob_spec_star: "glob_spec ''*'' v"
  by simp (rule exI [of _ "length v"], simp)

lemma glob_spec_prefix: "glob_spec (p @ ''*'') (p @ r)"
proof (induction p)
  case Nil
  then show ?case using glob_spec_star by simp
next
  case (Cons c p)
  then show ?case by (auto intro: exI [of _ 1])
qed

lemma glob_match_any: "glob_match ''*'' v"
  by (simp add: glob_match_def)

lemma path_trigger_matches: "glob_match (path_trigger_for_original_path path) path"
proof -
  have star: "glob_match (p @ ''*'') v" if "v = p @ r" for p v r
  proof -
    have "ends_with (p @ ''*'') ''*''" by (simp add: ends_with_single)
    moreover have "to_ascii_lowercase ''*'' = ''*''" by code_simp
    ultimately show ?thesis using that glob_spec_prefix by (simp add: glob_exact)
  qed
  show ?thesis
  proof (cases "rsplit_once (CHR ''/'') path")
    case None
    then show ?thesis
      using star [of path path "[]"] by (simp add: path_trigger_for_original_path_def glob_match_any)
  next
    case (Some fb)
    obtain front rear where fb: "fb = (front, rear)" by fastforce
    from Some have "rev path = rev rear @ CHR ''/'' # rev front"
      using split_once_Some by (fastforce simp: rsplit_once_def fb)
    then have "path = front @ CHR ''/'' # rear"
      by (metis append.assoc append_Cons append_Nil rev.simps(2) rev_append rev_rev_ident)
    then have "path = (front @ ''/'') @ rear" by simp
    then show ?thesis
      using star [of path path "[]"] star [of path "front @ ''/''" rear] Some fb
      by (cases "front = []") (simp_all add: path_trigger_for_original_path_def glob_match_any)
  qed
qed

lemma literal_glob: "CHR ''*'' \<notin> set h \<Longrightarrow> glob_match h (to_ascii_lowercase h)"
  by (simp add: glob_match_def)

lemmas builder_defs = new_builder_def host_trigger_def host_triggers_def path_trigger_def path_triggers_def
  method_trigger_def method_triggers_def builder_condition_def builder_action_def builder_path_eq_def builder_mark_def
  builder_query_contains_def builder_set_request_body_text_def builder_status_eq_def builder_content_type_contains_def
  builder_set_response_status_def builder_set_response_body_text_def

lemma request_builder_facts:
  "gb_phase (request_builder W name r) = GenRequest"
  "gb_trigger (request_builder W name r) = \<lparr>gt_host = [grr_host r],
     gt_path = [path_trigger_for_original_path (grr_original_path r)], gt_method = [grr_original_method r]\<rparr>"
  "set (gb_conditions (request_builder W name r)) \<subseteq>
     {RequestPathEq (grr_original_path r), RequestQueryContains (grr_original_query r), RequestMethodEq (grr_original_method r)}"
  by (auto simp: request_builder_def Let_def builder_defs default_generated_trigger_def split: option.split)

lemma response_builder_facts:
  "gb_phase (response_builder W name r) = GenResponse"
  "gb_trigger (response_builder W name r) = \<lparr>gt_host = [grs_host r],
     gt_path = [path_trigger_for_original_path (grs_request_path r)], gt_method = [grs_request_method r]\<rparr>"
  "gb_conditions (response_builder W name r) = ResponseStatusEq (grs_original_status r) #
     (case grs_original_content_type r of
        Some ct \<Rightarrow> if trim ct \<noteq> [] then [ResponseContentTypeContains (content_type_prefix ct)] else []
      | None \<Rightarrow> []) @
     (case response_body_rewrite_anchor (grs_original_body_text r) (grs_edited_body_text r) (grs_diff_strategy r) of
        Some anchor \<Rightarrow> [anchor] | None \<Rightarrow> [])"
proof -
  let ?anchor = "response_body_rewrite_anchor (grs_original_body_text r) (grs_edited_body_text r) (grs_diff_strategy r)"
  note defs = response_builder_def Let_def builder_defs default_generated_trigger_def
  show "gb_phase (response_builder W name r) = GenResponse"
    by (cases "grs_original_content_type r"; cases "grs_edited_body_text r"; cases ?anchor) (simp_all add: defs)
  show "gb_trigger (response_builder W name r) = \<lparr>gt_host = [grs_host r],
     gt_path = [path_trigger_for_original_path (grs_request_path r)], gt_method = [grs_request_method r]\<rparr>"
    by (cases "grs_original_content_type r"; cases "grs_edited_body_text r"; cases ?anchor) (simp_all add: defs)
  show "gb_conditions (response_builder W name r) = ResponseStatusEq (grs_original_status r) #
     (case grs_original_content_type r of
        Some ct \<Rightarrow> if trim ct \<noteq> [] then [ResponseContentTypeContains (content_type_prefix ct)] else []
      | None \<Rightarrow> []) @
     (case ?anchor of Some anchor \<Rightarrow> [anchor] | None \<Rightarrow> [])"
    by (cases "grs_original_content_type r"; cases "grs_edited_body_text r"; cases ?anchor) (simp_all add: defs)
qed

lemma build_facts [simp]:
  "gf_phase (build W uuid b) = gb_phase b" "gf_conditions (build W uuid b) = gb_conditions b"
  "gf_trigger (build W uuid b) = normalized_trigger (gb_trigger b)"
  by (simp_all add: build_def)

lemma note_keeps [simp]:
  "gf_phase (add_rewrite_note n f) = gf_phase f" "gf_conditions (add_rewrite_note n f) = gf_conditions f"
  "gf_trigger (add_rewrite_note n f) = gf_trigger f" "gf_actions (add_rewrite_note n f) = gf_actions f"
  by (simp_all add: add_rewrite_note_def)

lemma contains_self: "contains_sub s s"
  by (simp add: contains_sub_sublist)

definition request_view_of :: "filter_request \<Rightarrow> filter_request_view" where
  "request_view_of req = \<lparr>vw_host = fr_host req, vw_path = fr_path req, vw_method = fr_method req\<rparr>"

lemma literal_trigger_matches:
  assumes "CHR ''*'' \<notin> set h"
  shows "matches_any_glob [h] (to_ascii_lowercase h)" "matches_any_glob [path_trigger_for_original_path p] p"
  using literal_glob [OF assms] path_trigger_matches by (simp_all add: matches_any_glob_def)

lemma request_filter_selects:
  assumes f: "gf_trigger f = gf_trigger (request_rewrite_filter U W uuid name r)"
      "gf_phase f = gf_phase (request_rewrite_filter U W uuid name r)"
      "gf_conditions f = gf_conditions (request_rewrite_filter U W uuid name r)"
    and r: "grr_host r = fr_host req" "grr_original_path r = fr_path req" "grr_original_method r = fr_method req"
      "grr_original_query r = fr_query req"
    and host: "CHR ''*'' \<notin> set (fr_host req)"
  shows "matches_request (stated_trigger f) (request_view_of req)
    \<and> list_all (condition_holds (from_filter_request req) res) (gf_conditions f)"
proof
  let ?g = "request_rewrite_filter U W uuid name r"
  have g: "gf_phase ?g = GenRequest" "gf_conditions ?g = gb_conditions (request_builder W name r)"
    "gf_trigger ?g = \<lparr>gt_host = [grr_host r], gt_path = [path_trigger_for_original_path (grr_original_path r)],
       gt_method = [grr_original_method r]\<rparr>"
    by (simp_all add: request_rewrite_filter_def Let_def request_builder_facts normalized_trigger_def)
  show "matches_request (stated_trigger f) (request_view_of req)"
    using literal_trigger_matches [OF host] f g r
    by (simp add: matches_request_def stated_trigger_def request_view_of_def matches_phase_def matches_host_def
        matches_path_def matches_method_def eq_ignore_ascii_case_def)
  show "list_all (condition_holds (from_filter_request req) res) (gf_conditions f)"
    unfolding list_all_iff
  proof
    fix c
    assume "c \<in> set (gf_conditions f)"
    then have "c \<in> {RequestPathEq (fr_path req), RequestQueryContains (fr_query req), RequestMethodEq (fr_method req)}"
      using subsetD [OF request_builder_facts(3) [of W name r]] f(3) g(2) r by simp
    then show "condition_holds (from_filter_request req) res c"
      using contains_self by (auto simp: from_filter_request_def)
  qed
qed

lemma response_filter_selects:
  assumes f: "gf_trigger f = gf_trigger (response_rewrite_filter U W uuid name r)"
      "gf_phase f = gf_phase (response_rewrite_filter U W uuid name r)"
      "gf_conditions f = gf_conditions (response_rewrite_filter U W uuid name r)"
    and r: "grs_host r = fr_host req" "grs_request_path r = fr_path req" "grs_request_method r = fr_method req"
      "grs_original_status r = fp_status res"
      "grs_original_content_type r \<noteq> None \<Longrightarrow> grs_original_content_type r = fb_content_type (fp_body res)"
      "grs_original_body_text r = fb_text (fp_body res)"
    and host: "CHR ''*'' \<notin> set (fr_host req)"
  shows "matches_response (stated_trigger f) \<lparr>rv_request = request_view_of req, rv_status = st, rv_content_type = ct\<rparr>
    \<and> list_all (condition_holds rq (from_filter_response res)) (gf_conditions f)"
proof
  let ?g = "response_rewrite_filter U W uuid name r"
  have g: "gf_phase ?g = GenResponse" "gf_conditions ?g = gb_conditions (response_builder W name r)"
    "gf_trigger ?g = \<lparr>gt_host = [grs_host r], gt_path = [path_trigger_for_original_path (grs_request_path r)],
       gt_method = [grs_request_method r]\<rparr>"
    by (simp_all add: response_rewrite_filter_def response_builder_facts normalized_trigger_def)
  show "matches_response (stated_trigger f) \<lparr>rv_request = request_view_of req, rv_status = st, rv_content_type = ct\<rparr>"
    using literal_trigger_matches [OF host] f g r
    by (simp add: matches_response_def stated_trigger_def request_view_of_def matches_phase_def matches_host_def
        matches_path_def matches_method_def eq_ignore_ascii_case_def)
  have "condition_holds rq (from_filter_response res) c" if mem: "c \<in> set (gb_conditions (response_builder W name r))" for c
  proof -
    consider "c = ResponseStatusEq (grs_original_status r)"
      | ctype where "grs_original_content_type r = Some ctype" "c = ResponseContentTypeContains (content_type_prefix ctype)"
      | body where "grs_original_body_text r = Some body"
          "response_body_rewrite_anchor (Some body) (grs_edited_body_text r) (grs_diff_strategy r) = Some c"
      using mem unfolding response_builder_facts(3)
      by (cases "grs_original_body_text r"; cases "grs_original_content_type r")
        (auto simp: response_body_rewrite_anchor_def split: option.splits if_splits)
    then show ?thesis
    proof cases
      case 1
      then show ?thesis using r by (simp add: from_filter_response_def)
    next
      case 2
      then have "fb_content_type (fp_body res) = Some ctype" using r(5) by simp
      then show ?thesis
        using 2(2) content_type_prefix_holds by (simp add: from_filter_response_def text_or_empty_def)
    next
      case 3
      then show ?thesis
        using rewrite_anchor_holds [OF 3(2)] r(6) by (auto simp: from_filter_response_def text_or_empty_def)
    qed
  qed
  then show "list_all (condition_holds rq (from_filter_response res)) (gf_conditions f)"
    using f g by (simp add: list_all_iff)
qed

end
