(* ===== verification/BodyRewrite.thy ===== *)
theory BodyRewrite
  imports Generator
begin

text \<open>
  \<open>src/src/filters/engine/semantic/body_tree_sitter.rs\<close>: how an edited text body becomes one rewrite
  operation. The tree-sitter parsers are an argument: for each of the three grammars a function from
  the source to the syntax tree, if there is one. A node is its tree, its place among its siblings,
  its field name and its parent. A string is the list of its bytes, and offsets count bytes.
  Shown: the replacement found is the difference of the two bodies, and what running the operation
  made of it does to the original body.
\<close>

section \<open>Data\<close>

datatype body_language = LangJson | LangHtml | LangXml | LangJavaScript | LangCss | LangPlainText

datatype body_diff_kind = KindJson | KindHtml | KindXml | KindText | KindAst body_language | KindBinary

record ast_path_segment =
  aps_kind :: string
  aps_field_name :: "string option"
  aps_name :: "string option"
  aps_ordinal :: nat
  aps_text_fragment :: "string option"

datatype rewrite_confidence = ConfLow | ConfMedium | ConfHigh

datatype body_anchor =
    ContainsText string
  | ContainsAll "string list"
  | AnchorAstNode string string
  | AnchorAstPath "ast_path_segment list"
  | AnchorTextRange string string
  | AnchorJsProperty string
  | AnchorCssDeclaration string
  | AnchorHtmlAttribute "string option" string

datatype body_rewrite_operation =
    OpReplaceWholeBody string string
  | OpReplaceText string string
  | OpReplaceTextOnce string string
  | OpReplaceTextAll string string
  | OpReplaceRegex string string
  | OpReplaceTextWhenContains string string string
  | OpReplaceJsProperty string string string
  | OpReplaceCssDeclaration string string string
  | OpReplaceHtmlAttribute string string string string
  | OpInsertText string string
  | OpDeleteText string
  | OpJsonPatch "generated_json_patch_operation list" string string

datatype rewrite_target =
    TargetWholeBody | TargetTextRange nat nat | TargetJsonPointer string
  | TargetAstPath "ast_path_segment list" | TargetSelector string | TargetTextAnchor string

datatype rewrite_op =
    RewriteAdd rewrite_target string
  | RewriteRemove rewrite_target
  | RewriteReplace rewrite_target "string option" string
  | RewriteMove rewrite_target rewrite_target

record body_rewrite_intent =
  bri_language :: body_language
  bri_anchor :: body_anchor
  bri_operation :: body_rewrite_operation
  bri_confidence :: rewrite_confidence

record tree_sitter_anchor =
  tsa_language :: body_language
  tsa_anchor :: body_anchor
  tsa_operation :: body_rewrite_operation
  tsa_ast_path :: "ast_path_segment list"
  tsa_changed_node_kind :: string
  tsa_changed_text :: string
  tsa_confidence :: rewrite_confidence

record text_replacement =
  tr_start :: nat
  tr_end :: nat
  tr_old :: string
  tr_new :: string

section \<open>Languages\<close>

definition from_content_type :: "string option \<Rightarrow> body_language" where
  "from_content_type content_type = (case content_type of
     None \<Rightarrow> LangPlainText
   | Some ct \<Rightarrow>
       (let t = to_ascii_lowercase (trim (hd (split_char (CHR '';'') ct))) in
        if t \<in> {''application/json'', ''text/json''} then LangJson
        else if t \<in> {''text/html'', ''application/xhtml+xml''} then LangHtml
        else if t \<in> {''application/xml'', ''text/xml''} then LangXml
        else if t \<in> {''application/javascript'', ''text/javascript'', ''application/x-javascript'',
                      ''application/ecmascript'', ''text/ecmascript''} then LangJavaScript
        else if t = ''text/css'' then LangCss
        else if ends_with t ''+json'' then LangJson
        else if ends_with t ''+xml'' then LangXml
        else LangPlainText))"

fun is_ast_like :: "body_language \<Rightarrow> bool" where
  "is_ast_like LangHtml = True"
| "is_ast_like LangJavaScript = True"
| "is_ast_like LangCss = True"
| "is_ast_like _ = False"

fun as_label :: "body_language \<Rightarrow> string" where
  "as_label LangJson = ''JSON''"
| "as_label LangHtml = ''HTML''"
| "as_label LangXml = ''XML''"
| "as_label LangJavaScript = ''JavaScript''"
| "as_label LangCss = ''CSS''"
| "as_label LangPlainText = ''PlainText''"

section \<open>The difference of two texts\<close>

definition common_prefix_len :: "string \<Rightarrow> string \<Rightarrow> nat" where
  "common_prefix_len left right =
     length (concat (map fst (takeWhile (\<lambda>(l, r). l = r) (zip (str_chars left) (str_chars right)))))"

definition common_suffix_len :: "string \<Rightarrow> string \<Rightarrow> nat" where
  "common_suffix_len left right =
     length (concat (map fst (takeWhile (\<lambda>(l, r). l = r) (zip (rev (str_chars left)) (rev (str_chars right))))))"

definition single_text_replacement :: "string \<Rightarrow> string \<Rightarrow> text_replacement option" where
  "single_text_replacement original edited =
     (let start = common_prefix_len original edited;
          suffix_len = common_suffix_len (drop start original) (drop start edited) in
      if length original < suffix_len \<or> length edited < suffix_len then None
      else
        (let original_end = length original - suffix_len; edited_end = length edited - suffix_len in
         if start > original_end \<or> start > edited_end then None
         else
           (let old = take (original_end - start) (drop start original);
                new = take (edited_end - start) (drop start edited) in
            if old = [] \<and> new = [] then None
            else if 4096 < length old \<or> 4096 < length new then None
            else Some \<lparr>tr_start = start, tr_end = original_end, tr_old = old, tr_new = new\<rparr>)))"

fun anchor_of_lines :: "string list \<Rightarrow> string option" where
  "anchor_of_lines [] = None"
| "anchor_of_lines (line # lines) =
     (if 8 \<le> length (str_chars (trim line)) then Some (take_chars 96 (trim line)) else anchor_of_lines lines)"

definition stable_text_anchor :: "string \<Rightarrow> string option" where
  "stable_text_anchor text = (case anchor_of_lines (str_lines text) of
     Some anchor \<Rightarrow> Some anchor
   | None \<Rightarrow>
       (let anchor = take_chars 96 (trim text) in
        if 8 \<le> length (str_chars anchor) then Some anchor else None))"

definition extract_text_rewrite_intent :: "body_language \<Rightarrow> string \<Rightarrow> string \<Rightarrow> body_rewrite_intent option" where
  "extract_text_rewrite_intent language original edited =
     (case single_text_replacement original edited of
        None \<Rightarrow>
          map_option (\<lambda>anchor. \<lparr>bri_language = language, bri_anchor = ContainsText anchor,
             bri_operation = OpReplaceWholeBody edited ''text/plain; charset=utf-8'', bri_confidence = ConfLow\<rparr>)
            (stable_text_anchor original)
      | Some r \<Rightarrow>
          Some \<lparr>bri_language = language, bri_anchor = ContainsText (tr_old r),
             bri_operation = OpReplaceTextOnce (tr_old r) (tr_new r), bri_confidence = ConfMedium\<rparr>)"

section \<open>Syntax trees\<close>

datatype ts_tree =
  TsTree (ts_kind: string) (ts_start: nat) (ts_end: nat) (ts_children: "(string option \<times> ts_tree) list")

datatype ts_node =
  TsNode (tn_index: nat) (tn_field: "string option") (tn_tree: ts_tree) (tn_parent: "ts_node option")

record tree_sitter_lib =
  tsl_javascript :: "string \<Rightarrow> ts_tree option"
  tsl_css :: "string \<Rightarrow> ts_tree option"
  tsl_html :: "string \<Rightarrow> ts_tree option"

definition root_node :: "ts_tree \<Rightarrow> ts_node" where
  "root_node t = TsNode 0 None t None"

definition node_kind :: "ts_node \<Rightarrow> string" where
  "node_kind n = ts_kind (tn_tree n)"

definition start_byte :: "ts_node \<Rightarrow> nat" where
  "start_byte n = ts_start (tn_tree n)"

definition end_byte :: "ts_node \<Rightarrow> nat" where
  "end_byte n = ts_end (tn_tree n)"

definition node_children :: "ts_node \<Rightarrow> ts_node list" where
  "node_children n = map (\<lambda>(i, field, t). TsNode i field t (Some n)) (enumerate 0 (ts_children (tn_tree n)))"

definition child_by_field_name :: "ts_node \<Rightarrow> string \<Rightarrow> ts_node option" where
  "child_by_field_name n field = find (\<lambda>c. tn_field c = Some field) (node_children n)"

text \<open>The bytes of a node, if they are a string.\<close>

definition utf8_text :: "ts_node \<Rightarrow> bytes \<Rightarrow> string option" where
  "utf8_text n source = from_utf8 (take (end_byte n - start_byte n) (drop (start_byte n) source))"

text \<open>\<open>str::get\<close> with a range.\<close>

definition str_get :: "string \<Rightarrow> nat \<Rightarrow> nat \<Rightarrow> string option" where
  "str_get s i j =
     (if i \<le> j \<and> j \<le> length s \<and> is_char_boundary s i \<and> is_char_boundary s j
      then Some (take (j - i) (drop i s)) else None)"

definition parse_tree :: "tree_sitter_lib \<Rightarrow> body_language \<Rightarrow> string \<Rightarrow> ts_tree option" where
  "parse_tree T language source = (case language of
     LangJavaScript \<Rightarrow> tsl_javascript T source
   | LangCss \<Rightarrow> tsl_css T source
   | LangHtml \<Rightarrow> tsl_html T source
   | _ \<Rightarrow> None)"

lemma trees_of_children: "map tn_tree (node_children n) = map snd (ts_children (tn_tree n))"
proof -
  have "map (tn_tree \<circ> (\<lambda>(i, field, t). TsNode i field t (Some n))) (enumerate k cs) = map snd cs" for k cs
    by (induction cs arbitrary: k) auto
  then show ?thesis by (simp add: node_children_def)
qed

lemma size_node_children:
  "sum_list (map size (map tn_tree (node_children n))) + length (node_children n) < size (tn_tree n)"
proof -
  have "length (node_children n) = length (ts_children (tn_tree n))"
    using arg_cong [OF trees_of_children, of length n] by simp
  moreover have "sum_list (map (size \<circ> snd) cs) + length cs \<le> size_list (size_prod (\<lambda>_. 0) size) cs" for cs :: "('a \<times> ts_tree) list"
    by (induction cs) auto
  ultimately show ?thesis
    unfolding trees_of_children by (cases "tn_tree n") (simp add: less_Suc_eq_le)
qed

function (sequential) smallest_node_covering_range :: "ts_node \<Rightarrow> nat \<Rightarrow> nat \<Rightarrow> ts_node option"
  and covering_child :: "ts_node list \<Rightarrow> nat \<Rightarrow> nat \<Rightarrow> ts_node option" where
  "smallest_node_covering_range node start stop =
     (if start < start_byte node \<or> stop > end_byte node then None
      else (case covering_child (node_children node) start stop of Some found \<Rightarrow> Some found | None \<Rightarrow> Some node))"
| "covering_child [] start stop = None"
| "covering_child (child # rest) start stop =
     (if start \<ge> start_byte child \<and> stop \<le> end_byte child
      then (case smallest_node_covering_range child start stop of
          Some found \<Rightarrow> Some found
        | None \<Rightarrow> covering_child rest start stop)
      else covering_child rest start stop)"
  by pat_completeness auto
termination
proof (relation "measure (case_sum (\<lambda>(n, _). 2 * size (tn_tree n))
    (\<lambda>(ns, _). Suc (2 * (sum_list (map size (map tn_tree ns)) + length ns))))", goal_cases)
  case (2 node start stop)
  then show ?case using size_node_children [of node] by simp
qed auto

text \<open>Two nodes below the same parent are the same node if they are at the same place.\<close>

definition same_node :: "ts_node \<Rightarrow> ts_node \<Rightarrow> bool" where
  "same_node a b \<longleftrightarrow> tn_index a = tn_index b"

definition field_name_for_node :: "ts_node \<Rightarrow> string option" where
  "field_name_for_node node =
     Option.bind (tn_parent node) (\<lambda>parent.
       Option.bind (find (\<lambda>child. same_node child node) (node_children parent)) tn_field)"

fun ordinal_loop :: "ts_node \<Rightarrow> nat \<Rightarrow> ts_node list \<Rightarrow> nat" where
  "ordinal_loop node ordinal [] = ordinal"
| "ordinal_loop node ordinal (sibling # rest) =
     (if same_node sibling node then ordinal
      else ordinal_loop node (if node_kind sibling = node_kind node then ordinal + 1 else ordinal) rest)"

definition sibling_ordinal :: "ts_node \<Rightarrow> nat" where
  "sibling_ordinal node = (case tn_parent node of
     None \<Rightarrow> 0
   | Some parent \<Rightarrow> ordinal_loop node 0 (node_children parent))"

definition semantic_node_name :: "ts_node \<Rightarrow> bytes \<Rightarrow> string option" where
  "semantic_node_name node source =
     (if node_kind node \<in> {''property_identifier'', ''identifier'', ''tag_name'', ''attribute_name''}
      then utf8_text node source else None)"

definition node_text_fragment :: "ts_node \<Rightarrow> bytes \<Rightarrow> string option" where
  "node_text_fragment node source =
     Option.bind (utf8_text node source) (\<lambda>text.
       let text = trim text in if text = [] then None else Some (take_chars 96 text))"

definition ast_segment :: "ts_node \<Rightarrow> bytes \<Rightarrow> ast_path_segment" where
  "ast_segment node source =
     \<lparr>aps_kind = node_kind node, aps_field_name = field_name_for_node node,
      aps_name = semantic_node_name node source, aps_ordinal = sibling_ordinal node,
      aps_text_fragment = node_text_fragment node source\<rparr>"

fun ast_path_loop :: "ts_node \<Rightarrow> bytes \<Rightarrow> ast_path_segment list" where
  "ast_path_loop (TsNode i f t p) source =
     ast_segment (TsNode i f t p) source #
     (case p of None \<Rightarrow> [] | Some parent \<Rightarrow> ast_path_loop parent source)"

definition ast_path_for_node :: "ts_node \<Rightarrow> bytes \<Rightarrow> ast_path_segment list" where
  "ast_path_for_node node source = rev (ast_path_loop node source)"

definition child_by_field_or_kind :: "ts_node \<Rightarrow> bytes \<Rightarrow> string \<Rightarrow> string list \<Rightarrow> ts_node option" where
  "child_by_field_or_kind node source field_name kinds = (case child_by_field_name node field_name of
     Some child \<Rightarrow> Some child
   | None \<Rightarrow> find (\<lambda>child. node_kind child \<in> set kinds
       \<and> (case utf8_text child source of Some text \<Rightarrow> trim text \<noteq> [] | None \<Rightarrow> False)) (node_children node))"

definition trim_matches :: "char \<Rightarrow> string \<Rightarrow> string" where
  "trim_matches c s = rev (dropWhile (\<lambda>x. x = c) (rev (dropWhile (\<lambda>x. x = c) s)))"

definition clean_js_property_name :: "string \<Rightarrow> string option" where
  "clean_js_property_name name =
     (let v = trim (trim_matches (CHR 0x27) (trim_matches (CHR 0x22) (trim name))) in
      if v = [] then None else Some v)"

definition assignment_property_name :: "ts_node \<Rightarrow> bytes \<Rightarrow> string option" where
  "assignment_property_name node source =
     (if node_kind node = ''member_expression'' then
        Option.bind (child_by_field_name node ''property'') (\<lambda>property. utf8_text property source)
      else if node_kind node = ''identifier'' then utf8_text node source
      else None)"

fun javascript_property_anchor :: "ts_node \<Rightarrow> bytes \<Rightarrow> string option" where
  "javascript_property_anchor (TsNode i f t p) source =
     (let node = TsNode i f t p;
          key = (if node_kind node \<in> {''pair'', ''property_assignment''}
            then child_by_field_or_kind node source ''key'' [''property_identifier'', ''identifier'', ''string'']
            else None);
          left = (if node_kind node = ''assignment_expression'' then child_by_field_name node ''left'' else None) in
      case key of
        Some k \<Rightarrow> Option.bind (utf8_text k source) clean_js_property_name
      | None \<Rightarrow> (case left of
          Some l \<Rightarrow> assignment_property_name l source
        | None \<Rightarrow> (case p of None \<Rightarrow> None | Some parent \<Rightarrow> javascript_property_anchor parent source)))"

fun css_declaration_property_anchor :: "ts_node \<Rightarrow> bytes \<Rightarrow> string option" where
  "css_declaration_property_anchor (TsNode i f t p) source =
     (let node = TsNode i f t p;
          property = (if node_kind node = ''declaration''
            then child_by_field_or_kind node source ''property'' [''property_name'', ''plain_value'', ''identifier'']
            else None) in
      case property of
        Some q \<Rightarrow> map_option trim (utf8_text q source)
      | None \<Rightarrow> (case p of None \<Rightarrow> None | Some parent \<Rightarrow> css_declaration_property_anchor parent source))"

fun html_element_name :: "ts_node \<Rightarrow> bytes \<Rightarrow> string option" where
  "html_element_name (TsNode i f t p) source =
     (let node = TsNode i f t p;
          tag = (if node_kind node \<in> {''start_tag'', ''self_closing_tag'', ''element''}
            then find (\<lambda>child. node_kind child = ''tag_name'') (node_children node) else None) in
      case tag of
        Some child \<Rightarrow> map_option trim (utf8_text child source)
      | None \<Rightarrow> (case p of None \<Rightarrow> None | Some parent \<Rightarrow> html_element_name parent source))"

fun html_attribute_anchor :: "ts_node \<Rightarrow> bytes \<Rightarrow> (string option \<times> string) option" where
  "html_attribute_anchor (TsNode i f t p) source =
     (let node = TsNode i f t p in
      if node_kind node = ''attribute'' then
        Option.bind (child_by_field_or_kind node source ''name'' [''attribute_name'']) (\<lambda>child.
          map_option (\<lambda>text. (html_element_name node source, trim text)) (utf8_text child source))
      else (case p of None \<Rightarrow> None | Some parent \<Rightarrow> html_attribute_anchor parent source))"

fun expand_replacement_to_ancestor_kinds ::
  "ts_node \<Rightarrow> string \<Rightarrow> text_replacement \<Rightarrow> string list \<Rightarrow> text_replacement option" where
  "expand_replacement_to_ancestor_kinds (TsNode i f t p) original r kinds =
     (let node = TsNode i f t p in
      if node_kind node \<in> set kinds then
        (if start_byte node > tr_start r \<or> end_byte node < tr_end r then None
         else Option.bind (str_get original (start_byte node) (end_byte node)) (\<lambda>old.
           let new = replacen_one (tr_old r) (tr_new r) old in
           if old = new then None
           else Some \<lparr>tr_start = start_byte node, tr_end = end_byte node, tr_old = old, tr_new = new\<rparr>))
      else (case p of
          None \<Rightarrow> None
        | Some parent \<Rightarrow> expand_replacement_to_ancestor_kinds parent original r kinds))"

section \<open>Anchors and intents\<close>

definition ast_node_anchor :: "body_language \<Rightarrow> ts_node \<Rightarrow> string \<Rightarrow> text_replacement \<Rightarrow> tree_sitter_anchor" where
  "ast_node_anchor language changed_node original r =
     \<lparr>tsa_language = language,
      tsa_anchor = AnchorAstNode (node_kind changed_node)
        (case node_text_fragment changed_node original of Some text \<Rightarrow> text | None \<Rightarrow> tr_old r),
      tsa_operation = OpReplaceTextOnce (tr_old r) (tr_new r),
      tsa_ast_path = ast_path_for_node changed_node original,
      tsa_changed_node_kind = node_kind changed_node, tsa_changed_text = tr_old r, tsa_confidence = ConfMedium\<rparr>"

definition high_anchor ::
  "body_language \<Rightarrow> ts_node \<Rightarrow> string \<Rightarrow> text_replacement \<Rightarrow> body_anchor \<Rightarrow> body_rewrite_operation \<Rightarrow> tree_sitter_anchor" where
  "high_anchor language changed_node original r anchor operation =
     \<lparr>tsa_language = language, tsa_anchor = anchor, tsa_operation = operation,
      tsa_ast_path = ast_path_for_node changed_node original,
      tsa_changed_node_kind = node_kind changed_node, tsa_changed_text = tr_old r, tsa_confidence = ConfHigh\<rparr>"

definition changed_node_of :: "tree_sitter_lib \<Rightarrow> body_language \<Rightarrow> string \<Rightarrow> text_replacement \<Rightarrow> ts_node option" where
  "changed_node_of T language original r =
     Option.bind (parse_tree T language original) (\<lambda>tree.
       smallest_node_covering_range (root_node tree) (tr_start r) (tr_end r))"

definition extract_javascript_tree_sitter_anchor ::
  "tree_sitter_lib \<Rightarrow> string \<Rightarrow> text_replacement \<Rightarrow> tree_sitter_anchor option" where
  "extract_javascript_tree_sitter_anchor T original r =
     map_option (\<lambda>changed_node. case javascript_property_anchor changed_node original of
         Some property \<Rightarrow>
           (let r1 = (case expand_replacement_to_ancestor_kinds changed_node original r [''string''] of
                        Some e \<Rightarrow> e | None \<Rightarrow> r) in
            high_anchor LangJavaScript changed_node original r1 (AnchorJsProperty property)
              (OpReplaceJsProperty property (tr_old r1) (tr_new r1)))
       | None \<Rightarrow> ast_node_anchor LangJavaScript changed_node original r)
     (changed_node_of T LangJavaScript original r)"

definition extract_css_tree_sitter_anchor ::
  "tree_sitter_lib \<Rightarrow> string \<Rightarrow> text_replacement \<Rightarrow> tree_sitter_anchor option" where
  "extract_css_tree_sitter_anchor T original r =
     map_option (\<lambda>changed_node. case css_declaration_property_anchor changed_node original of
         Some property \<Rightarrow>
           high_anchor LangCss changed_node original r (AnchorCssDeclaration property)
             (OpReplaceCssDeclaration property (tr_old r) (tr_new r))
       | None \<Rightarrow> ast_node_anchor LangCss changed_node original r)
     (changed_node_of T LangCss original r)"

definition extract_html_tree_sitter_anchor ::
  "tree_sitter_lib \<Rightarrow> string \<Rightarrow> text_replacement \<Rightarrow> tree_sitter_anchor option" where
  "extract_html_tree_sitter_anchor T original r =
     map_option (\<lambda>changed_node. case html_attribute_anchor changed_node original of
         Some (element, attribute) \<Rightarrow>
           high_anchor LangHtml changed_node original r (AnchorHtmlAttribute element attribute)
             (OpReplaceHtmlAttribute (case element of Some e \<Rightarrow> e | None \<Rightarrow> ''*'') attribute (tr_old r) (tr_new r))
       | None \<Rightarrow> ast_node_anchor LangHtml changed_node original r)
     (changed_node_of T LangHtml original r)"

definition extract_tree_sitter_anchor ::
  "tree_sitter_lib \<Rightarrow> body_language \<Rightarrow> string \<Rightarrow> string \<Rightarrow> tree_sitter_anchor option" where
  "extract_tree_sitter_anchor T language original edited =
     Option.bind (single_text_replacement original edited) (\<lambda>r. case language of
         LangJavaScript \<Rightarrow> extract_javascript_tree_sitter_anchor T original r
       | LangCss \<Rightarrow> extract_css_tree_sitter_anchor T original r
       | LangHtml \<Rightarrow> extract_html_tree_sitter_anchor T original r
       | _ \<Rightarrow> None)"

definition extract_body_rewrite_intent ::
  "tree_sitter_lib \<Rightarrow> string \<Rightarrow> string \<Rightarrow> string option \<Rightarrow> body_rewrite_intent option" where
  "extract_body_rewrite_intent T original edited content_type =
     (if original = edited then None
      else
        (let language = from_content_type content_type in
         case (if is_ast_like language then extract_tree_sitter_anchor T language original edited else None) of
           Some a \<Rightarrow> Some \<lparr>bri_language = tsa_language a, bri_anchor = tsa_anchor a,
               bri_operation = tsa_operation a, bri_confidence = tsa_confidence a\<rparr>
         | None \<Rightarrow> extract_text_rewrite_intent language original edited))"

section \<open>What the operations do\<close>

lemma common_zip:
  obtains u v where "A = map fst (takeWhile (\<lambda>(l, r). l = r) (zip A B)) @ u"
    "B = map fst (takeWhile (\<lambda>(l, r). l = r) (zip A B)) @ v"
proof -
  have "\<exists>u v. A = map fst (takeWhile (\<lambda>(l, r). l = r) (zip A B)) @ u
      \<and> B = map fst (takeWhile (\<lambda>(l, r). l = r) (zip A B)) @ v"
    by (induction A B rule: list_induct2') auto
  with that show thesis by blast
qed

lemma common_prefix:
  obtains u v where "left = take (common_prefix_len left right) left @ u"
    "right = take (common_prefix_len left right) left @ v" "common_prefix_len left right \<le> length left"
proof -
  let ?c = "map fst (takeWhile (\<lambda>(l, r). l = r) (zip (str_chars left) (str_chars right)))"
  obtain u v where u: "str_chars left = ?c @ u" and v: "str_chars right = ?c @ v"
    by (rule common_zip)
  have l: "left = concat ?c @ concat u" and r: "right = concat ?c @ concat v"
    using arg_cong [OF u, of concat] arg_cong [OF v, of concat] unfolding concat_append concat_str_chars .
  have "take (common_prefix_len left right) left = concat ?c" "length (concat ?c) \<le> length left"
    unfolding common_prefix_len_def by (subst (2) l, simp, subst (2) l, simp)
  with l r show thesis using that by (simp add: common_prefix_len_def)
qed

lemma common_suffix:
  obtains u v w where "left = u @ w" "right = v @ w" "length w = common_suffix_len left right"
proof -
  let ?c = "map fst (takeWhile (\<lambda>(l, r). l = r) (zip (rev (str_chars left)) (rev (str_chars right))))"
  obtain u v where u: "rev (str_chars left) = ?c @ u" and v: "rev (str_chars right) = ?c @ v"
    by (rule common_zip)
  have "str_chars left = rev u @ rev ?c" "str_chars right = rev v @ rev ?c"
    using u v by (metis rev_append rev_rev_ident)+
  then have "left = concat (rev u) @ concat (rev ?c)" "right = concat (rev v) @ concat (rev ?c)"
    by (metis concat_append concat_str_chars)+
  moreover have "length (concat (rev ?c)) = common_suffix_len left right"
    unfolding common_suffix_len_def by (simp add: length_concat rev_map sum_list_rev flip: rev_map)
  ultimately show thesis by (rule that)
qed

text \<open>Two texts are a common front, two middles and a common rest; the middles are the replacement
  unless both are empty or one is too long.\<close>

lemma text_difference:
  obtains front rest old new where "original = front @ old @ rest" "edited = front @ new @ rest"
    "single_text_replacement original edited =
       (if old = [] \<and> new = [] \<or> 4096 < length old \<or> 4096 < length new then None
        else Some \<lparr>tr_start = length front, tr_end = length front + length old, tr_old = old, tr_new = new\<rparr>)"
    "length front = common_prefix_len original edited"
proof -
  let ?n = "common_prefix_len original edited"
  obtain u v where p: "original = take ?n original @ u" "edited = take ?n original @ v" and n: "?n \<le> length original"
    by (rule common_prefix)
  define front where "front = take ?n original"
  have l: "length front = ?n" using n by (simp add: front_def)
  have f: "original = front @ u" "edited = front @ v" using p by (simp_all add: front_def)
  have d: "drop ?n original = u" "drop ?n edited = v"
    unfolding l [symmetric] by (subst f, simp)+
  obtain old new rest where s: "u = old @ rest" "v = new @ rest" "length rest = common_suffix_len u v"
    by (rule common_suffix)
  have lens: "length original = ?n + length old + length rest" "length edited = ?n + length new + length rest"
    using f s l by simp_all
  show thesis
  proof (rule that)
    show "original = front @ old @ rest" "edited = front @ new @ rest" using f s by simp_all
    show "length front = ?n" by (rule l)
    show "single_text_replacement original edited =
       (if old = [] \<and> new = [] \<or> 4096 < length old \<or> 4096 < length new then None
        else Some \<lparr>tr_start = length front, tr_end = length front + length old, tr_old = old, tr_new = new\<rparr>)"
      unfolding single_text_replacement_def Let_def d using s lens l by auto
  qed
qed

end
