(* ===== verification/Editor.thy ===== *)
theory Editor
  imports BodyRewrite
begin

text \<open>
  \<open>src/src/filters/editor.rs\<close>: the editor document. A captured message is printed as text, the text is
  edited and read back, the two messages are compared, and a filter is generated that makes the same
  change to later messages. The tables and libraries the code uses are fields of \<open>edit_lib\<close>.
  Shown: an unedited document reads back as the message it was printed from; when such a document
  counts as unchanged; that the header actions of a filter turn the original headers into the edited
  ones; that a generated filter selects the exchange it was made from; and when the body it produces is
  the edited body.
\<close>

section \<open>Messages\<close>

datatype editable_http_message_kind = EditRequest | EditResponse

record editable_http_header =
  eh_name :: string
  eh_value :: string

datatype editable_http_body =
    EditText string "string option"
  | EditBinary nat "string option"
  | EditEmpty

record editable_http_message =
  em_kind :: editable_http_message_kind
  em_method :: "string option"
  em_scheme :: "string option"
  em_host :: string
  em_path :: string
  em_query :: string
  em_status :: "nat option"
  em_headers :: "editable_http_header list"
  em_body :: editable_http_body

record editable_header_change =
  ec_name :: string
  ec_original_value :: string
  ec_edited_value :: string

record editable_http_message_diff =
  ed_kind :: editable_http_message_kind
  ed_method_changed :: bool
  ed_host_changed :: bool
  ed_path_changed :: bool
  ed_query_changed :: bool
  ed_status_changed :: bool
  ed_added_headers :: "editable_http_header list"
  ed_removed_headers :: "editable_http_header list"
  ed_changed_headers :: "editable_header_change list"
  ed_body_changed :: bool

datatype editable_http_message_parse_error = EditParseError (epe_message: string)

datatype edited_filter_generation_error =
    GenParse editable_http_message_parse_error
  | GenNoChanges
  | GenWrongMessageKind editable_http_message_kind editable_http_message_kind
  | GenMissingResponseStatus

datatype editable_filter_session =
    SessRequest string editable_http_message string
  | SessResponse string editable_http_message editable_http_message string

record editable_filter_session_preview =
  pv_has_changes :: bool
  pv_changes_text :: string
  pv_generated_roto :: "string option"
  pv_error :: "string option"

datatype editable_filter_session_error =
    SessParse editable_http_message_parse_error
  | SessNoChanges
  | SessWrongMessageKind editable_http_message_kind editable_http_message_kind
  | SessMissingResponseStatus
  | SessSave string

record 'p edit_lib =
  el_json :: json_lib
  el_patch :: "'p json_patch_lib"
  el_trees :: tree_sitter_lib
  el_debug :: "string \<Rightarrow> string option"
  el_lower :: "string \<Rightarrow> string list"

fun kind_debug :: "editable_http_message_kind \<Rightarrow> string" where
  "kind_debug EditRequest = ''Request''"
| "kind_debug EditResponse = ''Response''"

fun generation_error_text :: "edited_filter_generation_error \<Rightarrow> string" where
  "generation_error_text (GenParse err) = ''failed to parse edited HTTP message: '' @ epe_message err"
| "generation_error_text GenNoChanges = ''edited HTTP message has no changes''"
| "generation_error_text (GenWrongMessageKind expected actual) =
     ''edited HTTP message kind mismatch: expected '' @ kind_debug expected @ '', got '' @ kind_debug actual"
| "generation_error_text GenMissingResponseStatus = ''edited response is missing status''"

fun session_error_text :: "editable_filter_session_error \<Rightarrow> string" where
  "session_error_text (SessParse err) = ''failed to parse editable filter session: '' @ epe_message err"
| "session_error_text SessNoChanges = ''editable filter session has no changes''"
| "session_error_text (SessWrongMessageKind expected actual) =
     ''editable filter session kind mismatch: expected '' @ kind_debug expected @ '', got '' @ kind_debug actual"
| "session_error_text SessMissingResponseStatus = ''editable response is missing status''"
| "session_error_text (SessSave err) = ''failed to save generated filter: '' @ err"

fun session_error_of :: "edited_filter_generation_error \<Rightarrow> editable_filter_session_error" where
  "session_error_of (GenParse err) = SessParse err"
| "session_error_of GenNoChanges = SessNoChanges"
| "session_error_of (GenWrongMessageKind expected actual) = SessWrongMessageKind expected actual"
| "session_error_of GenMissingResponseStatus = SessMissingResponseStatus"

definition to_panel_text :: "editable_filter_session_preview \<Rightarrow> string" where
  "to_panel_text p =
     (case pv_error p of
        Some err \<Rightarrow> ''Error:'' @ [CHR 0x0A] @ ''  '' @ err @ [CHR 0x0A, CHR 0x0A]
      | None \<Rightarrow> [])
     @ pv_changes_text p
     @ (case pv_generated_roto p of
        Some generated_roto \<Rightarrow> CHR 0x0A # ''Generated Roto:'' @ [CHR 0x0A] @ generated_roto
      | None \<Rightarrow> [])"

definition editable_headers_from_filter_headers :: "filter_header list \<Rightarrow> editable_http_header list" where
  "editable_headers_from_filter_headers headers =
     map (\<lambda>header. \<lparr>eh_name = fh_name header, eh_value = fh_value header\<rparr>) headers"

definition editable_body_from_filter_body :: "filter_body \<Rightarrow> editable_http_body" where
  "editable_body_from_filter_body body = (case fb_text body of
     Some text \<Rightarrow> EditText text (fb_content_type body)
   | None \<Rightarrow> if fb_bytes body = [] then EditEmpty
       else EditBinary (length (fb_bytes body)) (fb_content_type body))"

definition editable_from_request :: "filter_request \<Rightarrow> editable_http_message" where
  "editable_from_request request =
     \<lparr>em_kind = EditRequest, em_method = Some (fr_method request), em_scheme = Some (fr_scheme request),
      em_host = fr_host request, em_path = fr_path request, em_query = fr_query request, em_status = None,
      em_headers = editable_headers_from_filter_headers (fr_headers request),
      em_body = editable_body_from_filter_body (fr_body request)\<rparr>"

definition editable_from_response :: "filter_request \<Rightarrow> filter_response \<Rightarrow> editable_http_message" where
  "editable_from_response request response =
     \<lparr>em_kind = EditResponse, em_method = None, em_scheme = Some (fr_scheme request),
      em_host = fr_host request, em_path = fr_path request, em_query = fr_query request,
      em_status = Some (fp_status response),
      em_headers = editable_headers_from_filter_headers (fp_headers response),
      em_body = editable_body_from_filter_body (fp_body response)\<rparr>"

definition editable_from_response_without_request_context :: "filter_response \<Rightarrow> editable_http_message" where
  "editable_from_response_without_request_context response =
     \<lparr>em_kind = EditResponse, em_method = None, em_scheme = None, em_host = [], em_path = ''/'', em_query = [],
      em_status = Some (fp_status response),
      em_headers = editable_headers_from_filter_headers (fp_headers response),
      em_body = editable_body_from_filter_body (fp_body response)\<rparr>"

definition to_filter_headers :: "editable_http_message \<Rightarrow> filter_header list" where
  "to_filter_headers m = map (\<lambda>header. \<lparr>fh_name = eh_name header, fh_value = eh_value header\<rparr>) (em_headers m)"

definition has_text_body :: "editable_http_message \<Rightarrow> bool" where
  "has_text_body m = (case em_body m of EditText _ _ \<Rightarrow> True | _ \<Rightarrow> False)"

definition body_text :: "editable_http_message \<Rightarrow> string option" where
  "body_text m = (case em_body m of EditText text _ \<Rightarrow> Some text | _ \<Rightarrow> None)"

definition body_content_type :: "editable_http_message \<Rightarrow> string option" where
  "body_content_type m = (case em_body m of
     EditText _ content_type \<Rightarrow> content_type
   | EditBinary _ content_type \<Rightarrow> content_type
   | EditEmpty \<Rightarrow> None)"

definition find_header :: "editable_http_header list \<Rightarrow> string \<Rightarrow> editable_http_header option" where
  "find_header headers name = find (\<lambda>header. eq_ignore_ascii_case (eh_name header) name) headers"

definition edit_header_value :: "editable_http_message \<Rightarrow> string \<Rightarrow> string option" where
  "edit_header_value m name =
     map_option eh_value (find (\<lambda>header. eq_ignore_ascii_case (eh_name header) name) (em_headers m))"

section \<open>The document\<close>

definition line_of :: "string \<Rightarrow> string" where
  "line_of s = s @ [CHR 0x0A]"

definition to_edit_text :: "editable_http_message \<Rightarrow> string" where
  "to_edit_text m =
     (case em_kind m of
        EditRequest \<Rightarrow>
          line_of ''kind: request''
          @ line_of (''method: '' @ text_or_empty (em_method m))
          @ line_of (''scheme: '' @ text_or_empty (em_scheme m))
      | EditResponse \<Rightarrow>
          line_of ''kind: response''
          @ line_of (''status: '' @ (case em_status m of Some status \<Rightarrow> show_nat status | None \<Rightarrow> [])))
     @ line_of (''host: '' @ em_host m)
     @ line_of (''path: '' @ em_path m)
     @ line_of (''query: '' @ em_query m)
     @ line_of []
     @ line_of ''headers:''
     @ concat (map (\<lambda>header. line_of (eh_name header @ '': '' @ eh_value header)) (em_headers m))
     @ line_of []
     @ line_of ''body:''
     @ (case em_body m of
          EditText text _ \<Rightarrow> text @ (if ends_with text [CHR 0x0A] then [] else [CHR 0x0A])
        | EditBinary bytes_len content_type \<Rightarrow>
            line_of ''# binary body is not editable''
            @ line_of (''# bytes_len: '' @ show_nat bytes_len)
            @ (case content_type of Some ct \<Rightarrow> line_of (''# content_type: '' @ ct) | None \<Rightarrow> [])
        | EditEmpty \<Rightarrow> [])"

record edit_text_sections =
  es_meta :: string
  es_headers :: string
  es_body :: string

definition headers_marker :: string where
  "headers_marker = CHR 0x0A # ''headers:'' @ [CHR 0x0A]"

definition body_marker :: string where
  "body_marker = CHR 0x0A # ''body:'' @ [CHR 0x0A]"

definition split_edit_text_sections :: "string \<Rightarrow> edit_text_sections" where
  "split_edit_text_sections text = (case find_sub text headers_marker of
     None \<Rightarrow> \<lparr>es_meta = text, es_headers = [], es_body = []\<rparr>
   | Some idx \<Rightarrow>
       (let after_meta = drop (idx + length headers_marker) text in
        case find_sub after_meta body_marker of
          Some jdx \<Rightarrow> \<lparr>es_meta = take idx text, es_headers = take jdx after_meta,
            es_body = drop (jdx + length body_marker) after_meta\<rparr>
        | None \<Rightarrow> \<lparr>es_meta = take idx text, es_headers = after_meta, es_body = []\<rparr>))"

definition empty_to_none :: "string \<Rightarrow> string option" where
  "empty_to_none val = (if val = [] then None else Some val)"

text \<open>The variables of the loop over the first section.\<close>

record edit_meta =
  mt_kind :: editable_http_message_kind
  mt_method :: "string option"
  mt_scheme :: "string option"
  mt_host :: string
  mt_path :: string
  mt_query :: string
  mt_status :: "nat option"
  mt_body_content_type :: "string option"

definition initial_meta :: "editable_http_message option \<Rightarrow> edit_meta" where
  "initial_meta original = (case original of
     Some m \<Rightarrow> \<lparr>mt_kind = em_kind m, mt_method = em_method m, mt_scheme = em_scheme m, mt_host = em_host m,
       mt_path = em_path m, mt_query = em_query m, mt_status = em_status m,
       mt_body_content_type = body_content_type m\<rparr>
   | None \<Rightarrow> \<lparr>mt_kind = EditRequest, mt_method = None, mt_scheme = None, mt_host = [], mt_path = ''/'',
       mt_query = [], mt_status = None, mt_body_content_type = None\<rparr>)"

definition meta_entry ::
  "(string \<Rightarrow> string option) \<Rightarrow> string \<Rightarrow> string \<Rightarrow> edit_meta \<Rightarrow> editable_http_message_parse_error + edit_meta" where
  "meta_entry U key val s =
     (if key = ''kind'' then
        (if val = ''request'' then Inr (s\<lparr>mt_kind := EditRequest\<rparr>)
         else if val = ''response'' then Inr (s\<lparr>mt_kind := EditResponse\<rparr>)
         else Inl (EditParseError (''invalid kind: '' @ debug_str U val)))
      else if key = ''method'' then Inr (s\<lparr>mt_method := empty_to_none val\<rparr>)
      else if key = ''scheme'' then Inr (s\<lparr>mt_scheme := empty_to_none val\<rparr>)
      else if key = ''host'' then Inr (s\<lparr>mt_host := val\<rparr>)
      else if key = ''path'' then Inr (s\<lparr>mt_path := val\<rparr>)
      else if key = ''query'' then Inr (s\<lparr>mt_query := val\<rparr>)
      else if key = ''status'' then
        (if val = [] then Inr (s\<lparr>mt_status := None\<rparr>)
         else (case parse_uint u16_max val of
             Some status \<Rightarrow> Inr (s\<lparr>mt_status := Some status\<rparr>)
           | None \<Rightarrow> Inl (EditParseError (''invalid status: '' @ debug_str U val))))
      else if key = ''content-type'' \<or> key = ''content_type'' then Inr (s\<lparr>mt_body_content_type := empty_to_none val\<rparr>)
      else Inl (EditParseError (''unknown meta key: '' @ debug_str U key)))"

fun meta_loop ::
  "(string \<Rightarrow> string option) \<Rightarrow> string list \<Rightarrow> edit_meta \<Rightarrow> editable_http_message_parse_error + edit_meta" where
  "meta_loop U [] s = Inr s"
| "meta_loop U (line0 # lines) s =
     (let line = trim line0 in
      if line = [] \<or> starts_with line ''#'' then meta_loop U lines s
      else (case split_once (CHR '':'') line of
          None \<Rightarrow> Inl (EditParseError (''invalid meta line: '' @ debug_str U line))
        | Some (key, val) \<Rightarrow>
            (case meta_entry U (to_ascii_lowercase (trim key)) (trim val) s of
               Inl err \<Rightarrow> Inl err
             | Inr s1 \<Rightarrow> meta_loop U lines s1)))"

fun header_loop ::
  "(string \<Rightarrow> string option) \<Rightarrow> string list \<Rightarrow> editable_http_message_parse_error + editable_http_header list" where
  "header_loop U [] = Inr []"
| "header_loop U (line0 # lines) =
     (let line = trim line0 in
      if line = [] \<or> starts_with line ''#'' then header_loop U lines
      else (case split_once (CHR '':'') line of
          None \<Rightarrow> Inl (EditParseError (''invalid header line: '' @ debug_str U line))
        | Some (name, val) \<Rightarrow>
            if trim name = [] then Inl (EditParseError ''header name must not be empty'')
            else map_sum id (\<lambda>hs. \<lparr>eh_name = trim name, eh_value = trim val\<rparr> # hs) (header_loop U lines)))"

definition parse_edit_headers ::
  "(string \<Rightarrow> string option) \<Rightarrow> string \<Rightarrow> editable_http_message_parse_error + editable_http_header list" where
  "parse_edit_headers U text = header_loop U (str_lines text)"

text \<open>The body read from its section, beside the body of the original.\<close>

definition edited_body :: "editable_http_message option \<Rightarrow> string \<Rightarrow> string option \<Rightarrow> editable_http_body" where
  "edited_body original section content_type0 =
     (let new_body = (if section = [] then EditEmpty else EditText section content_type0) in
      case original of
        None \<Rightarrow> new_body
      | Some m \<Rightarrow> (case em_body m of
          EditBinary bytes_len content_type \<Rightarrow> EditBinary bytes_len content_type
        | EditText original_text content_type \<Rightarrow>
            EditText
              (if \<not> ends_with original_text [CHR 0x0A] \<and> length section = length original_text + 1
                   \<and> starts_with section original_text \<and> ends_with section [CHR 0x0A]
               then original_text else section)
              (case content_type0 of Some ct \<Rightarrow> Some ct | None \<Rightarrow> content_type)
        | EditEmpty \<Rightarrow> new_body))"

definition parse_edit_text ::
  "(string \<Rightarrow> string option) \<Rightarrow> string \<Rightarrow> editable_http_message option
   \<Rightarrow> editable_http_message_parse_error + editable_http_message" where
  "parse_edit_text U text original =
     (let sections = split_edit_text_sections text in
      case meta_loop U (str_lines (es_meta sections)) (initial_meta original) of
        Inl err \<Rightarrow> Inl err
      | Inr s \<Rightarrow>
          (case parse_edit_headers U (es_headers sections) of
             Inl err \<Rightarrow> Inl err
           | Inr headers \<Rightarrow>
               Inr \<lparr>em_kind = mt_kind s, em_method = mt_method s, em_scheme = mt_scheme s, em_host = mt_host s,
                 em_path = mt_path s, em_query = mt_query s, em_status = mt_status s, em_headers = headers,
                 em_body = edited_body original (es_body sections) (mt_body_content_type s)\<rparr>))"

section \<open>Comparing two messages\<close>

definition message_diff :: "editable_http_message \<Rightarrow> editable_http_message \<Rightarrow> editable_http_message_diff" where
  "message_diff m edited =
     \<lparr>ed_kind = em_kind m,
      ed_method_changed = (em_method m \<noteq> em_method edited),
      ed_host_changed = (em_host m \<noteq> em_host edited),
      ed_path_changed = (em_path m \<noteq> em_path edited),
      ed_query_changed = (em_query m \<noteq> em_query edited),
      ed_status_changed = (em_status m \<noteq> em_status edited),
      ed_added_headers = filter (\<lambda>h. edit_header_value m (eh_name h) = None) (em_headers edited),
      ed_removed_headers = filter (\<lambda>h. edit_header_value edited (eh_name h) = None) (em_headers m),
      ed_changed_headers = List.map_filter (\<lambda>h.
          Option.bind (edit_header_value edited (eh_name h)) (\<lambda>edited_value.
            if eh_value h = edited_value then None
            else Some \<lparr>ec_name = eh_name h, ec_original_value = eh_value h, ec_edited_value = edited_value\<rparr>))
        (em_headers m),
      ed_body_changed = (body_text m \<noteq> body_text edited)\<rparr>"

definition has_changes :: "editable_http_message_diff \<Rightarrow> bool" where
  "has_changes d \<longleftrightarrow> ed_method_changed d \<or> ed_host_changed d \<or> ed_path_changed d \<or> ed_query_changed d
     \<or> ed_status_changed d \<or> ed_added_headers d \<noteq> [] \<or> ed_removed_headers d \<noteq> [] \<or> ed_changed_headers d \<noteq> []
     \<or> ed_body_changed d"

definition header_actions :: "editable_http_message_diff \<Rightarrow> generated_filter_action list" where
  "header_actions d = (case ed_kind d of
     EditRequest \<Rightarrow>
       map (\<lambda>h. RemoveRequestHeader (eh_name h)) (ed_removed_headers d)
       @ map (\<lambda>h. SetRequestHeader (ec_name h) (ec_edited_value h)) (ed_changed_headers d)
       @ map (\<lambda>h. SetRequestHeader (eh_name h) (eh_value h)) (ed_added_headers d)
   | EditResponse \<Rightarrow>
       map (\<lambda>h. RemoveResponseHeader (eh_name h)) (ed_removed_headers d)
       @ map (\<lambda>h. SetResponseHeader (ec_name h) (ec_edited_value h)) (ed_changed_headers d)
       @ map (\<lambda>h. SetResponseHeader (eh_name h) (eh_value h)) (ed_added_headers d))"

definition format_editable_diff :: "editable_http_message_diff \<Rightarrow> string" where
  "format_editable_diff d =
     line_of ''Changes:''
     @ (if \<not> has_changes d then line_of ''  none''
        else
          (if ed_method_changed d then line_of ''  method changed'' else [])
          @ (if ed_host_changed d then line_of ''  host changed'' else [])
          @ (if ed_path_changed d then line_of ''  path changed'' else [])
          @ (if ed_query_changed d then line_of ''  query changed'' else [])
          @ (if ed_status_changed d then line_of ''  status changed'' else [])
          @ concat (map (\<lambda>h. line_of (''  removed header '' @ eh_name h @ '': '' @ eh_value h)) (ed_removed_headers d))
          @ concat (map (\<lambda>h. line_of (''  header '' @ ec_name h @ '': '' @ ec_original_value h @ '' -> ''
               @ ec_edited_value h)) (ed_changed_headers d))
          @ concat (map (\<lambda>h. line_of (''  added header '' @ eh_name h @ '': '' @ eh_value h)) (ed_added_headers d))
          @ (if ed_body_changed d then line_of ''  body changed'' else []))"

definition push_optional_string_replace ::
  "diff_event list \<Rightarrow> diff_path \<Rightarrow> string option \<Rightarrow> string option \<Rightarrow> diff_source \<Rightarrow> diff_event list" where
  "push_optional_string_replace events path old new source =
     (if old = new then events
      else (case (old, new) of
          (Some o1, Some n1) \<Rightarrow> events @ [DiffReplace path (NodeString o1) (NodeString n1) source]
        | (Some o1, None) \<Rightarrow> events @ [DiffDelete path (NodeString o1) source]
        | (None, Some n1) \<Rightarrow> events @ [DiffInsert path (NodeString n1) source]
        | (None, None) \<Rightarrow> events))"

definition push_string_replace ::
  "diff_event list \<Rightarrow> diff_path \<Rightarrow> string \<Rightarrow> string \<Rightarrow> diff_source \<Rightarrow> diff_event list" where
  "push_string_replace events path old new source =
     (if old = new then events else events @ [DiffReplace path (NodeString old) (NodeString new) source])"

definition header_node :: "editable_http_header \<Rightarrow> diff_node" where
  "header_node h = NodeHeader (eh_name h) (eh_value h)"

definition push_header_diff_events ::
  "diff_event list \<Rightarrow> editable_http_header list \<Rightarrow> editable_http_header list \<Rightarrow> diff_event list" where
  "push_header_diff_events events original edited =
     events
     @ concat (map (\<lambda>h. case find_header edited (eh_name h) of
           Some e \<Rightarrow> if eh_value e \<noteq> eh_value h
             then [DiffReplace [SegHeader (to_ascii_lowercase (eh_name h))] (header_node h) (header_node e) SrcHeader]
             else []
         | None \<Rightarrow> [DiffDelete [SegHeader (to_ascii_lowercase (eh_name h))] (header_node h) SrcHeader]) original)
     @ concat (map (\<lambda>e. if find_header original (eh_name e) = None
           then [DiffInsert [SegHeader (to_ascii_lowercase (eh_name e))] (header_node e) SrcHeader]
           else []) edited)"

fun body_to_diff_node :: "editable_http_body \<Rightarrow> diff_node" where
  "body_to_diff_node (EditText text _) = NodeText text"
| "body_to_diff_node (EditBinary bytes_len content_type) = NodeBinary bytes_len content_type"
| "body_to_diff_node EditEmpty = NodeNull"

definition push_body_diff_events ::
  "json_lib \<Rightarrow> diff_event list \<Rightarrow> editable_http_body \<Rightarrow> editable_http_body \<Rightarrow> diff_event list" where
  "push_body_diff_events J events original edited =
     (if original = edited then events
      else (case (original, edited) of
          (EditText old old_content_type, EditText new new_content_type) \<Rightarrow>
            (case push_json_body_diff_events J events old new
                (case old_content_type of Some ct \<Rightarrow> Some ct | None \<Rightarrow> new_content_type) of
               (events1, pushed) \<Rightarrow> if pushed then events1
                 else events1 @ [DiffReplace [SegBody] (NodeText old) (NodeText new) (SrcBody BodyText)])
        | (EditEmpty, EditText text content_type) \<Rightarrow>
            (case push_json_body_insert_event J events text content_type of
               (events1, pushed) \<Rightarrow> if pushed then events1
                 else events1 @ [DiffInsert [SegBody] (NodeText text) (SrcBody BodyText)])
        | (EditText text content_type, EditEmpty) \<Rightarrow>
            (case push_json_body_delete_event J events text content_type of
               (events1, pushed) \<Rightarrow> if pushed then events1
                 else events1 @ [DiffDelete [SegBody] (NodeText text) (SrcBody BodyText)])
        | (EditBinary bytes_len content_type, EditEmpty) \<Rightarrow>
            events @ [DiffDelete [SegBody] (NodeBinary bytes_len content_type) (SrcBody BodyBinary)]
        | (EditEmpty, EditBinary bytes_len content_type) \<Rightarrow>
            events @ [DiffInsert [SegBody] (NodeBinary bytes_len content_type) (SrcBody BodyBinary)]
        | (EditEmpty, EditEmpty) \<Rightarrow> events
        | (_, EditBinary bytes_len content_type) \<Rightarrow>
            events @ [DiffReplace [SegBody] (body_to_diff_node original) (NodeBinary bytes_len content_type)
              (SrcBody BodyBinary)]
        | (EditBinary _ _, _) \<Rightarrow>
            events @ [DiffReplace [SegBody] (body_to_diff_node original) (body_to_diff_node edited)
              (SrcBody BodyBinary)]))"

definition push_status_event :: "diff_event list \<Rightarrow> nat option \<Rightarrow> nat option \<Rightarrow> diff_event list" where
  "push_status_event events old new =
     (if old = new then events
      else (case (old, new) of
          (Some o1, Some n1) \<Rightarrow>
            events @ [DiffReplace [SegStatus] (NodeNumber (show_nat o1)) (NodeNumber (show_nat n1)) SrcHttpMeta]
        | (Some o1, None) \<Rightarrow> events @ [DiffDelete [SegStatus] (NodeNumber (show_nat o1)) SrcHttpMeta]
        | (None, Some n1) \<Rightarrow> events @ [DiffInsert [SegStatus] (NodeNumber (show_nat n1)) SrcHttpMeta]
        | (None, None) \<Rightarrow> events))"

definition semantic_diff :: "json_lib \<Rightarrow> editable_http_message \<Rightarrow> editable_http_message \<Rightarrow> diff_event list" where
  "semantic_diff J m edited =
     (let e1 = push_optional_string_replace [] [SegMethod] (em_method m) (em_method edited) SrcHttpMeta;
          e2 = push_optional_string_replace e1 [SegScheme] (em_scheme m) (em_scheme edited) SrcHttpMeta;
          e3 = push_string_replace e2 [SegHost] (em_host m) (em_host edited) SrcUrl;
          e4 = push_string_replace e3 [SegPath] (em_path m) (em_path edited) SrcUrl;
          e5 = push_string_replace e4 [SegQuery] (em_query m) (em_query edited) SrcUrl;
          e6 = push_status_event e5 (em_status m) (em_status edited);
          e7 = push_header_diff_events e6 (em_headers m) (em_headers edited)
      in push_body_diff_events J e7 (em_body m) (em_body edited))"

section \<open>Filters from an edit\<close>

definition to_request_input :: "editable_http_message \<Rightarrow> generated_rewrite_request_input" where
  "to_request_input m =
     (let i = new_request_input (em_host m) (case em_method m of Some meth \<Rightarrow> meth | None \<Rightarrow> ''GET'')
                (em_path m) (em_query m)
      in case body_text m of Some text \<Rightarrow> i\<lparr>gri_body_text := Some text\<rparr> | None \<Rightarrow> i)"

definition to_response_input :: "editable_http_message \<Rightarrow> generated_rewrite_response_input option" where
  "to_response_input m = map_option (\<lambda>status.
     let i = new_response_input status;
         i1 = (case body_content_type m of Some ct \<Rightarrow> i\<lparr>gsi_content_type := Some ct\<rparr> | None \<Rightarrow> i)
     in case body_text m of Some text \<Rightarrow> i1\<lparr>gsi_body_text := Some text\<rparr> | None \<Rightarrow> i1) (em_status m)"

fun request_body_action_from_operation :: "body_rewrite_operation \<Rightarrow> generated_filter_action option" where
  "request_body_action_from_operation (OpReplaceText old new) = Some (ReplaceRequestBodyTextOnce old new)"
| "request_body_action_from_operation (OpReplaceTextOnce old new) = Some (ReplaceRequestBodyTextOnce old new)"
| "request_body_action_from_operation (OpReplaceTextAll old new) = Some (ReplaceRequestBodyTextAll old new)"
| "request_body_action_from_operation (OpReplaceRegex pattern replacement) =
     Some (ReplaceRequestBodyRegex pattern replacement)"
| "request_body_action_from_operation (OpReplaceTextWhenContains anchor old new) =
     Some (ReplaceRequestBodyTextWhenContains anchor old new)"
| "request_body_action_from_operation (OpReplaceJsProperty property old new) =
     Some (ReplaceRequestJsProperty property old new)"
| "request_body_action_from_operation (OpReplaceCssDeclaration property old new) =
     Some (ReplaceRequestCssDeclaration property old new)"
| "request_body_action_from_operation (OpReplaceHtmlAttribute selector attribute old new) =
     Some (ReplaceRequestHtmlAttribute selector attribute old new)"
| "request_body_action_from_operation (OpReplaceWholeBody _ _) = None"
| "request_body_action_from_operation (OpInsertText _ _) = None"
| "request_body_action_from_operation (OpDeleteText _) = None"
| "request_body_action_from_operation (OpJsonPatch _ _ _) = None"

definition request_body_action_from_intent :: "body_rewrite_intent \<Rightarrow> generated_filter_action option" where
  "request_body_action_from_intent intent = request_body_action_from_operation (bri_operation intent)"

fun response_body_action_from_operation :: "body_rewrite_operation \<Rightarrow> generated_filter_action option" where
  "response_body_action_from_operation (OpReplaceText old new) = Some (ReplaceResponseBodyTextOnce old new)"
| "response_body_action_from_operation (OpReplaceTextOnce old new) = Some (ReplaceResponseBodyTextOnce old new)"
| "response_body_action_from_operation (OpReplaceTextAll old new) = Some (ReplaceResponseBodyTextAll old new)"
| "response_body_action_from_operation (OpReplaceRegex pattern replacement) =
     Some (ReplaceResponseBodyRegex pattern replacement)"
| "response_body_action_from_operation (OpReplaceTextWhenContains anchor old new) =
     Some (ReplaceResponseBodyTextWhenContains anchor old new)"
| "response_body_action_from_operation (OpReplaceJsProperty property old new) =
     Some (ReplaceResponseJsProperty property old new)"
| "response_body_action_from_operation (OpReplaceCssDeclaration property old new) =
     Some (ReplaceResponseCssDeclaration property old new)"
| "response_body_action_from_operation (OpReplaceHtmlAttribute selector attribute old new) =
     Some (ReplaceResponseHtmlAttribute selector attribute old new)"
| "response_body_action_from_operation (OpReplaceWholeBody _ _) = None"
| "response_body_action_from_operation (OpInsertText _ _) = None"
| "response_body_action_from_operation (OpDeleteText _) = None"
| "response_body_action_from_operation (OpJsonPatch _ _ _) = None"

definition response_body_action_from_intent :: "body_rewrite_intent \<Rightarrow> generated_filter_action option" where
  "response_body_action_from_intent intent = response_body_action_from_operation (bri_operation intent)"

fun confidence_debug :: "rewrite_confidence \<Rightarrow> string" where
  "confidence_debug ConfLow = ''Low''"
| "confidence_debug ConfMedium = ''Medium''"
| "confidence_debug ConfHigh = ''High''"

fun anchor_note :: "(string \<Rightarrow> string option) \<Rightarrow> body_anchor \<Rightarrow> string option" where
  "anchor_note U (ContainsAll texts) =
     Some (''semantic anchor: contains all ['' @ join_with '', '' (map (debug_str U) texts) @ '']'')"
| "anchor_note U (AnchorJsProperty property) = Some (''semantic anchor: javascript property '' @ debug_str U property)"
| "anchor_note U (AnchorCssDeclaration property) = Some (''semantic anchor: css declaration '' @ debug_str U property)"
| "anchor_note U (AnchorHtmlAttribute element attribute) =
     Some (''semantic anchor: html attribute '' @ debug_str U attribute @ '' on '' @ debug_option U element)"
| "anchor_note U _ = None"

definition add_intent_notes :: "(string \<Rightarrow> string option) \<Rightarrow> body_rewrite_intent \<Rightarrow> generated_filter \<Rightarrow> generated_filter" where
  "add_intent_notes U intent f =
     (let f1 = add_rewrite_note (''semantic body rewrite: language='' @ as_label (bri_language intent)
                 @ '', confidence='' @ confidence_debug (bri_confidence intent)) f
      in case anchor_note U (bri_anchor intent) of Some note \<Rightarrow> add_rewrite_note note f1 | None \<Rightarrow> f1)"

text \<open>The intent of a body edit, if both bodies are text.\<close>

definition edit_intent :: "'p edit_lib \<Rightarrow> editable_http_message \<Rightarrow> editable_http_message \<Rightarrow> body_rewrite_intent option" where
  "edit_intent L original edited =
     Option.bind (body_text original) (\<lambda>original_body. Option.bind (body_text edited) (\<lambda>edited_body_text.
       extract_body_rewrite_intent (el_trees L) original_body edited_body_text
         (case body_content_type original of Some ct \<Rightarrow> Some ct | None \<Rightarrow> body_content_type edited)))"

definition edit_operations :: "'p edit_lib \<Rightarrow> editable_http_message \<Rightarrow> editable_http_message \<Rightarrow> generated_json_patch_operation list" where
  "edit_operations L original edited =
     json_patch_operations_from_diff_events (el_json L) (semantic_diff (el_json L) original edited)"

definition edit_validates ::
  "'p edit_lib \<Rightarrow> editable_http_message \<Rightarrow> string \<Rightarrow> generated_json_patch_operation list \<Rightarrow> bool" where
  "edit_validates L original edited_text operations = (case body_text original of
     None \<Rightarrow> False
   | Some original_body \<Rightarrow> validate_json_patch_operations (el_json L) (el_patch L) original_body edited_text operations)"

definition patch_content_type :: "editable_http_message \<Rightarrow> string" where
  "patch_content_type edited =
     (case body_content_type edited of Some ct \<Rightarrow> ct | None \<Rightarrow> ''application/json; charset=utf-8'')"

definition rewrite_request_body ::
  "'p edit_lib \<Rightarrow> editable_http_message \<Rightarrow> editable_http_message \<Rightarrow> generated_filter \<Rightarrow> generated_filter" where
  "rewrite_request_body L original edited f =
     (let operations = edit_operations L original edited in
      case (if operations = [] then None else body_text edited) of
        Some edited_text \<Rightarrow>
          add_rewrite_note
            (if edit_validates L original edited_text operations
             then ''generated JSON patch validates against edited request body''
             else ''generated JSON patch did not validate; falling back to set_body_text output'')
            (replace_request_body_rewrite_action
               (ApplyRequestJsonPatch operations edited_text (patch_content_type edited)) f)
      | None \<Rightarrow> (case edit_intent L original edited of
            None \<Rightarrow> f
          | Some intent \<Rightarrow> (case request_body_action_from_intent intent of
              None \<Rightarrow> f
            | Some action \<Rightarrow> add_intent_notes (el_debug L) intent (replace_request_body_rewrite_action action f))))"

definition rewrite_response_body ::
  "'p edit_lib \<Rightarrow> editable_http_message \<Rightarrow> editable_http_message \<Rightarrow> generated_filter \<Rightarrow> generated_filter" where
  "rewrite_response_body L original edited f =
     (let operations = edit_operations L original edited in
      case (if operations = [] then None else body_text edited) of
        Some edited_text \<Rightarrow>
          add_rewrite_note
            (if edit_validates L original edited_text operations
             then ''generated JSON patch validates against edited response body''
             else ''generated JSON patch did not validate; falling back to set_body_text output'')
            (replace_response_body_rewrite_action
               (ApplyResponseJsonPatch operations edited_text (patch_content_type edited)) f)
      | None \<Rightarrow> (case edit_intent L original edited of
            None \<Rightarrow> f
          | Some intent \<Rightarrow> (case response_body_action_from_intent intent of
              None \<Rightarrow> f
            | Some action \<Rightarrow> add_intent_notes (el_debug L) intent (replace_response_body_rewrite_action action f))))"

definition extract_request_rewrite_from_edit ::
  "editable_http_message \<Rightarrow> editable_http_message \<Rightarrow> generated_rewrite_draft option" where
  "extract_request_rewrite_from_edit original edited =
     (if em_kind original \<noteq> EditRequest \<or> em_kind edited \<noteq> EditRequest then None
      else if \<not> has_changes (message_diff original edited) then None
      else Some (DraftRequest (extract_request LineAnchor (to_request_input original) (to_request_input edited))))"

definition extract_request_filter_from_edit ::
  "'p edit_lib \<Rightarrow> string \<Rightarrow> string \<Rightarrow> editable_http_message \<Rightarrow> editable_http_message \<Rightarrow> generated_filter option" where
  "extract_request_filter_from_edit L uuid name original edited =
     (if em_kind original \<noteq> EditRequest \<or> em_kind edited \<noteq> EditRequest then None
      else
        (let diff = message_diff original edited in
         if \<not> has_changes diff then None
         else
           (let f0 = into_filter (el_debug L) (el_lower L) uuid name
                  (DraftRequest (extract_request LineAnchor (to_request_input original) (to_request_input edited)));
                f1 = extend_actions (header_actions diff) f0;
                f2 = (if list_ex (\<lambda>h. eq_ignore_ascii_case (eh_name h) ''host'') (ed_removed_headers diff)
                      then add_rewrite_note ''host header removed; auto-added drop() to suppress client response''
                        (add_action GDrop f1)
                      else f1)
            in Some (rewrite_request_body L original edited f2))))"

definition extract_response_rewrite_from_edit ::
  "editable_http_message \<Rightarrow> editable_http_message \<Rightarrow> editable_http_message \<Rightarrow> generated_rewrite_draft option" where
  "extract_response_rewrite_from_edit ctx original edited =
     (if em_kind original \<noteq> EditResponse \<or> em_kind edited \<noteq> EditResponse then None
      else if \<not> has_changes (message_diff original edited) then None
      else Option.bind (to_response_input original) (\<lambda>original_response.
        map_option (\<lambda>edited_response.
          DraftResponse (extract_response LineAnchor (to_request_input ctx) original_response edited_response))
        (to_response_input edited)))"

definition extract_response_filter_from_edit ::
  "'p edit_lib \<Rightarrow> string \<Rightarrow> string \<Rightarrow> editable_http_message \<Rightarrow> editable_http_message \<Rightarrow> editable_http_message
   \<Rightarrow> generated_filter option" where
  "extract_response_filter_from_edit L uuid name ctx original edited =
     (if em_kind original \<noteq> EditResponse \<or> em_kind edited \<noteq> EditResponse then None
      else
        (let diff = message_diff original edited in
         if \<not> has_changes diff then None
         else Option.bind (to_response_input original) (\<lambda>original_response.
           map_option (\<lambda>edited_response.
             let f0 = into_filter (el_debug L) (el_lower L) uuid name (DraftResponse
                   (extract_response LineAnchor (to_request_input ctx) original_response edited_response))
             in rewrite_response_body L original edited (extend_actions (header_actions diff) f0))
           (to_response_input edited))))"

definition ok_or :: "'e \<Rightarrow> 'a option \<Rightarrow> 'e + 'a" where
  "ok_or e v = (case v of Some a \<Rightarrow> Inr a | None \<Rightarrow> Inl e)"

definition generate_request_filter_from_edited_text ::
  "'p edit_lib \<Rightarrow> string \<Rightarrow> string \<Rightarrow> filter_request \<Rightarrow> string \<Rightarrow> edited_filter_generation_error + generated_filter" where
  "generate_request_filter_from_edited_text L uuid name request edited_text =
     (let original = editable_from_request request in
      case parse_edit_text (el_debug L) edited_text (Some original) of
        Inl err \<Rightarrow> Inl (GenParse err)
      | Inr edited \<Rightarrow>
          if em_kind edited \<noteq> EditRequest then Inl (GenWrongMessageKind EditRequest (em_kind edited))
          else ok_or GenNoChanges (extract_request_filter_from_edit L uuid name original edited))"

definition generate_response_filter_from_edited_text ::
  "'p edit_lib \<Rightarrow> string \<Rightarrow> string \<Rightarrow> filter_request \<Rightarrow> filter_response \<Rightarrow> string
   \<Rightarrow> edited_filter_generation_error + generated_filter" where
  "generate_response_filter_from_edited_text L uuid name request response edited_text =
     (let original = editable_from_response request response in
      case parse_edit_text (el_debug L) edited_text (Some original) of
        Inl err \<Rightarrow> Inl (GenParse err)
      | Inr edited \<Rightarrow>
          if em_kind edited \<noteq> EditResponse then Inl (GenWrongMessageKind EditResponse (em_kind edited))
          else if em_status edited = None then Inl GenMissingResponseStatus
          else ok_or GenNoChanges
            (extract_response_filter_from_edit L uuid name (editable_from_request request) original edited))"

section \<open>Sessions\<close>

definition session_request :: "string \<Rightarrow> filter_request \<Rightarrow> editable_filter_session" where
  "session_request name request =
     (let original = editable_from_request request in SessRequest name original (to_edit_text original))"

definition session_response :: "string \<Rightarrow> filter_request \<Rightarrow> filter_response \<Rightarrow> editable_filter_session" where
  "session_response name request response =
     (let original = editable_from_response request response in
      SessResponse name (editable_from_request request) original (to_edit_text original))"

fun session_name :: "editable_filter_session \<Rightarrow> string" where
  "session_name (SessRequest name _ _) = name"
| "session_name (SessResponse name _ _ _) = name"

fun set_name :: "string \<Rightarrow> editable_filter_session \<Rightarrow> editable_filter_session" where
  "set_name name (SessRequest _ original edited_text) = SessRequest name original edited_text"
| "set_name name (SessResponse _ ctx original edited_text) = SessResponse name ctx original edited_text"

fun session_original :: "editable_filter_session \<Rightarrow> editable_http_message" where
  "session_original (SessRequest _ original _) = original"
| "session_original (SessResponse _ _ original _) = original"

fun session_edited_text :: "editable_filter_session \<Rightarrow> string" where
  "session_edited_text (SessRequest _ _ edited_text) = edited_text"
| "session_edited_text (SessResponse _ _ _ edited_text) = edited_text"

fun set_edited_text :: "string \<Rightarrow> editable_filter_session \<Rightarrow> editable_filter_session" where
  "set_edited_text edited_text (SessRequest name original _) = SessRequest name original edited_text"
| "set_edited_text edited_text (SessResponse name ctx original _) = SessResponse name ctx original edited_text"

fun session_reset :: "editable_filter_session \<Rightarrow> editable_filter_session" where
  "session_reset (SessRequest name original _) = SessRequest name original (to_edit_text original)"
| "session_reset (SessResponse name ctx original _) = SessResponse name ctx original (to_edit_text original)"

definition edited_message ::
  "'p edit_lib \<Rightarrow> editable_filter_session \<Rightarrow> editable_filter_session_error + editable_http_message" where
  "edited_message L session =
     map_sum SessParse id (parse_edit_text (el_debug L) (session_edited_text session) (Some (session_original session)))"

definition session_diff ::
  "'p edit_lib \<Rightarrow> editable_filter_session \<Rightarrow> editable_filter_session_error + editable_http_message_diff" where
  "session_diff L session = map_sum id (message_diff (session_original session)) (edited_message L session)"

definition session_has_changes :: "'p edit_lib \<Rightarrow> editable_filter_session \<Rightarrow> editable_filter_session_error + bool" where
  "session_has_changes L session = map_sum id has_changes (session_diff L session)"

fun generate_filter ::
  "'p edit_lib \<Rightarrow> string \<Rightarrow> editable_filter_session \<Rightarrow> editable_filter_session_error + generated_filter" where
  "generate_filter L uuid (SessRequest name original edited_text) =
     (case parse_edit_text (el_debug L) edited_text (Some original) of
        Inl err \<Rightarrow> Inl (SessParse err)
      | Inr edited \<Rightarrow>
          if em_kind edited \<noteq> EditRequest then Inl (SessWrongMessageKind EditRequest (em_kind edited))
          else ok_or SessNoChanges (extract_request_filter_from_edit L uuid name original edited))"
| "generate_filter L uuid (SessResponse name ctx original edited_text) =
     (case parse_edit_text (el_debug L) edited_text (Some original) of
        Inl err \<Rightarrow> Inl (SessParse err)
      | Inr edited \<Rightarrow>
          if em_kind edited \<noteq> EditResponse then Inl (SessWrongMessageKind EditResponse (em_kind edited))
          else if em_status edited = None then Inl SessMissingResponseStatus
          else ok_or SessNoChanges
            (extract_response_filter_from_edit L uuid name ctx original edited))"

definition failed_preview :: "editable_filter_session_error \<Rightarrow> editable_filter_session_preview" where
  "failed_preview err =
     \<lparr>pv_has_changes = False, pv_changes_text = [], pv_generated_roto = None, pv_error = Some (session_error_text err)\<rparr>"

definition preview :: "'p edit_lib \<Rightarrow> string \<Rightarrow> editable_filter_session \<Rightarrow> editable_filter_session_preview" where
  "preview L uuid session = (case session_diff L session of
     Inl err \<Rightarrow> failed_preview err
   | Inr diff \<Rightarrow> (case edited_message L session of
       Inl err \<Rightarrow> failed_preview err
     | Inr edited \<Rightarrow>
         (let semantic_events = semantic_diff (el_json L) (session_original session) edited;
              changes_text = format_editable_diff diff
                @ (if semantic_events = [] then []
                   else CHR 0x0A # line_of ''Semantic diff:''
                     @ concat (map (\<lambda>event. line_of (''  '' @ event_summary (el_debug L) event)) semantic_events))
          in if \<not> has_changes diff
             then \<lparr>pv_has_changes = False, pv_changes_text = changes_text, pv_generated_roto = None, pv_error = None\<rparr>
             else (case generate_filter L uuid session of
                 Inr f \<Rightarrow> \<lparr>pv_has_changes = True, pv_changes_text = changes_text,
                   pv_generated_roto = Some (to_roto_source (el_json L) f), pv_error = None\<rparr>
               | Inl err \<Rightarrow> \<lparr>pv_has_changes = True, pv_changes_text = changes_text,
                   pv_generated_roto = None, pv_error = Some (session_error_text err)\<rparr>))))"

section \<open>Reading a document back\<close>

text \<open>A field that fits on its line: no line feed, and no white space around it.\<close>

definition plain_field :: "string \<Rightarrow> bool" where
  "plain_field v \<longleftrightarrow> CHR 0x0A \<notin> set v \<and> trim v = v"

lemma ascii_not_ws:
  assumes "byte c < 128"
  shows "\<not> ws2 a (byte c)" "\<not> ws3 a (byte c) b" "\<not> ws3 a b (byte c)" "\<not> ws2 (byte c) a" "\<not> ws3 (byte c) a b"
  using assms by (simp_all add: ws2_def ws3_def)

lemma ws_head_append:
  assumes "s \<noteq> []" "ws_head s = 0" "byte c < 128"
  shows "ws_head (s @ c # r) = 0"
proof -
  obtain a t where "s = a # t" using assms(1) by (cases s) auto
  then show ?thesis
    using assms(2) ascii_not_ws [OF assms(3)]
    by (cases t; cases "tl t") (simp_all add: ws_head_def split: if_splits list.split)
qed

lemma ws_tail_append:
  assumes "s \<noteq> []" "ws_tail s = 0" "byte c < 128"
  shows "ws_tail (s @ c # r) = 0"
proof -
  obtain a t where "s = a # t" using assms(1) by (cases s) auto
  then show ?thesis
    using assms(2) ascii_not_ws [OF assms(3)]
    by (cases t; cases "tl t") (simp_all add: ws_tail_def split: if_splits list.split)
qed

lemma trim_rev_none: "ws_tail s = 0 \<Longrightarrow> trim_rev s = s"
  by (simp add: trim_rev.simps)

lemma trim_rev_fixed: "trim_rev s = s \<Longrightarrow> s \<noteq> [] \<Longrightarrow> ws_tail s = 0"
proof (rule ccontr)
  assume "trim_rev s = s" "s \<noteq> []" and pos: "ws_tail s \<noteq> 0"
  moreover obtain w where "rev (drop (ws_tail s) s) = trim_end (rev (drop (ws_tail s) s)) @ w"
    using trim_end_prefix by blast
  then have "length (trim_rev (drop (ws_tail s) s)) \<le> length (drop (ws_tail s) s)"
    unfolding trim_end_def by (metis length_append length_rev le_add1 rev_rev_ident)
  ultimately show False using trim_rev.simps [of s] by (cases s) auto
qed

lemma trim_fixed:
  assumes "trim v = v" "v \<noteq> []"
  shows "ws_head v = 0" "ws_tail (rev v) = 0"
proof -
  obtain a b where a: "v = a @ trim_start v" and b: "trim_start v = trim v @ b"
    using trim_start_suffix [of v] trim_end_prefix [of "trim_start v"] unfolding trim_def by blast
  have "length v = length a + (length v + length b)"
    using arg_cong [OF a, of length] arg_cong [OF b, of length] assms(1) by simp
  then have s: "trim_start v = v" using b assms(1) by simp
  then show "ws_head v = 0" using ws_head_trim_start [of v] by simp
  have "rev (trim_rev (rev v)) = v" using assms(1) s by (simp add: trim_def trim_end_def)
  then have "trim_rev (rev v) = rev v" by (metis rev_rev_ident)
  then show "ws_tail (rev v) = 0" using assms(2) by (intro trim_rev_fixed) simp_all
qed

lemma trim_blank: "trim (CHR '' '' # v) = trim v"
  by (simp add: trim_def trim_start.simps [of "CHR '' '' # v"] ws_head_def is_ascii_ws_def)

lemma ws_tail_colon: "ws_tail (CHR '':'' # r) = 0"
  by (simp add: ws_tail_def is_ascii_ws_def ws2_def ws3_def split: list.split)

text \<open>A line of the document, as the two loops read it.\<close>

definition entry_line :: "string \<Rightarrow> string \<Rightarrow> string" where
  "entry_line name v = name @ '': '' @ v"

lemma trim_entry:
  assumes "ws_head name = 0" "name \<noteq> []" "trim v = v"
  shows "trim (entry_line name v) = (if v = [] then name @ '':'' else entry_line name v)"
proof -
  have h: "trim_start (entry_line name v) = entry_line name v"
    using assms by (simp add: entry_line_def trim_start_none ws_head_append)
  show ?thesis
  proof (cases "v = []")
    case True
    have "trim_rev (rev (entry_line name v)) = trim_rev (CHR '':'' # rev name)"
      using True by (simp add: entry_line_def trim_rev.simps [of "CHR '' '' # CHR '':'' # rev name"] ws_tail_def is_ascii_ws_def)
    then show ?thesis
      using True h by (simp add: trim_def trim_end_def trim_rev_none ws_tail_colon)
  next
    case False
    then have "ws_tail (rev (entry_line name v)) = 0"
      using trim_fixed(2) [OF assms(3)] by (simp add: entry_line_def ws_tail_append)
    then show ?thesis using False h by (simp add: trim_def trim_end_def trim_rev_none)
  qed
qed

lemma read_entry:
  assumes "ws_head name = 0" "name \<noteq> []" "CHR '':'' \<notin> set name" "hd name \<noteq> CHR ''#''" "trim v = v"
  shows "trim (entry_line name v) \<noteq> []" "\<not> starts_with (trim (entry_line name v)) ''#''"
    "\<exists>w. split_once (CHR '':'') (trim (entry_line name v)) = Some (name, w) \<and> trim w = v"
proof -
  note t = trim_entry [OF assms(1,2,5)]
  show "trim (entry_line name v) \<noteq> []" using assms(2) unfolding t by (simp add: entry_line_def)
  show "\<not> starts_with (trim (entry_line name v)) ''#''"
    using assms(2,4) unfolding t by (cases name) (auto simp: entry_line_def)
  show "\<exists>w. split_once (CHR '':'') (trim (entry_line name v)) = Some (name, w) \<and> trim w = v"
    using assms(3,5) split_once_append [OF assms(3), of "[]"]
    unfolding t by (auto simp: entry_line_def trim_blank)
qed

lemma entry_plain_line:
  assumes "CHR 0x0A \<notin> set name" "plain_field v"
  shows "plain_line (entry_line name v)"
proof (cases "v = []")
  case True
  then show ?thesis using assms by (simp add: plain_line_def entry_line_def ends_with_single)
next
  case False
  then have "ws_tail (rev v) = 0" using assms(2) trim_fixed(2) by (simp add: plain_field_def)
  then have "last v \<noteq> CHR 0x0D"
    using False by (cases v rule: rev_cases) (auto simp: ws_tail_def is_ascii_ws_def split: if_splits)
  then show ?thesis using assms False by (auto simp: plain_line_def entry_line_def ends_with_single plain_field_def)
qed

lemma meta_loop_entry:
  assumes "ws_head name = 0" "name \<noteq> []" "CHR '':'' \<notin> set name" "hd name \<noteq> CHR ''#''" "plain_field v"
  shows "meta_loop U (entry_line name v # lines) s =
    (case meta_entry U (to_ascii_lowercase (trim name)) v s of Inl err \<Rightarrow> Inl err | Inr s1 \<Rightarrow> meta_loop U lines s1)"
proof -
  have "trim v = v" using assms(5) by (simp add: plain_field_def)
  note r = read_entry [OF assms(1-4) this]
  obtain w where "split_once (CHR '':'') (trim (entry_line name v)) = Some (name, w)" "trim w = v" using r(3) by blast
  then show ?thesis using r(1,2) by (simp add: Let_def)
qed

definition editable_header :: "editable_http_header \<Rightarrow> bool" where
  "editable_header h \<longleftrightarrow> eh_name h \<noteq> [] \<and> plain_field (eh_name h) \<and> CHR '':'' \<notin> set (eh_name h)
     \<and> hd (eh_name h) \<noteq> CHR ''#'' \<and> plain_field (eh_value h)"

lemma header_loop_lines:
  "list_all editable_header hs \<Longrightarrow> header_loop U (map (\<lambda>h. entry_line (eh_name h) (eh_value h)) hs) = Inr hs"
proof (induction hs)
  case (Cons h hs)
  then have h: "eh_name h \<noteq> []" "trim (eh_name h) = eh_name h" "CHR '':'' \<notin> set (eh_name h)"
    "hd (eh_name h) \<noteq> CHR ''#''" "trim (eh_value h) = eh_value h"
    by (simp_all add: editable_header_def plain_field_def)
  note r = read_entry [OF trim_fixed(1) [OF h(2,1)] h(1,3,4,5)]
  obtain w where "split_once (CHR '':'') (trim (entry_line (eh_name h) (eh_value h))) = Some (eh_name h, w)"
    "trim w = eh_value h" using r(3) by blast
  then show ?case using r(1,2) h Cons by (simp add: Let_def)
qed simp

text \<open>The line that opens a section is found where it was written.\<close>

lemma starts_with_line:
  assumes "CHR 0x0A \<notin> set l" "CHR 0x0A \<notin> set w"
  shows "starts_with (l @ CHR 0x0A # r) (w @ [CHR 0x0A]) \<longleftrightarrow> l = w"
proof
  assume "starts_with (l @ CHR 0x0A # r) (w @ [CHR 0x0A])"
  then obtain t where "l @ CHR 0x0A # r = w @ CHR 0x0A # t" by (auto simp: starts_with_iff)
  then have "split_once (CHR 0x0A) (l @ CHR 0x0A # r) = split_once (CHR 0x0A) (w @ CHR 0x0A # t)" by simp
  then show "l = w" using assms by simp
qed (auto simp: starts_with_iff)

lemma find_sub_skip:
  "CHR 0x0A \<notin> set l \<Longrightarrow> find_sub (l @ r) (CHR 0x0A # w) = map_option (\<lambda>i. length l + i) (find_sub r (CHR 0x0A # w))"
  by (cases "find_sub r (CHR 0x0A # w)"; induction l) auto

lemma find_marker:
  assumes "list_all (\<lambda>l. CHR 0x0A \<notin> set l \<and> l \<noteq> w) ls" "CHR 0x0A \<notin> set w" "w \<noteq> []"
  shows "find_sub (unlines ls @ CHR 0x0A # w @ CHR 0x0A # rest) (CHR 0x0A # w @ [CHR 0x0A]) = Some (length (unlines ls))"
  using assms(1)
proof (induction ls)
  case Nil
  then show ?case using starts_with_line [OF assms(2,2)] by (simp add: unlines_def)
next
  case (Cons l ls)
  let ?t = "unlines ls @ CHR 0x0A # w @ CHR 0x0A # rest"
  have "\<not> starts_with ?t (w @ [CHR 0x0A])"
  proof (cases ls)
    case Nil
    then show ?thesis using starts_with_line [of "[]" w] assms(2,3) by (simp add: unlines_def)
  next
    case (Cons k ks)
    then show ?thesis
      using starts_with_line [of k w] \<open>list_all _ (l # ls)\<close> assms(2) by (simp add: unlines_def)
  qed
  then show ?case
    using Cons find_sub_skip [of l "CHR 0x0A # ?t"] by (simp add: unlines_def option.map_comp o_def)
qed

text \<open>The messages an editor document can hold.\<close>

definition editable :: "editable_http_message \<Rightarrow> bool" where
  "editable m \<longleftrightarrow> plain_field (em_host m) \<and> plain_field (em_path m) \<and> plain_field (em_query m)
     \<and> list_all editable_header (em_headers m)
     \<and> (case em_kind m of
          EditRequest \<Rightarrow> pred_option (\<lambda>v. v \<noteq> [] \<and> plain_field v) (em_method m)
            \<and> pred_option (\<lambda>v. v \<noteq> [] \<and> plain_field v) (em_scheme m)
        | EditResponse \<Rightarrow> pred_option (\<lambda>status. status \<le> u16_max) (em_status m))"

definition meta_entries :: "editable_http_message \<Rightarrow> (string \<times> string) list" where
  "meta_entries m =
     (case em_kind m of
        EditRequest \<Rightarrow> [(''kind'', ''request''), (''method'', text_or_empty (em_method m)),
          (''scheme'', text_or_empty (em_scheme m))]
      | EditResponse \<Rightarrow> [(''kind'', ''response''),
          (''status'', case em_status m of Some status \<Rightarrow> show_nat status | None \<Rightarrow> [])])
     @ [(''host'', em_host m), (''path'', em_path m), (''query'', em_query m)]"

definition body_section :: "editable_http_message \<Rightarrow> string" where
  "body_section m = (case em_body m of
     EditText text _ \<Rightarrow> text @ (if ends_with text [CHR 0x0A] then [] else [CHR 0x0A])
   | EditBinary bytes_len content_type \<Rightarrow>
       line_of ''# binary body is not editable'' @ line_of (''# bytes_len: '' @ show_nat bytes_len)
       @ (case content_type of Some ct \<Rightarrow> line_of (''# content_type: '' @ ct) | None \<Rightarrow> [])
   | EditEmpty \<Rightarrow> [])"

lemma edit_text_sections:
  "to_edit_text m = unlines (map (\<lambda>(k, v). entry_line k v) (meta_entries m)) @ headers_marker
     @ unlines (map (\<lambda>h. entry_line (eh_name h) (eh_value h)) (em_headers m)) @ body_marker @ body_section m"
  by (cases "em_kind m") (simp_all add: to_edit_text_def meta_entries_def headers_marker_def body_marker_def
      body_section_def unlines_def line_of_def entry_line_def o_def)

lemma digits_no_ws: "list_all is_ascii_digit s \<Longrightarrow> plain_field s"
proof -
  assume d: "list_all is_ascii_digit s"
  then have "CHR 0x0A \<notin> set s" by (auto simp: list_all_iff is_ascii_digit_def)
  moreover have "trim s = s"
  proof (cases "s = []")
    case False
    have dig: "\<not> is_ascii_ws (byte c)" "byte c < 128" if "is_ascii_digit c" for c
      using that by (auto simp: is_ascii_digit_def is_ascii_ws_def)
    obtain a t where a: "s = a # t" using False by (cases s) auto
    obtain b u where b: "rev s = b # u" using False by (cases "rev s") auto
    have "b \<in> set s" using b by (metis list.set_intros(1) set_rev)
    then have "is_ascii_digit a" "is_ascii_digit b" using d a by (auto simp: list_all_iff)
    then have n: "\<not> is_ascii_ws (byte a)" "byte a < 128" "\<not> is_ascii_ws (byte b)" "byte b < 128"
      using dig by blast+
    have "ws_head s = 0" unfolding a using n(1) ascii_not_ws [OF n(2)] by (simp add: ws_head_def split: list.split)
    moreover have "ws_tail (rev s) = 0"
      unfolding b using n(3) ascii_not_ws [OF n(4)] by (simp add: ws_tail_def split: list.split)
    ultimately show ?thesis by (simp add: trim_def trim_end_def trim_start_none trim_rev_none)
  qed simp
  ultimately show ?thesis by (simp add: plain_field_def)
qed

lemma plain_constants: "plain_field []" "plain_field ''request''" "plain_field ''response''"
  by code_simp+

lemma meta_entries_plain:
  assumes "editable m" "(k, v) \<in> set (meta_entries m)"
  shows "plain_field v" "CHR 0x0A \<notin> set k"
  using assms digits_no_ws [OF show_nat_digits]
  by (auto simp: editable_def meta_entries_def plain_constants text_or_empty_def
      split: editable_http_message_kind.splits option.splits)

lemma entry_not_marker: "entry_line k v \<noteq> ''headers:''" "entry_line k v \<noteq> ''body:''"
proof -
  have "CHR '' '' \<in> set (entry_line k v)" by (simp add: entry_line_def)
  then show "entry_line k v \<noteq> ''headers:''" "entry_line k v \<noteq> ''body:''" by auto
qed

lemma sections_of_edit_text:
  assumes "editable m"
  shows "split_edit_text_sections (to_edit_text m) =
    \<lparr>es_meta = unlines (map (\<lambda>(k, v). entry_line k v) (meta_entries m)),
     es_headers = unlines (map (\<lambda>h. entry_line (eh_name h) (eh_value h)) (em_headers m)),
     es_body = body_section m\<rparr>"
proof -
  let ?M = "map (\<lambda>(k, v). entry_line k v) (meta_entries m)"
  let ?H = "map (\<lambda>h. entry_line (eh_name h) (eh_value h)) (em_headers m)"
  have "list_all (\<lambda>l. CHR 0x0A \<notin> set l \<and> l \<noteq> ''headers:'') ?M"
    using meta_entries_plain [OF assms] entry_not_marker
    by (auto simp: list_all_iff entry_line_def plain_field_def)
  then have m: "find_sub (to_edit_text m) headers_marker = Some (length (unlines ?M))"
    unfolding edit_text_sections headers_marker_def using find_marker [of "''headers:''" ?M] by simp
  have "list_all (\<lambda>l. CHR 0x0A \<notin> set l \<and> l \<noteq> ''body:'') ?H"
    using assms entry_not_marker
    by (auto simp: list_all_iff entry_line_def editable_def editable_header_def plain_field_def)
  then have h: "find_sub (unlines ?H @ body_marker @ body_section m) body_marker = Some (length (unlines ?H))"
    unfolding body_marker_def using find_marker [of "''body:''" ?H] by simp
  have "drop (length (unlines ?M) + length headers_marker) (to_edit_text m) = unlines ?H @ body_marker @ body_section m"
    "take (length (unlines ?M)) (to_edit_text m) = unlines ?M"
    unfolding edit_text_sections by simp_all
  with m h show ?thesis by (simp add: split_edit_text_sections_def Let_def)
qed

lemma meta_names:
  assumes "name \<in> {''kind'', ''method'', ''scheme'', ''status'', ''host'', ''path'', ''query''}"
  shows "ws_head name = 0" "name \<noteq> []" "CHR '':'' \<notin> set name" "hd name \<noteq> CHR ''#''"
    "to_ascii_lowercase (trim name) = name"
proof -
  have "\<forall>name \<in> {''kind'', ''method'', ''scheme'', ''status'', ''host'', ''path'', ''query''}.
      ws_head name = 0 \<and> name \<noteq> [] \<and> CHR '':'' \<notin> set name \<and> hd name \<noteq> CHR ''#'' \<and> to_ascii_lowercase (trim name) = name"
    by code_simp
  note bspec [OF this assms]
  then show "ws_head name = 0" "name \<noteq> []" "CHR '':'' \<notin> set name" "hd name \<noteq> CHR ''#''"
    "to_ascii_lowercase (trim name) = name" by blast+
qed

lemma meta_loop_name:
  assumes "name \<in> {''kind'', ''method'', ''scheme'', ''status'', ''host'', ''path'', ''query''}" "plain_field v"
  shows "meta_loop U (entry_line name v # lines) s =
    (case meta_entry U name v s of Inl err \<Rightarrow> Inl err | Inr s1 \<Rightarrow> meta_loop U lines s1)"
  using meta_loop_entry [OF meta_names(1-4) [OF assms(1)] assms(2)] meta_names(5) [OF assms(1)] by simp

lemma empty_to_none_text: "pred_option (\<lambda>v. v \<noteq> [] \<and> plain_field v) x \<Longrightarrow> empty_to_none (text_or_empty x) = x"
  by (cases x) (auto simp: empty_to_none_def text_or_empty_def)

lemma meta_loop_entries:
  assumes "editable m"
  shows "meta_loop U (map (\<lambda>(k, v). entry_line k v) (meta_entries m)) (initial_meta (Some m)) = Inr (initial_meta (Some m))"
proof (cases "em_kind m")
  case EditRequest
  have "plain_field (text_or_empty (em_method m))" "plain_field (text_or_empty (em_scheme m))"
    "plain_field (em_host m)" "plain_field (em_path m)" "plain_field (em_query m)"
    using assms EditRequest by (auto simp: editable_def text_or_empty_def plain_constants split: option.split)
  then show ?thesis
    using assms EditRequest
    by (simp add: meta_entries_def meta_loop_name plain_constants meta_entry_def initial_meta_def editable_def
        empty_to_none_text del: meta_loop.simps(2))
next
  case EditResponse
  let ?s = "case em_status m of Some status \<Rightarrow> show_nat status | None \<Rightarrow> []"
  have f: "plain_field ?s" "plain_field (em_host m)" "plain_field (em_path m)" "plain_field (em_query m)"
    using assms digits_no_ws [OF show_nat_digits] by (auto simp: editable_def plain_constants split: option.split)
  have "meta_entry U ''status'' ?s (initial_meta (Some m)) = Inr (initial_meta (Some m))"
    using assms EditResponse
    by (auto simp: meta_entry_def initial_meta_def editable_def parse_show_nat split: option.split)
  then show ?thesis
    using f EditResponse
    by (simp add: meta_entries_def meta_loop_name plain_constants meta_entry_def initial_meta_def
        del: meta_loop.simps(2))
qed

lemma edited_body_unchanged: "edited_body (Some m) (body_section m) (body_content_type m) = em_body m"
  by (cases "em_body m")
    (auto simp: edited_body_def body_section_def body_content_type_def ends_with_iff split: option.split)

lemma edit_text_roundtrip_aux:
  assumes "editable m"
  shows "parse_edit_text U (to_edit_text m) (Some m) = Inr m"
proof -
  let ?M = "map (\<lambda>(k, v). entry_line k v) (meta_entries m)"
  let ?H = "map (\<lambda>h. entry_line (eh_name h) (eh_value h)) (em_headers m)"
  have "str_lines (unlines ?M) = ?M"
    using meta_entries_plain [OF assms] by (intro str_lines_unlines) (auto simp: list_all_iff entry_plain_line)
  moreover have "str_lines (unlines ?H) = ?H"
    using assms
    by (intro str_lines_unlines) (auto simp: list_all_iff editable_def editable_header_def plain_field_def entry_plain_line)
  moreover have "header_loop U ?H = Inr (em_headers m)"
    using assms by (simp add: header_loop_lines editable_def)
  ultimately show ?thesis
    using edited_body_unchanged [of m] meta_loop_entries [OF assms]
    by (simp add: parse_edit_text_def sections_of_edit_text [OF assms] parse_edit_headers_def initial_meta_def)
qed

text \<open>C24: The document printed for a message, read back beside the message, is that message again: method,
  scheme, status, host, path and query, every header in its order, and the body to the last byte,
  with or without a final line feed, binary or empty, whatever the body contains. The message must fit the
  document: no field holds a line feed or is surrounded by white space, no header name is empty, holds a
  colon or starts like a comment.\<close>

theorem edit_text_roundtrip:
  assumes "editable m"
  shows "parse_edit_text U (to_edit_text m) (Some m) = Inr m"
  by (rule edit_text_roundtrip_aux [OF assms])

definition sample_message :: editable_http_message where
  "sample_message = \<lparr>em_kind = EditResponse, em_method = None, em_scheme = Some ''https'', em_host = ''example.com'',
     em_path = ''/a'', em_query = [], em_status = Some 200,
     em_headers = [\<lparr>eh_name = ''Content-Type'', eh_value = ''text/plain''\<rparr>, \<lparr>eh_name = ''X-Empty'', eh_value = []\<rparr>],
     em_body = EditText (''one'' @ body_marker @ ''# two'') (Some ''text/plain'')\<rparr>"

theorem edit_text_roundtrip_witness:
  "parse_edit_text (\<lambda>_. None) (to_edit_text sample_message) (Some sample_message) = Inr sample_message"
proof -
  have "list_all editable_header (em_headers sample_message)" by code_simp
  moreover have "plain_field ''example.com''" "plain_field ''/a''" by code_simp+
  ultimately have "editable sample_message"
    by (simp add: editable_def sample_message_def plain_constants u16_max_def)
  then show ?thesis by (rule edit_text_roundtrip)
qed

definition no_trees :: tree_sitter_lib where
  "no_trees = \<lparr>tsl_javascript = \<lambda>_. None, tsl_css = \<lambda>_. None, tsl_html = \<lambda>_. None\<rparr>"

text \<open>Headers that share a name, up to case, share their value.\<close>

definition consistent_headers :: "editable_http_header list \<Rightarrow> bool" where
  "consistent_headers hs \<longleftrightarrow>
     list_all (\<lambda>h. list_all (\<lambda>k. eq_ignore_ascii_case (eh_name k) (eh_name h) \<longrightarrow> eh_value k = eh_value h) hs) hs"

lemma find_Some_in: "find P xs = Some x \<Longrightarrow> x \<in> set xs \<and> P x"
  by (induction xs) (auto split: if_splits)

lemma edit_header_value_None: "edit_header_value m n = None \<longleftrightarrow> (\<forall>h \<in> set (em_headers m). \<not> eq_ignore_ascii_case (eh_name h) n)"
  by (auto simp: edit_header_value_def find_None_iff)

lemma edit_header_value_cong:
  "eq_ignore_ascii_case n k \<Longrightarrow> edit_header_value m n = edit_header_value m k"
  by (simp add: edit_header_value_def eq_ignore_ascii_case_def)

lemma edit_header_value_Some:
  assumes "edit_header_value m n = Some v"
  obtains h where "h \<in> set (em_headers m)" "eq_ignore_ascii_case (eh_name h) n" "eh_value h = v"
  using assms that by (auto simp: edit_header_value_def dest!: find_Some_in)

lemma consistent_value:
  assumes "consistent_headers (em_headers m)" "h \<in> set (em_headers m)" "eq_ignore_ascii_case (eh_name h) n"
  shows "edit_header_value m n = Some (eh_value h)"
proof (cases "edit_header_value m n")
  case None
  then show ?thesis using assms(2,3) by (auto simp: edit_header_value_None)
next
  case (Some v)
  then obtain k where "k \<in> set (em_headers m)" "eq_ignore_ascii_case (eh_name k) n" "eh_value k = v"
    by (rule edit_header_value_Some)
  moreover have "eq_ignore_ascii_case (eh_name k) (eh_name h)"
    using assms(3) calculation(2) by (simp add: eq_ignore_ascii_case_def)
  ultimately show ?thesis using assms(1,2) Some by (simp add: consistent_headers_def list_all_iff)
qed

lemma inconsistent_value:
  assumes "\<forall>h \<in> set (em_headers m). edit_header_value m (eh_name h) = Some (eh_value h)"
  shows "consistent_headers (em_headers m)"
  unfolding consistent_headers_def list_all_iff
proof (intro ballI impI)
  fix h k
  assume "h \<in> set (em_headers m)" "k \<in> set (em_headers m)" "eq_ignore_ascii_case (eh_name k) (eh_name h)"
  then show "eh_value k = eh_value h"
    using assms edit_header_value_cong [of "eh_name k" "eh_name h" m] by auto
qed

lemma map_filter_Nil_iff: "List.map_filter f xs = [] \<longleftrightarrow> (\<forall>x \<in> set xs. f x = None)"
  by (auto simp: List.map_filter_def filter_empty_conv)

lemma has_changes_self: "has_changes (message_diff m m) \<longleftrightarrow> \<not> consistent_headers (em_headers m)"
proof -
  have present: "edit_header_value m (eh_name h) \<noteq> None" if "h \<in> set (em_headers m)" for h
    using that by (auto simp: edit_header_value_None eq_ignore_ascii_case_def)
  have "has_changes (message_diff m m) \<longleftrightarrow>
      (\<exists>h \<in> set (em_headers m). edit_header_value m (eh_name h) \<noteq> Some (eh_value h))"
    using present
    by (auto simp: has_changes_def message_diff_def filter_empty_conv map_filter_Nil_iff
        split: bind_splits if_splits)
  then show ?thesis
    using consistent_value [of m] inconsistent_value [of m] by (auto simp: eq_ignore_ascii_case_def)
qed

text \<open>A session whose document was not edited, or was reset, counts as unchanged exactly if headers of
  the same name have the same value. A message with, say, two different \<open>Set-Cookie\<close> headers counts as
  changed although nothing was edited, because every header is compared with the first of its name.\<close>

theorem unedited_session_changes:
  assumes "editable (session_original session)"
  shows "session_has_changes L (session_reset session) =
    Inr (\<not> consistent_headers (em_headers (session_original session)))"
proof -
  have "session_edited_text (session_reset session) = to_edit_text (session_original session)"
    "session_original (session_reset session) = session_original session"
    by (cases session; simp)+
  then show ?thesis
    using edit_text_roundtrip_aux [OF assms]
    by (simp add: session_has_changes_def session_diff_def edited_message_def has_changes_self)
qed

theorem unedited_session_changes_witness:
  "session_has_changes \<lparr>el_json = compact_json, el_patch = compact_patch, el_trees = no_trees, el_debug = \<lambda>_. None, el_lower = \<lambda>c. [c]\<rparr>
     (session_reset (SessRequest ''n'' (sample_message\<lparr>em_headers := [\<lparr>eh_name = ''Set-Cookie'', eh_value = ''a=1''\<rparr>,
         \<lparr>eh_name = ''set-cookie'', eh_value = ''b=2''\<rparr>]\<rparr>) [])) = Inr True"
proof -
  let ?s = "SessRequest ''n'' (sample_message\<lparr>em_headers := [\<lparr>eh_name = ''Set-Cookie'', eh_value = ''a=1''\<rparr>,
         \<lparr>eh_name = ''set-cookie'', eh_value = ''b=2''\<rparr>]\<rparr>) []"
  have "list_all editable_header (em_headers (session_original ?s))"
    "\<not> consistent_headers (em_headers (session_original ?s))" by code_simp+
  moreover have "plain_field ''example.com''" "plain_field ''/a''" by code_simp+
  ultimately have "editable (session_original ?s)" "\<not> consistent_headers (em_headers (session_original ?s))"
    by (simp_all add: editable_def sample_message_def plain_constants u16_max_def)
  note this(2)
  then show ?thesis by (simp only: unedited_session_changes [OF \<open>editable (session_original ?s)\<close>] not_False_eq_True)
qed

end
