(* ===== verification/EditedFilter.thy ===== *)
theory EditedFilter
  imports Editor FilterBridge
begin

text \<open>
  What a filter made in the editor does when it runs. The generator writes one call of the action
  library per generated action; \<open>run_request_actions\<close> and \<open>run_response_actions\<close> are the action such a chain of calls
  builds, the arguments being the texts the string literals stand for. From there on the action goes the way of every
  action of a script: conversion, header patch, body rewriting.
\<close>

section \<open>Running the chain of calls\<close>

fun perform_request :: "json_lib \<Rightarrow> roto_request_action_data \<Rightarrow> generated_filter_action \<Rightarrow> roto_request_action_data" where
  "perform_request J a (GMark label) = request_action_mark a label"
| "perform_request J a (SetRequestHeader name val) = request_action_set_header a name val"
| "perform_request J a (RemoveRequestHeader name) = request_action_remove_header a name"
| "perform_request J a (SetRequestBodyText body ct) = request_action_set_body_text a body ct"
| "perform_request J a (ReplaceRequestBodyText old new) = request_action_replace_body_text a old new"
| "perform_request J a (ReplaceRequestBodyTextOnce old new) = request_action_replace_body_text_once a old new"
| "perform_request J a (ReplaceRequestBodyTextAll old new) = request_action_replace_body_text_all a old new"
| "perform_request J a (ReplaceRequestBodyRegex pattern replacement) = request_action_replace_body_regex a pattern replacement"
| "perform_request J a (ReplaceRequestBodyTextWhenContains anchor old new) =
     request_action_replace_body_text_when_contains a anchor old new"
| "perform_request J a (ReplaceRequestJsProperty property old new) = request_action_replace_js_property a property old new"
| "perform_request J a (ReplaceRequestCssDeclaration property old new) =
     request_action_replace_css_declaration a property old new"
| "perform_request J a (ReplaceRequestHtmlAttribute selector attribute old new) =
     request_action_replace_html_attribute a selector attribute old new"
| "perform_request J a (ApplyRequestJsonPatch operations resulting_body ct) =
     request_action_apply_json_patch a (json_patch_operations_to_rfc6902_json J operations) ct"
| "perform_request J a (GSyntheticResponse status body ct) = request_action_synthetic_response a status body ct"
| "perform_request J a GStop = request_action_stop a"
| "perform_request J a GDrop = request_action_drop a"
| "perform_request J a _ = a"

definition run_request_actions :: "json_lib \<Rightarrow> generated_filter \<Rightarrow> roto_request_action_data" where
  "run_request_actions J f = foldl (perform_request J) request_action_pass (gf_actions f)"

text \<open>The chain of a response filter; the library has no \<open>replace_body_text\<close> for responses, so a source that
  calls it does not compile.\<close>

fun perform_response ::
  "json_lib \<Rightarrow> roto_response_action_data \<Rightarrow> generated_filter_action \<Rightarrow> roto_response_action_data option" where
  "perform_response J a (GMark label) = Some (response_action_mark a label)"
| "perform_response J a (SetResponseStatus status) = Some (response_action_set_status a status)"
| "perform_response J a (SetResponseHeader name val) = Some (response_action_set_header a name val)"
| "perform_response J a (RemoveResponseHeader name) = Some (response_action_remove_header a name)"
| "perform_response J a (SetResponseBodyText body ct) = Some (response_action_set_body_text a body ct)"
| "perform_response J a (ReplaceResponseBodyText old new) = None"
| "perform_response J a (ReplaceResponseBodyTextOnce old new) = Some (response_action_replace_body_text_once a old new)"
| "perform_response J a (ReplaceResponseBodyTextAll old new) = Some (response_action_replace_body_text_all a old new)"
| "perform_response J a (ReplaceResponseBodyRegex pattern replacement) =
     Some (response_action_replace_body_regex a pattern replacement)"
| "perform_response J a (ReplaceResponseBodyTextWhenContains anchor old new) =
     Some (response_action_replace_body_text_when_contains a anchor old new)"
| "perform_response J a (ReplaceResponseJsProperty property old new) =
     Some (response_action_replace_js_property a property old new)"
| "perform_response J a (ReplaceResponseCssDeclaration property old new) =
     Some (response_action_replace_css_declaration a property old new)"
| "perform_response J a (ReplaceResponseHtmlAttribute selector attribute old new) =
     Some (response_action_replace_html_attribute a selector attribute old new)"
| "perform_response J a (ApplyResponseJsonPatch operations resulting_body ct) =
     Some (response_action_apply_json_patch a (json_patch_operations_to_rfc6902_json J operations) ct)"
| "perform_response J a GStop = Some (response_action_stop a)"
| "perform_response J a GDrop = Some (response_action_drop a)"
| "perform_response J a _ = Some a"

fun run_responses ::
  "json_lib \<Rightarrow> roto_response_action_data \<Rightarrow> generated_filter_action list \<Rightarrow> roto_response_action_data option" where
  "run_responses J a [] = Some a"
| "run_responses J a (x # xs) = Option.bind (perform_response J a x) (\<lambda>b. run_responses J b xs)"

definition run_response_actions :: "json_lib \<Rightarrow> generated_filter \<Rightarrow> roto_response_action_data option" where
  "run_response_actions J f = run_responses J response_action_pass (gf_actions f)"

section \<open>Headers\<close>

text \<open>The headers an edit sets and those it removes.\<close>

definition diff_sets :: "editable_http_message_diff \<Rightarrow> (string \<times> string) list" where
  "diff_sets d = map (\<lambda>h. (ec_name h, ec_edited_value h)) (ed_changed_headers d)
     @ map (\<lambda>h. (eh_name h, eh_value h)) (ed_added_headers d)"

definition diff_removes :: "editable_http_message_diff \<Rightarrow> string list" where
  "diff_removes d = map eh_name (ed_removed_headers d)"

lemma map_of_rev_unique:
  assumes "\<And>w. (k, w) \<in> set xs \<Longrightarrow> w = v"
  shows "map_of (rev xs) k = (if k \<in> fst ` set xs then Some v else None)"
proof (cases "map_of (rev xs) k")
  case None
  then show ?thesis by (simp add: map_of_eq_None_iff)
next
  case (Some w)
  then have "(k, w) \<in> set xs" using map_of_SomeD by fastforce
  then show ?thesis using assms Some by (force simp: image_iff)
qed

definition valid_header :: "('h, 'u, 'q) http_lib \<Rightarrow> editable_http_header \<Rightarrow> bool" where
  "valid_header H h \<longleftrightarrow> hl_name_from_bytes H (eh_name h) = Some (to_ascii_lowercase (eh_name h))
     \<and> hl_value_from_str H (eh_value h) = Some (eh_value h)"

lemma map_filter_all: "(\<And>x. x \<in> set xs \<Longrightarrow> f x = Some (g x)) \<Longrightarrow> List.map_filter f xs = map g xs"
  by (induction xs) (simp_all add: List.map_filter_simps)

lemma in_map_filter: "y \<in> set (List.map_filter f xs) \<longleftrightarrow> (\<exists>x \<in> set xs. f x = Some y)"
  by (induction xs) (auto simp: List.map_filter_simps split: option.splits)

lemma in_changed:
  "(n, v) \<in> (\<lambda>h. (ec_name h, ec_edited_value h)) ` set (ed_changed_headers (message_diff m edited)) \<longleftrightarrow>
     (\<exists>h \<in> set (em_headers m). n = eh_name h \<and> edit_header_value edited n = Some v \<and> eh_value h \<noteq> v)"
proof
  assume "(n, v) \<in> (\<lambda>h. (ec_name h, ec_edited_value h)) ` set (ed_changed_headers (message_diff m edited))"
  then obtain c where c: "c \<in> set (ed_changed_headers (message_diff m edited))" "n = ec_name c" "v = ec_edited_value c"
    by auto
  then obtain h where "h \<in> set (em_headers m)" "Option.bind (edit_header_value edited (eh_name h)) (\<lambda>w.
      if eh_value h = w then None
      else Some \<lparr>ec_name = eh_name h, ec_original_value = eh_value h, ec_edited_value = w\<rparr>) = Some c"
    by (auto simp: message_diff_def in_map_filter)
  then show "\<exists>h \<in> set (em_headers m). n = eh_name h \<and> edit_header_value edited n = Some v \<and> eh_value h \<noteq> v"
    using c by (intro bexI [of _ h]) (auto simp: Option.bind_eq_Some_conv split: if_splits)
next
  assume "\<exists>h \<in> set (em_headers m). n = eh_name h \<and> edit_header_value edited n = Some v \<and> eh_value h \<noteq> v"
  then obtain h where h: "h \<in> set (em_headers m)" "n = eh_name h" "edit_header_value edited n = Some v" "eh_value h \<noteq> v"
    by blast
  let ?c = "\<lparr>ec_name = n, ec_original_value = eh_value h, ec_edited_value = v\<rparr>"
  have "?c \<in> set (ed_changed_headers (message_diff m edited))"
    unfolding message_diff_def using h by (auto simp: in_map_filter intro!: bexI [of _ h])
  then show "(n, v) \<in> (\<lambda>h. (ec_name h, ec_edited_value h)) ` set (ed_changed_headers (message_diff m edited))"
    by (rule rev_image_eqI) simp
qed

lemma in_diff_sets:
  "(n, v) \<in> set (diff_sets (message_diff m edited)) \<longleftrightarrow>
     (\<exists>h \<in> set (em_headers m). n = eh_name h \<and> edit_header_value edited n = Some v \<and> eh_value h \<noteq> v)
     \<or> (\<exists>h \<in> set (em_headers edited). n = eh_name h \<and> v = eh_value h \<and> edit_header_value m n = None)"
  unfolding diff_sets_def set_append set_map Un_iff in_changed by (auto simp: message_diff_def)

lemma in_diff_removes:
  "n \<in> set (diff_removes (message_diff m edited)) \<longleftrightarrow>
     (\<exists>h \<in> set (em_headers m). n = eh_name h \<and> edit_header_value edited n = None)"
  by (auto simp: diff_removes_def message_diff_def)

lemma header_edit_result:
  assumes H: "http_laws H" and cons: "consistent_headers (em_headers edited)"
    and valid: "list_all (valid_header H) (em_headers m @ em_headers edited)"
    and held: "\<And>n. hl_get H headers (to_ascii_lowercase n) = edit_header_value m n"
  shows "hl_get H (apply_header_patch H (map header_of_pair (diff_sets (message_diff m edited)))
      (diff_removes (message_diff m edited)) headers) (to_ascii_lowercase n) = edit_header_value edited n"
proof -
  let ?d = "message_diff m edited" and ?n = "to_ascii_lowercase n"
  have ok: "hl_name_from_bytes H (eh_name h) = Some (to_ascii_lowercase (eh_name h))"
    "hl_value_from_str H (eh_value h) = Some (eh_value h)"
    if "h \<in> set (em_headers m) \<or> h \<in> set (em_headers edited)" for h
    using valid that by (auto simp: list_all_iff valid_header_def)
  have sets: "valid_sets H (map header_of_pair (diff_sets ?d)) = map (\<lambda>(k, v). (to_ascii_lowercase k, v)) (diff_sets ?d)"
  proof -
    have "hl_name_from_bytes H k = Some (to_ascii_lowercase k) \<and> hl_value_from_str H v = Some v"
      if "(k, v) \<in> set (diff_sets ?d)" for k v
      using that unfolding in_diff_sets by (auto elim!: edit_header_value_Some simp: ok)
    then have "valid_sets H (map header_of_pair (diff_sets ?d)) =
        map (\<lambda>h. (to_ascii_lowercase (fh_name h), fh_value h)) (map header_of_pair (diff_sets ?d))"
      unfolding valid_sets_def by (intro map_filter_all) (auto simp: header_of_pair_def)
    then show ?thesis by (simp add: header_of_pair_def split_def)
  qed
  have removes: "valid_removes H (diff_removes ?d) = map to_ascii_lowercase (diff_removes ?d)"
    unfolding valid_removes_def by (intro map_filter_all) (auto simp: in_diff_removes ok)
  have cong: "edit_header_value x k = edit_header_value x n" if "to_ascii_lowercase k = ?n" for x k
    using that edit_header_value_cong [of k n x] by (simp add: eq_ignore_ascii_case_def)
  have uniq: "edit_header_value edited n = Some v"
    if key: "(?n, v) \<in> set (map (\<lambda>(k, v). (to_ascii_lowercase k, v)) (diff_sets ?d))" for v
  proof -
    obtain k where k: "(k, v) \<in> set (diff_sets ?d)" "to_ascii_lowercase k = ?n" using key by force
    then show ?thesis
      using consistent_value [OF cons] cong [OF k(2)] unfolding in_diff_sets by (auto simp: eq_ignore_ascii_case_def)
  qed
  have patched: "hl_get H (apply_header_patch H (map header_of_pair (diff_sets ?d)) (diff_removes ?d) headers) ?n =
      (case map_of (rev (map (\<lambda>(k, v). (to_ascii_lowercase k, v)) (diff_sets ?d))) ?n of
         Some v \<Rightarrow> Some v
       | None \<Rightarrow> if ?n \<in> to_ascii_lowercase ` set (diff_removes ?d) then None else edit_header_value m n)"
    unfolding apply_header_patch_def sets_get [OF H] removes_get [OF H] sets removes held by simp
  show ?thesis
  proof (cases "edit_header_value edited n")
    case None
    then have none: "map_of (rev (map (\<lambda>(k, v). (to_ascii_lowercase k, v)) (diff_sets ?d))) ?n = None"
      using uniq by (metis map_of_SomeD not_None_eq set_rev)
    have "edit_header_value m n = None" if "?n \<notin> to_ascii_lowercase ` set (diff_removes ?d)"
    proof (rule ccontr)
      assume "edit_header_value m n \<noteq> None"
      then obtain v where "edit_header_value m n = Some v" by blast
      then obtain h where h: "h \<in> set (em_headers m)" "eq_ignore_ascii_case (eh_name h) n" by (rule edit_header_value_Some)
      then have l: "to_ascii_lowercase (eh_name h) = ?n" by (simp add: eq_ignore_ascii_case_def)
      have "eh_name h \<in> set (diff_removes ?d)"
        unfolding in_diff_removes using h(1) None cong [OF l, of edited] by auto
      then show False using that l by (metis imageI)
    qed
    then show ?thesis using None none by (simp add: patched)
  next
    case (Some v)
    let ?keys = "to_ascii_lowercase ` fst ` set (diff_sets ?d)"
    have keys: "map_of (rev (map (\<lambda>(k, v). (to_ascii_lowercase k, v)) (diff_sets ?d))) ?n = (if ?n \<in> ?keys then Some v else None)"
      using uniq Some by (subst map_of_rev_unique [of _ _ v]) (auto simp: image_image split_def)
    have "?n \<notin> to_ascii_lowercase ` set (diff_removes ?d)"
      using Some cong unfolding image_iff Bex_def in_diff_removes by (metis option.distinct(1))
    moreover have "edit_header_value m n = Some v" if no: "?n \<notin> ?keys"
    proof -
      have nokey: "to_ascii_lowercase k \<noteq> ?n" if "(k, w) \<in> set (diff_sets ?d)" for k w
        using no that by (metis fst_conv imageI)
      obtain h where h: "h \<in> set (em_headers edited)" "eq_ignore_ascii_case (eh_name h) n" "eh_value h = v"
        using Some by (rule edit_header_value_Some)
      then have l: "to_ascii_lowercase (eh_name h) = ?n" by (simp add: eq_ignore_ascii_case_def)
      have "edit_header_value m n \<noteq> None"
      proof
        assume "edit_header_value m n = None"
        then have "(eh_name h, v) \<in> set (diff_sets ?d)"
          unfolding in_diff_sets using h cong [OF l, of m] by auto
        then show False using nokey l by blast
      qed
      then obtain v0 where v0: "edit_header_value m n = Some v0" by blast
      then obtain h0 where h0: "h0 \<in> set (em_headers m)" "eq_ignore_ascii_case (eh_name h0) n" "eh_value h0 = v0"
        by (rule edit_header_value_Some)
      then have l0: "to_ascii_lowercase (eh_name h0) = ?n" by (simp add: eq_ignore_ascii_case_def)
      have "v0 = v"
      proof (rule ccontr)
        assume "v0 \<noteq> v"
        then have "(eh_name h0, v) \<in> set (diff_sets ?d)"
          unfolding in_diff_sets using h0 Some cong [OF l0, of edited] by auto
        then show False using nokey l0 by blast
      qed
      then show ?thesis using v0 by simp
    qed
    ultimately show ?thesis using Some by (simp add: patched keys)
  qed
qed

section \<open>The actions of a generated filter\<close>

fun operation_op :: "body_rewrite_operation \<Rightarrow> roto_body_rewrite_op option" where
  "operation_op (OpReplaceText old new) = Some (ReplaceTextOnce old new)"
| "operation_op (OpReplaceTextOnce old new) = Some (ReplaceTextOnce old new)"
| "operation_op (OpReplaceTextAll old new) = Some (ReplaceTextAll old new)"
| "operation_op (OpReplaceRegex pattern replacement) = Some (ReplaceRegex pattern replacement)"
| "operation_op (OpReplaceTextWhenContains anchor old new) = Some (ReplaceTextWhenContains anchor old new)"
| "operation_op (OpReplaceJsProperty property old new) = Some (ReplaceJsProperty property old new)"
| "operation_op (OpReplaceCssDeclaration property old new) = Some (ReplaceCssDeclaration property old new)"
| "operation_op (OpReplaceHtmlAttribute selector attribute old new) = Some (ReplaceHtmlAttribute selector attribute old new)"
| "operation_op _ = None"

text \<open>The one rewrite operation an edited body becomes at run time, if it becomes one.\<close>

definition edit_op :: "'p edit_lib \<Rightarrow> editable_http_message \<Rightarrow> editable_http_message \<Rightarrow> roto_body_rewrite_op option" where
  "edit_op L original edited =
     (if edit_operations L original edited \<noteq> [] \<and> body_text edited \<noteq> None
      then Some (ApplyJsonPatch (json_patch_operations_to_rfc6902_json (el_json L) (edit_operations L original edited))
        (patch_content_type edited))
      else Option.bind (edit_intent L original edited) (\<lambda>intent. operation_op (bri_operation intent)))"

lemma run_request_append:
  "foldl (perform_request J) a (xs @ ys) = foldl (perform_request J) (foldl (perform_request J) a xs) ys"
  by simp

lemma perform_request_headers:
  "foldl (perform_request J) a (map (\<lambda>h. RemoveRequestHeader (f h)) rs @ map (\<lambda>h. SetRequestHeader (g h) (v h)) cs
     @ map (\<lambda>h. SetRequestHeader (k h) (w h)) as) =
   a\<lparr>rqa_remove_headers := rqa_remove_headers a @ map f rs,
     rqa_set_headers := rqa_set_headers a @ map (\<lambda>h. (g h, v h)) cs @ map (\<lambda>h. (k h, w h)) as\<rparr>"
proof -
  have r: "foldl (perform_request J) a (map (\<lambda>h. RemoveRequestHeader (f h)) rs) =
      a\<lparr>rqa_remove_headers := rqa_remove_headers a @ map f rs\<rparr>" for a
    by (induction rs arbitrary: a) (simp_all add: request_action_remove_header_def)
  have s: "foldl (perform_request J) a (map (\<lambda>h. SetRequestHeader (p h) (q h)) xs) =
      a\<lparr>rqa_set_headers := rqa_set_headers a @ map (\<lambda>h. (p h, q h)) xs\<rparr>" for a p q and xs :: "'b list"
    by (induction xs arbitrary: a) (simp_all add: request_action_set_header_def)
  have s2: "foldl (perform_request J) a (map (\<lambda>h. SetRequestHeader (p h) (q h)) xs) =
      a\<lparr>rqa_set_headers := rqa_set_headers a @ map (\<lambda>h. (p h, q h)) xs\<rparr>" for a p q and xs :: "'c list"
    by (induction xs arbitrary: a) (simp_all add: request_action_set_header_def)
  show ?thesis by (simp add: r s s2)
qed

lemma request_op_performed:
  "request_body_action_from_operation op = Some x \<Longrightarrow>
    is_request_body_rewrite x \<and> (\<exists>rop. operation_op op = Some rop
      \<and> (\<forall>a. perform_request J a x = a\<lparr>rqa_body_rewrite_ops := rqa_body_rewrite_ops a @ [rop]\<rparr>))"
  by (cases op) (auto simp: request_action_replace_body_text_once_def request_action_replace_body_text_all_def
      request_action_replace_body_regex_def request_action_replace_body_text_when_contains_def
      request_action_replace_js_property_def request_action_replace_css_declaration_def
      request_action_replace_html_attribute_def)

lemma request_op_None: "request_body_action_from_operation op = None \<longleftrightarrow> operation_op op = None"
  by (cases op) auto

text \<open>The action that rewrites the body, as the editor chooses it.\<close>

definition chosen_request_action ::
  "'p edit_lib \<Rightarrow> editable_http_message \<Rightarrow> editable_http_message \<Rightarrow> generated_filter_action option" where
  "chosen_request_action L original edited =
     (case (if edit_operations L original edited = [] then None else body_text edited) of
        Some edited_text \<Rightarrow> Some (ApplyRequestJsonPatch (edit_operations L original edited) edited_text (patch_content_type edited))
      | None \<Rightarrow> Option.bind (edit_intent L original edited) request_body_action_from_intent)"

lemma chosen_request_performed:
  "case chosen_request_action L original edited of
     None \<Rightarrow> edit_op L original edited = None
   | Some x \<Rightarrow> is_request_body_rewrite x \<and> (\<exists>rop. edit_op L original edited = Some rop
       \<and> (\<forall>a. perform_request (el_json L) a x = a\<lparr>rqa_body_rewrite_ops := rqa_body_rewrite_ops a @ [rop]\<rparr>))"
proof (cases "edit_operations L original edited \<noteq> [] \<and> body_text edited \<noteq> None")
  case True
  then show ?thesis by (auto simp: chosen_request_action_def edit_op_def request_action_apply_json_patch_def)
next
  case False
  then have c: "chosen_request_action L original edited =
      Option.bind (edit_intent L original edited) (\<lambda>i. request_body_action_from_operation (bri_operation i))"
    and e: "edit_op L original edited = Option.bind (edit_intent L original edited) (\<lambda>i. operation_op (bri_operation i))"
    by (auto simp: chosen_request_action_def edit_op_def request_body_action_from_intent_def [abs_def])
  show ?thesis
    unfolding c e using request_op_performed [where J = "el_json L"] request_op_None
    by (cases "edit_intent L original edited") (simp_all split: option.split)
qed

lemma intent_notes_keep [simp]:
  "gf_phase (add_intent_notes U i f) = gf_phase f" "gf_conditions (add_intent_notes U i f) = gf_conditions f"
  "gf_trigger (add_intent_notes U i f) = gf_trigger f" "gf_actions (add_intent_notes U i f) = gf_actions f"
  by (simp_all add: add_intent_notes_def Let_def split: option.split)

lemma rewrite_request_body_keeps:
  "gf_phase (rewrite_request_body L o1 e f) = gf_phase f" "gf_conditions (rewrite_request_body L o1 e f) = gf_conditions f"
  "gf_trigger (rewrite_request_body L o1 e f) = gf_trigger f"
  "gf_actions (rewrite_request_body L o1 e f) = (case chosen_request_action L o1 e of
     None \<Rightarrow> gf_actions f
   | Some x \<Rightarrow> filter (\<lambda>a. \<not> is_request_body_rewrite a) (gf_actions f) @ [x])"
  by (simp_all add: rewrite_request_body_def chosen_request_action_def replace_request_body_rewrite_action_def Let_def
      split: option.split)

lemma build_actions: "gb_actions b = x # xs \<Longrightarrow> gf_actions (build W uuid b) = x # xs"
  by (simp add: build_def)

lemma request_filter_actions:
  "gf_actions (request_rewrite_filter U W uuid name r) =
     GMark (generated_mark_label W name) #
     (case grr_edited_body_text r of
        Some body \<Rightarrow> if grr_original_body_text r \<noteq> grr_edited_body_text r
          then [SetRequestBodyText body ''text/plain; charset=utf-8''] else []
      | None \<Rightarrow> [])"
proof -
  have b: "gb_actions (request_builder W name r) = GMark (generated_mark_label W name) #
     (case grr_edited_body_text r of
        Some body \<Rightarrow> if grr_original_body_text r \<noteq> grr_edited_body_text r
          then [SetRequestBodyText body ''text/plain; charset=utf-8''] else []
      | None \<Rightarrow> [])"
    by (auto simp: request_builder_def Let_def builder_defs split: option.split)
  have "gf_actions (if c then add_rewrite_note n f else f) = gf_actions f" for c n f by simp
  then show ?thesis by (simp only: request_rewrite_filter_def Let_def note_keeps build_actions [OF b])
qed

lemma header_actions_request:
  "em_kind original = EditRequest \<Longrightarrow> header_actions (message_diff original edited) =
     map (\<lambda>h. RemoveRequestHeader (eh_name h)) (ed_removed_headers (message_diff original edited))
     @ map (\<lambda>h. SetRequestHeader (ec_name h) (ec_edited_value h)) (ed_changed_headers (message_diff original edited))
     @ map (\<lambda>h. SetRequestHeader (eh_name h) (eh_value h)) (ed_added_headers (message_diff original edited))"
  by (simp add: header_actions_def message_diff_def)

lemma input_body_text [simp]: "gri_body_text (to_request_input m) = body_text m"
  by (simp add: to_request_input_def new_request_input_def Let_def split: option.split)

lemma filter_header_actions:
  "em_kind original = EditRequest \<Longrightarrow>
   filter (\<lambda>a. \<not> is_request_body_rewrite a) (header_actions (message_diff original edited)) = header_actions (message_diff original edited)"
  by (auto simp: header_actions_request intro!: filter_True)

text \<open>What the chain of calls of a request filter adds up to.\<close>

lemma request_filter_effect:
  assumes "extract_request_filter_from_edit L uuid name original edited = Some f"
  shows "rqa_set_headers (run_request_actions (el_json L) f) = diff_sets (message_diff original edited)"
    "rqa_remove_headers (run_request_actions (el_json L) f) = diff_removes (message_diff original edited)"
    "rqa_body_rewrite_ops (run_request_actions (el_json L) f) =
       (case edit_op L original edited of Some rop \<Rightarrow> [rop] | None \<Rightarrow> [])"
    "rqa_body_text (run_request_actions (el_json L) f) =
       (if edit_op L original edited = None \<and> body_text original \<noteq> body_text edited then body_text edited else None)"
proof -
  let ?d = "message_diff original edited"
  let ?drop = "if list_ex (\<lambda>h. eq_ignore_ascii_case (eh_name h) ''host'') (ed_removed_headers ?d) then [GDrop] else []"
  let ?body = "case body_text edited of
        Some body \<Rightarrow> if body_text original \<noteq> body_text edited
          then [SetRequestBodyText body ''text/plain; charset=utf-8''] else []
      | None \<Rightarrow> []"
  let ?mark = "GMark (generated_mark_label (el_lower L) name)"
  have kind: "em_kind original = EditRequest" using assms by (simp add: extract_request_filter_from_edit_def split: if_splits)
  define f1 where "f1 = extend_actions (header_actions ?d) (request_rewrite_filter (el_debug L) (el_lower L) uuid name
      (extract_request LineAnchor (to_request_input original) (to_request_input edited)))"
  define f2 where "f2 = (if list_ex (\<lambda>h. eq_ignore_ascii_case (eh_name h) ''host'') (ed_removed_headers ?d)
      then add_rewrite_note ''host header removed; auto-added drop() to suppress client response'' (add_action GDrop f1)
      else f1)"
  have f: "f = rewrite_request_body L original edited f2"
    using assms by (simp add: extract_request_filter_from_edit_def Let_def f1_def f2_def split: if_splits)
  have f1: "gf_actions f1 = ?mark # ?body @ header_actions ?d"
    by (cases "body_text edited") (simp_all add: f1_def extend_actions_def request_filter_actions extract_request_def)
  have f2: "gf_actions f2 = ?mark # ?body @ header_actions ?d @ ?drop"
    by (simp add: f2_def add_action_def f1)
  have acts: "gf_actions f = (case chosen_request_action L original edited of
       None \<Rightarrow> ?mark # ?body @ header_actions ?d @ ?drop
     | Some x \<Rightarrow> ?mark # header_actions ?d @ ?drop @ [x])"
    unfolding f rewrite_request_body_keeps f2
    by (auto simp: filter_header_actions [OF kind] split: option.split)
  have run: "run_request_actions (el_json L) f = (let a = (case edit_op L original edited of
       None \<Rightarrow> foldl (perform_request (el_json L)) request_action_pass (?mark # ?body @ header_actions ?d @ ?drop)
     | Some rop \<Rightarrow> foldl (perform_request (el_json L)) request_action_pass (?mark # header_actions ?d @ ?drop)) in
     case edit_op L original edited of None \<Rightarrow> a | Some rop \<Rightarrow> a\<lparr>rqa_body_rewrite_ops := rqa_body_rewrite_ops a @ [rop]\<rparr>)"
  proof (cases "chosen_request_action L original edited")
    case None
    then show ?thesis
      using chosen_request_performed [of L original edited] by (simp add: run_request_actions_def acts)
  next
    case (Some x)
    then obtain rop where rop: "edit_op L original edited = Some rop"
      "perform_request (el_json L) a x = a\<lparr>rqa_body_rewrite_ops := rqa_body_rewrite_ops a @ [rop]\<rparr>" for a
      using chosen_request_performed [of L original edited] by auto
    have "gf_actions f = (?mark # header_actions ?d @ ?drop) @ [x]" using Some by (simp add: acts)
    then show ?thesis
      by (simp only: run_request_actions_def foldl_append foldl_Cons foldl_Nil rop Let_def option.case)
  qed
  have rest: "rqa_set_headers (foldl (perform_request J) a (header_actions ?d @ ?drop)) = rqa_set_headers a @ diff_sets ?d"
    "rqa_remove_headers (foldl (perform_request J) a (header_actions ?d @ ?drop)) = rqa_remove_headers a @ diff_removes ?d"
    "rqa_body_rewrite_ops (foldl (perform_request J) a (header_actions ?d @ ?drop)) = rqa_body_rewrite_ops a"
    "rqa_body_text (foldl (perform_request J) a (header_actions ?d @ ?drop)) = rqa_body_text a" for J a
    unfolding header_actions_request [OF kind] foldl_append [of _ _ _ ?drop] perform_request_headers
    by (simp_all add: request_action_drop_def diff_sets_def diff_removes_def)
  note start = request_action_mark_def request_action_pass_def request_action_set_body_text_def
  show "rqa_set_headers (run_request_actions (el_json L) f) = diff_sets ?d"
    "rqa_remove_headers (run_request_actions (el_json L) f) = diff_removes ?d"
    "rqa_body_rewrite_ops (run_request_actions (el_json L) f) =
       (case edit_op L original edited of Some rop \<Rightarrow> [rop] | None \<Rightarrow> [])"
    "rqa_body_text (run_request_actions (el_json L) f) =
       (if edit_op L original edited = None \<and> body_text original \<noteq> body_text edited then body_text edited else None)"
    unfolding run
    by (cases "edit_op L original edited"; cases "body_text edited"; simp add: rest start del: foldl_append)+
qed

subsection \<open>Response filters\<close>

lemma run_responses_append: "run_responses J a (xs @ ys) = Option.bind (run_responses J a xs) (\<lambda>b. run_responses J b ys)"
  by (induction xs arbitrary: a) (auto split: Option.bind_split)

lemma perform_response_headers:
  "run_responses J a (map (\<lambda>h. RemoveResponseHeader (f h)) rs @ map (\<lambda>h. SetResponseHeader (g h) (v h)) cs
     @ map (\<lambda>h. SetResponseHeader (k h) (w h)) as) =
   Some (a\<lparr>rsa_remove_headers := rsa_remove_headers a @ map f rs,
     rsa_set_headers := rsa_set_headers a @ map (\<lambda>h. (g h, v h)) cs @ map (\<lambda>h. (k h, w h)) as\<rparr>)"
proof -
  have r: "run_responses J a (map (\<lambda>h. RemoveResponseHeader (f h)) rs) =
      Some (a\<lparr>rsa_remove_headers := rsa_remove_headers a @ map f rs\<rparr>)" for a
    by (induction rs arbitrary: a) (simp_all add: response_action_remove_header_def)
  have s: "run_responses J a (map (\<lambda>h. SetResponseHeader (p h) (q h)) xs) =
      Some (a\<lparr>rsa_set_headers := rsa_set_headers a @ map (\<lambda>h. (p h, q h)) xs\<rparr>)" for a p q and xs :: "'b list"
    by (induction xs arbitrary: a) (simp_all add: response_action_set_header_def)
  have s2: "run_responses J a (map (\<lambda>h. SetResponseHeader (p h) (q h)) xs) =
      Some (a\<lparr>rsa_set_headers := rsa_set_headers a @ map (\<lambda>h. (p h, q h)) xs\<rparr>)" for a p q and xs :: "'c list"
    by (induction xs arbitrary: a) (simp_all add: response_action_set_header_def)
  show ?thesis by (simp add: r s s2 run_responses_append)
qed

lemma response_op_performed:
  "response_body_action_from_operation op = Some x \<Longrightarrow>
    is_response_body_rewrite x \<and> (\<exists>rop. operation_op op = Some rop
      \<and> (\<forall>a. perform_response J a x = Some (a\<lparr>rsa_body_rewrite_ops := rsa_body_rewrite_ops a @ [rop]\<rparr>)))"
  by (cases op) (auto simp: response_action_replace_body_text_once_def response_action_replace_body_text_all_def
      response_action_replace_body_regex_def response_action_replace_body_text_when_contains_def
      response_action_replace_js_property_def response_action_replace_css_declaration_def
      response_action_replace_html_attribute_def)

lemma response_op_None: "response_body_action_from_operation op = None \<longleftrightarrow> operation_op op = None"
  by (cases op) auto

definition chosen_response_action ::
  "'p edit_lib \<Rightarrow> editable_http_message \<Rightarrow> editable_http_message \<Rightarrow> generated_filter_action option" where
  "chosen_response_action L original edited =
     (case (if edit_operations L original edited = [] then None else body_text edited) of
        Some edited_text \<Rightarrow> Some (ApplyResponseJsonPatch (edit_operations L original edited) edited_text (patch_content_type edited))
      | None \<Rightarrow> Option.bind (edit_intent L original edited) response_body_action_from_intent)"

lemma chosen_response_performed:
  "case chosen_response_action L original edited of
     None \<Rightarrow> edit_op L original edited = None
   | Some x \<Rightarrow> is_response_body_rewrite x \<and> (\<exists>rop. edit_op L original edited = Some rop
       \<and> (\<forall>a. perform_response (el_json L) a x = Some (a\<lparr>rsa_body_rewrite_ops := rsa_body_rewrite_ops a @ [rop]\<rparr>)))"
proof (cases "edit_operations L original edited \<noteq> [] \<and> body_text edited \<noteq> None")
  case True
  then show ?thesis by (auto simp: chosen_response_action_def edit_op_def response_action_apply_json_patch_def)
next
  case False
  then have c: "chosen_response_action L original edited =
      Option.bind (edit_intent L original edited) (\<lambda>i. response_body_action_from_operation (bri_operation i))"
    and e: "edit_op L original edited = Option.bind (edit_intent L original edited) (\<lambda>i. operation_op (bri_operation i))"
    by (auto simp: chosen_response_action_def edit_op_def response_body_action_from_intent_def [abs_def])
  show ?thesis
    unfolding c e using response_op_performed [where J = "el_json L"] response_op_None
    by (cases "edit_intent L original edited") (simp_all split: option.split)
qed

lemma rewrite_response_body_keeps:
  "gf_phase (rewrite_response_body L o1 e f) = gf_phase f" "gf_conditions (rewrite_response_body L o1 e f) = gf_conditions f"
  "gf_trigger (rewrite_response_body L o1 e f) = gf_trigger f"
  "gf_actions (rewrite_response_body L o1 e f) = (case chosen_response_action L o1 e of
     None \<Rightarrow> gf_actions f
   | Some x \<Rightarrow> filter (\<lambda>a. \<not> is_response_body_rewrite a) (gf_actions f) @ [x])"
  by (simp_all add: rewrite_response_body_def chosen_response_action_def replace_response_body_rewrite_action_def Let_def
      split: option.split)

lemma response_filter_actions:
  "\<exists>ct. gf_actions (response_rewrite_filter U W uuid name r) =
     GMark (generated_mark_label W name) #
     (if grs_original_status r \<noteq> grs_edited_status r then [SetResponseStatus (grs_edited_status r)] else []) @
     (case grs_edited_body_text r of
        Some body \<Rightarrow> if grs_original_body_text r \<noteq> grs_edited_body_text r then [SetResponseBodyText body ct] else []
      | None \<Rightarrow> [])"
proof -
  let ?anchor = "response_body_rewrite_anchor (grs_original_body_text r) (grs_edited_body_text r) (grs_diff_strategy r)"
  have "\<exists>ct. gb_actions (response_builder W name r) = GMark (generated_mark_label W name) #
     (if grs_original_status r \<noteq> grs_edited_status r then [SetResponseStatus (grs_edited_status r)] else []) @
     (case grs_edited_body_text r of
        Some body \<Rightarrow> if grs_original_body_text r \<noteq> grs_edited_body_text r then [SetResponseBodyText body ct] else []
      | None \<Rightarrow> [])"
    by (cases "grs_original_content_type r"; cases "grs_edited_body_text r"; cases ?anchor)
      (simp_all add: response_builder_def Let_def builder_defs)
  then show ?thesis unfolding response_rewrite_filter_def note_keeps by (auto dest!: build_actions)
qed

lemma header_actions_response:
  "em_kind original = EditResponse \<Longrightarrow> header_actions (message_diff original edited) =
     map (\<lambda>h. RemoveResponseHeader (eh_name h)) (ed_removed_headers (message_diff original edited))
     @ map (\<lambda>h. SetResponseHeader (ec_name h) (ec_edited_value h)) (ed_changed_headers (message_diff original edited))
     @ map (\<lambda>h. SetResponseHeader (eh_name h) (eh_value h)) (ed_added_headers (message_diff original edited))"
  by (simp add: header_actions_def message_diff_def)

lemma response_input [simp]:
  "to_response_input m = Some i \<Longrightarrow> gsi_body_text i = body_text m \<and> em_status m = Some (gsi_status i)
     \<and> gsi_content_type i = body_content_type m"
  by (auto simp: to_response_input_def new_response_input_def Let_def split: option.splits)

lemma response_filter_effect:
  assumes "extract_response_filter_from_edit L uuid name ctx original edited = Some f"
  obtains a where "run_response_actions (el_json L) f = Some a"
    "rsa_set_headers a = diff_sets (message_diff original edited)"
    "rsa_remove_headers a = diff_removes (message_diff original edited)"
    "rsa_body_rewrite_ops a = (case edit_op L original edited of Some rop \<Rightarrow> [rop] | None \<Rightarrow> [])"
    "rsa_body_text a =
       (if edit_op L original edited = None \<and> body_text original \<noteq> body_text edited then body_text edited else None)"
    "rsa_status a = (if em_status original \<noteq> em_status edited then em_status edited else None)"
proof -
  let ?d = "message_diff original edited" and ?J = "el_json L"
  have kind: "em_kind original = EditResponse"
    using assms by (simp add: extract_response_filter_from_edit_def split: if_splits)
  obtain i j where ij: "to_response_input original = Some i" "to_response_input edited = Some j"
    and f: "f = rewrite_response_body L original edited (extend_actions (header_actions ?d)
      (response_rewrite_filter (el_debug L) (el_lower L) uuid name (extract_response LineAnchor (to_request_input ctx) i j)))"
    using assms
    by (auto simp: extract_response_filter_from_edit_def Let_def Option.bind_eq_Some_conv split: if_splits)
  note st = response_input [OF ij(1)] response_input [OF ij(2)]
  let ?status = "if em_status original \<noteq> em_status edited then [SetResponseStatus (gsi_status j)] else []"
  let ?body = "\<lambda>ct. case body_text edited of
        Some body \<Rightarrow> if body_text original \<noteq> body_text edited then [SetResponseBodyText body ct] else []
      | None \<Rightarrow> []"
  let ?mark = "GMark (generated_mark_label (el_lower L) name)"
  have r: "grs_original_status r = gsi_status i" "grs_edited_status r = gsi_status j"
    "grs_original_body_text r = body_text original" "grs_edited_body_text r = body_text edited"
    if "r = extract_response LineAnchor (to_request_input ctx) i j" for r
    using that st by (simp_all add: extract_response_def)
  have status: "gsi_status i \<noteq> gsi_status j \<longleftrightarrow> em_status original \<noteq> em_status edited" using st by simp
  obtain ct where "gf_actions (response_rewrite_filter (el_debug L) (el_lower L) uuid name
      (extract_response LineAnchor (to_request_input ctx) i j)) = ?mark # ?status @ ?body ct"
    using response_filter_actions [of "el_debug L" "el_lower L" uuid name "extract_response LineAnchor (to_request_input ctx) i j"]
    unfolding r [OF refl] status by blast
  then have acts: "gf_actions f = (case chosen_response_action L original edited of
       None \<Rightarrow> (?mark # ?status @ ?body ct) @ header_actions ?d
     | Some x \<Rightarrow> (?mark # ?status) @ header_actions ?d @ [x])"
    unfolding f rewrite_response_body_keeps
    by (auto simp: extend_actions_def header_actions_response [OF kind] intro!: filter_True split: option.split)
  have rest: "run_responses ?J a (header_actions ?d) = Some (a\<lparr>rsa_remove_headers := rsa_remove_headers a @ diff_removes ?d,
      rsa_set_headers := rsa_set_headers a @ diff_sets ?d\<rparr>)" for a
    unfolding header_actions_response [OF kind] perform_response_headers by (simp add: diff_sets_def diff_removes_def)
  define b where "b = response_action_pass\<lparr>rsa_marks := [generated_mark_label (el_lower L) name],
      rsa_status := if em_status original \<noteq> em_status edited then em_status edited else None\<rparr>"
  have start: "run_responses ?J response_action_pass (?mark # ?status) = Some b"
    using st by (simp add: b_def response_action_mark_def response_action_pass_def response_action_set_status_def)
  obtain c where c: "run_responses ?J b (?body ct) = Some c" "rsa_set_headers c = []" "rsa_remove_headers c = []"
    "rsa_body_rewrite_ops c = []" "rsa_status c = rsa_status b"
    "rsa_body_text c = (if body_text original \<noteq> body_text edited then body_text edited else None)"
    by (cases "body_text edited"; cases "body_text original = body_text edited")
      (simp_all add: b_def response_action_pass_def response_action_set_body_text_def Let_def split: if_splits)
  show thesis
  proof (cases "chosen_response_action L original edited")
    case None
    then have "edit_op L original edited = None" using chosen_response_performed [of L original edited] by simp
    moreover have run: "run_response_actions ?J f = Some (c\<lparr>rsa_remove_headers := diff_removes ?d, rsa_set_headers := diff_sets ?d\<rparr>)"
      unfolding run_response_actions_def acts None option.case append_Cons [symmetric] run_responses_append start
      using c by (simp add: rest)
    ultimately show thesis using c by (intro that [OF run]) (simp_all add: b_def)
  next
    case (Some x)
    then obtain rop where rop: "edit_op L original edited = Some rop"
      "perform_response ?J a x = Some (a\<lparr>rsa_body_rewrite_ops := rsa_body_rewrite_ops a @ [rop]\<rparr>)" for a
      using chosen_response_performed [of L original edited] by auto
    have run: "run_response_actions ?J f = Some (b\<lparr>rsa_remove_headers := diff_removes ?d, rsa_set_headers := diff_sets ?d,
        rsa_body_rewrite_ops := [rop]\<rparr>)"
      unfolding run_response_actions_def acts Some option.case run_responses_append start
      by (simp add: rest rop b_def response_action_pass_def)
    show thesis using rop(1) by (intro that [OF run]) (simp_all add: b_def response_action_pass_def)
  qed
qed

section \<open>What a filter from the editor does to a message\<close>

lemma request_patch_fields:
  "qp_set_headers (the_request_patch (into_request_action SL a text)) = map header_of_pair (rqa_set_headers a)"
  "qp_remove_headers (the_request_patch (into_request_action SL a text)) = rqa_remove_headers a"
  "qp_body (the_request_patch (into_request_action SL a text)) = script_body_patch (rqa_body_text a) (rqa_body_content_type a)
     (apply_body_rewrite_ops SL text (rqa_body_rewrite_ops a))"
  by (auto simp: the_request_patch_def into_request_action_def Let_def default_request_patch_def request_pass_def
      script_body_patch_def split: option.splits)

lemma response_patch_fields:
  "pp_status (the_response_patch (into_response_action SL a text)) = rsa_status a"
  "pp_set_headers (the_response_patch (into_response_action SL a text)) = map header_of_pair (rsa_set_headers a)"
  "pp_remove_headers (the_response_patch (into_response_action SL a text)) = rsa_remove_headers a"
  "pp_body (the_response_patch (into_response_action SL a text)) = script_body_patch (rsa_body_text a) (rsa_body_content_type a)
     (apply_body_rewrite_ops SL text (rsa_body_rewrite_ops a))"
  by (auto simp: the_response_patch_def into_response_action_def Let_def default_response_patch_def response_pass_def
      script_body_patch_def split: option.splits)

text \<open>C16: The header edits of a document take effect. Let a filter be generated from an edited request or
  response whose headers are valid and whose edited headers of the same name agree. When the filter
  runs on a message with the original headers, the header patch it makes gives every name the value it has in the
  edited document, and removes the names the edit removed; the chain of calls of a response filter compiles.\<close>

theorem header_edit_takes_effect:
  assumes "http_laws H" "consistent_headers (em_headers edited)"
    and "list_all (valid_header H) (em_headers original @ em_headers edited)"
    and "\<forall>n. hl_get H headers (to_ascii_lowercase n) = edit_header_value original n"
  shows "(\<forall>f. extract_request_filter_from_edit L uuid name original edited = Some f \<longrightarrow>
       (let patch = the_request_patch (into_request_action SL (run_request_actions (el_json L) f) text) in
        \<forall>n. hl_get H (apply_header_patch H (qp_set_headers patch) (qp_remove_headers patch) headers) (to_ascii_lowercase n)
          = edit_header_value edited n))
    \<and> (\<forall>f. extract_response_filter_from_edit L uuid name ctx original edited = Some f \<longrightarrow>
       (\<exists>a. run_response_actions (el_json L) f = Some a \<and>
         (let patch = the_response_patch (into_response_action SL a text) in
          \<forall>n. hl_get H (apply_header_patch H (pp_set_headers patch) (pp_remove_headers patch) headers) (to_ascii_lowercase n)
            = edit_header_value edited n)))"
proof (intro conjI allI impI)
  have held: "hl_get H headers (to_ascii_lowercase n) = edit_header_value original n" for n using assms(4) by blast
  note result = header_edit_result [OF assms(1-3) held]
  fix f
  show "let patch = the_request_patch (into_request_action SL (run_request_actions (el_json L) f) text) in
        \<forall>n. hl_get H (apply_header_patch H (qp_set_headers patch) (qp_remove_headers patch) headers) (to_ascii_lowercase n)
          = edit_header_value edited n"
    if "extract_request_filter_from_edit L uuid name original edited = Some f"
    using result by (simp add: Let_def request_patch_fields request_filter_effect [OF that])
  show "\<exists>a. run_response_actions (el_json L) f = Some a \<and>
         (let patch = the_response_patch (into_response_action SL a text) in
          \<forall>n. hl_get H (apply_header_patch H (pp_set_headers patch) (pp_remove_headers patch) headers) (to_ascii_lowercase n)
            = edit_header_value edited n)"
    if f: "extract_response_filter_from_edit L uuid name ctx original edited = Some f"
  proof -
    obtain a where "run_response_actions (el_json L) f = Some a"
      "rsa_set_headers a = diff_sets (message_diff original edited)"
      "rsa_remove_headers a = diff_removes (message_diff original edited)"
      by (rule response_filter_effect [OF f])
    then show ?thesis using result by (simp add: Let_def response_patch_fields)
  qed
qed

definition sample_lib :: "cj_op list edit_lib" where
  "sample_lib = \<lparr>el_json = compact_json, el_patch = compact_patch, el_trees = no_trees, el_debug = \<lambda>_. None, el_lower = \<lambda>c. [c]\<rparr>"

definition sample_request :: "(string \<times> string) list \<Rightarrow> string \<Rightarrow> editable_http_message" where
  "sample_request headers body = \<lparr>em_kind = EditRequest, em_method = Some ''GET'', em_scheme = Some ''https'',
     em_host = ''example.com'', em_path = ''/a'', em_query = [], em_status = None,
     em_headers = map (\<lambda>(n, v). \<lparr>eh_name = n, eh_value = v\<rparr>) headers, em_body = EditText body (Some ''text/plain'')\<rparr>"

lemma extract_request_Some:
  "has_changes (message_diff m e) \<Longrightarrow> em_kind m = EditRequest \<Longrightarrow> em_kind e = EditRequest \<Longrightarrow>
   \<exists>f. extract_request_filter_from_edit L uuid name m e = Some f"
  by (simp add: extract_request_filter_from_edit_def Let_def)

lemma sample_kind: "em_kind (sample_request hs b) = EditRequest" "em_kind (editable_from_request req) = EditRequest"
  by (simp_all add: sample_request_def editable_from_request_def)

theorem header_edit_takes_effect_witness:
  "\<exists>f. extract_request_filter_from_edit sample_lib [] ''n'' (sample_request [(''A'', ''1''), (''B'', ''2'')] [])
       (sample_request [(''a'', ''9'')] []) = Some f
     \<and> (let patch = the_request_patch (into_request_action plain_lib (run_request_actions compact_json f) None) in
        hl_get list_http (apply_header_patch list_http (qp_set_headers patch) (qp_remove_headers patch)
          [(''a'', ''1''), (''b'', ''2'')]) ''a'' = Some ''9'')"
proof -
  let ?o = "sample_request [(''A'', ''1''), (''B'', ''2'')] []" and ?e = "sample_request [(''a'', ''9'')] []"
  have ch: "has_changes (message_diff ?o ?e)" by code_simp
  obtain f where f: "extract_request_filter_from_edit sample_lib [] ''n'' ?o ?e = Some f"
    using extract_request_Some [OF ch sample_kind(1) sample_kind(1)] by blast
  have l: "to_ascii_lowercase ''A'' = ''a''" "to_ascii_lowercase ''B'' = ''b''" "to_ascii_lowercase ''a'' = ''a''" by code_simp+
  have "\<forall>n. hl_get list_http [(''a'', ''1''), (''b'', ''2'')] (to_ascii_lowercase n) = edit_header_value ?o n"
    by (simp add: list_http_def edit_header_value_def sample_request_def eq_ignore_ascii_case_def l)
  moreover have "consistent_headers (em_headers ?e)" "list_all (valid_header list_http) (em_headers ?o @ em_headers ?e)"
    by code_simp+
  ultimately have "hl_get list_http (apply_header_patch list_http
       (qp_set_headers (the_request_patch (into_request_action plain_lib (run_request_actions (el_json sample_lib) f) None)))
       (qp_remove_headers (the_request_patch (into_request_action plain_lib (run_request_actions (el_json sample_lib) f) None)))
          [(''a'', ''1''), (''b'', ''2'')]) (to_ascii_lowercase ''a'') = edit_header_value ?e ''a''"
    using header_edit_takes_effect [OF list_http_laws] f unfolding Let_def by blast
  moreover have "edit_header_value ?e ''a'' = Some ''9''" by code_simp
  ultimately show ?thesis using f by (auto simp: l Let_def sample_lib_def)
qed

subsection \<open>Bodies\<close>

lemma map_filter_append: "List.map_filter f (xs @ ys) = List.map_filter f xs @ List.map_filter f ys"
  by (simp add: List.map_filter_def)

lemma map_filter_none: "(\<And>x. x \<in> set xs \<Longrightarrow> f x = None) \<Longrightarrow> List.map_filter f xs = []"
  by (auto simp: map_filter_Nil_iff)

text \<open>Only the events of the body become patch operations.\<close>

lemma push_body_prefix: "push_body_diff_events J events a b = events @ push_body_diff_events J [] a b"
  by (cases a; cases b)
    (simp_all add: push_body_diff_events_def push_json_body_diff_events_def push_json_body_insert_event_def
      push_json_body_delete_event_def split: option.split)

definition other_event :: "diff_event \<Rightarrow> bool" where
  "other_event ev \<longleftrightarrow> event_source ev \<noteq> SrcBody BodyJson"

lemma push_other_events:
  "list_all other_event es \<Longrightarrow> source \<noteq> SrcBody BodyJson \<Longrightarrow> list_all other_event (push_optional_string_replace es p x y source)"
  "list_all other_event es \<Longrightarrow> source \<noteq> SrcBody BodyJson \<Longrightarrow> list_all other_event (push_string_replace es p v w source)"
  "list_all other_event es \<Longrightarrow> list_all other_event (push_status_event es s t)"
  "list_all other_event es \<Longrightarrow> list_all other_event (push_header_diff_events es hs ks)"
  by (auto simp: push_optional_string_replace_def push_string_replace_def push_status_event_def push_header_diff_events_def
      other_event_def list_all_iff split: option.splits)

lemma edit_operations_of_body:
  "edit_operations L m edited =
     json_patch_operations_from_diff_events (el_json L) (push_body_diff_events (el_json L) [] (em_body m) (em_body edited))"
proof -
  define e5 where "e5 = push_string_replace (push_string_replace (push_string_replace
      (push_optional_string_replace (push_optional_string_replace [] [SegMethod] (em_method m) (em_method edited) SrcHttpMeta)
        [SegScheme] (em_scheme m) (em_scheme edited) SrcHttpMeta)
      [SegHost] (em_host m) (em_host edited) SrcUrl) [SegPath] (em_path m) (em_path edited) SrcUrl)
      [SegQuery] (em_query m) (em_query edited) SrcUrl"
  define es where "es = push_header_diff_events (push_status_event e5 (em_status m) (em_status edited))
      (em_headers m) (em_headers edited)"
  have es: "list_all other_event es"
    "semantic_diff (el_json L) m edited = es @ push_body_diff_events (el_json L) [] (em_body m) (em_body edited)"
    unfolding semantic_diff_def Let_def es_def e5_def
    by (simp add: push_other_events) (rule push_body_prefix)
  have "List.map_filter (json_patch_operation_from_diff_event (el_json L)) es = []"
    using es(1) by (intro map_filter_none) (simp add: list_all_iff other_event_def json_patch_operation_from_diff_event_def)
  then show ?thesis
    by (simp add: edit_operations_def json_patch_operations_from_diff_events_def es(2) map_filter_append)
qed

lemma diff_of_equal: "json_eq a b \<Longrightarrow> diff_json_value J path a b = []"
  by (cases a; cases b) (simp_all del: json_eq.simps)

text \<open>Documents that are equal as JSON values give no operations.\<close>

lemma operations_differ:
  assumes "body_text m = Some a" "body_text edited = Some b" "edit_operations L m edited \<noteq> []"
    "js_from_str (el_json L) a = Some v" "js_from_str (el_json L) b = Some w"
  shows "\<not> json_eq v w"
proof
  assume "json_eq v w"
  then have d: "diff_json_value (el_json L) [] v w = []" by (rule diff_of_equal)
  obtain s t where "em_body m = EditText a s" "em_body edited = EditText b t"
    using assms(1,2) by (cases "em_body m"; cases "em_body edited") (simp_all add: body_text_def)
  then have "edit_operations L m edited = []"
    unfolding edit_operations_of_body using d assms(4,5)
    by (simp add: push_body_diff_events_def push_json_body_diff_events_def json_patch_operations_from_diff_events_def
        json_patch_operation_from_diff_event_def List.map_filter_simps)
  then show False using assms(3) by simp
qed

text \<open>The text a message body with the text \<open>o1\<close> becomes when a generated filter runs on it.\<close>

definition request_body_after :: "('rx, 'p) script_lib \<Rightarrow> generated_filter \<Rightarrow> string \<Rightarrow> string" where
  "request_body_after SL f o1 =
     (case qp_body (the_request_patch (into_request_action SL (run_request_actions (sl_json SL) f) (Some o1))) of
        Some patch \<Rightarrow> bp_bytes patch | None \<Rightarrow> o1)"

definition response_body_after :: "('rx, 'p) script_lib \<Rightarrow> generated_filter \<Rightarrow> string \<Rightarrow> string option" where
  "response_body_after SL f o1 = map_option (\<lambda>a.
     case pp_body (the_response_patch (into_response_action SL a (Some o1))) of
        Some patch \<Rightarrow> bp_bytes patch | None \<Rightarrow> o1) (run_response_actions (sl_json SL) f)"

definition edited_body_after ::
  "'p edit_lib \<Rightarrow> ('rx, 'p) script_lib \<Rightarrow> editable_http_message \<Rightarrow> editable_http_message \<Rightarrow> string \<Rightarrow> string \<Rightarrow> bool" where
  "edited_body_after L SL original edited o1 b \<longleftrightarrow>
     (\<exists>uuid name f. extract_request_filter_from_edit L uuid name original edited = Some f \<and> request_body_after SL f o1 = b)
   \<or> (\<exists>uuid name ctx f. extract_response_filter_from_edit L uuid name ctx original edited = Some f
        \<and> response_body_after SL f o1 = Some b)"

lemma body_after:
  assumes "edited_body_after L SL original edited o1 b" "sl_json SL = el_json L"
    "body_text original = Some o1" "body_text edited = Some e1" "o1 \<noteq> e1"
  shows "b = (case edit_op L original edited of
      None \<Rightarrow> e1
    | Some rop \<Rightarrow> (case apply_body_rewrite_ops SL (Some o1) [rop] of Some r \<Rightarrow> abr_body r | None \<Rightarrow> o1))"
  using assms(1) unfolding edited_body_after_def
proof (elim disjE exE conjE)
  fix uuid name f
  assume f: "extract_request_filter_from_edit L uuid name original edited = Some f" "request_body_after SL f o1 = b"
  then show ?thesis
    using request_filter_effect [OF f(1)] assms(2-)
    by (auto simp: request_body_after_def request_patch_fields script_body_patch_def split: option.splits)
next
  fix uuid name ctx f
  assume f: "extract_response_filter_from_edit L uuid name ctx original edited = Some f" "response_body_after SL f o1 = Some b"
  obtain a where a: "run_response_actions (el_json L) f = Some a"
    "rsa_body_rewrite_ops a = (case edit_op L original edited of Some rop \<Rightarrow> [rop] | None \<Rightarrow> [])"
    "rsa_body_text a =
       (if edit_op L original edited = None \<and> body_text original \<noteq> body_text edited then body_text edited else None)"
    by (rule response_filter_effect [OF f(1)])
  then show ?thesis
    using f(2) assms(2-)
    by (auto simp: response_body_after_def response_patch_fields script_body_patch_def split: option.splits)
qed

lemma anchor_replaces_once:
  assumes "tsa_operation a = OpReplaceTextOnce old new"
    "extract_javascript_tree_sitter_anchor T o1 r = Some a \<or> extract_css_tree_sitter_anchor T o1 r = Some a
     \<or> extract_html_tree_sitter_anchor T o1 r = Some a"
  shows "tr_old r = old \<and> tr_new r = new"
  using assms(2)
proof (elim disjE)
  assume "extract_html_tree_sitter_anchor T o1 r = Some a"
  then obtain z where "a = (case html_attribute_anchor z o1 of
         Some (element, attribute) \<Rightarrow>
           high_anchor LangHtml z o1 r (AnchorHtmlAttribute element attribute)
             (OpReplaceHtmlAttribute (case element of Some e \<Rightarrow> e | None \<Rightarrow> ''*'') attribute (tr_old r) (tr_new r))
       | None \<Rightarrow> ast_node_anchor LangHtml z o1 r)"
    by (auto simp: extract_html_tree_sitter_anchor_def)
  then show ?thesis
    using assms(1) by (cases "html_attribute_anchor z o1") (auto simp: ast_node_anchor_def high_anchor_def)
qed (use assms(1) in \<open>auto simp: extract_javascript_tree_sitter_anchor_def extract_css_tree_sitter_anchor_def
      ast_node_anchor_def high_anchor_def Let_def split: option.splits\<close>)

lemma intent_of_replacement:
  assumes "extract_body_rewrite_intent T o1 e1 ct = Some i" "bri_operation i = OpReplaceTextOnce old new"
  obtains r where "single_text_replacement o1 e1 = Some r" "tr_old r = old" "tr_new r = new"
proof (cases "single_text_replacement o1 e1")
  case None
  then show thesis
    using assms
    by (auto simp: extract_body_rewrite_intent_def extract_tree_sitter_anchor_def extract_text_rewrite_intent_def Let_def
        split: if_splits)
next
  case (Some r)
  let ?a = "if is_ast_like (from_content_type ct) then extract_tree_sitter_anchor T (from_content_type ct) o1 e1 else None"
  have "tr_old r = old \<and> tr_new r = new"
  proof (cases ?a)
    case None
    then show ?thesis
      using assms Some by (auto simp: extract_body_rewrite_intent_def extract_text_rewrite_intent_def Let_def split: if_splits)
  next
    case (Some a)
    then have "tsa_operation a = OpReplaceTextOnce old new"
      using assms by (auto simp: extract_body_rewrite_intent_def Let_def split: if_splits)
    moreover have "extract_javascript_tree_sitter_anchor T o1 r = Some a \<or> extract_css_tree_sitter_anchor T o1 r = Some a
        \<or> extract_html_tree_sitter_anchor T o1 r = Some a"
      using Some \<open>single_text_replacement o1 e1 = Some r\<close>
      by (auto simp: extract_tree_sitter_anchor_def split: if_splits body_language.splits)
    ultimately show ?thesis by (rule anchor_replaces_once)
  qed
  then show thesis using that Some by blast
qed

lemma no_replacement_intent:
  assumes "extract_body_rewrite_intent T o1 e1 ct = Some i" "single_text_replacement o1 e1 = None"
  shows "operation_op (bri_operation i) = None"
  using assms
  by (auto simp: extract_body_rewrite_intent_def extract_tree_sitter_anchor_def extract_text_rewrite_intent_def Let_def
      split: if_splits)

lemma replacement_at_first:
  assumes "single_text_replacement o1 e1 = Some r" "find_sub o1 (tr_old r) = Some (common_prefix_len o1 e1)"
  shows "replacen_one (tr_old r) (tr_new r) o1 = e1"
proof (rule text_difference [of o1 e1])
  fix front rest old new
  assume o1: "o1 = front @ old @ rest" and e1: "e1 = front @ new @ rest"
    and s: "single_text_replacement o1 e1 = (if old = [] \<and> new = [] \<or> 4096 < length old \<or> 4096 < length new then None
        else Some \<lparr>tr_start = length front, tr_end = length front + length old, tr_old = old, tr_new = new\<rparr>)"
    and n: "length front = common_prefix_len o1 e1"
  have r: "tr_old r = old" "tr_new r = new" using s assms(1) by (auto split: if_splits)
  have "find_sub (front @ old @ rest) old = Some (length front)" using assms(2) r(1) n o1 by simp
  then show ?thesis by (simp add: r replacen_one_def o1 e1)
qed

text \<open>C15: When a body edit takes effect. Let the body of a document be edited from one text to another, and a
  filter be generated from it, for a request or a response. Running the filter on the original body gives:
  for an edit that became a JSON patch which validates, a body that is equal to the edited one as JSON; for an
  edit that became the replacement of one passage, the edited body exactly if the passage is not empty and the edit was
  made at its first occurrence, while an edit that only inserts text is lost; for an edit that became neither,
  the edited body.\<close>

theorem body_edit_takes_effect:
  assumes "edited_body_after L SL original edited o1 b" "sl_json SL = el_json L" "sl_patch SL = el_patch L"
    and "body_text original = Some o1" "body_text edited = Some e1" "o1 \<noteq> e1"
  shows "(edit_operations L original edited \<noteq> [] \<longrightarrow> edit_validates L original e1 (edit_operations L original edited) \<longrightarrow>
       (\<exists>v w. js_from_str (el_json L) b = Some v \<and> js_from_str (el_json L) e1 = Some w \<and> json_eq v w))
    \<and> (edit_operations L original edited = [] \<longrightarrow> (\<forall>i old new. edit_intent L original edited = Some i \<longrightarrow>
        bri_operation i = OpReplaceTextOnce old new \<longrightarrow>
        (old \<noteq> [] \<longrightarrow> find_sub o1 old = Some (common_prefix_len o1 e1) \<longrightarrow> b = e1) \<and> (old = [] \<longrightarrow> b = o1)))
    \<and> (edit_operations L original edited = [] \<longrightarrow> single_text_replacement o1 e1 = None \<longrightarrow> b = e1)"
proof (intro conjI impI allI)
  note b = body_after [OF assms(1,2,4-6)]
  let ?ops = "edit_operations L original edited"
  {
    assume ops: "?ops \<noteq> []" and "edit_validates L original e1 ?ops"
    then obtain p v w where p: "apply_json_patch_rfc6902_json (el_json L) (el_patch L) o1
          (json_patch_operations_to_rfc6902_json (el_json L) ?ops) = Some p"
      and vw: "js_from_str (el_json L) p = Some v" "js_from_str (el_json L) e1 = Some w" "json_eq v w"
      using assms(4) by (auto simp: edit_validates_def validate_json_patch_operations_def Let_def split: option.splits)
    have "p \<noteq> o1" using operations_differ [OF assms(4,5) ops] vw by blast
    then have "b = p"
      using ops p assms(2,3,5) unfolding b edit_op_def by (simp add: apply_body_rewrite_ops_def)
    then show "\<exists>v w. js_from_str (el_json L) b = Some v \<and> js_from_str (el_json L) e1 = Some w \<and> json_eq v w"
      using vw by blast
  next
    fix i old new
    assume i: "?ops = []" "edit_intent L original edited = Some i" "bri_operation i = OpReplaceTextOnce old new"
    then have op: "edit_op L original edited = Some (ReplaceTextOnce old new)" by (simp add: edit_op_def)
    {
      assume first: "old \<noteq> []" "find_sub o1 old = Some (common_prefix_len o1 e1)"
      obtain r where r: "single_text_replacement o1 e1 = Some r" "tr_old r = old" "tr_new r = new"
        using i(2,3) assms(4,5) unfolding edit_intent_def by (auto elim: intent_of_replacement)
      have "replacen_one old new o1 = e1" using replacement_at_first [OF r(1)] first(2) r by simp
      then show "b = e1"
        unfolding b op using first by (simp add: apply_body_rewrite_ops_def replace_once_guarded_def contains_sub_def)
    next
      assume "old = []"
      then show "b = o1" unfolding b op by (simp add: apply_body_rewrite_ops_def replace_once_guarded_def)
    }
  next
    assume "?ops = []" "single_text_replacement o1 e1 = None"
    then have "edit_op L original edited = None"
      using assms(4,5) no_replacement_intent by (auto simp: edit_op_def edit_intent_def split: Option.bind_splits)
    then show "b = e1" unfolding b by simp
  }
qed

definition sample_script :: "(string, cj_op list) script_lib" where
  "sample_script = \<lparr>sl_regex_new = Some, sl_regex_replace_all = (\<lambda>rx s new. replace_str rx new s), sl_base64_decode = Some,
     sl_json = compact_json, sl_patch = compact_patch\<rparr>"

theorem body_edit_takes_effect_witness:
  "\<exists>b. edited_body_after sample_lib sample_script (sample_request [] ''a=1; b=1'') (sample_request [] ''x=1; b=1'') ''a=1; b=1'' b
     \<and> b = ''x=1; b=1''"
proof -
  let ?o = "sample_request [] ''a=1; b=1''" and ?e = "sample_request [] ''x=1; b=1''"
  have "has_changes (message_diff ?o ?e)" by code_simp
  then obtain f where "extract_request_filter_from_edit sample_lib [] ''n'' ?o ?e = Some f"
    using extract_request_Some [OF _ sample_kind(1) sample_kind(1)] by blast
  then have "edited_body_after sample_lib sample_script ?o ?e ''a=1; b=1'' (request_body_after sample_script f ''a=1; b=1'')"
    by (auto simp: edited_body_after_def)
  moreover have "sl_json sample_script = el_json sample_lib" "sl_patch sample_script = el_patch sample_lib"
    by (simp_all add: sample_script_def sample_lib_def)
  moreover have "edit_operations sample_lib ?o ?e = []" by code_simp
  moreover have "edit_intent sample_lib ?o ?e = Some \<lparr>bri_language = LangPlainText, bri_anchor = ContainsText ''a'',
      bri_operation = OpReplaceTextOnce ''a'' ''x'', bri_confidence = ConfMedium\<rparr>" by code_simp
  moreover have "find_sub ''a=1; b=1'' ''a'' = Some (common_prefix_len ''a=1; b=1'' ''x=1; b=1'')" by code_simp
  moreover have "body_text ?o = Some ''a=1; b=1''" "body_text ?e = Some ''x=1; b=1''"
    by (simp_all add: sample_request_def body_text_def)
  ultimately have "request_body_after sample_script f ''a=1; b=1'' = ''x=1; b=1''"
    using body_edit_takes_effect [of sample_lib sample_script ?o ?e "''a=1; b=1''" "request_body_after sample_script f ''a=1; b=1''"
        "''x=1; b=1''"] by simp
  then show ?thesis
    using \<open>edited_body_after sample_lib sample_script ?o ?e ''a=1; b=1'' (request_body_after sample_script f ''a=1; b=1'')\<close> by auto
qed

section \<open>The exchange a filter was made from\<close>

lemma editable_body_facts:
  "body_text (editable_from_response req resp) = fb_text (fp_body resp)"
  "body_content_type (editable_from_response req resp) \<noteq> None \<Longrightarrow>
     body_content_type (editable_from_response req resp) = fb_content_type (fp_body resp)"
  by (auto simp: body_text_def body_content_type_def editable_from_response_def editable_body_from_filter_body_def
      split: option.splits if_splits)

text \<open>C17: A filter generated in the editor selects the exchange it was made from: the trigger in its front matter
  matches the request, and every condition of its script holds for the request, or for the response, as
  scripts see them. The host must not hold a wildcard or be blank.\<close>

theorem edited_filter_selects_exchange:
  assumes "CHR ''*'' \<notin> set (fr_host req)" "trim (fr_host req) \<noteq> []"
  shows "(\<forall>f. extract_request_filter_from_edit L uuid name (editable_from_request req) edited = Some f \<longrightarrow>
       matches_request (stated_trigger f) (request_view_of req)
       \<and> list_all (condition_holds (from_filter_request req) res) (gf_conditions f))
    \<and> (\<forall>f. extract_response_filter_from_edit L uuid name (editable_from_request req) (editable_from_response req resp) edited
         = Some f \<longrightarrow>
       matches_response (stated_trigger f) \<lparr>rv_request = request_view_of req, rv_status = st, rv_content_type = ct\<rparr>
       \<and> list_all (condition_holds rq (from_filter_response resp)) (gf_conditions f))"
proof (intro conjI [of "All _"] allI impI)
  fix f
  assume f: "extract_request_filter_from_edit L uuid name (editable_from_request req) edited = Some f"
  let ?r = "extract_request LineAnchor (to_request_input (editable_from_request req)) (to_request_input edited)"
  let ?g = "request_rewrite_filter (el_debug L) (el_lower L) uuid name ?r"
  have keep: "gf_trigger f = gf_trigger ?g" "gf_phase f = gf_phase ?g" "gf_conditions f = gf_conditions ?g"
    using f
    by (auto simp: extract_request_filter_from_edit_def Let_def rewrite_request_body_keeps extend_actions_def add_action_def
        split: if_splits)
  have "grr_host ?r = fr_host req" "grr_original_path ?r = fr_path req" "grr_original_method ?r = fr_method req"
    "grr_original_query ?r = fr_query req"
    using assms(2)
    by (auto simp: extract_request_def choose_original_host_def to_request_input_def editable_from_request_def
        new_request_input_def Let_def split: option.split)
  then show "matches_request (stated_trigger f) (request_view_of req)
       \<and> list_all (condition_holds (from_filter_request req) res) (gf_conditions f)"
    by (rule request_filter_selects [OF keep _ _ _ _ assms(1)])
next
  fix f
  assume f: "extract_response_filter_from_edit L uuid name (editable_from_request req) (editable_from_response req resp) edited
      = Some f"
  obtain i j where i: "to_response_input (editable_from_response req resp) = Some i"
    and fd: "f = rewrite_response_body L (editable_from_response req resp) edited
      (extend_actions (header_actions (message_diff (editable_from_response req resp) edited))
        (response_rewrite_filter (el_debug L) (el_lower L) uuid name
          (extract_response LineAnchor (to_request_input (editable_from_request req)) i j)))"
    using f
    by (auto simp: extract_response_filter_from_edit_def Let_def Option.bind_eq_Some_conv split: if_splits)
  let ?r = "extract_response LineAnchor (to_request_input (editable_from_request req)) i j"
  let ?g = "response_rewrite_filter (el_debug L) (el_lower L) uuid name ?r"
  have keep: "gf_trigger f = gf_trigger ?g" "gf_phase f = gf_phase ?g" "gf_conditions f = gf_conditions ?g"
    by (simp_all add: fd rewrite_response_body_keeps extend_actions_def)
  have "grs_host ?r = fr_host req" "grs_request_path ?r = fr_path req" "grs_request_method ?r = fr_method req"
    by (auto simp: extract_response_def to_request_input_def editable_from_request_def new_request_input_def Let_def
        split: option.split)
  moreover have "grs_original_status ?r = fp_status resp" "grs_original_body_text ?r = fb_text (fp_body resp)"
    "grs_original_content_type ?r = body_content_type (editable_from_response req resp)"
    using response_input [OF i] editable_body_facts(1) [of req resp]
    by (simp_all add: extract_response_def editable_from_response_def)
  ultimately show "matches_response (stated_trigger f) \<lparr>rv_request = request_view_of req, rv_status = st, rv_content_type = ct\<rparr>
       \<and> list_all (condition_holds rq (from_filter_response resp)) (gf_conditions f)"
    using editable_body_facts(2) [of req resp] by (intro response_filter_selects [OF keep _ _ _ _ _ _ assms(1)]) simp_all
qed

definition captured_request :: filter_request where
  "captured_request = \<lparr>fr_id = ''1'', fr_seq = 1, fr_flow_key = ''k'', fr_method = ''POST'', fr_scheme = ''https'',
     fr_host = ''example.com'', fr_path = ''/api/items'', fr_query = ''page=2'', fr_version = ''HTTP/1.1'', fr_headers = [],
     fr_body = \<lparr>fb_bytes = [], fb_text = Some ''old'', fb_content_type = None, fb_encoding = None, fb_truncated = False\<rparr>,
     fr_tls_sni = None\<rparr>"

theorem edited_filter_selects_exchange_witness:
  "\<exists>f. extract_request_filter_from_edit sample_lib [] ''n'' (editable_from_request captured_request)
       ((editable_from_request captured_request)\<lparr>em_body := EditText ''new'' None\<rparr>) = Some f
     \<and> matches_request (stated_trigger f) (request_view_of captured_request)"
proof -
  let ?o = "editable_from_request captured_request"
  have ch: "has_changes (message_diff ?o (?o\<lparr>em_body := EditText ''new'' None\<rparr>))" by code_simp
  have kind: "em_kind (?o\<lparr>em_body := EditText ''new'' None\<rparr>) = EditRequest" by (simp add: sample_kind)
  obtain f where f: "extract_request_filter_from_edit sample_lib [] ''n'' ?o (?o\<lparr>em_body := EditText ''new'' None\<rparr>) = Some f"
    using extract_request_Some [OF ch sample_kind(2) kind] by blast
  have "CHR ''*'' \<notin> set (fr_host captured_request)" "trim (fr_host captured_request) \<noteq> []" by code_simp+
  then show ?thesis using f edited_filter_selects_exchange by blast
qed

end
