(* ===== verification/FilterFiles.thy ===== *)
theory FilterFiles
  imports Editor FilterManager
begin

text \<open>
  The filter files on disk: the directories of a capture (\<open>src/src/mitm/capture.rs\<close>), the writing and
  the quarantine of generated filters there, saving a filter and putting it into service
  (\<open>src/src/filters/generated.rs\<close>, \<open>EditableFilterSession::save_generated\<close> of \<open>editor.rs\<close>), and the
  parts of \<open>src/src/filters/manager.rs\<close> that change or watch the disk: moving a filter into the
  quarantine, and the loop that reloads the filters when their snapshot changes.

  A disk is a set of directories and a map of files, both under the components of their absolute
  path. What the operating system refuses is the record \<open>os_faults\<close>: each operation may fail
  at any path, and a failed write or copy may leave any part of the file behind. The \<open>fs_view\<close> the
  manager reads is derived from the disk, and the compiler reads the file it is given.
\<close>

section \<open>A disk\<close>

type_synonym file_key = "path_component list"

record disk =
  dk_cwd :: string
  dk_dirs :: "file_key list"
  dk_files :: "(file_key, string) hash_map"

datatype io_error =
    OsError string
  | NotFound
  | FileExists
  | NotADirectory
  | IsADirectory
  | DbNotFound string
  | FlowsNotFound string
  | NoFileName string

fun io_error_text :: "io_error \<Rightarrow> string" where
  "io_error_text (OsError e) = e"
| "io_error_text NotFound = ''No such file or directory (os error 2)''"
| "io_error_text FileExists = ''File exists (os error 17)''"
| "io_error_text NotADirectory = ''Not a directory (os error 20)''"
| "io_error_text IsADirectory = ''Is a directory (os error 21)''"
| "io_error_text (DbNotFound path) = ''capture database not found: '' @ from_utf8_lossy path"
| "io_error_text (FlowsNotFound path) = ''capture flows directory not found: '' @ from_utf8_lossy path"
| "io_error_text (NoFileName path) = ''generated filter path has no file name: '' @ from_utf8_lossy path"

text \<open>A refused write or copy: the error, and how much of the file is there afterwards, if it was
  created at all.\<close>

type_synonym write_fault = "(string \<times> nat option) option"

record os_faults =
  os_mkdir :: "file_key \<Rightarrow> string option"
  os_write :: "file_key \<Rightarrow> write_fault"
  os_rename :: "file_key \<Rightarrow> file_key \<Rightarrow> string option"
  os_copy :: "file_key \<Rightarrow> write_fault"
  os_remove :: "file_key \<Rightarrow> string option"
  os_read :: "file_key \<Rightarrow> bool"
  os_read_dir :: "file_key \<Rightarrow> bool"

definition no_faults :: os_faults where
  "no_faults = \<lparr>os_mkdir = \<lambda>_. None, os_write = \<lambda>_. None, os_rename = \<lambda>_ _. None, os_copy = \<lambda>_. None,
     os_remove = \<lambda>_. None, os_read = \<lambda>_. False, os_read_dir = \<lambda>_. False\<rparr>"

definition absolute :: "string \<Rightarrow> string \<Rightarrow> string" where
  "absolute cwd path = (if starts_with path ''/'' then path else path_join cwd path)"

definition file_key :: "disk \<Rightarrow> string \<Rightarrow> file_key" where
  "file_key dk path = path_components (absolute (dk_cwd dk) path)"

definition is_dir :: "disk \<Rightarrow> file_key \<Rightarrow> bool" where
  "is_dir dk k \<longleftrightarrow> k \<in> set (dk_dirs dk)"

definition is_file :: "disk \<Rightarrow> file_key \<Rightarrow> bool" where
  "is_file dk k \<longleftrightarrow> hm_get (dk_files dk) k \<noteq> None"

definition put_file :: "file_key \<Rightarrow> string \<Rightarrow> disk \<Rightarrow> disk" where
  "put_file k content dk = dk\<lparr>dk_files := hm_insert k content (dk_files dk)\<rparr>"

definition drop_file :: "file_key \<Rightarrow> disk \<Rightarrow> disk" where
  "drop_file k dk = dk\<lparr>dk_files := hm_remove k (dk_files dk)\<rparr>"

text \<open>\<open>std::fs::create_dir_all\<close>: the directories on the way, the outermost first.\<close>

fun create_dirs :: "os_faults \<Rightarrow> file_key list \<Rightarrow> disk \<Rightarrow> (io_error + unit) \<times> disk" where
  "create_dirs F [] dk = (Inr (), dk)"
| "create_dirs F (k # ks) dk =
     (if is_dir dk k then create_dirs F ks dk
      else if is_file dk k then (Inl (if ks = [] then FileExists else NotADirectory), dk)
      else (case os_mkdir F k of
              Some e \<Rightarrow> (Inl (OsError e), dk)
            | None \<Rightarrow> create_dirs F ks (dk\<lparr>dk_dirs := dk_dirs dk @ [k]\<rparr>)))"

definition create_dir_all :: "os_faults \<Rightarrow> string \<Rightarrow> disk \<Rightarrow> (io_error + unit) \<times> disk" where
  "create_dir_all F dir dk =
     (let k = file_key dk dir in create_dirs F (map (\<lambda>n. take (Suc n) k) [0..<length k]) dk)"

text \<open>Writing a whole file, used for \<open>std::fs::write\<close> and the target of \<open>std::fs::copy\<close>.\<close>

definition write_file :: "(file_key \<Rightarrow> write_fault) \<Rightarrow> file_key \<Rightarrow> string \<Rightarrow> disk \<Rightarrow> (io_error + unit) \<times> disk" where
  "write_file fault k content dk =
     (if k = [] \<or> \<not> is_dir dk (butlast k) then (Inl NotFound, dk)
      else if is_dir dk k then (Inl IsADirectory, dk)
      else (case fault k of
              Some (e, None) \<Rightarrow> (Inl (OsError e), dk)
            | Some (e, Some n) \<Rightarrow> (Inl (OsError e), put_file k (take n content) dk)
            | None \<Rightarrow> (Inr (), put_file k content dk)))"

definition rename_file :: "os_faults \<Rightarrow> file_key \<Rightarrow> file_key \<Rightarrow> disk \<Rightarrow> (io_error + unit) \<times> disk" where
  "rename_file F src dst dk = (case hm_get (dk_files dk) src of
     None \<Rightarrow> (Inl NotFound, dk)
   | Some content \<Rightarrow>
       if dst = [] \<or> \<not> is_dir dk (butlast dst) then (Inl NotFound, dk)
       else if is_dir dk dst then (Inl IsADirectory, dk)
       else (case os_rename F src dst of
               Some e \<Rightarrow> (Inl (OsError e), dk)
             | None \<Rightarrow> (Inr (), put_file dst content (drop_file src dk))))"

definition copy_file :: "os_faults \<Rightarrow> file_key \<Rightarrow> file_key \<Rightarrow> disk \<Rightarrow> (io_error + unit) \<times> disk" where
  "copy_file F src dst dk = (case hm_get (dk_files dk) src of
     None \<Rightarrow> (Inl NotFound, dk)
   | Some content \<Rightarrow> write_file (os_copy F) dst content dk)"

definition remove_file :: "os_faults \<Rightarrow> file_key \<Rightarrow> disk \<Rightarrow> (io_error + unit) \<times> disk" where
  "remove_file F k dk =
     (if \<not> is_file dk k then (Inl NotFound, dk)
      else (case os_remove F k of
              Some e \<Rightarrow> (Inl (OsError e), dk)
            | None \<Rightarrow> (Inr (), drop_file k dk)))"

text \<open>Renaming, or copying and removing where that fails (\<open>rename(..).or_else(..)\<close>).\<close>

definition move_file :: "os_faults \<Rightarrow> file_key \<Rightarrow> file_key \<Rightarrow> disk \<Rightarrow> (io_error + unit) \<times> disk" where
  "move_file F src dst dk = (case rename_file F src dst dk of
     (Inr u, dk1) \<Rightarrow> (Inr u, dk1)
   | (Inl _, dk1) \<Rightarrow> (case copy_file F src dst dk1 of
       (Inl e, dk2) \<Rightarrow> (Inl e, dk2)
     | (Inr _, dk2) \<Rightarrow> remove_file F src dk2))"

text \<open>The names in a directory, and the paths below \<open>dir\<close> that exist. No path has a key with another
  kind of name, so that the guard of \<open>names_in\<close> excludes nothing that can be reached.\<close>

definition plain_name :: "string \<Rightarrow> bool" where
  "plain_name n \<longleftrightarrow> CHR ''/'' \<notin> set n \<and> named_component n = [Normal n]"

definition names_in :: "disk \<Rightarrow> file_key \<Rightarrow> string list" where
  "names_in dk k = List.map_filter
     (\<lambda>e. if e \<noteq> [] \<and> butlast e = k then (case last e of Normal n \<Rightarrow> if plain_name n then Some n else None | _ \<Rightarrow> None) else None)
     (dk_dirs dk @ map fst (dk_files dk))"

definition existing_in :: "disk \<Rightarrow> string \<Rightarrow> string list" where
  "existing_in dk dir = map (path_join dir) (names_in dk (file_key dk dir))"

definition view :: "os_faults \<Rightarrow> bool \<Rightarrow> disk \<Rightarrow> fs_view" where
  "view F created dk =
     \<lparr>fs_cwd = dk_cwd dk,
      fs_exists = (\<lambda>p. is_dir dk (file_key dk p) \<or> is_file dk (file_key dk p)),
      fs_is_file = (\<lambda>p. is_file dk (file_key dk p)),
      fs_read_dir = (\<lambda>p. let k = file_key dk p in
        if os_read_dir F k \<or> \<not> is_dir dk k then None else Some (existing_in dk p)),
      fs_read_to_string = (\<lambda>p. let k = file_key dk p in
        if os_read F k then None else Option.bind (hm_get (dk_files dk) k) from_utf8),
      fs_create_dir_all = (\<lambda>_. created)\<rparr>"

text \<open>The Roto compiler is given a path and reads the file there.\<close>

type_synonym roto_compiler = "string \<Rightarrow> string option \<Rightarrow> string + roto_package"

definition compile_on :: "roto_compiler \<Rightarrow> os_faults \<Rightarrow> disk \<Rightarrow> string \<Rightarrow> string + roto_package" where
  "compile_on compiler F dk path = compiler path (fs_read_to_string (view F True dk) path)"

section \<open>The directories of a capture\<close>

record capture_paths =
  cp_root :: string
  cp_db_path :: string
  cp_flows_dir :: string
  cp_filters_dir :: string
  cp_generated_filters_dir :: string
  cp_quarantine_filters_dir :: string

definition paths_below :: "string \<Rightarrow> capture_paths" where
  "paths_below root =
     (let filters_dir = path_join root ''filters'' in
      \<lparr>cp_root = root, cp_db_path = path_join root ''index.sqlite'', cp_flows_dir = path_join root ''flows'',
       cp_filters_dir = filters_dir, cp_generated_filters_dir = path_join filters_dir ''generated'',
       cp_quarantine_filters_dir = path_join filters_dir ''quarantine''\<rparr>)"

text \<open>Opening the database for appending creates it where it is missing.\<close>

definition open_append :: "os_faults \<Rightarrow> string \<Rightarrow> disk \<Rightarrow> (io_error + unit) \<times> disk" where
  "open_append F path dk =
     (let k = file_key dk path in
      case hm_get (dk_files dk) k of
        Some content \<Rightarrow> (case os_write F k of Some (e, _) \<Rightarrow> (Inl (OsError e), dk) | None \<Rightarrow> (Inr (), dk))
      | None \<Rightarrow> write_file (os_write F) k [] dk)"

fun try_all :: "(disk \<Rightarrow> (io_error + unit) \<times> disk) list \<Rightarrow> disk \<Rightarrow> (io_error + unit) \<times> disk" where
  "try_all [] dk = (Inr (), dk)"
| "try_all (step # steps) dk = (case step dk of (Inl e, dk1) \<Rightarrow> (Inl e, dk1) | (Inr _, dk1) \<Rightarrow> try_all steps dk1)"

definition build_capture :: "os_faults \<Rightarrow> string option \<Rightarrow> string \<Rightarrow> disk \<Rightarrow> (io_error + capture_paths) \<times> disk" where
  "build_capture F capture_dir session dk =
     (let base_dir = (case capture_dir of Some dir \<Rightarrow> dir | None \<Rightarrow> ''./capture'');
          cp = paths_below (path_join base_dir session)
      in case try_all [create_dir_all F (cp_flows_dir cp), create_dir_all F (cp_generated_filters_dir cp),
                create_dir_all F (cp_quarantine_filters_dir cp), open_append F (cp_db_path cp)] dk of
           (Inl e, dk1) \<Rightarrow> (Inl e, dk1)
         | (Inr _, dk1) \<Rightarrow> (Inr cp, dk1))"

definition from_existing_root :: "disk \<Rightarrow> string \<Rightarrow> io_error + capture_paths" where
  "from_existing_root dk root =
     (let cp = paths_below root in
      if \<not> is_file dk (file_key dk (cp_db_path cp)) then Inl (DbNotFound (cp_db_path cp))
      else if \<not> is_dir dk (file_key dk (cp_flows_dir cp)) then Inl (FlowsNotFound (cp_flows_dir cp))
      else Inr cp)"

text \<open>The process-wide cell: the first success fills it, and it is never replaced.\<close>

definition initialize_for_process ::
  "os_faults \<Rightarrow> string option \<Rightarrow> string \<Rightarrow> capture_paths option \<times> disk
   \<Rightarrow> (io_error + capture_paths) \<times> capture_paths option \<times> disk" where
  "initialize_for_process F capture_dir session = (\<lambda>(slot, dk). case slot of
     Some existing \<Rightarrow> (Inr existing, slot, dk)
   | None \<Rightarrow> (case build_capture F capture_dir session dk of
       (Inl e, dk1) \<Rightarrow> (Inl e, None, dk1)
     | (Inr built, dk1) \<Rightarrow> (Inr built, Some built, dk1)))"

definition initialize_for_existing_capture ::
  "string \<Rightarrow> capture_paths option \<times> disk \<Rightarrow> (io_error + capture_paths) \<times> capture_paths option \<times> disk" where
  "initialize_for_existing_capture root = (\<lambda>(slot, dk). case slot of
     Some existing \<Rightarrow> (Inr existing, slot, dk)
   | None \<Rightarrow> (case from_existing_root dk root of
       Inl e \<Rightarrow> (Inl e, None, dk)
     | Inr built \<Rightarrow> (Inr built, Some built, dk)))"

text \<open>\<open>CapturePaths::new\<close> panics, here \<open>None\<close>, where the directories cannot be made.\<close>

definition capture_paths_new ::
  "os_faults \<Rightarrow> string option \<Rightarrow> string \<Rightarrow> capture_paths option \<times> disk
   \<Rightarrow> capture_paths option \<times> capture_paths option \<times> disk" where
  "capture_paths_new F capture_dir session st = (case initialize_for_process F capture_dir session st of
     (Inl _, st1) \<Rightarrow> (None, st1)
   | (Inr cp, st1) \<Rightarrow> (Some cp, st1))"

text \<open>The file name of a generated filter. \<open>W\<close> is the table of the standard library that gives the
  lower case of a character beyond ASCII, \<open>now\<close> the time of day in seconds.\<close>

definition time_slug :: "nat \<Rightarrow> string" where
  "time_slug now = ''generated-'' @ pad_zero 2 (show_nat (now div 3600 mod 24)) @ pad_zero 2 (show_nat (now div 60 mod 60))
     @ pad_zero 2 (show_nat (now mod 60))"

definition slugify_filter_name :: "(string \<Rightarrow> string list) \<Rightarrow> nat \<Rightarrow> string \<Rightarrow> string" where
  "slugify_filter_name W now name =
     (let slug = trim_dashes (slug_loop [] False (concat (map (lower_chars W) (str_chars name)))) in
      if slug = [] then time_slug now else slug)"

definition generated_filter_file_name :: "(string \<Rightarrow> string list) \<Rightarrow> nat \<Rightarrow> string \<Rightarrow> string" where
  "generated_filter_file_name W now name =
     (let slug = slugify_filter_name W now name in if ends_with slug ''.roto'' then slug else slug @ ''.roto'')"

text \<open>\<open>None\<close> stands for the end of the search for a free name, which the code marks unreachable.\<close>

definition write_generated_filter ::
  "os_faults \<Rightarrow> (string \<Rightarrow> string list) \<Rightarrow> nat \<Rightarrow> capture_paths \<Rightarrow> string \<Rightarrow> string \<Rightarrow> disk
   \<Rightarrow> ((io_error + string) \<times> disk) option" where
  "write_generated_filter F W now cp name source dk =
     (case create_dir_all F (cp_generated_filters_dir cp) dk of
        (Inl e, dk1) \<Rightarrow> Some (Inl e, dk1)
      | (Inr _, dk1) \<Rightarrow>
          map_option (\<lambda>path. case write_file (os_write F) (file_key dk1 path) source dk1 of
              (Inl e, dk2) \<Rightarrow> (Inl e, dk2)
            | (Inr _, dk2) \<Rightarrow> (Inr path, dk2))
            (unique_file_path (existing_in dk1 (cp_generated_filters_dir cp)) (cp_generated_filters_dir cp)
               (generated_filter_file_name W now name)))"

definition quarantine_generated_filter ::
  "os_faults \<Rightarrow> capture_paths \<Rightarrow> string \<Rightarrow> disk \<Rightarrow> ((io_error + string) \<times> disk) option" where
  "quarantine_generated_filter F cp path dk =
     (case create_dir_all F (cp_quarantine_filters_dir cp) dk of
        (Inl e, dk1) \<Rightarrow> Some (Inl e, dk1)
      | (Inr _, dk1) \<Rightarrow> (case path_file_name path of
          None \<Rightarrow> Some (Inl (NoFileName path), dk1)
        | Some file_name \<Rightarrow>
            map_option (\<lambda>destination. case move_file F (file_key dk1 path) (file_key dk1 destination) dk1 of
                (Inl e, dk2) \<Rightarrow> (Inl e, dk2)
              | (Inr _, dk2) \<Rightarrow> (Inr destination, dk2))
              (unique_file_path (existing_in dk1 (cp_quarantine_filters_dir cp)) (cp_quarantine_filters_dir cp)
                 (from_utf8_lossy file_name))))"

section \<open>The manager on a disk\<close>

datatype quarantine_error = EnsureQuarantineDir string io_error | QuarantineNoFileName | MoveQuarantined string string io_error

definition quarantine_filter_file ::
  "os_faults \<Rightarrow> filter_manager \<Rightarrow> string \<Rightarrow> disk \<Rightarrow> ((quarantine_error + string) \<times> disk) option" where
  "quarantine_filter_file F m path dk =
     (case create_dir_all F (fmg_quarantine_dir m) dk of
        (Inl e, dk1) \<Rightarrow> Some (Inl (EnsureQuarantineDir (fmg_quarantine_dir m) e), dk1)
      | (Inr _, dk1) \<Rightarrow> (case path_file_name path of
          None \<Rightarrow> Some (Inl QuarantineNoFileName, dk1)
        | Some file_name \<Rightarrow>
            map_option (\<lambda>destination. case move_file F (file_key dk1 path) (file_key dk1 destination) dk1 of
                (Inl e, dk2) \<Rightarrow> (Inl (MoveQuarantined path destination e), dk2)
              | (Inr _, dk2) \<Rightarrow> (Inr destination, dk2))
              (unique_quarantine_path (existing_in dk1 (fmg_quarantine_dir m)) (fmg_quarantine_dir m) file_name)))"

text \<open>A reload creates the quarantine directory, and then reads the disk as it is after that.\<close>

definition reload_on ::
  "(string \<Rightarrow> filter_metadata option) \<Rightarrow> roto_compiler \<Rightarrow> os_faults \<Rightarrow> disk \<Rightarrow> filter_manager
   \<Rightarrow> ((filter_error + unit) \<times> disk \<times> filter_manager) option" where
  "reload_on toml compiler F dk m =
     (case create_dir_all F (fmg_quarantine_dir m) dk of
        (r, dk1) \<Rightarrow> map_option (\<lambda>(result, m1). (result, dk1, m1))
          (reload toml (compile_on compiler F dk1) (view F (r = Inr ()) dk1) m))"

section \<open>Saving a generated filter\<close>

datatype save_error =
    WriteGenerated string io_error
  | ValidationFailed filter_error "io_error + string"
  | ReloadFailed filter_error "io_error + string"

text \<open>The text of the outermost context of the error, which is what the editor shows.\<close>

fun save_error_text :: "(string \<Rightarrow> string option) \<Rightarrow> save_error \<Rightarrow> string" where
  "save_error_text U (WriteGenerated name _) = ''write generated roto filter '' @ debug_str U name"
| "save_error_text U (ValidationFailed _ (Inr quarantined)) =
     ''generated roto filter validation failed; quarantined at '' @ from_utf8_lossy quarantined"
| "save_error_text U (ValidationFailed _ (Inl e)) =
     ''generated roto filter validation failed and quarantine failed: '' @ io_error_text e"
| "save_error_text U (ReloadFailed _ (Inr quarantined)) =
     ''generated roto filter reload failed; quarantined at '' @ from_utf8_lossy quarantined"
| "save_error_text U (ReloadFailed _ (Inl e)) =
     ''generated roto filter reload failed and quarantine failed: '' @ io_error_text e"

record save_env =
  sv_os :: os_faults
  sv_lower :: "string \<Rightarrow> string list"
  sv_now :: nat
  sv_toml :: "string \<Rightarrow> filter_metadata option"
  sv_compiler :: roto_compiler

definition save_generated_roto_source_and_reload ::
  "save_env \<Rightarrow> capture_paths \<Rightarrow> string \<Rightarrow> string \<Rightarrow> disk \<Rightarrow> filter_manager
   \<Rightarrow> ((save_error + string) \<times> disk \<times> filter_manager) option" where
  "save_generated_roto_source_and_reload E cp name source dk m =
     Option.bind (write_generated_filter (sv_os E) (sv_lower E) (sv_now E) cp name source dk) (\<lambda>(written, dk1).
     case written of
       Inl e \<Rightarrow> Some (Inl (WriteGenerated name e), dk1, m)
     | Inr path \<Rightarrow>
         Option.bind (validate_filter_file (sv_toml E) (compile_on (sv_compiler E) (sv_os E) dk1) (view (sv_os E) True dk1) path m) (\<lambda>(valid, m1).
         case valid of
           Inl err \<Rightarrow> map_option (\<lambda>(quarantined, dk2). (Inl (ValidationFailed err quarantined), dk2, m1))
             (quarantine_generated_filter (sv_os E) cp path dk1)
         | Inr _ \<Rightarrow>
             Option.bind (reload_on (sv_toml E) (sv_compiler E) (sv_os E) dk1 m1) (\<lambda>(reloaded, dk2, m2).
             case reloaded of
               Inl err \<Rightarrow> map_option (\<lambda>(quarantined, dk3). (Inl (ReloadFailed err quarantined), dk3, m2))
                 (quarantine_generated_filter (sv_os E) cp path dk2)
             | Inr _ \<Rightarrow> Some (Inr path, dk2, m2))))"

definition save_generated_filter_and_reload ::
  "json_lib \<Rightarrow> save_env \<Rightarrow> capture_paths \<Rightarrow> generated_filter \<Rightarrow> disk \<Rightarrow> filter_manager
   \<Rightarrow> ((save_error + string) \<times> disk \<times> filter_manager) option" where
  "save_generated_filter_and_reload J E cp f =
     save_generated_roto_source_and_reload E cp (gf_name f) (to_roto_source J f)"

record editable_filter_session_save_result =
  esr_path :: string
  esr_generated_roto :: string
  esr_preview :: editable_filter_session_preview

text \<open>The preview and the filter are generated one after the other, each with a fresh identifier.\<close>

definition save_generated ::
  "'p edit_lib \<Rightarrow> save_env \<Rightarrow> string \<Rightarrow> string \<Rightarrow> editable_filter_session \<Rightarrow> capture_paths \<Rightarrow> disk \<Rightarrow> filter_manager
   \<Rightarrow> ((editable_filter_session_error + editable_filter_session_save_result) \<times> disk \<times> filter_manager) option" where
  "save_generated L E uuid uuid' session cp dk m =
     (let pv = preview L uuid session in
      case generate_filter L uuid' session of
        Inl err \<Rightarrow> Some (Inl err, dk, m)
      | Inr f \<Rightarrow>
          map_option (\<lambda>(saved, dk1, m1).
            (case saved of
               Inl err \<Rightarrow> Inl (SessSave (save_error_text (el_debug L) err))
             | Inr path \<Rightarrow> Inr \<lparr>esr_path = path, esr_generated_roto = to_roto_source (el_json L) f, esr_preview = pv\<rparr>, dk1, m1))
            (save_generated_filter_and_reload (el_json L) E cp f dk m))"

section \<open>Watching the filter directories\<close>

text \<open>What the loop sees of the disk at one moment: the files, the length and the time of change of
  each, and what compiling a file gives.\<close>

record disk_moment =
  dm_fs :: fs_view
  dm_metadata :: "string \<Rightarrow> (nat \<times> nat option) option"
  dm_compile :: "string \<Rightarrow> string + roto_package"

record filter_snapshot_entry =
  fse_path :: string
  fse_len :: nat
  fse_modified :: "nat option"

type_synonym filter_snapshot = "filter_snapshot_entry list"

definition sort_entries :: "filter_snapshot \<Rightarrow> filter_snapshot" where
  "sort_entries = sort_key (\<lambda>e. path_components (fse_path e))"

fun snapshot_entries :: "disk_moment \<Rightarrow> string list \<Rightarrow> filter_snapshot option" where
  "snapshot_entries d [] = Some []"
| "snapshot_entries d (path # paths) =
     (if \<not> is_roto_file (dm_fs d) path then snapshot_entries d paths
      else Option.bind (dm_metadata d path) (\<lambda>(len, modified).
        map_option (\<lambda>files. \<lparr>fse_path = path, fse_len = len, fse_modified = modified\<rparr> # files) (snapshot_entries d paths)))"

definition snapshot_read :: "disk_moment \<Rightarrow> string \<Rightarrow> filter_snapshot option" where
  "snapshot_read d dir =
     (if \<not> fs_exists (dm_fs d) dir then Some []
      else Option.bind (fs_read_dir (dm_fs d) dir) (\<lambda>paths. map_option sort_entries (snapshot_entries d paths)))"

fun snapshot_dirs :: "disk_moment \<Rightarrow> string list \<Rightarrow> filter_snapshot option" where
  "snapshot_dirs d [] = Some []"
| "snapshot_dirs d (dir # dirs) =
     Option.bind (snapshot_read d dir) (\<lambda>files. map_option (\<lambda>rest. files @ rest) (snapshot_dirs d dirs))"

definition read_many :: "disk_moment \<Rightarrow> string list \<Rightarrow> filter_snapshot option" where
  "read_many d dirs = map_option sort_entries (snapshot_dirs d dirs)"

definition snapshot :: "disk_moment \<Rightarrow> filter_manager \<Rightarrow> filter_snapshot option" where
  "snapshot d m = read_many d (fmg_filter_dirs m)"

text \<open>Equality of snapshots compares paths by their components.\<close>

definition entry_value :: "filter_snapshot_entry \<Rightarrow> path_component list \<times> nat \<times> nat option" where
  "entry_value e = (path_components (fse_path e), fse_len e, fse_modified e)"

definition same_snapshot :: "filter_snapshot \<Rightarrow> filter_snapshot \<Rightarrow> bool" where
  "same_snapshot a b \<longleftrightarrow> map entry_value a = map entry_value b"

text \<open>What wakes the loop: the end of the program, or the end of a pause. The second moment is the one
  at which the files are loaded, after the snapshot was taken.\<close>

datatype watch_event = Shutdown | Pause disk_moment disk_moment

fun watch_loop ::
  "(string \<Rightarrow> filter_metadata option) \<Rightarrow> watch_event list \<Rightarrow> filter_snapshot \<Rightarrow> filter_manager
   \<Rightarrow> (filter_snapshot \<times> filter_manager) option" where
  "watch_loop toml [] last_snapshot m = Some (last_snapshot, m)"
| "watch_loop toml (Shutdown # evs) last_snapshot m = Some (last_snapshot, m)"
| "watch_loop toml (Pause d d1 # evs) last_snapshot m = (case snapshot d m of
     None \<Rightarrow> watch_loop toml evs last_snapshot m
   | Some next_snapshot \<Rightarrow>
       if same_snapshot next_snapshot last_snapshot then watch_loop toml evs last_snapshot m
       else (case reload toml (dm_compile d1) (dm_fs d1) m of
               None \<Rightarrow> None
             | Some (_, m1) \<Rightarrow> watch_loop toml evs next_snapshot m1))"

text \<open>The loop as a whole: \<open>d0\<close> is the moment of the first load, \<open>d1\<close> that of the look for a directory,
  \<open>d2\<close> that of the first snapshot. Without a directory it only waits for the end.\<close>

definition reload_loop ::
  "(string \<Rightarrow> filter_metadata option) \<Rightarrow> disk_moment \<Rightarrow> disk_moment \<Rightarrow> disk_moment \<Rightarrow> watch_event list \<Rightarrow> filter_manager
   \<Rightarrow> filter_manager option" where
  "reload_loop toml d0 d1 d2 evs m = (case reload toml (dm_compile d0) (dm_fs d0) m of
     None \<Rightarrow> None
   | Some (_, m1) \<Rightarrow>
       if \<not> list_ex (fs_exists (dm_fs d1)) (fmg_filter_dirs m1) then Some m1
       else map_option snd (watch_loop toml evs (case snapshot d2 m1 of Some s \<Rightarrow> s | None \<Rightarrow> []) m1))"

section \<open>What the disk operations leave alone\<close>

text \<open>\<open>only_at S dk dk'\<close>: going from \<open>dk\<close> to \<open>dk'\<close> changes no file outside \<open>S\<close> and loses no directory.\<close>

definition only_at :: "file_key set \<Rightarrow> disk \<Rightarrow> disk \<Rightarrow> bool" where
  "only_at S dk dk' \<longleftrightarrow> dk_cwd dk' = dk_cwd dk \<and> set (dk_dirs dk) \<subseteq> set (dk_dirs dk')
     \<and> (\<forall>k. k \<notin> S \<longrightarrow> hm_get (dk_files dk') k = hm_get (dk_files dk) k)"

lemma only_at_refl [simp]: "only_at S dk dk"
  by (simp add: only_at_def)

lemma only_at_trans: "only_at S dk dk1 \<Longrightarrow> only_at S dk1 dk2 \<Longrightarrow> only_at S dk dk2"
  by (auto simp: only_at_def)

lemma only_at_mono: "only_at S dk dk' \<Longrightarrow> S \<subseteq> T \<Longrightarrow> only_at T dk dk'"
  by (auto simp: only_at_def)

lemma only_at_key: "only_at S dk dk' \<Longrightarrow> file_key dk' = file_key dk"
  by (auto simp: only_at_def file_key_def fun_eq_iff)

lemma only_at_file: "only_at S dk dk' \<Longrightarrow> k \<notin> S \<Longrightarrow> hm_get (dk_files dk') k = hm_get (dk_files dk) k"
  by (simp add: only_at_def)

lemma only_at_dir: "only_at S dk dk' \<Longrightarrow> is_dir dk k \<Longrightarrow> is_dir dk' k"
  by (auto simp: only_at_def is_dir_def)

lemma only_at_put [simp]: "k \<in> S \<Longrightarrow> only_at S dk (put_file k c dk)"
  by (auto simp: only_at_def put_file_def)

lemma only_at_drop [simp]: "k \<in> S \<Longrightarrow> only_at S dk (drop_file k dk)"
  by (auto simp: only_at_def drop_file_def)

lemma create_dirs_files: "create_dirs F ks dk = (r, dk') \<Longrightarrow> dk_files dk' = dk_files dk"
  by (induction ks arbitrary: dk) (auto split: if_splits option.splits)

lemma create_dirs_only: "create_dirs F ks dk = (r, dk') \<Longrightarrow> only_at {} dk dk'"
proof (induction ks arbitrary: dk)
  case (Cons k ks)
  have grow: "only_at {} dk (dk\<lparr>dk_dirs := dk_dirs dk @ [k]\<rparr>)" by (auto simp: only_at_def)
  from Cons show ?case by (auto split: if_splits option.splits intro: only_at_trans [OF grow])
qed simp

lemma create_dirs_made: "create_dirs F ks dk = (Inr u, dk') \<Longrightarrow> k \<in> set ks \<Longrightarrow> is_dir dk' k"
proof (induction ks arbitrary: dk)
  case (Cons a ks)
  let ?dk = "if is_dir dk a then dk else dk\<lparr>dk_dirs := dk_dirs dk @ [a]\<rparr>"
  from Cons.prems(1) have r: "create_dirs F ks ?dk = (Inr u, dk')" by (auto split: if_splits option.splits)
  have "is_dir ?dk a" by (simp add: is_dir_def)
  with Cons.IH [OF r] only_at_dir [OF create_dirs_only [OF r]] Cons.prems(2) show ?case by auto
qed simp

lemma create_dir_all_only: "create_dir_all F dir dk = (r, dk') \<Longrightarrow> only_at {} dk dk'"
  by (auto simp: create_dir_all_def Let_def dest: create_dirs_only)

lemma create_dir_all_made:
  assumes "create_dir_all F dir dk = (Inr u, dk')" and "file_key dk dir \<noteq> []"
  shows "is_dir dk' (file_key dk dir)"
proof (rule create_dirs_made)
  let ?k = "file_key dk dir"
  show "create_dirs F (map (\<lambda>n. take (Suc n) ?k) [0..<length ?k]) dk = (Inr u, dk')"
    using assms(1) by (simp add: create_dir_all_def Let_def)
  show "?k \<in> set (map (\<lambda>n. take (Suc n) ?k) [0..<length ?k])"
    using assms(2) by (auto intro!: image_eqI [of _ _ "length ?k - 1"])
qed

lemma write_file_result:
  assumes "write_file fault k content dk = (r, dk')"
  shows "only_at {k} dk dk'" and "r = Inr u \<Longrightarrow> dk' = put_file k content dk"
  using assms by (auto simp: write_file_def split: if_splits option.splits)

text \<open>A move never loses the file: it is at its destination if the move succeeded, and still at its
  source otherwise.\<close>

lemma move_file_result:
  assumes "move_file F src dst dk = (r, dk')" and "hm_get (dk_files dk) src = Some content" and "src \<noteq> dst"
  shows "only_at {src, dst} dk dk'"
    and "hm_get (dk_files dk') src = (case r of Inr _ \<Rightarrow> None | Inl _ \<Rightarrow> Some content)"
    and "r = Inr u \<Longrightarrow> hm_get (dk_files dk') dst = Some content"
proof -
  consider (renamed) "r = Inr ()" "dk' = put_file dst content (drop_file src dk)"
    | (copied) dk2 where "write_file (os_copy F) dst content dk = (Inr (), dk2)" "remove_file F src dk2 = (r, dk')"
    | (failed) e where "write_file (os_copy F) dst content dk = (Inl e, dk')" "r = Inl e"
    using assms(1,2)
    by (auto simp: move_file_def rename_file_def copy_file_def split: if_splits option.splits prod.splits sum.splits)
  note cases = this
  show "only_at {src, dst} dk dk'"
    by (cases rule: cases)
      (auto simp: remove_file_def only_at_trans [OF only_at_drop only_at_put] split: if_splits option.splits
        intro: only_at_trans only_at_mono [OF write_file_result(1)])
  show "hm_get (dk_files dk') src = (case r of Inr _ \<Rightarrow> None | Inl _ \<Rightarrow> Some content)"
    using assms(2,3)
    by (cases rule: cases)
      (auto simp: remove_file_def put_file_def drop_file_def is_file_def only_at_file [OF write_file_result(1)]
        dest!: write_file_result(2) split: if_splits option.splits)
  show "hm_get (dk_files dk') dst = Some content" if "r = Inr u"
    using that assms(2,3)
    by (cases rule: cases)
      (auto simp: remove_file_def put_file_def drop_file_def dest!: write_file_result(2) split: if_splits option.splits)
qed

section \<open>Names in a directory\<close>

lemma plain_name_front: "plain_name n \<Longrightarrow> \<not> starts_with n ''/''"
  by (cases n) (auto simp: plain_name_def)

lemma ends_with_tail: "b \<noteq> [] \<Longrightarrow> ends_with (a @ b) [c] = ends_with b [c]"
  by (cases b rule: rev_cases) (auto simp: ends_with_iff)

lemma absolute_join:
  assumes "plain_name n" and "dir \<noteq> []" and "cwd \<noteq> []"
  shows "absolute cwd (path_join dir n) = path_join (absolute cwd dir) n" and "absolute cwd dir \<noteq> []"
proof -
  have "starts_with (path_join dir n) ''/'' = starts_with dir ''/''"
    using assms(2) plain_name_front [OF assms(1)] by (cases dir) (auto simp: path_join_def)
  then show "absolute cwd (path_join dir n) = path_join (absolute cwd dir) n"
    using assms plain_name_front [OF assms(1)]
    by (auto simp: absolute_def path_join_def ends_with_tail ends_with_tail [of _ "''/''", simplified])
  show "absolute cwd dir \<noteq> []" using assms by (auto simp: absolute_def path_join_def)
qed

lemma file_key_join:
  assumes "plain_name n" and "dir \<noteq> []" and "dk_cwd dk \<noteq> []"
  shows "file_key dk (path_join dir n) = file_key dk dir @ [Normal n]"
  using absolute_join [OF assms] assms(1) by (simp add: file_key_def path_components_join plain_name_def)

lemma plain_join_inj: "plain_name a \<Longrightarrow> plain_name b \<Longrightarrow> path_join dir a = path_join dir b \<longleftrightarrow> a = b"
  by (auto simp: path_join_def plain_name_front)

text \<open>Looking a candidate up in the listing of its directory is asking whether it exists.\<close>

lemma names_in_iff:
  "n \<in> set (names_in dk k) \<longleftrightarrow> plain_name n \<and> (is_dir dk (k @ [Normal n]) \<or> is_file dk (k @ [Normal n]))"
proof -
  let ?name = "\<lambda>e. if e \<noteq> [] \<and> butlast e = k then (case last e of Normal n \<Rightarrow> if plain_name n then Some n else None | _ \<Rightarrow> None) else None"
  have snoc: "e \<noteq> [] \<and> butlast e = k \<and> last e = Normal n \<longleftrightarrow> e = k @ [Normal n]" for e
    by (metis append_butlast_last_id butlast_snoc last_snoc snoc_eq_iff_butlast)
  have "?name e = Some n \<longleftrightarrow> plain_name n \<and> e = k @ [Normal n]" for e
    unfolding snoc [symmetric] by (auto split: path_component.splits)
  moreover have "n \<in> set (List.map_filter g es) \<longleftrightarrow> (\<exists>e \<in> set es. g e = Some n)" for g :: "file_key \<Rightarrow> string option" and es
    by (induction es) (auto simp: map_filter_simps split: option.splits)
  ultimately have "n \<in> set (names_in dk k) \<longleftrightarrow> plain_name n \<and> k @ [Normal n] \<in> set (dk_dirs dk @ map fst (dk_files dk))"
    by (auto simp: names_in_def)
  then show ?thesis by (auto simp: is_dir_def is_file_def map_of_eq_None_iff)
qed

lemma existing_in_iff:
  assumes "plain_name n" and "dir \<noteq> []" and "dk_cwd dk \<noteq> []"
  shows "path_join dir n \<in> set (existing_in dk dir) \<longleftrightarrow>
    is_dir dk (file_key dk (path_join dir n)) \<or> is_file dk (file_key dk (path_join dir n))"
proof -
  have "path_join dir n \<in> set (existing_in dk dir) \<longleftrightarrow> n \<in> set (names_in dk (file_key dk dir))"
    using assms(1) by (auto simp: existing_in_def names_in_iff plain_join_inj)
  then show ?thesis using assms by (simp add: names_in_iff file_key_join)
qed

section \<open>The names of generated files\<close>

definition slug_char :: "char \<Rightarrow> bool" where
  "slug_char c \<longleftrightarrow> c = CHR ''-'' \<or> is_ascii_alphanumeric_char [c]"

text \<open>A file name in the form every generated filter has: letters, digits and dashes, and the extension.\<close>

definition roto_name :: "string \<Rightarrow> bool" where
  "roto_name n \<longleftrightarrow> (\<exists>s. s \<noteq> [] \<and> list_all slug_char s \<and> n = s @ ''.roto'')"

lemma slug_char_facts:
  "slug_char c \<Longrightarrow> byte c < 128 \<and> c \<noteq> CHR ''/'' \<and> c \<noteq> CHR ''.''"
  by (auto simp: slug_char_def is_ascii_alphanumeric_char_def is_ascii_digit_def)

lemma slug_loop_chars: "list_all slug_char out \<Longrightarrow> list_all slug_char (slug_loop out d chs)"
proof (induction chs arbitrary: out d)
  case (Cons ch chs)
  have "list_all slug_char ch" if "is_ascii_alphanumeric_char ch"
    using that by (auto simp: is_ascii_alphanumeric_char_def slug_char_def split: list.splits)
  moreover have "slug_char (CHR ''-'')" by (simp add: slug_char_def)
  ultimately show ?case using Cons by auto
qed simp

lemma trim_dashes_chars: "list_all slug_char s \<Longrightarrow> list_all slug_char (trim_dashes s)"
  by (auto simp: trim_dashes_def list_all_iff dest!: set_dropWhileD)

lemma digits_slug: "list_all is_ascii_digit s \<Longrightarrow> list_all slug_char s"
  by (auto simp: list_all_iff slug_char_def is_ascii_alphanumeric_char_def)

lemma slugify_filter_name_chars: "slugify_filter_name W now name \<noteq> [] \<and> list_all slug_char (slugify_filter_name W now name)"
proof -
  have "list_all slug_char ''generated-''" by (simp add: slug_char_def is_ascii_alphanumeric_char_def is_ascii_digit_def)
  moreover have "list_all slug_char (pad_zero 2 (show_nat k))" for k
    by (rule digits_slug [OF pad_zero_digits [OF show_nat_digits]])
  ultimately have "list_all slug_char (time_slug now)" unfolding time_slug_def by simp
  then show ?thesis
    by (simp add: slugify_filter_name_def Let_def trim_dashes_chars slug_loop_chars) (simp add: time_slug_def)
qed

lemma generated_file_name_roto: "roto_name (generated_filter_file_name W now name)"
proof -
  let ?s = "slugify_filter_name W now name"
  have "\<not> ends_with ?s ''.roto''"
  proof
    assume "ends_with ?s ''.roto''"
    then obtain r where "?s = r @ ''.roto''" by (auto simp: ends_with_iff)
    with slugify_filter_name_chars [of W now name] slug_char_facts [of "CHR ''.''"] show False by simp
  qed
  with slugify_filter_name_chars [of W now name] show ?thesis
    by (auto simp: generated_filter_file_name_def Let_def roto_name_def)
qed

lemma roto_name_facts:
  assumes "roto_name n"
  shows "plain_name n" and "list_all (\<lambda>c. byte c < 128) n" and "path_file_name n = Some n"
proof -
  obtain s where s: "s \<noteq> []" "list_all slug_char s" "n = s @ ''.roto''" using assms by (auto simp: roto_name_def)
  have chars: "byte c < 128 \<and> c \<noteq> CHR ''/''" if "c \<in> set n" for c
  proof (cases "c \<in> set s")
    case True
    with s(2) slug_char_facts show ?thesis unfolding list_all_iff by blast
  next
    case False
    with that show ?thesis unfolding s(3) by auto
  qed
  have "length n > 2" using s(3) by simp
  then have "n \<noteq> ''.'' \<and> n \<noteq> ''..'' \<and> n \<noteq> []" by auto
  then show p: "plain_name n" using chars unfolding plain_name_def by auto
  show "list_all (\<lambda>c. byte c < 128) n" using chars unfolding list_all_iff by blast
  from p have "split_char (CHR ''/'') n = [n]" by (simp add: plain_name_def split_char_singleton)
  with p show "path_file_name n = Some n"
    by (auto simp: path_file_name_def path_components_def Let_def plain_name_def plain_name_front [OF p])
qed

lemma free_path_form: "free_path c ex fuel idx = Some p \<Longrightarrow> \<exists>i. p = c i"
  by (induction fuel arbitrary: idx) (auto split: if_splits)

lemma split_rev_roto: "split_once (CHR ''.'') (rev (s @ ''.roto'')) = Some (''otor'', rev s)"
  by simp

text \<open>A free name for such a file has the same form.\<close>

lemma unique_file_path_roto:
  assumes "unique_file_path existing dir name = Some p" and "roto_name name"
  obtains n where "roto_name n" "p = path_join dir n" "p \<notin> set existing"
proof -
  have fresh: "p \<notin> set existing"
    using unique_path_found [of "''-''" "''generated''" existing dir name] assms(1) by (simp add: unique_file_path_def)
  obtain s where s: "s \<noteq> []" "list_all slug_char s" "name = s @ ''.roto''" using assms(2) by (auto simp: roto_name_def)
  have ext: "path_file_stem name = Some s" "path_extension name = Some ''roto''"
    using roto_name_facts(3) [OF assms(2)] s(1,3) split_rev_roto [of s]
    by (simp_all add: path_file_stem_def path_extension_def rsplit_file_at_dot_def)
  let ?stem = "case from_utf8 s of Some s \<Rightarrow> s | None \<Rightarrow> ''generated''"
  have stem: "list_all slug_char ?stem"
    using s(2) by (simp add: from_utf8_def slug_char_def is_ascii_alphanumeric_char_def is_ascii_digit_def)
  have "from_utf8 ''roto'' = Some ''roto''" by code_simp
  then consider (first) "p = path_join dir name" | (later) i where "p = path_join dir (?stem @ ''-'' @ show_nat i @ ''.roto'')"
    using assms(1) ext
    by (auto simp: unique_file_path_def unique_path_def Let_def simp del: free_path.simps split: if_splits dest!: free_path_form)
  then show ?thesis
  proof cases
    case first
    with that assms(2) fresh show ?thesis by blast
  next
    case (later i)
    have "roto_name (?stem @ ''-'' @ show_nat i @ ''.roto'')"
      unfolding roto_name_def using stem digits_slug [OF show_nat_digits [of i]]
      by (intro exI [of _ "?stem @ ''-'' @ show_nat i"]) (simp add: slug_char_def)
    with that later fresh show ?thesis by blast
  qed
qed

section \<open>Writing a generated filter\<close>

text \<open>The files that a generated filter may become: they lie in the directory itself, have the form of a
  generated name, and do not exist yet.\<close>

definition fresh_files :: "disk \<Rightarrow> string \<Rightarrow> file_key set" where
  "fresh_files dk dir = {k. \<exists>n. roto_name n \<and> k = file_key dk dir @ [Normal n] \<and> \<not> is_file dk k}"

lemma fresh_files_later:
  assumes "only_at S dk dk'" and "\<And>k. k \<in> S \<Longrightarrow> \<not> is_file dk k"
  shows "fresh_files dk' dir \<subseteq> fresh_files dk dir"
  using only_at_key [OF assms(1)] only_at_file [OF assms(1)] assms(2)
  by (auto simp: fresh_files_def is_file_def) (metis option.distinct(1))

lemma unique_file_path_free:
  assumes "unique_file_path (existing_in dk dir) dir name = Some p" and "roto_name name" and "dir \<noteq> []" and "dk_cwd dk \<noteq> []"
  obtains n where "roto_name n" "p = path_join dir n" "file_key dk p = file_key dk dir @ [Normal n]"
    "\<not> is_dir dk (file_key dk p)" "file_key dk p \<in> fresh_files dk dir"
proof -
  obtain n where n: "roto_name n" "p = path_join dir n" "p \<notin> set (existing_in dk dir)"
    using unique_file_path_roto [OF assms(1,2)] .
  note plain = roto_name_facts(1) [OF n(1)]
  note key = file_key_join [OF plain assms(3,4)] and free = existing_in_iff [OF plain assms(3,4)]
  show ?thesis by (rule that [OF n(1,2)]) (use n key free in \<open>auto simp: fresh_files_def\<close>)
qed

lemma write_generated_cases:
  assumes "write_generated_filter F W now cp name source dk = Some (r, dk')"
  obtains (no_dir) e where "create_dir_all F (cp_generated_filters_dir cp) dk = (Inl e, dk')" "r = Inl e"
  | (tried) dk1 p r1 where "create_dir_all F (cp_generated_filters_dir cp) dk = (Inr (), dk1)"
      "unique_file_path (existing_in dk1 (cp_generated_filters_dir cp)) (cp_generated_filters_dir cp)
         (generated_filter_file_name W now name) = Some p"
      "write_file (os_write F) (file_key dk1 p) source dk1 = (r1, dk')" "r = map_sum id (\<lambda>_. p) r1"
proof -
  obtain c dk1 where c: "create_dir_all F (cp_generated_filters_dir cp) dk = (c, dk1)" by fastforce
  show ?thesis
  proof (cases c)
    case (Inl e)
    with c assms no_dir show ?thesis by (simp add: write_generated_filter_def)
  next
    case (Inr u)
    then obtain p where p: "unique_file_path (existing_in dk1 (cp_generated_filters_dir cp)) (cp_generated_filters_dir cp)
         (generated_filter_file_name W now name) = Some p"
      using assms c by (auto simp: write_generated_filter_def)
    obtain r1 dk2 where w: "write_file (os_write F) (file_key dk1 p) source dk1 = (r1, dk2)" by fastforce
    with assms c Inr p have "dk2 = dk' \<and> r = map_sum id (\<lambda>_. p) r1"
      by (cases r1) (simp_all add: write_generated_filter_def)
    with tried c Inr p w show ?thesis by simp
  qed
qed

lemma write_generated_result:
  assumes "write_generated_filter F W now cp name source dk = Some (r, dk')"
    and "cp_generated_filters_dir cp \<noteq> []" and "dk_cwd dk \<noteq> []"
  shows "only_at (fresh_files dk (cp_generated_filters_dir cp)) dk dk'"
    and "r = Inr path \<Longrightarrow> \<exists>n. roto_name n \<and> path = path_join (cp_generated_filters_dir cp) n
      \<and> file_key dk path \<in> fresh_files dk (cp_generated_filters_dir cp) \<and> is_dir dk' (file_key dk (cp_generated_filters_dir cp))
      \<and> only_at {file_key dk path} dk dk' \<and> hm_get (dk_files dk') (file_key dk path) = Some source"
    and "only_at {} dk dk' \<or> (\<exists>k \<in> fresh_files dk (cp_generated_filters_dir cp). only_at {k} dk dk')"
proof -
  let ?dir = "cp_generated_filters_dir cp"
  have "(only_at {} dk dk' \<or> (\<exists>k \<in> fresh_files dk ?dir. only_at {k} dk dk')) \<and> (r = Inr path \<longrightarrow> (\<exists>n. roto_name n \<and> path = path_join ?dir n
      \<and> file_key dk path \<in> fresh_files dk ?dir \<and> is_dir dk' (file_key dk ?dir)
      \<and> only_at {file_key dk path} dk dk' \<and> hm_get (dk_files dk') (file_key dk path) = Some source))"
    using assms(1)
  proof (cases rule: write_generated_cases)
    case (no_dir e)
    then show ?thesis using create_dir_all_only [OF no_dir(1)] by simp
  next
    case (tried dk1 p r1)
    note grow = create_dir_all_only [OF tried(1)]
    have same: "fresh_files dk1 ?dir \<subseteq> fresh_files dk ?dir" "dk_cwd dk1 = dk_cwd dk" "file_key dk1 = file_key dk"
      using fresh_files_later [OF grow] only_at_key [OF grow] grow by (auto simp: only_at_def)
    obtain n where n: "roto_name n" "p = path_join ?dir n" "file_key dk1 p = file_key dk1 ?dir @ [Normal n]"
        "file_key dk1 p \<in> fresh_files dk1 ?dir"
      using unique_file_path_free [OF tried(2) generated_file_name_roto assms(2)] assms(3) same(2) by metis
    have only: "only_at {file_key dk p} dk dk'"
      using only_at_trans [OF only_at_mono [OF grow] write_file_result(1) [OF tried(3)]] same(3) by simp
    moreover have fresh: "file_key dk p \<in> fresh_files dk ?dir" using n(4) same by auto
    ultimately have "\<exists>k \<in> fresh_files dk ?dir. only_at {k} dk dk'" by blast
    moreover have "is_dir dk' (file_key dk ?dir) \<and> hm_get (dk_files dk') (file_key dk p) = Some source" if "r1 = Inr ()"
    proof -
      have "is_dir dk1 (file_key dk1 ?dir)" using tried(3) that n(3) by (auto simp: write_file_def split: if_splits)
      with write_file_result [OF tried(3)] that same(3) show ?thesis
        by (auto simp: put_file_def dest: only_at_dir)
    qed
    ultimately show ?thesis using only fresh n(1,2) tried(4) by (cases r1) auto
  qed
  then show "only_at {} dk dk' \<or> (\<exists>k \<in> fresh_files dk ?dir. only_at {k} dk dk')"
    and "only_at (fresh_files dk ?dir) dk dk'"
    and "r = Inr path \<Longrightarrow> \<exists>n. roto_name n \<and> path = path_join ?dir n
      \<and> file_key dk path \<in> fresh_files dk ?dir \<and> is_dir dk' (file_key dk ?dir)
      \<and> only_at {file_key dk path} dk dk' \<and> hm_get (dk_files dk') (file_key dk path) = Some source"
    by (auto intro: only_at_mono)
qed

text \<open>C20: Whatever name a filter is given, saving its source changes no existing file and writes at most one
  new file, in a failure too, which lies directly in the directory for generated filters and is named with letters,
  digits and dashes only: a name with slashes or dots cannot lead out of the directory, also when
  the operating system refuses an operation. The search for the name always ends, and a successful
  write has stored the whole source.\<close>

theorem generated_file_stays_inside:
  assumes "cp_generated_filters_dir cp \<noteq> []" and "dk_cwd dk \<noteq> []"
  shows "\<exists>r dk'. write_generated_filter F W now cp name source dk = Some (r, dk')
    \<and> (only_at {} dk dk' \<or> (\<exists>k \<in> fresh_files dk (cp_generated_filters_dir cp). only_at {k} dk dk'))
    \<and> (\<forall>path. r = Inr path \<longrightarrow> hm_get (dk_files dk') (file_key dk path) = Some source
         \<and> only_at {file_key dk path} dk dk')"
proof -
  obtain c dk1 where c: "create_dir_all F (cp_generated_filters_dir cp) dk = (c, dk1)" by fastforce
  obtain p where "unique_file_path (existing_in dk1 (cp_generated_filters_dir cp)) (cp_generated_filters_dir cp)
      (generated_filter_file_name W now name) = Some p"
    using unique_path_found [of "''-''"] unfolding unique_file_path_def by blast
  with c have "write_generated_filter F W now cp name source dk \<noteq> None"
    by (cases c) (simp_all add: write_generated_filter_def)
  then obtain r dk' where w: "write_generated_filter F W now cp name source dk = Some (r, dk')" by auto
  with write_generated_result [OF w assms] show ?thesis by blast
qed

section \<open>Moving a filter into the quarantine\<close>

lemma utf8_ascii: "list_all (\<lambda>c. byte c < 128) s \<Longrightarrow> utf8_valid s"
  by (induction s) (simp_all add: utf8_valid.simps utf8_head_def utf8_width_def Let_def)

lemma path_file_name_join: "plain_name n \<Longrightarrow> dir \<noteq> [] \<Longrightarrow> path_file_name (path_join dir n) = Some n"
  by (simp add: path_file_name_def path_components_join plain_name_def)

lemma quarantine_generated_result:
  assumes "quarantine_generated_filter F cp path dk = Some (r, dk')"
    and "cp_quarantine_filters_dir cp \<noteq> []" and "dk_cwd dk \<noteq> []"
    and "path = path_join dir n" and "roto_name n" and "dir \<noteq> []"
    and "hm_get (dk_files dk) (file_key dk path) = Some content"
  shows "only_at ({file_key dk path} \<union> fresh_files dk (cp_quarantine_filters_dir cp)) dk dk'"
    and "hm_get (dk_files dk') (file_key dk path) = (case r of Inr _ \<Rightarrow> None | Inl _ \<Rightarrow> Some content)"
    and "r = Inr d \<Longrightarrow> file_key dk d \<in> fresh_files dk (cp_quarantine_filters_dir cp)
      \<and> hm_get (dk_files dk') (file_key dk d) = Some content"
proof -
  let ?q = "cp_quarantine_filters_dir cp" and ?k = "file_key dk path"
  obtain c dk1 where c: "create_dir_all F ?q dk = (c, dk1)" by fastforce
  note grow = create_dir_all_only [OF c]
  have same: "fresh_files dk1 ?q \<subseteq> fresh_files dk ?q" "dk_cwd dk1 = dk_cwd dk" "file_key dk1 = file_key dk"
    "hm_get (dk_files dk1) = hm_get (dk_files dk)"
    using fresh_files_later [OF grow] only_at_key [OF grow] grow by (auto simp: only_at_def)
  have "only_at ({?k} \<union> fresh_files dk ?q) dk dk'
      \<and> hm_get (dk_files dk') ?k = (case r of Inr _ \<Rightarrow> None | Inl _ \<Rightarrow> Some content)
      \<and> (r = Inr d \<longrightarrow> file_key dk d \<in> fresh_files dk ?q \<and> hm_get (dk_files dk') (file_key dk d) = Some content)"
  proof (cases c)
    case (Inl e)
    with assms(1) c have "dk' = dk1" "r = Inl e" by (simp_all add: quarantine_generated_filter_def)
    with grow assms(7) same show ?thesis by (auto intro: only_at_mono)
  next
    case (Inr u)
    have name: "path_file_name path = Some n" "from_utf8_lossy n = n"
      using roto_name_facts [OF assms(5)] assms(4,6) by (simp_all add: path_file_name_join from_utf8_lossy_valid utf8_ascii)
    with assms(1) c Inr obtain p where p: "unique_file_path (existing_in dk1 ?q) ?q n = Some p"
      by (auto simp: quarantine_generated_filter_def)
    obtain r1 dk2 where mv: "move_file F (file_key dk1 path) (file_key dk1 p) dk1 = (r1, dk2)" by fastforce
    with assms(1) c Inr name p have r: "dk2 = dk'" "r = map_sum id (\<lambda>_. p) r1"
      by (cases r1; simp add: quarantine_generated_filter_def)+
    have fresh: "file_key dk p \<in> fresh_files dk1 ?q"
      using unique_file_path_free [OF p assms(5,2)] assms(3) same(2,3) by metis
    then have "?k \<noteq> file_key dk p" using assms(7) same(4) by (auto simp: fresh_files_def is_file_def)
    note moved = move_file_result [OF mv, unfolded same(3,4), OF assms(7) this, unfolded r(1)]
    have "only_at ({?k} \<union> fresh_files dk ?q) dk dk'"
      by (rule only_at_trans [OF only_at_mono [OF grow] only_at_mono [OF moved(1)]]) (use fresh same(1) in auto)
    with moved fresh same(1) r(2) show ?thesis by (cases r1) auto
  qed
  then show "only_at ({?k} \<union> fresh_files dk ?q) dk dk'"
    and "hm_get (dk_files dk') ?k = (case r of Inr _ \<Rightarrow> None | Inl _ \<Rightarrow> Some content)"
    and "r = Inr d \<Longrightarrow> file_key dk d \<in> fresh_files dk ?q \<and> hm_get (dk_files dk') (file_key dk d) = Some content"
    by blast+
qed

section \<open>Saving a filter\<close>

lemma paths_below_dirs:
  assumes "root \<noteq> []" and "dk_cwd dk \<noteq> []"
  shows "cp_generated_filters_dir (paths_below root) \<noteq> []" "cp_quarantine_filters_dir (paths_below root) \<noteq> []"
    and "fresh_files dk (cp_generated_filters_dir (paths_below root))
      \<inter> fresh_files dk1 (cp_quarantine_filters_dir (paths_below root)) = {} \<or> dk_cwd dk1 \<noteq> dk_cwd dk"
proof -
  let ?f = "path_join root ''filters''"
  have f: "?f \<noteq> []" using assms by (simp add: path_join_def)
  then show "cp_generated_filters_dir (paths_below root) \<noteq> []" "cp_quarantine_filters_dir (paths_below root) \<noteq> []"
    by (simp_all add: paths_below_def Let_def path_join_def)
  have "plain_name ''generated''" "plain_name ''quarantine''" by (simp_all add: plain_name_def)
  then have "file_key dk (path_join ?f ''generated'') \<noteq> file_key dk (path_join ?f ''quarantine'')"
    using f assms(2) by (simp add: file_key_join)
  then show "fresh_files dk (cp_generated_filters_dir (paths_below root))
      \<inter> fresh_files dk1 (cp_quarantine_filters_dir (paths_below root)) = {} \<or> dk_cwd dk1 \<noteq> dk_cwd dk"
    by (auto simp: fresh_files_def paths_below_def Let_def file_key_def)
qed

text \<open>How a save runs: the write, the validation, the reload, and the quarantine after a failure of either.\<close>

inductive save_path ::
  "save_env \<Rightarrow> capture_paths \<Rightarrow> string \<Rightarrow> string \<Rightarrow> disk \<Rightarrow> filter_manager \<Rightarrow> save_error + string \<Rightarrow> disk \<Rightarrow> filter_manager \<Rightarrow> bool"
  for E cp name source dk m where
  not_written: "write_generated_filter (sv_os E) (sv_lower E) (sv_now E) cp name source dk = Some (Inl e, dk1)
    \<Longrightarrow> save_path E cp name source dk m (Inl (WriteGenerated name e)) dk1 m"
| invalid: "write_generated_filter (sv_os E) (sv_lower E) (sv_now E) cp name source dk = Some (Inr path, dk1)
    \<Longrightarrow> validate_filter_file (sv_toml E) (compile_on (sv_compiler E) (sv_os E) dk1) (view (sv_os E) True dk1) path m = Some (Inl err, m1)
    \<Longrightarrow> quarantine_generated_filter (sv_os E) cp path dk1 = Some (q, dk2)
    \<Longrightarrow> save_path E cp name source dk m (Inl (ValidationFailed err q)) dk2 m1"
| not_reloaded: "write_generated_filter (sv_os E) (sv_lower E) (sv_now E) cp name source dk = Some (Inr path, dk1)
    \<Longrightarrow> validate_filter_file (sv_toml E) (compile_on (sv_compiler E) (sv_os E) dk1) (view (sv_os E) True dk1) path m = Some (Inr u, m1)
    \<Longrightarrow> reload_on (sv_toml E) (sv_compiler E) (sv_os E) dk1 m1 = Some (Inl err, dk2, m2)
    \<Longrightarrow> quarantine_generated_filter (sv_os E) cp path dk2 = Some (q, dk3)
    \<Longrightarrow> save_path E cp name source dk m (Inl (ReloadFailed err q)) dk3 m2"
| saved: "write_generated_filter (sv_os E) (sv_lower E) (sv_now E) cp name source dk = Some (Inr path, dk1)
    \<Longrightarrow> validate_filter_file (sv_toml E) (compile_on (sv_compiler E) (sv_os E) dk1) (view (sv_os E) True dk1) path m = Some (Inr u, m1)
    \<Longrightarrow> reload_on (sv_toml E) (sv_compiler E) (sv_os E) dk1 m1 = Some (Inr u', dk2, m2)
    \<Longrightarrow> save_path E cp name source dk m (Inr path) dk2 m2"

lemma save_runs:
  assumes "save_generated_roto_source_and_reload E cp name source dk m = Some (result, dk', m')"
  shows "save_path E cp name source dk m result dk' m'"
proof -
  let ?written = "write_generated_filter (sv_os E) (sv_lower E) (sv_now E) cp name source dk"
  obtain w dk1 where w: "?written = Some (w, dk1)"
    using assms by (cases ?written) (auto simp: save_generated_roto_source_and_reload_def)
  show ?thesis
  proof (cases w)
    case (Inl e)
    with w assms show ?thesis by (auto simp: save_generated_roto_source_and_reload_def intro: save_path.not_written)
  next
    case (Inr path)
    let ?valid = "validate_filter_file (sv_toml E) (compile_on (sv_compiler E) (sv_os E) dk1) (view (sv_os E) True dk1) path m"
    obtain v m1 where v: "?valid = Some (v, m1)"
      using assms w Inr by (cases ?valid) (auto simp: save_generated_roto_source_and_reload_def)
    note sofar = w [unfolded Inr] v
    show ?thesis
    proof (cases v)
      case (Inl err)
      with assms sofar show ?thesis
        by (auto simp: save_generated_roto_source_and_reload_def intro: save_path.invalid)
    next
      case ok: (Inr u)
      let ?load = "reload_on (sv_toml E) (sv_compiler E) (sv_os E) dk1 m1"
      obtain l dk2 m2 where "?load = Some (l, dk2, m2)"
        using assms sofar ok by (cases ?load) (auto simp: save_generated_roto_source_and_reload_def)
      with assms sofar ok show ?thesis
        by (cases l)
          (auto simp: save_generated_roto_source_and_reload_def intro: save_path.not_reloaded save_path.saved)
    qed
  qed
qed

lemma validate_frame:
  "validate_filter_file toml compile fs path m = Some (r, m1) \<Longrightarrow> m1 = m\<lparr>fmg_events := fmg_events m1\<rparr>"
  by (auto simp: validate_filter_file_def Let_def dest: load_filter_frame)

lemma reload_on_cases:
  assumes "reload_on toml compiler F dk m = Some (r, dk', m')"
  obtains c where "create_dir_all F (fmg_quarantine_dir m) dk = (c, dk')"
    "reload toml (compile_on compiler F dk') (view F (c = Inr ()) dk') m = Some (r, m')"
  using assms by (auto simp: reload_on_def split: prod.splits)

text \<open>What becomes of the file of a filter that failed.\<close>

definition set_aside :: "capture_paths \<Rightarrow> string \<Rightarrow> disk \<Rightarrow> disk \<Rightarrow> io_error + string \<Rightarrow> bool" where
  "set_aside cp source dk dk' q \<longleftrightarrow> (case q of
     Inr d \<Rightarrow> file_key dk d \<in> fresh_files dk (cp_quarantine_filters_dir cp) \<and> hm_get (dk_files dk') (file_key dk d) = Some source
       \<and> (\<forall>k \<in> fresh_files dk (cp_generated_filters_dir cp). \<not> is_file dk' k)
   | Inl e \<Rightarrow> \<exists>k \<in> fresh_files dk (cp_generated_filters_dir cp). hm_get (dk_files dk') k = Some source)"

lemma failed_is_set_aside:
  assumes "write_generated_filter F W now cp name source dk = Some (Inr path, dk1)" and "only_at {} dk1 dk2"
    and "quarantine_generated_filter F cp path dk2 = Some (q, dk3)"
    and "cp = paths_below root" and "root \<noteq> []" and "dk_cwd dk \<noteq> []"
  shows "only_at (fresh_files dk (cp_generated_filters_dir cp) \<union> fresh_files dk (cp_quarantine_filters_dir cp)) dk dk3"
    and "set_aside cp source dk dk3 q"
proof -
  let ?g = "cp_generated_filters_dir cp" and ?q = "cp_quarantine_filters_dir cp"
  note dirs = paths_below_dirs [OF assms(5,6), folded assms(4)]
  obtain n where n: "roto_name n" "path = path_join ?g n" "file_key dk path \<in> fresh_files dk ?g"
      "only_at {file_key dk path} dk dk1" "hm_get (dk_files dk1) (file_key dk path) = Some source"
    using write_generated_result(2) [OF assms(1) dirs(1) assms(6)] by blast
  have only: "only_at {file_key dk path} dk dk2" using only_at_trans [OF n(4) only_at_mono [OF assms(2)]] by simp
  have key: "file_key dk2 = file_key dk" "dk_cwd dk2 = dk_cwd dk" using only_at_key [OF only] only by (auto simp: only_at_def)
  have "fresh_files dk2 ?q \<subseteq> fresh_files dk ?q"
    by (rule fresh_files_later [OF only]) (use n(3) in \<open>auto simp: fresh_files_def\<close>)
  moreover have "hm_get (dk_files dk2) (file_key dk2 path) = Some source"
    using n(5) only_at_file [OF assms(2)] key by simp
  note quarantined = quarantine_generated_result [OF assms(3) dirs(2) _ n(2,1) dirs(1) this, unfolded key, OF assms(6)]
  ultimately have both: "only_at (fresh_files dk ?g \<union> fresh_files dk ?q) dk2 dk3"
    using n(3) by (auto intro: only_at_mono [OF quarantined(1)])
  with only n(3) show "only_at (fresh_files dk ?g \<union> fresh_files dk ?q) dk dk3"
    by (auto intro: only_at_trans only_at_mono)
  have gone: "\<not> is_file dk3 k" if "k \<in> fresh_files dk ?g" "q = Inr d" for k d
  proof (cases "k = file_key dk path")
    case True
    with quarantined(2) that(2) show ?thesis by (simp add: is_file_def)
  next
    case False
    moreover have "k \<notin> fresh_files dk2 ?q" using dirs(3) [of dk2] key(2) that(1) by auto
    ultimately have "hm_get (dk_files dk3) k = hm_get (dk_files dk) k"
      using only_at_file [OF quarantined(1)] only_at_file [OF only] by simp
    with that(1) show ?thesis by (auto simp: is_file_def fresh_files_def)
  qed
  with quarantined n(3) \<open>fresh_files dk2 ?q \<subseteq> fresh_files dk ?q\<close> show "set_aside cp source dk dk3 q"
    unfolding set_aside_def by (cases q) auto
qed

text \<open>C19: Saving a generated filter either puts it into service or leaves everything else as it was. No
  existing file is changed on any path. On success the new file holds the whole source. If the filter
  fails its validation, or the filters cannot be reloaded, the filters in service stay the ones they
  were and the new file is moved to a fresh name in the quarantine of the capture, so that no new
  file is left among the generated filters; if even that fails, the file stays where it was
  written.\<close>

theorem failed_save_is_quarantined:
  assumes "save_generated_roto_source_and_reload E cp name source dk m = Some (result, dk', m')"
    and "cp = paths_below root" and "root \<noteq> []" and "dk_cwd dk \<noteq> []"
  shows "only_at (fresh_files dk (cp_generated_filters_dir cp) \<union> fresh_files dk (cp_quarantine_filters_dir cp)) dk dk'
    \<and> (case result of
         Inr path \<Rightarrow> file_key dk path \<in> fresh_files dk (cp_generated_filters_dir cp)
           \<and> hm_get (dk_files dk') (file_key dk path) = Some source
       | Inl (WriteGenerated _ _) \<Rightarrow> m' = m
       | Inl (ValidationFailed _ q) \<Rightarrow> fmg_current m' = fmg_current m \<and> set_aside cp source dk dk' q
       | Inl (ReloadFailed _ q) \<Rightarrow> fmg_current m' = fmg_current m \<and> set_aside cp source dk dk' q)"
  using save_runs [OF assms(1)]
proof cases
  note dirs = paths_below_dirs [OF assms(3,4), folded assms(2)]
  case (not_written e)
  with write_generated_result(1) [OF not_written(3) dirs(1) assms(4)] show ?thesis by (auto intro: only_at_mono)
next
  case (invalid path dk1 err q)
  then show ?thesis
    using failed_is_set_aside [OF invalid(2) only_at_refl invalid(4) assms(2-4)] events_frame(1) [OF validate_frame [OF invalid(3)]]
    by simp
next
  case (not_reloaded path dk1 u m1 err dk2 q)
  from not_reloaded(4) obtain c where c: "create_dir_all (sv_os E) (fmg_quarantine_dir m1) dk1 = (c, dk2)"
    and r: "reload (sv_toml E) (compile_on (sv_compiler E) (sv_os E) dk2) (view (sv_os E) (c = Inr ()) dk2) m1 = Some (Inl err, m')"
    by (rule reload_on_cases)
  then show ?thesis
    using failed_is_set_aside [OF not_reloaded(2) create_dir_all_only [OF c] not_reloaded(5) assms(2-4)]
      events_frame(1) [OF validate_frame [OF not_reloaded(3)]] reload_failed [OF r] not_reloaded(1)
    by simp
next
  note dirs = paths_below_dirs [OF assms(3,4), folded assms(2)]
  case (saved path dk1 u m1 u')
  from saved(4) obtain c where c: "create_dir_all (sv_os E) (fmg_quarantine_dir m1) dk1 = (c, dk')"
    by (rule reload_on_cases)
  note grow = create_dir_all_only [OF c] and written = write_generated_result(2) [OF saved(2) dirs(1) assms(4) refl]
  have "only_at (fresh_files dk (cp_generated_filters_dir cp) \<union> fresh_files dk (cp_quarantine_filters_dir cp)) dk dk'"
    using only_at_trans [OF write_generated_result(1) [OF saved(2) dirs(1) assms(4)] only_at_mono [OF grow]]
    by (auto intro: only_at_mono)
  with written only_at_file [OF grow] saved(1) show ?thesis by auto
qed

section \<open>A saved filter is in service\<close>

lemma view_simps [simp]:
  "fs_cwd (view F c dk) = dk_cwd dk" "fs_create_dir_all (view F c dk) d = c"
  "fs_exists (view F c dk) p \<longleftrightarrow> is_dir dk (file_key dk p) \<or> is_file dk (file_key dk p)"
  "fs_is_file (view F c dk) p \<longleftrightarrow> is_file dk (file_key dk p)"
  by (simp_all add: view_def)

lemma absolute_path_view [simp]: "absolute_path (view F c dk) path = absolute (dk_cwd dk) path"
  by (simp add: absolute_path_def absolute_def)

lemma absolute_again: "cwd \<noteq> [] \<Longrightarrow> starts_with cwd ''/'' \<Longrightarrow> absolute cwd (absolute cwd p) = absolute cwd p"
  by (cases cwd) (auto simp: absolute_def path_join_def)

lemma read_view_same:
  "only_at {} dk dk' \<Longrightarrow> fs_read_to_string (view F c dk') = fs_read_to_string (view F c' dk)"
  by (auto simp: view_def Let_def only_at_file only_at_key fun_eq_iff)

lemma load_filter_same:
  assumes "fs_read_to_string fs' = fs_read_to_string fs" and "compile' path = compile path"
  shows "load_filter toml compile' fs' path kind m = load_filter toml compile fs path kind m"
proof -
  have "compile_filter_definition compile' (definition_of kind path source md script) p
      = compile_filter_definition compile (definition_of kind path source md script) p" for source md script p
    using assms(2) by (simp add: compile_filter_definition_def compile_roto_filter_file_def definition_of_def)
  note compiled_same = this
  show ?thesis unfolding load_filter_def Let_def assms(1) compiled_same ..
qed

lemma load_filter_source:
  assumes "load_filter toml compile fs path kind m = Some (Inr r, m1)"
    and "fs_read_to_string fs path = Some source" and "parse_filter_source toml source = Some (Inr (md, script))" and "fm_enabled md"
  shows "\<exists>g. r = Some g \<and> cf_definition g = definition_of kind path source md script"
  using assms
  by (auto simp: load_filter_def Let_def compile_filter_definition_def metadata_only_def compiled_def
      split: if_splits sum.splits)

lemma roto_extension: "roto_name n \<Longrightarrow> dir \<noteq> [] \<Longrightarrow> path_extension (path_join dir n) = Some ''roto''"
  using path_file_name_join [OF roto_name_facts(1)]
  by (auto simp: path_extension_def rsplit_file_at_dot_def roto_name_def split_rev_roto [simplified])

lemma not_below_quarantine:
  assumes "\<not> path_starts_with dir filters" and "plain_name n" and "dir \<noteq> []" and "filters \<noteq> []"
  shows "\<not> path_starts_with (path_join dir n) (path_join filters ''quarantine'')"
proof -
  have "plain_name ''quarantine''" by (simp add: plain_name_def)
  then have "path_components (path_join filters ''quarantine'') = path_components filters @ [Normal ''quarantine'']"
    and "path_components (path_join dir n) = path_components dir @ [Normal n]"
    using assms by (simp_all add: path_components_join plain_name_def)
  with assms(1) show ?thesis by (auto simp: path_starts_with_def starts_with_iff append_eq_append_conv2 Cons_eq_append_conv)
qed

text \<open>A manager set up as the program sets up each of its managers: the directory of generated filters is
  one of its directories, and does not lie in the user's directory, whose subdirectory is the
  quarantine. There are two: \<open>main.rs\<close> makes the one that serves flows, and the editor pane makes
  one of its own for each save (\<open>src/src/tui/editor_pane.rs\<close>).\<close>

definition manager_for :: "disk \<Rightarrow> capture_paths \<Rightarrow> filter_manager \<Rightarrow> bool" where
  "manager_for dk cp m \<longleftrightarrow> fmg_filters_dir m \<noteq> []
     \<and> fmg_quarantine_dir m = path_join (fmg_filters_dir m) ''quarantine''
     \<and> absolute (dk_cwd dk) (cp_generated_filters_dir cp) \<in> set (fmg_filter_dirs m)
     \<and> \<not> path_starts_with (absolute (dk_cwd dk) (cp_generated_filters_dir cp)) (fmg_filters_dir m)"

lemma manager_for_events [simp]: "manager_for dk cp (m\<lparr>fmg_events := evs\<rparr>) = manager_for dk cp m"
  by (simp add: manager_for_def)

lemma reload_takes_file:
  assumes "reload_on toml compiler F dk m = Some (Inr u, dk', m')" and "manager_for dk cp m"
    and "roto_name n" and "cp_generated_filters_dir cp \<noteq> []" and "dk_cwd dk \<noteq> []" and "starts_with (dk_cwd dk) ''/''"
    and "is_dir dk (file_key dk (cp_generated_filters_dir cp))"
    and "is_file dk (file_key dk (path_join (cp_generated_filters_dir cp) n))"
    and "load_filter toml (compile_on compiler F dk) (view F True dk)
      (absolute (dk_cwd dk) (path_join (cp_generated_filters_dir cp) n)) Generated m0 = Some (Inr (Some g), m1)"
  shows "g \<in> set (fmg_current m')"
proof -
  let ?g = "cp_generated_filters_dir cp"
  let ?dir = "absolute (dk_cwd dk) ?g"
  obtain c where c: "create_dir_all F (fmg_quarantine_dir m) dk = (c, dk')"
    and r: "reload toml (compile_on compiler F dk') (view F (c = Inr ()) dk') m = Some (Inr u, m')"
    using assms(1) by (rule reload_on_cases)
  note grow = create_dir_all_only [OF c] and plain = roto_name_facts(1) [OF assms(3)]
  have key: "file_key dk' = file_key dk" "dk_cwd dk' = dk_cwd dk" using only_at_key [OF grow] grow by (auto simp: only_at_def)
  have join: "absolute (dk_cwd dk) (path_join ?g n) = path_join ?dir n" "?dir \<noteq> []"
    using absolute_join [OF plain assms(4,5)] by simp_all
  have same_key: "file_key dk ?dir = file_key dk ?g" "file_key dk (path_join ?dir n) = file_key dk (path_join ?g n)"
    using absolute_again [OF assms(5,6)] join by (simp_all add: file_key_def flip: join(1))
  let ?fs = "view F (c = Inr ()) dk'"
  have exists: "fs_exists ?fs ?dir" using assms(7) only_at_dir [OF grow] key same_key by simp
  obtain filters names m2 where "load_dirs toml (compile_on compiler F dk') ?fs (fmg_filter_dirs m) ([], []) m = Some (Inr (filters, names), m2)"
    using r by (rule reload_loaded)
  then obtain paths where paths: "fs_read_dir ?fs ?dir = Some paths"
    using load_dirs_readable exists assms(2) unfolding manager_for_def by blast
  have there: "is_file dk' (file_key dk' (path_join ?dir n))"
    using assms(8) only_at_file [OF grow] key same_key by (simp add: is_file_def)
  then have "path_join ?dir n \<in> set paths"
    using paths existing_in_iff [OF plain join(2)] assms(5) key by (auto simp: view_def Let_def split: if_splits)
  moreover have "from_utf8 ''roto'' = Some ''roto''" by code_simp
  then have "loadable ?fs m (path_join ?dir n)"
    using not_below_quarantine [OF _ plain join(2)] assms(2) there roto_extension [OF assms(3) join(2)]
    by (auto simp: loadable_def is_quarantined_path_def is_roto_file_def manager_for_def eq_ignore_ascii_case_def)
  moreover have "dir_kind m ?dir = Generated"
    using assms(2) by (auto simp: dir_kind_def manager_for_def path_starts_with_def starts_with_iff)
  moreover have "loads toml (compile_on compiler F dk') ?fs m (path_join ?dir n) Generated g"
  proof -
    have "load_filter toml (compile_on compiler F dk') ?fs (path_join ?dir n) Generated m0 = Some (Inr (Some g), m1)"
      using assms(9) load_filter_same [OF read_view_same [OF grow]] read_view_same [OF grow]
      by (metis compile_on_def join(1))
    then show ?thesis using loads_any by blast
  qed
  moreover have "?dir \<in> set (fmg_filter_dirs m)" using assms(2) by (simp add: manager_for_def)
  ultimately show ?thesis
    unfolding reload_filters(1) [OF r] mem_Collect_eq using exists paths by metis
qed

lemma validated_generated:
  assumes "validate_filter_file toml compile (view F c dk) (path_join (cp_generated_filters_dir cp) n) m = Some (Inr u, m1)"
    and "manager_for dk cp m" and "plain_name n" and "cp_generated_filters_dir cp \<noteq> []" and "dk_cwd dk \<noteq> []"
  obtains r where "load_filter toml compile (view F c dk) (absolute (dk_cwd dk) (path_join (cp_generated_filters_dir cp) n))
    Generated m = Some (Inr r, m1)"
proof -
  let ?dir = "absolute (dk_cwd dk) (cp_generated_filters_dir cp)"
  have join: "absolute (dk_cwd dk) (path_join (cp_generated_filters_dir cp) n) = path_join ?dir n" "?dir \<noteq> []"
    using absolute_join [OF assms(3-5)] by simp_all
  then have "path_starts_with (path_join ?dir n) ?dir"
    using assms(3) by (simp add: path_starts_with_def path_components_join plain_name_def starts_with_append)
  moreover have "path_components ?dir \<noteq> path_components (fmg_filters_dir m)"
    using assms(2) by (auto simp: manager_for_def path_starts_with_def starts_with_iff)
  ultimately have "list_ex (\<lambda>dir. path_components dir \<noteq> path_components (fmg_filters_dir m)
      \<and> path_starts_with (path_join ?dir n) dir) (fmg_filter_dirs m)"
    using assms(2) by (auto simp: manager_for_def list_ex_iff)
  with assms(1) join(1) obtain a where a: "load_filter toml compile (view F c dk) (path_join ?dir n) Generated m = Some (a, m1)"
    and "(case a of Inl err \<Rightarrow> Inl err | Inr _ \<Rightarrow> Inr ()) = Inr u"
    by (auto simp: validate_filter_file_def Let_def)
  with that join(1) show ?thesis by (cases a) auto
qed

text \<open>C18: A filter whose saving succeeded is among the current filters of the manager that the save was
  given when it returns: as a generated filter loaded from the new file, with the source that was
  generated and with the metadata that the TOML reader gives for the generated front matter. The
  editor pane saves with a manager of its own; the one that serves flows takes the file up after its
  next pause, which is C21. This is the way from
  the generator through the disk, the validation and the reload as a whole, and holds whatever other
  filters there are and whatever the operating system refuses on the way.\<close>

theorem saved_filter_in_service:
  assumes "save_generated_filter_and_reload J E cp f dk m = Some (Inr path, dk', m')"
    and "cp = paths_below root" and "root \<noteq> []" and "starts_with (dk_cwd dk) ''/''" and "manager_for dk cp m"
    and "\<forall>md. sv_toml E (unlines (generated_toml_lines f)) = Some md \<longrightarrow> fm_enabled md"
  shows "\<exists>g \<in> set (fmg_current m'). fd_path (cf_definition g) = absolute (dk_cwd dk) path
    \<and> fd_source (cf_definition g) = to_roto_source J f \<and> fd_source_kind (cf_definition g) = Generated
    \<and> sv_toml E (unlines (generated_toml_lines f)) = Some (fd_metadata (cf_definition g))"
proof -
  let ?g = "cp_generated_filters_dir cp" and ?source = "to_roto_source J f"
  have cwd: "dk_cwd dk \<noteq> []" using assms(4) by auto
  note dirs = paths_below_dirs [OF assms(3) cwd, folded assms(2)]
  have "save_path E cp (gf_name f) ?source dk m (Inr path) dk' m'"
    using assms(1) by (intro save_runs) (simp add: save_generated_filter_and_reload_def)
  then obtain dk1 u m1 u' where w: "write_generated_filter (sv_os E) (sv_lower E) (sv_now E) cp (gf_name f) ?source dk = Some (Inr path, dk1)"
    and v: "validate_filter_file (sv_toml E) (compile_on (sv_compiler E) (sv_os E) dk1) (view (sv_os E) True dk1) path m = Some (Inr u, m1)"
    and r: "reload_on (sv_toml E) (sv_compiler E) (sv_os E) dk1 m1 = Some (Inr u', dk', m')"
    by (auto elim: save_path.cases)
  obtain n where n: "roto_name n" "path = path_join ?g n" "is_dir dk1 (file_key dk ?g)" "only_at {file_key dk path} dk dk1"
      "hm_get (dk_files dk1) (file_key dk path) = Some ?source"
    using write_generated_result(2) [OF w dirs(1) cwd refl] by blast
  have key: "file_key dk1 = file_key dk" "dk_cwd dk1 = dk_cwd dk" using only_at_key [OF n(4)] n(4) by (auto simp: only_at_def)
  have m: "manager_for dk1 cp m" "manager_for dk1 cp m1"
    using assms(5) key(2) validate_frame [OF v] manager_for_events by (metis manager_for_def)+
  let ?abs = "absolute (dk_cwd dk1) (path_join ?g n)" and ?fs = "view (sv_os E) True dk1"
  obtain l where l: "load_filter (sv_toml E) (compile_on (sv_compiler E) (sv_os E) dk1) ?fs ?abs Generated m = Some (Inr l, m1)"
    using validated_generated [OF v [unfolded n(2)] m(1) roto_name_facts(1) [OF n(1)] dirs(1)] cwd key(2) by metis
  have abs_key: "file_key dk1 ?abs = file_key dk path"
    using absolute_again [OF cwd assms(4)] n(2) key by (simp add: file_key_def)
  with n(5) l have source: "fs_read_to_string ?fs ?abs = Some ?source"
    by (cases "fs_read_to_string ?fs ?abs")
      (auto simp: view_def Let_def from_utf8_def load_filter_def split: if_splits)
  obtain md where md: "sv_toml E (unlines (generated_toml_lines f)) = Some md"
    and parse: "parse_filter_source (sv_toml E) ?source = Some (Inr (md, unlines (str_lines (generated_script J f))))"
    using parse_front_lines [OF generated_front_lines [of f], of "sv_toml E" "generated_script J f"] l source
    by (cases "sv_toml E (unlines (generated_toml_lines f))")
      (simp_all add: to_roto_source_def write_front_matter_def load_filter_def Let_def)
  obtain g where g: "l = Some g" "cf_definition g = definition_of Generated ?abs ?source md (unlines (str_lines (generated_script J f)))"
    using load_filter_source [OF l source parse] assms(6) md by blast
  have "g \<in> set (fmg_current m')"
    using reload_takes_file [OF r m(2) n(1) dirs(1)] cwd assms(4) key n l [unfolded g(1)] by (simp add: is_file_def)
  moreover have "fd_path (cf_definition g) = absolute (dk_cwd dk) path \<and> fd_source (cf_definition g) = ?source
      \<and> fd_source_kind (cf_definition g) = Generated \<and> fd_metadata (cf_definition g) = md"
    unfolding g(2) n(2) key(2) by (simp add: definition_of_def)
  ultimately show ?thesis using md by blast
qed

section \<open>Moving any filter file into the quarantine\<close>

lemma file_name_plain: "path_file_name path = Some n \<Longrightarrow> plain_name n"
proof -
  assume "path_file_name path = Some n"
  then have "Normal n \<in> set (path_components path)"
    by (auto simp: path_file_name_def split: if_splits path_component.splits dest: last_in_set)
  then obtain w where "w \<in> set (split_char (CHR ''/'') path)" "Normal n \<in> set (named_component w)"
    by (auto simp: path_components_def Let_def split: if_splits)
  then show ?thesis
    using split_char_parts [of w "CHR ''/''" path] by (auto simp: plain_name_def split: if_splits)
qed

lemma rsplit_parts: "rsplit_file_at_dot n = (a, b) \<Longrightarrow> a = Some s \<or> b = Some s \<Longrightarrow> set s \<subseteq> set n"
  using split_once_Some [of "CHR ''.''" "rev n"]
  by (auto simp: rsplit_file_at_dot_def split: option.splits prod.splits if_splits) (metis Un_iff set_append set_rev list.set_intros(2))+

lemma quarantine_name_plain:
  assumes "unique_quarantine_path existing dir name = Some p" and "plain_name name"
  obtains n where "plain_name n" "p = path_join dir n" "p \<notin> set existing"
proof -
  have fresh: "p \<notin> set existing"
    using unique_path_found [of "''.quarantine-''" "''filter''" existing dir name] assms(1) by (simp add: unique_quarantine_path_def)
  let ?stem = "case Option.bind (path_file_stem name) from_utf8 of Some s \<Rightarrow> s | None \<Rightarrow> ''filter''"
  let ?ext = "case Option.bind (path_extension name) from_utf8 of Some e \<Rightarrow> e | None \<Rightarrow> ''roto''"
  have "path_file_name name = Some name"
    using assms(2) plain_name_front [OF assms(2)]
    by (auto simp: path_file_name_def path_components_def Let_def plain_name_def split_char_singleton)
  then have part: "set t \<subseteq> set name" if "path_file_stem name = Some t \<or> path_extension name = Some t" for t
    using that rsplit_parts [of name _ _ t]
    by (cases "rsplit_file_at_dot name") (auto simp: path_file_stem_def path_extension_def split: option.splits)
  have "CHR ''/'' \<notin> set name" using assms(2) by (simp add: plain_name_def)
  with part have "CHR ''/'' \<notin> set ?stem" "CHR ''/'' \<notin> set ?ext"
    by (auto simp: from_utf8_def bind_eq_Some_conv split: option.splits if_splits)
  moreover have "CHR ''/'' \<notin> set (show_nat i)" for i
    using show_nat_digits [of i] by (auto simp: list_all_iff is_ascii_digit_def)
  ultimately have later: "plain_name (?stem @ ''.quarantine-'' @ show_nat i @ ''.'' @ ?ext)" for i
    by (auto simp: plain_name_def append_eq_Cons_conv)
  show ?thesis
    using assms(1) that fresh later assms(2)
    by (auto simp: unique_quarantine_path_def unique_path_def Let_def simp del: free_path.simps
        split: if_splits dest!: free_path_form)
qed

text \<open>Quarantining a filter file loses nothing: all other files stay, the file is found under a new name in
  the quarantine, from where it is never loaded, or it is still in its place if the move failed.\<close>

lemma quarantined_filter_kept:
  assumes "quarantine_filter_file F m path dk = Some (r, dk')"
    and "hm_get (dk_files dk) (file_key dk path) = Some content"
    and "fmg_quarantine_dir m \<noteq> []" and "dk_cwd dk \<noteq> []"
  shows "(\<forall>k. is_file dk k \<longrightarrow> k \<noteq> file_key dk path \<longrightarrow> hm_get (dk_files dk') k = hm_get (dk_files dk) k)
    \<and> (case r of
         Inr d \<Rightarrow> hm_get (dk_files dk') (file_key dk path) = None \<and> hm_get (dk_files dk') (file_key dk d) = Some content
           \<and> is_quarantined_path m d \<and> \<not> is_file dk (file_key dk d)
       | Inl _ \<Rightarrow> hm_get (dk_files dk') (file_key dk path) = Some content)"
proof -
  let ?q = "fmg_quarantine_dir m" and ?k = "file_key dk path"
  obtain c dk1 where c: "create_dir_all F ?q dk = (c, dk1)" by fastforce
  note grow = create_dir_all_only [OF c]
  have same: "hm_get (dk_files dk1) = hm_get (dk_files dk)" "dk_cwd dk1 = dk_cwd dk" "file_key dk1 = file_key dk"
    using only_at_key [OF grow] grow by (auto simp: only_at_def)
  show ?thesis
  proof (cases "\<exists>u n. c = Inr u \<and> path_file_name path = Some n")
    case False
    then have "dk' = dk1" "\<exists>e. r = Inl e"
      using assms(1) c by (auto simp: quarantine_filter_file_def split: sum.splits option.splits)
    with same(1) assms(2) show ?thesis by auto
  next
    case True
    then obtain u n where cn: "c = Inr u" "path_file_name path = Some n" by blast
    with assms(1) c obtain p where p: "unique_quarantine_path (existing_in dk1 ?q) ?q n = Some p"
      by (auto simp: quarantine_filter_file_def)
    obtain r1 dk2 where mv: "move_file F (file_key dk1 path) (file_key dk1 p) dk1 = (r1, dk2)" by fastforce
    with assms(1) c cn p have r: "dk2 = dk'" "r = map_sum (MoveQuarantined path p) (\<lambda>_. p) r1"
      by (cases r1; simp add: quarantine_filter_file_def)+
    obtain n' where n': "plain_name n'" "p = path_join ?q n'" "p \<notin> set (existing_in dk1 ?q)"
      using quarantine_name_plain [OF p file_name_plain [OF cn(2)]] .
    have free: "\<not> is_file dk (file_key dk p)"
      using n' existing_in_iff [OF n'(1) assms(3)] assms(4) same by (simp add: is_file_def)
    with assms(2) have "?k \<noteq> file_key dk p" by (auto simp: is_file_def)
    note moved = move_file_result [OF mv, unfolded same(1,3), OF assms(2) this, unfolded r(1)]
    have "hm_get (dk_files dk') k = hm_get (dk_files dk) k" if "is_file dk k" "k \<noteq> ?k" for k
      using only_at_file [OF moved(1)] that free same(1) by auto
    moreover have "is_quarantined_path m p"
      using n'(1) assms(3) unfolding n'(2) is_quarantined_path_def path_starts_with_def plain_name_def
      by (simp add: path_components_join starts_with_append)
    ultimately show ?thesis using moved free r(2) by (cases r1) auto
  qed
qed

section \<open>The filters follow the disk\<close>

lemma same_snapshot_refl [simp]: "same_snapshot s s"
  by (simp add: same_snapshot_def)

lemma reload_dirs: "reload toml compile fs m = Some (r, m') \<Longrightarrow> fmg_filter_dirs m' = fmg_filter_dirs m"
proof -
  have "fmg_filter_dirs m1 = fmg_filter_dirs m" if "load_dirs toml compile fs dirs acc m = Some (a, m1)" for dirs acc a m1
    using arg_cong [OF load_dirs_frame [OF that], of fmg_filter_dirs] by simp
  then show "reload toml compile fs m = Some (r, m') \<Longrightarrow> ?thesis"
    by (auto simp: reload_def load_filter_set_def prune_filter_statuses_def split: if_splits option.splits sum.splits)
qed

lemma watch_loop_append:
  "watch_loop toml es s m = Some (s', m') \<Longrightarrow> Shutdown \<notin> set es \<Longrightarrow>
   watch_loop toml (es @ es') s m = watch_loop toml es' s' m'"
proof (induction es arbitrary: s m)
  case (Cons e es)
  then show ?case by (cases e) (auto split: option.splits if_splits)
qed simp

lemma watch_loop_settled:
  "snapshot d m = Some s' \<Longrightarrow> same_snapshot s' s \<Longrightarrow> watch_loop toml (replicate n (Pause d d)) s m = Some (s, m)"
  by (induction n) simp_all

text \<open>C21: The loop that watches the filter directories brings the filters in service up to date with the
  disk. However the disk changed before, if it stays still from some moment on, can be read and its
  snapshot is not the one the loop saw last, then after the next pause the filters in service are
  the ones a reload of that disk gives, and they stay so however many pauses follow; if the snapshot
  is the last one, nothing is loaded, also when the filters in service came from other files.\<close>

theorem reload_follows_disk:
  assumes "watch_loop toml es s0 m0 = Some (s, m)" and "Shutdown \<notin> set es"
    and "snapshot d m = Some s'" and "reload toml (dm_compile d) (dm_fs d) m = Some (r, m')"
  shows "watch_loop toml (es @ replicate (Suc n) (Pause d d)) s0 m0 = Some (if same_snapshot s' s then (s, m) else (s', m'))"
proof -
  have "snapshot d m' = Some s'" using assms(3) reload_dirs [OF assms(4)] by (simp add: snapshot_def)
  then show ?thesis
    unfolding watch_loop_append [OF assms(1,2)] using assms(3,4) by (auto simp: watch_loop_settled)
qed

text \<open>A directory whose only filter was removed.\<close>

definition emptied :: disk_moment where
  "emptied = \<lparr>dm_fs = one_file_fs\<lparr>fs_read_dir := \<lambda>_. Some []\<rparr>, dm_metadata = \<lambda>_. None, dm_compile = no_compiler\<rparr>"

definition one_filter_manager :: filter_manager where
  "one_filter_manager = (new_manager one_file_fs ''f'')\<lparr>fmg_current :=
     [metadata_only (definition_of Persistent ''/w/f/010-a.roto'' ''// note'' default_metadata ''// note'') 10]\<rparr>"

theorem reload_follows_disk_witness:
  "\<exists>m'. watch_loop no_toml (replicate 2 (Pause emptied emptied)) [\<lparr>fse_path = ''/w/f/010-a.roto'', fse_len = 7, fse_modified = None\<rparr>]
      one_filter_manager = Some ([], m') \<and> fmg_current m' = []"
proof -
  let ?s = "[\<lparr>fse_path = ''/w/f/010-a.roto'', fse_len = 7, fse_modified = None\<rparr>]"
  have dirs: "fmg_filter_dirs one_filter_manager = [''/w/f'']" "fmg_quarantine_dir one_filter_manager = ''/w/f/quarantine''"
    "\<not> fmg_has_sender one_filter_manager"
    by (simp_all add: one_filter_manager_def) code_simp+
  then obtain m' where r: "reload no_toml (dm_compile emptied) (dm_fs emptied) one_filter_manager = Some (Inr (), m')"
    and "fmg_current m' = []"
    by (simp add: reload_def load_filter_set_def emptied_def one_file_fs_def prune_filter_statuses_def new_filter_set_def)
  moreover have "snapshot emptied one_filter_manager = Some []"
    by (simp add: snapshot_def dirs read_many_def snapshot_read_def emptied_def one_file_fs_def sort_entries_def)
  moreover have "\<not> same_snapshot [] ?s" by (simp add: same_snapshot_def)
  ultimately show ?thesis
    using reload_follows_disk [of no_toml "[]" ?s one_filter_manager ?s one_filter_manager emptied "[]" "Inr ()" m' 1]
    by (simp add: numeral_2_eq_2)
qed

section \<open>Examples of saving\<close>

definition empty_disk :: disk where
  "empty_disk = \<lparr>dk_cwd = ''/w'', dk_dirs = [[RootDir], [RootDir, Normal ''w'']], dk_files = []\<rparr>"

definition saving_env :: "bool \<Rightarrow> save_env" where
  "saving_env compiles = \<lparr>sv_os = no_faults, sv_lower = \<lambda>c. [c], sv_now = 0, sv_toml = \<lambda>_. Some default_metadata,
     sv_compiler = \<lambda>_ _. Inr (empty_package (Some compiles))\<rparr>"

definition saving_manager :: filter_manager where
  "saving_manager = with_filter_dir (view no_faults True empty_disk) (new_manager (view no_faults True empty_disk) ''./filters'')
     (cp_generated_filters_dir (paths_below ''c''))"

definition saved_filter :: generated_filter where
  "saved_filter = (request_path_contains ''../My Filter'' ''/a'' ''m'')\<lparr>gf_priority := 5\<rparr>"

definition saved_disk :: "string \<Rightarrow> bool \<Rightarrow> disk" where
  "saved_disk source reloaded = \<lparr>dk_cwd = ''/w'',
     dk_dirs = [[RootDir], [RootDir, Normal ''w''], [RootDir, Normal ''w'', Normal ''c''],
       [RootDir, Normal ''w'', Normal ''c'', Normal ''filters''],
       [RootDir, Normal ''w'', Normal ''c'', Normal ''filters'', Normal ''generated'']]
       @ (if reloaded then [[RootDir, Normal ''w'', Normal ''filters''], [RootDir, Normal ''w'', Normal ''filters'', Normal ''quarantine'']] else []),
     dk_files = [([RootDir, Normal ''w'', Normal ''c'', Normal ''filters'', Normal ''generated'', Normal ''my-filter.roto''], source)]\<rparr>"

lemma saving_steps:
  "write_generated_filter no_faults (\<lambda>c. [c]) 0 (paths_below ''c'') ''../My Filter'' source empty_disk
     = Some (Inr ''c/filters/generated/my-filter.roto'', saved_disk source False)"
  "create_dir_all no_faults ''/w/./filters/quarantine'' (saved_disk source False) = (Inr (), saved_disk source True)"
  "fs_exists (view no_faults True (saved_disk source True)) ''/w/./filters''"
  "fs_exists (view no_faults True (saved_disk source True)) ''/w/c/filters/generated''"
  "fs_read_dir (view no_faults True (saved_disk source True)) ''/w/./filters'' = Some [''/w/./filters/quarantine'']"
  "fs_read_dir (view no_faults True (saved_disk source True)) ''/w/c/filters/generated'' = Some [''/w/c/filters/generated/my-filter.roto'']"
  "is_roto_file (view no_faults True (saved_disk source True)) ''/w/c/filters/generated/my-filter.roto''"
  by code_simp+

lemma saving_manager_fields:
  "fmg_filters_dir saving_manager = ''/w/./filters''" "fmg_quarantine_dir saving_manager = ''/w/./filters/quarantine''"
  "fmg_filter_dirs saving_manager = [''/w/./filters'', ''/w/c/filters/generated'']" "\<not> fmg_has_sender saving_manager"
  "fmg_current saving_manager = []" "fmg_events saving_manager = []"
  by code_simp+

lemma saving_manager_for: "manager_for empty_disk (paths_below ''c'') saving_manager"
  by code_simp

lemma ascii_digit7: "byte c < 128 \<longleftrightarrow> \<not> digit7 c"
  by (cases c) (simp add: of_char_def)

lemma saved_filter_loads:
  "\<exists>g. load_filter (sv_toml (saving_env True)) (compile_on (sv_compiler (saving_env True)) no_faults
      (saved_disk (to_roto_source compact_json saved_filter) r))
    (view no_faults True (saved_disk (to_roto_source compact_json saved_filter) r)) ''/w/c/filters/generated/my-filter.roto'' kind saving_manager
    = Some (Inr (Some g), saving_manager)"
proof -
  let ?src = "to_roto_source compact_json saved_filter"
  have "list_all (\<lambda>c. \<not> digit7 c) ?src" by code_simp
  then have "utf8_valid ?src" by (intro utf8_ascii) (simp add: list_all_iff ascii_digit7)
  moreover have "file_key (saved_disk source r) ''/w/c/filters/generated/my-filter.roto''
      = [RootDir, Normal ''w'', Normal ''c'', Normal ''filters'', Normal ''generated'', Normal ''my-filter.roto'']" for source
    by (simp add: file_key_def absolute_def saved_disk_def path_components_def)
  ultimately have read: "fs_read_to_string (view no_faults True (saved_disk ?src r)) ''/w/c/filters/generated/my-filter.roto'' = Some ?src"
    by (simp add: view_def Let_def no_faults_def) (simp add: saved_disk_def from_utf8_def)
  have parse: "parse_filter_source (sv_toml (saving_env True)) ?src
      = Some (Inr (default_metadata, unlines (str_lines (generated_script compact_json saved_filter))))"
    using parse_front_lines [OF generated_front_lines [of saved_filter], of "sv_toml (saving_env True)" "generated_script compact_json saved_filter"]
    by (simp add: to_roto_source_def write_front_matter_def saving_env_def)
  have "compile_on (sv_compiler (saving_env True)) no_faults dk path = Inr (empty_package (Some True))"
    "pk_ping (empty_package (Some True)) = Some True" "fm_enabled default_metadata" "fm_id default_metadata = None" for dk path
    by (simp_all add: compile_on_def saving_env_def empty_package_def default_metadata_def)
  then show ?thesis
    using saving_manager_fields(4)
    by (simp add: load_filter_def read parse Let_def compile_filter_definition_def compile_roto_filter_file_def
        record_filter_status_def send_manager_event_def)
qed

text \<open>Saving the sample filter, with a compiler that accepts it.\<close>

lemma sample_save:
  obtains dk' m' where "save_generated_filter_and_reload compact_json (saving_env True) (paths_below ''c'') saved_filter
    empty_disk saving_manager = Some (Inr ''c/filters/generated/my-filter.roto'', dk', m')"
proof -
  let ?src = "to_roto_source compact_json saved_filter" and ?path = "''/w/c/filters/generated/my-filter.roto''"
  let ?toml = "sv_toml (saving_env True)" and ?compiler = "sv_compiler (saving_env True)"
  have env: "sv_os (saving_env True) = no_faults" "sv_lower (saving_env True) = (\<lambda>c. [c])" "sv_now (saving_env True) = 0"
    by (simp_all add: saving_env_def)
  have name: "gf_name saved_filter = ''../My Filter''" by (simp add: saved_filter_def request_path_contains_def marking_filter_def)
  have abs: "absolute (dk_cwd (saved_disk ?src False)) ''c/filters/generated/my-filter.roto'' = ?path" by (simp add: absolute_def saved_disk_def path_join_def ends_with_iff)
  have valid: "validate_filter_file ?toml (compile_on ?compiler no_faults (saved_disk ?src False)) (view no_faults True (saved_disk ?src False))
      ''c/filters/generated/my-filter.roto'' saving_manager = Some (Inr (), saving_manager)"
  proof -
    obtain g where g: "load_filter ?toml (compile_on ?compiler no_faults (saved_disk ?src False)) (view no_faults True (saved_disk ?src False))
        ?path (if list_ex (\<lambda>dir. path_components dir \<noteq> path_components (fmg_filters_dir saving_manager) \<and> path_starts_with ?path dir)
          (fmg_filter_dirs saving_manager) then Generated else Persistent) saving_manager = Some (Inr (Some g), saving_manager)"
      using saved_filter_loads by blast
    show ?thesis unfolding validate_filter_file_def Let_def absolute_path_view abs g by simp
  qed
  have skip: "is_quarantined_path saving_manager ''/w/./filters/quarantine''" "\<not> is_quarantined_path saving_manager ?path"
    by code_simp+
  obtain g where g: "load_filter ?toml (compile_on ?compiler no_faults (saved_disk ?src True)) (view no_faults True (saved_disk ?src True))
        ?path Generated saving_manager = Some (Inr (Some g), saving_manager)"
    using saved_filter_loads by blast
  have kinds: "path_components ''/w/c/filters/generated'' \<noteq> path_components ''/w/./filters''" by code_simp
  obtain m' where "reload ?toml (compile_on ?compiler no_faults (saved_disk ?src True)) (view no_faults True (saved_disk ?src True))
      saving_manager = Some (Inr (), m')"
    using g skip kinds
    by (simp add: reload_def load_filter_set_def saving_manager_fields saving_steps [of ?src] Let_def del: view_simps(3))
  then have "reload_on ?toml ?compiler no_faults (saved_disk ?src False) saving_manager = Some (Inr (), saved_disk ?src True, m')"
    by (simp add: reload_on_def saving_manager_fields saving_steps)
  with valid that show ?thesis
    by (simp add: save_generated_filter_and_reload_def save_generated_roto_source_and_reload_def env name saving_steps)
qed

theorem saved_filter_in_service_witness:
  "\<exists>dk' m'. save_generated_filter_and_reload compact_json (saving_env True) (paths_below ''c'') saved_filter empty_disk saving_manager
       = Some (Inr ''c/filters/generated/my-filter.roto'', dk', m')
     \<and> (\<exists>g \<in> set (fmg_current m'). fd_source (cf_definition g) = to_roto_source compact_json saved_filter)"
proof -
  obtain dk' m' where save: "save_generated_filter_and_reload compact_json (saving_env True) (paths_below ''c'') saved_filter
      empty_disk saving_manager = Some (Inr ''c/filters/generated/my-filter.roto'', dk', m')"
    by (rule sample_save)
  have "starts_with (dk_cwd empty_disk) ''/''" by code_simp
  moreover have "\<forall>md. sv_toml (saving_env True) (unlines (generated_toml_lines saved_filter)) = Some md \<longrightarrow> fm_enabled md"
    by (simp add: saving_env_def default_metadata_def)
  ultimately show ?thesis
    using saved_filter_in_service [OF save refl _ _ saving_manager_for] save by blast
qed

theorem generated_file_stays_inside_witness:
  "\<exists>dk'. write_generated_filter no_faults (\<lambda>c. [c]) 0 (paths_below ''c'') ''../My Filter'' ''x'' empty_disk
       = Some (Inr ''c/filters/generated/my-filter.roto'', dk')
     \<and> only_at (fresh_files empty_disk ''c/filters/generated'') empty_disk dk'"
proof -
  have "cp_generated_filters_dir (paths_below ''c'') = ''c/filters/generated''" "dk_cwd empty_disk \<noteq> []" by code_simp+
  with generated_file_stays_inside [of "paths_below ''c''" empty_disk no_faults "\<lambda>c. [c]" 0 "''../My Filter''" "''x''"]
  show ?thesis by (auto simp: saving_steps intro: only_at_mono)
qed

theorem failed_save_is_quarantined_witness:
  "\<exists>err dk' m'. save_generated_roto_source_and_reload (saving_env True) (paths_below ''c'') ''../My Filter'' ''//! +++'' empty_disk saving_manager
       = Some (Inl (ValidationFailed err (Inr ''c/filters/quarantine/my-filter.roto'')), dk', m')
     \<and> hm_get (dk_files dk') (file_key empty_disk ''c/filters/quarantine/my-filter.roto'') = Some ''//! +++''"
proof -
  let ?src = "''//! +++''"
  have env: "sv_os (saving_env True) = no_faults" "sv_lower (saving_env True) = (\<lambda>c. [c])" "sv_now (saving_env True) = 0"
    by (simp_all add: saving_env_def)
  have parse: "parse_filter_source (sv_toml (saving_env True)) ?src = Some (Inl UnterminatedBlock)" by code_simp
  have read: "fs_read_to_string (view no_faults True (saved_disk ?src False)) ''/w/c/filters/generated/my-filter.roto'' = Some ?src" by code_simp
  have abs: "absolute (dk_cwd (saved_disk ?src False)) ''c/filters/generated/my-filter.roto'' = ''/w/c/filters/generated/my-filter.roto''"
    by (simp add: absolute_def saved_disk_def path_join_def ends_with_iff)
  obtain err m1 where "validate_filter_file (sv_toml (saving_env True)) (compile_on (sv_compiler (saving_env True)) no_faults (saved_disk ?src False))
      (view no_faults True (saved_disk ?src False)) ''c/filters/generated/my-filter.roto'' saving_manager = Some (Inl err, m1)"
    by (simp add: validate_filter_file_def Let_def abs load_filter_def read parse)
  moreover have "map_option fst (quarantine_generated_filter no_faults (paths_below ''c'') ''c/filters/generated/my-filter.roto'' (saved_disk ?src False))
      = Some (Inr ''c/filters/quarantine/my-filter.roto'')"
    by code_simp
  then obtain dk' where "quarantine_generated_filter no_faults (paths_below ''c'') ''c/filters/generated/my-filter.roto'' (saved_disk ?src False)
      = Some (Inr ''c/filters/quarantine/my-filter.roto'', dk')"
    by auto
  ultimately have save: "save_generated_roto_source_and_reload (saving_env True) (paths_below ''c'') ''../My Filter'' ?src empty_disk saving_manager
      = Some (Inl (ValidationFailed err (Inr ''c/filters/quarantine/my-filter.roto'')), dk', m1)"
    by (simp add: save_generated_roto_source_and_reload_def env saving_steps)
  have "dk_cwd empty_disk \<noteq> []" by code_simp
  with failed_save_is_quarantined [OF save refl] save show ?thesis by (simp add: set_aside_def)
qed

end
