(* ===== verification/TextSearch.thy ===== *)
theory TextSearch
  imports Generator
begin

text \<open>
  The full text search over the captured files (\<open>src/src/tui/search.rs\<close>): the query and its matcher, the
  files and how they are read, the previews of the lines that matched, the history of queries, the
  results shown in the popup, and the highlighting of matches in a detail text
  (\<open>highlight_detail_text\<close> of \<open>src/src/tui/mod.rs\<close>). Widgets, layout and key bindings are left out.

  The \<open>regex\<close> crate, the searcher of the \<open>grep\<close> crates and the decompressors are parameters.
\<close>

section \<open>The libraries\<close>

text \<open>A range is a pair of byte offsets. \<open>rx_error\<close> is the error of compiling a pattern.\<close>

type_synonym range = "nat \<times> nat"

record rx_lib =
  rx_error :: "string \<Rightarrow> string option"
  rx_is_match :: "string \<Rightarrow> string \<Rightarrow> bool"
  rx_find :: "string \<Rightarrow> string \<Rightarrow> range option"
  rx_find_iter :: "string \<Rightarrow> string \<Rightarrow> range list"
  rx_escape :: "string \<Rightarrow> string"

text \<open>Matches are reported from the left, without overlap and within the text.\<close>

fun ranges_from :: "nat \<Rightarrow> range list \<Rightarrow> nat \<Rightarrow> bool" where
  "ranges_from lo [] hi \<longleftrightarrow> lo \<le> hi"
| "ranges_from lo ((a, b) # rs) hi \<longleftrightarrow> lo \<le> a \<and> a \<le> b \<and> ranges_from b rs hi"

definition rx_laws :: "rx_lib \<Rightarrow> bool" where
  "rx_laws R \<longleftrightarrow> (\<forall>p s. ranges_from 0 (rx_find_iter R p s) (length s))
     \<and> (\<forall>p s a b. rx_find R p s = Some (a, b) \<longrightarrow> a \<le> b \<and> b \<le> length s)"

datatype compressed_kind = Gzip | Brotli | Zstd | Deflate

text \<open>The searcher gives the lines with a match, each with its number if it has one; \<open>gl_open\<close> is
  the decoder of a file, \<open>None\<close> where it cannot be set up.\<close>

record 'r grep_lib =
  gl_error :: "string \<Rightarrow> string option"
  gl_open :: "compressed_kind \<Rightarrow> bytes \<Rightarrow> 'r option"
  gl_search_reader :: "string \<Rightarrow> 'r \<Rightarrow> (nat option \<times> bytes) list"
  gl_search_bytes :: "string \<Rightarrow> bytes \<Rightarrow> (nat option \<times> bytes) list"

section \<open>The matcher\<close>

datatype full_text_matcher = Plain string string | Regex string

definition parse_full_text :: "rx_lib \<Rightarrow> string \<Rightarrow> full_text_matcher option" where
  "parse_full_text R query0 =
     (let query = trim query0 in
      if query = [] then None
      else (case strip_prefix query ''re:'' of
              Some pattern \<Rightarrow> Some (Regex pattern)
            | None \<Rightarrow> Some (Plain query (rx_escape R query))))"

fun grep_pattern :: "full_text_matcher \<Rightarrow> string" where
  "grep_pattern (Plain _ escaped_pattern) = escaped_pattern"
| "grep_pattern (Regex pattern) = pattern"

fun find_in_line :: "rx_lib \<Rightarrow> full_text_matcher \<Rightarrow> string \<Rightarrow> range option" where
  "find_in_line R (Plain query _) line = map_option (\<lambda>start. (start, start + length query)) (find_sub line query)"
| "find_in_line R (Regex pattern) line = (if rx_error R pattern \<noteq> None then None else rx_find R pattern line)"

text \<open>The loop over the occurrences of a query that is not empty, from \<open>offset\<close> on.\<close>

function find_plain :: "string \<Rightarrow> string \<Rightarrow> nat \<Rightarrow> range list" where
  "find_plain query rest offset =
     (if query = [] then []
      else (case find_sub rest query of
              None \<Rightarrow> []
            | Some pos \<Rightarrow>
                (let start = offset + pos; fin = start + length query in
                 (start, fin) # find_plain query (drop (pos + length query) rest) fin)))"
  by pat_completeness auto
termination
proof (relation "measure (\<lambda>(_, rest, _). length rest)", goal_cases)
  case (2 query rest offset pos)
  then show ?case using find_sub_Some [of rest query pos] by (cases query) auto
qed simp

declare find_plain.simps [simp del]

fun find_all_in_line :: "rx_lib \<Rightarrow> full_text_matcher \<Rightarrow> string \<Rightarrow> range list" where
  "find_all_in_line R (Plain query _) line = find_plain query line 0"
| "find_all_in_line R (Regex pattern) line =
     (if rx_error R pattern \<noteq> None then [] else filter (\<lambda>(a, b). a < b) (rx_find_iter R pattern line))"

section \<open>Previews\<close>

definition trim_preview :: "string \<Rightarrow> nat \<Rightarrow> string" where
  "trim_preview line0 max_chars =
     (let line = trim line0; chars = str_chars line in
      if length chars \<le> max_chars then line
      else (let half = max_chars div 2 in
            concat (take half chars) @ '' ... '' @ concat (rev (take half (rev chars)))))"

text \<open>The byte offsets at which the characters of a line begin, and its end.\<close>

definition char_positions :: "string \<Rightarrow> nat list" where
  "char_positions line = map (\<lambda>i. length (concat (take i (str_chars line)))) [0..<Suc (length (str_chars line))]"

definition partition_point :: "('a \<Rightarrow> bool) \<Rightarrow> 'a list \<Rightarrow> nat" where
  "partition_point P xs = length (takeWhile P xs)"

definition trim_preview_around_match :: "string \<Rightarrow> nat \<Rightarrow> nat \<Rightarrow> nat \<Rightarrow> string" where
  "trim_preview_around_match line0 match_start0 match_end0 max_chars =
     (let line = trim line0 in
      if length (str_chars line) \<le> max_chars then line
      else
        (let match_start = min match_start0 (length line);
             match_end = min match_end0 (length line);
             positions = char_positions line;
             match_start_char = partition_point (\<lambda>idx. idx \<le> match_start) positions - 1;
             match_end_char = min (partition_point (\<lambda>idx. idx < match_end) positions) (length positions - 1);
             before_chars = max_chars div 3;
             start_char = match_start_char - before_chars;
             end_char = min (start_char + max_chars) (length positions - 1);
             (start_char, end_char) =
               (if match_end_char \<ge> end_char
                then (min match_end_char (length positions - 1) - max_chars, min match_end_char (length positions - 1))
                else (start_char, end_char))
         in take (positions ! end_char - positions ! start_char) (drop (positions ! start_char) line)))"

section \<open>Searching the captured files\<close>

record full_text_search_result =
  ftr_flow_key :: string
  ftr_path :: string
  ftr_line_number :: nat
  ftr_preview :: string
  ftr_display_line :: string

definition path_parent :: "string \<Rightarrow> path_component list option" where
  "path_parent path = (if path_components path = [] \<or> last (path_components path) = RootDir then None
     else Some (butlast (path_components path)))"

definition parent_name :: "string \<Rightarrow> string option" where
  "parent_name path = (case path_parent path of
     None \<Rightarrow> None
   | Some ks \<Rightarrow> if ks = [] then None else (case last ks of Normal n \<Rightarrow> from_utf8 n | _ \<Rightarrow> None))"

definition flow_key_from_path :: "string \<Rightarrow> string option" where
  "flow_key_from_path path = parent_name path"

definition sequence_from_flow_key :: "string \<Rightarrow> nat" where
  "sequence_from_flow_key flow_key =
     (let seq = (case split_once (CHR ''-'') flow_key of Some (s, _) \<Rightarrow> s | None \<Rightarrow> flow_key) in
      case parse_uint u64_max seq of Some n \<Rightarrow> n | None \<Rightarrow> u64_max)"

definition compact_result_path :: "string \<Rightarrow> string" where
  "compact_result_path path =
     (case parent_name path of Some n \<Rightarrow> n | None \<Rightarrow> ''?'') @ ''/''
     @ (case Option.bind (path_file_name path) from_utf8 of Some n \<Rightarrow> n | None \<Rightarrow> ''?'')"

definition max_full_text_result_line_chars :: nat where "max_full_text_result_line_chars = 96"
definition min_full_text_preview_chars :: nat where "min_full_text_preview_chars = 32"
definition max_full_text_results_displayed :: nat where "max_full_text_results_displayed = 500"
definition max_search_history :: nat where "max_search_history = 100"

definition collect_match :: "rx_lib \<Rightarrow> full_text_matcher \<Rightarrow> string \<Rightarrow> nat option \<times> bytes \<Rightarrow> full_text_search_result option" where
  "collect_match R matcher path = (\<lambda>(number, matched).
     case flow_key_from_path path of
       None \<Rightarrow> None
     | Some flow_key \<Rightarrow>
         (let line = trim (case from_utf8 matched of Some s \<Rightarrow> s | None \<Rightarrow> []);
              line_number = (case number of Some n \<Rightarrow> n | None \<Rightarrow> 0);
              front = compact_result_path path @ '':'' @ show_nat line_number @ '' '';
              preview_max_chars = max (max_full_text_result_line_chars - length (str_chars front)) min_full_text_preview_chars;
              preview = (case find_in_line R matcher line of
                           Some (a, b) \<Rightarrow> trim_preview_around_match line a b preview_max_chars
                         | None \<Rightarrow> trim_preview line preview_max_chars)
          in Some \<lparr>ftr_flow_key = flow_key, ftr_path = from_utf8_lossy path, ftr_line_number = line_number,
                   ftr_preview = preview, ftr_display_line = front @ preview\<rparr>))"

definition compressed_kind_of :: "string \<Rightarrow> compressed_kind option" where
  "compressed_kind_of path = Option.bind (Option.bind (path_file_name path) from_utf8) (\<lambda>name0.
     let name = to_ascii_lowercase name0 in
     if ends_with name ''.body.gz'' \<or> ends_with name ''.gz'' then Some Gzip
     else if ends_with name ''.body.br'' \<or> ends_with name ''.br'' then Some Brotli
     else if ends_with name ''.body.zst'' \<or> ends_with name ''.body.zstd'' \<or> ends_with name ''.zst'' \<or> ends_with name ''.zstd''
     then Some Zstd
     else if ends_with name ''.body.deflate'' \<or> ends_with name ''.deflate'' then Some Deflate
     else None)"

text \<open>An entry of the directory walk: its path, and the content of a file that could be opened; an
  entry that is not a file, or that the walk reports as an error, is \<open>None\<close>.\<close>

type_synonym walk_entry = "(string \<times> bytes option) option"

definition open_decompressed_search_reader :: "'r grep_lib \<Rightarrow> string \<Rightarrow> bytes option \<Rightarrow> 'r option" where
  "open_decompressed_search_reader G path content = (case compressed_kind_of path of
     None \<Rightarrow> None
   | Some kind \<Rightarrow> Option.bind content (gl_open G kind))"

definition search_file :: "rx_lib \<Rightarrow> 'r grep_lib \<Rightarrow> full_text_matcher \<Rightarrow> string \<Rightarrow> bytes option \<Rightarrow> full_text_search_result list" where
  "search_file R G matcher path content =
     List.map_filter (collect_match R matcher path)
       (case open_decompressed_search_reader G path content of
          Some reader \<Rightarrow> gl_search_reader G (grep_pattern matcher) reader
        | None \<Rightarrow> (case content of Some c \<Rightarrow> gl_search_bytes G (grep_pattern matcher) c | None \<Rightarrow> []))"

definition result_key :: "full_text_search_result \<Rightarrow> nat \<times> nat \<times> string" where
  "result_key r = (sequence_from_flow_key (ftr_flow_key r), ftr_line_number r, ftr_path r)"

definition search_capture_files ::
  "rx_lib \<Rightarrow> 'r grep_lib \<Rightarrow> walk_entry list \<Rightarrow> string \<Rightarrow> string + full_text_search_result list" where
  "search_capture_files R G walk query = (case parse_full_text R query of
     None \<Rightarrow> Inr []
   | Some matcher \<Rightarrow> (case gl_error G (grep_pattern matcher) of
       Some e \<Rightarrow> Inl e
     | None \<Rightarrow> Inr (sort_key result_key
         (concat (map (\<lambda>(path, content). search_file R G matcher path content) (List.map_filter id walk))))))"

section \<open>The history of queries\<close>

definition remember_search_query :: "string \<Rightarrow> string list \<Rightarrow> string list" where
  "remember_search_query query0 history =
     (let query = trim query0 in
      if query = [] then history
      else (let history1 = remove1 query history @ [query] in drop (length history1 - max_search_history) history1))"

text \<open>Moving through the history, as both popups do: the selected entry and the text of the input.\<close>

definition move_history_up :: "string list \<Rightarrow> nat option \<times> string \<Rightarrow> nat option \<times> string" where
  "move_history_up history = (\<lambda>(selected, query).
     if history = [] then (selected, query)
     else (let next = (case selected of Some idx \<Rightarrow> idx - 1 | None \<Rightarrow> length history - 1) in
           (Some next, if next < length history then history ! next else query)))"

definition move_history_down :: "string list \<Rightarrow> nat option \<times> string \<Rightarrow> nat option \<times> string" where
  "move_history_down history = (\<lambda>(selected, query).
     if history = [] then (selected, query)
     else (case selected of
             None \<Rightarrow> (selected, query)
           | Some idx \<Rightarrow>
               if idx + 1 < length history then (Some (idx + 1), history ! (idx + 1)) else (None, [])))"

section \<open>The popup\<close>

record search_popup =
  spo_query :: string
  spo_status :: string
  spo_current_results :: "full_text_search_result list"
  spo_history :: "string list"
  spo_history_selected :: "nat option"
  spo_selected :: "(full_text_search_result list \<times> nat \<times> string) list"
  spo_open :: bool

definition set_results :: "full_text_search_result list \<Rightarrow> search_popup \<Rightarrow> search_popup" where
  "set_results results p = p\<lparr>spo_current_results := take max_full_text_results_displayed results\<rparr>"

definition run_search :: "rx_lib \<Rightarrow> 'r grep_lib \<Rightarrow> walk_entry list \<Rightarrow> search_popup \<Rightarrow> search_popup" where
  "run_search R G walk p =
     (if trim (spo_query p) = [] then (set_results [] p)\<lparr>spo_status := ''Enter text or regex to search.''\<rparr>
      else
        (let p1 = p\<lparr>spo_history := remember_search_query (spo_query p) (spo_history p), spo_status := ''Searching...''\<rparr> in
         case search_capture_files R G walk (spo_query p) of
           Inr results \<Rightarrow>
             (let total_count = length results; shown_count = min total_count max_full_text_results_displayed in
              (set_results results p1)\<lparr>spo_status :=
                 if shown_count < total_count
                 then show_nat total_count @ '' matches, showing first '' @ show_nat shown_count
                 else show_nat total_count @ '' matches''\<rparr>)
         | Inl err \<Rightarrow> (set_results [] p1)\<lparr>spo_status := ''Search error: '' @ err\<rparr>))"

fun poll_result_clicks :: "nat list \<Rightarrow> search_popup \<Rightarrow> search_popup" where
  "poll_result_clicks [] p = p"
| "poll_result_clicks (idx # clicks) p =
     poll_result_clicks clicks
       (if idx < length (spo_current_results p)
        then p\<lparr>spo_selected := spo_selected p @ [(spo_current_results p, idx, spo_query p)], spo_open := False\<rparr> else p)"

section \<open>Highlighting\<close>

datatype text_span = Dim string | Highlight string

fun span_text :: "text_span \<Rightarrow> string" where
  "span_text (Dim s) = s"
| "span_text (Highlight s) = s"

fun split_inclusive :: "string \<Rightarrow> string list" where
  "split_inclusive [] = []"
| "split_inclusive (c # s) =
     (if c = CHR 0x0A then [c] # split_inclusive s
      else (case split_inclusive s of [] \<Rightarrow> [[c]] | l # ls \<Rightarrow> (c # l) # ls))"

fun highlight_ranges :: "string \<Rightarrow> nat \<Rightarrow> range list \<Rightarrow> text_span list" where
  "highlight_ranges line cursor [] = (if cursor < length line then [Dim (drop cursor line)] else [])"
| "highlight_ranges line cursor ((a, b) # rs) =
     (if cursor < a then [Dim (take (a - cursor) (drop cursor line))] else [])
     @ [Highlight (take (b - a) (drop a line))] @ highlight_ranges line b rs"

definition highlight_line :: "rx_lib \<Rightarrow> full_text_matcher \<Rightarrow> string \<Rightarrow> text_span list" where
  "highlight_line R matcher line =
     (let has_newline = ends_with line [CHR 0x0A];
          plain = (if has_newline then butlast line else line);
          ranges = find_all_in_line R matcher plain
      in (if ranges = [] then [Dim plain] else highlight_ranges plain 0 ranges)
         @ (if has_newline then [Dim [CHR 0x0A]] else []))"

definition highlight_detail_text :: "rx_lib \<Rightarrow> string \<Rightarrow> string \<Rightarrow> text_span list" where
  "highlight_detail_text R txt query = (case parse_full_text R query of
     None \<Rightarrow> [Dim txt]
   | Some matcher \<Rightarrow> concat (map (highlight_line R matcher) (split_inclusive txt)))"

section \<open>The preview shows the match\<close>

lemma str_chars_nonempty: "ch \<in> set (str_chars s) \<Longrightarrow> ch \<noteq> []"
proof (induction s rule: str_chars.induct)
  case (1 s)
  then show ?case using utf8_head_pos [of s] by (subst (asm) (2) str_chars.simps) (auto split: if_splits)
qed

lemma partition_point_upt:
  assumes "k \<le> m" and "\<And>x. x < k \<Longrightarrow> P (f x)" and "k < m \<Longrightarrow> \<not> P (f k)"
  shows "partition_point P (map f [0..<m]) = k"
proof -
  have "takeWhile P (map f [0..<m]) = take k (map f [0..<m])"
    by (rule takeWhile_eq_take_P_nth) (use assms in auto)
  with assms(1) show ?thesis by (simp add: partition_point_def)
qed

text \<open>The offset of a character, and the text between two of them.\<close>

definition char_pos :: "string \<Rightarrow> nat \<Rightarrow> nat" where
  "char_pos line i = length (concat (take i (str_chars line)))"

lemma char_pos_mono:
  assumes "i < j" and "j \<le> length (str_chars line)"
  shows "char_pos line i < char_pos line j"
proof -
  have "take j (str_chars line) = take i (str_chars line) @ take (j - i) (drop i (str_chars line))"
    using assms(1) by (metis le_add_diff_inverse less_imp_le take_add)
  moreover have "concat (take (j - i) (drop i (str_chars line))) \<noteq> []"
  proof -
    have "str_chars line ! i \<in> set (take (j - i) (drop i (str_chars line)))"
      using assms by (simp add: in_set_conv_nth) (intro exI [of _ 0], auto)
    then show ?thesis using str_chars_nonempty by (fastforce dest: in_set_takeD in_set_dropD)
  qed
  ultimately show ?thesis by (simp add: char_pos_def)
qed

lemma char_pos_less_iff:
  "i \<le> length (str_chars line) \<Longrightarrow> j \<le> length (str_chars line) \<Longrightarrow> char_pos line i < char_pos line j \<longleftrightarrow> i < j"
  by (metis char_pos_mono less_irrefl less_trans nat_neq_iff)

lemma char_slice:
  assumes "s \<le> e" and "e \<le> length (str_chars line)"
  shows "take (char_pos line e - char_pos line s) (drop (char_pos line s) line) = concat (take (e - s) (drop s (str_chars line)))"
proof -
  let ?c = "str_chars line"
  have take_e: "take e ?c = take s ?c @ take (e - s) (drop s ?c)"
    using assms(1) by (metis le_add_diff_inverse take_add)
  have "line = concat (take e ?c) @ concat (drop e ?c)"
    by (metis append_take_drop_id concat_append concat_str_chars)
  then have "line = concat (take s ?c) @ concat (take (e - s) (drop s ?c)) @ concat (drop e ?c)"
    by (simp add: take_e)
  moreover have "char_pos line e - char_pos line s = length (concat (take (e - s) (drop s ?c)))"
    by (simp add: char_pos_def take_e)
  ultimately show ?thesis by (metis append_eq_conv_conj char_pos_def)
qed

lemma char_positions_eq: "char_positions line = map (char_pos line) [0..<Suc (length (str_chars line))]"
  by (simp add: char_positions_def char_pos_def)

lemma match_chars:
  assumes "i \<le> length (str_chars line)"
  shows "partition_point (\<lambda>idx. idx \<le> char_pos line i) (char_positions line) = Suc i"
    and "partition_point (\<lambda>idx. idx < char_pos line i) (char_positions line) = i"
  unfolding char_positions_eq
  by (rule partition_point_upt; use assms char_pos_less_iff [of _ line i] char_pos_less_iff [of i line] in \<open>force simp: not_less [symmetric]\<close>)+

text \<open>C23: The preview of a line with a match is a run of whole characters of the line, never more than
  asked for. A match that is not longer than that is shown whole; of a longer one the preview is the
  end, as many characters as asked for. No offset is outside the line or inside a character.\<close>

theorem preview_shows_match:
  assumes "trim line = line" and "i \<le> j" and "j \<le> length (str_chars line)"
  shows "\<exists>s e. s \<le> e \<and> e \<le> length (str_chars line) \<and> e - s \<le> max_chars
    \<and> trim_preview_around_match line (char_pos line i) (char_pos line j) max_chars = concat (take (e - s) (drop s (str_chars line)))
    \<and> (if j - i \<le> max_chars then s \<le> i \<and> j \<le> e else e = j \<and> e - s = max_chars)"
proof (cases "length (str_chars line) \<le> max_chars")
  case True
  moreover from this assms(3) have "j - i \<le> max_chars" by linarith
  ultimately show ?thesis
    using assms by - (rule exI [of _ 0], rule exI [of _ "length (str_chars line)"], simp add: trim_preview_around_match_def)
next
  case False
  let ?n = "length (str_chars line)"
  define s0 where "s0 = i - max_chars div 3"
  define e0 where "e0 = min (s0 + max_chars) ?n"
  define s where "s = (if j \<ge> e0 then j - max_chars else s0)"
  define e where "e = (if j \<ge> e0 then j else e0)"
  have le: "char_pos line k \<le> length line" if "k \<le> ?n" for k
    using that char_pos_less_iff [of ?n line k] by (simp add: char_pos_def not_less [symmetric])
  have count: "length (char_positions line) - 1 = ?n" by (simp add: char_positions_def)
  have nth: "char_positions line ! k = char_pos line k" if "k \<le> ?n" for k
    using that by (simp add: char_positions_eq del: upt_Suc)
  have bounds: "e \<le> ?n" "e - s \<le> max_chars" "s \<le> e"
    and shown: "if j - i \<le> max_chars then s \<le> i \<and> j \<le> e else e = j \<and> e - s = max_chars"
    using assms(2,3) by (auto simp: s_def e_def s0_def e0_def min_def)
  have "i \<le> ?n" using assms(2,3) by simp
  note at = min_absorb1 [OF le [OF this]] min_absorb1 [OF le [OF assms(3)]] match_chars(1) [OF this] match_chars(2) [OF assms(3)]
  have "trim_preview_around_match line (char_pos line i) (char_pos line j) max_chars
      = take (char_positions line ! e - char_positions line ! s) (drop (char_positions line ! s) line)"
    unfolding trim_preview_around_match_def Let_def assms(1) at count diff_Suc_1 min_absorb1 [OF assms(3)]
      s0_def [symmetric] e0_def [symmetric]
    using False by (simp add: s_def e_def)
  then have "trim_preview_around_match line (char_pos line i) (char_pos line j) max_chars
      = take (char_pos line e - char_pos line s) (drop (char_pos line s) line)"
    using bounds nth by simp
  with char_slice [OF bounds(3,1)] bounds shown show ?thesis by metis
qed

theorem preview_shows_match_witness:
  "(\<exists>s e. s \<le> 5 \<and> 7 \<le> e \<and> trim_preview_around_match ''0123456789'' 5 7 6 = concat (take (e - s) (drop s (str_chars ''0123456789''))))
   \<and> trim_preview_around_match ''0123456789'' 1 8 3 = ''567''"
proof -
  have "trim ''0123456789'' = ''0123456789''" "length (str_chars ''0123456789'') = 10"
    "char_pos ''0123456789'' 5 = 5" "char_pos ''0123456789'' 7 = 7"
    "trim_preview_around_match ''0123456789'' 1 8 3 = ''567''"
    by code_simp+
  then show ?thesis using preview_shows_match [of "''0123456789''" 5 7 6] by auto
qed

section \<open>Highlighting keeps the text\<close>

lemma concat_split_inclusive: "concat (split_inclusive s) = s"
  by (induction s) (auto split: list.splits)

lemma ranges_from_lower: "ranges_from lo rs hi \<Longrightarrow> lo' \<le> lo \<Longrightarrow> ranges_from lo' rs hi"
  by (cases rs) auto

lemma ranges_from_filter: "ranges_from lo rs hi \<Longrightarrow> ranges_from lo (filter P rs) hi"
proof (induction rs arbitrary: lo)
  case (Cons r rs)
  obtain a b where r: "r = (a, b)" by fastforce
  with Cons have "lo \<le> a" "a \<le> b" "ranges_from b (filter P rs) hi" by auto
  then show ?case using r by (auto intro: ranges_from_lower)
qed simp

lemma ranges_from_end: "ranges_from lo rs hi \<Longrightarrow> lo \<le> hi"
  by (induction lo rs hi rule: ranges_from.induct) auto

text \<open>The spans of ranges in order are the rest of the line.\<close>

lemma highlight_ranges_text:
  "ranges_from cursor rs (length line) \<Longrightarrow> concat (map span_text (highlight_ranges line cursor rs)) = drop cursor line"
proof (induction rs arbitrary: cursor)
  case (Cons r rs)
  obtain a b where r: "r = (a, b)" by fastforce
  with Cons.prems have le: "cursor \<le> a" "a \<le> b" "b \<le> length line" by (auto dest: ranges_from_end)
  have "drop cursor line = take (a - cursor) (drop cursor line) @ take (b - a) (drop a line) @ drop b line"
    using le by (metis append_take_drop_id drop_drop le_add_diff_inverse add.commute)
  with Cons r le show ?case by (auto simp: not_less)
qed simp

text \<open>The occurrences of a plain query.\<close>

lemma find_plain_ranges: "query \<noteq> [] \<Longrightarrow> ranges_from offset (find_plain query rest offset) (offset + length rest)"
proof (induction query rest offset rule: find_plain.induct)
  case (1 query rest offset)
  show ?case
  proof (cases "find_sub rest query")
    case None
    then show ?thesis by (simp add: find_plain.simps [of query])
  next
    case (Some pos)
    let ?rest = "drop (pos + length query) rest" and ?fin = "offset + pos + length query"
    have le: "pos + length query \<le> length rest" using find_sub_Some [OF Some] by blast
    have "ranges_from ?fin (find_plain query ?rest ?fin) (?fin + length ?rest)"
      by (rule 1(1) [OF 1(2) Some refl refl 1(2)])
    moreover have "?fin + length ?rest = offset + length rest" using le by simp
    ultimately show ?thesis using 1(2) Some by (simp add: find_plain.simps [of query rest] Let_def)
  qed
qed

definition marks_query :: "string \<Rightarrow> text_span \<Rightarrow> bool" where
  "marks_query query span = (case span of Highlight s \<Rightarrow> s = query | Dim s \<Rightarrow> \<not> contains_sub s query)"

lemma find_plain_marks:
  "query \<noteq> [] \<Longrightarrow> line = bef @ rest \<Longrightarrow> offset = length bef \<Longrightarrow>
   \<forall>span \<in> set (highlight_ranges line offset (find_plain query rest offset)). marks_query query span"
proof (induction query rest offset arbitrary: bef rule: find_plain.induct)
  case (1 query rest offset)
  show ?case
  proof (cases "find_sub rest query")
    case None
    with 1 show ?thesis by (auto simp: find_plain.simps [of query] marks_query_def contains_sub_def)
  next
    case (Some pos)
    obtain r where r: "rest = take pos rest @ query @ r" "pos + length query \<le> length rest" using find_sub_Some [OF Some] by blast
    have rest: "drop (pos + length query) rest = r" by (subst r(1)) (use r(2) in simp)
    have len: "length (take pos rest) = pos" using r(2) by simp
    have "\<forall>span \<in> set (highlight_ranges line (offset + pos + length query) (find_plain query r (offset + pos + length query))).
        marks_query query span"
      using 1(1) [OF 1(2) Some refl refl 1(2), of "bef @ take pos rest @ query"] 1(3,4) r(1) len rest by (simp add: add.assoc)
    moreover have "take length_query (drop (offset + pos) line) = query" if "length_query = length query" for length_query
      using 1(3,4) len that by (subst 1(3), subst r(1)) simp
    moreover have "take pos (drop offset line) = take pos rest" using 1(3,4) by simp
    ultimately show ?thesis
      using 1(2) Some rest find_sub_prefix_free [OF Some 1(2)]
      by (auto simp: find_plain.simps [of query rest] Let_def marks_query_def)
  qed
qed

lemma find_plain_Nil: "query \<noteq> [] \<Longrightarrow> find_plain query rest offset = [] \<Longrightarrow> \<not> contains_sub rest query"
  by (subst (asm) find_plain.simps) (auto simp: contains_sub_def Let_def split: option.splits)

lemma find_all_ranges:
  "rx_laws R \<Longrightarrow> parse_full_text R query = Some matcher \<Longrightarrow> ranges_from 0 (find_all_in_line R matcher line) (length line)"
  using find_plain_ranges [of _ 0 line]
  by (auto simp: parse_full_text_def Let_def rx_laws_def intro!: ranges_from_filter split: if_splits option.splits)

lemma highlight_line_text:
  assumes "rx_laws R" and "parse_full_text R query = Some matcher"
  shows "concat (map span_text (highlight_line R matcher line)) = line"
proof -
  have "line = butlast line @ [CHR 0x0A]" if "ends_with line [CHR 0x0A]" using that by (auto simp: ends_with_iff)
  then show ?thesis
    using highlight_ranges_text [OF find_all_ranges [OF assms]] by (auto simp: highlight_line_def Let_def)
qed

lemma highlight_line_marks:
  assumes "parse_full_text R query = Some (Plain q e)" and "span \<in> set (highlight_line R (Plain q e) line)"
  shows "span = Dim [CHR 0x0A] \<or> marks_query q span"
proof -
  have "q \<noteq> []" using assms(1) by (auto simp: parse_full_text_def Let_def split: if_splits option.splits)
  then show ?thesis
    using assms(2) find_plain_marks [of q _ "[]"] find_plain_Nil [of q]
    by (auto simp: highlight_line_def Let_def marks_query_def split: if_splits)
qed

text \<open>C22: Highlighting the matches of a query never changes a detail text: its spans put together are the text,
  for plain queries and for regular expressions, on every line and with its line ends. For a plain
  query the highlighted spans are exactly occurrences of the query, and none is left out: no other
  span contains it, line ends aside.\<close>

theorem highlight_keeps_text:
  assumes "rx_laws R"
  shows "concat (map span_text (highlight_detail_text R txt query)) = txt
    \<and> (\<forall>q e. parse_full_text R query = Some (Plain q e) \<longrightarrow>
        (\<forall>span \<in> set (highlight_detail_text R txt query). span = Dim [CHR 0x0A] \<or> marks_query q span))"
proof (cases "parse_full_text R query")
  case (Some matcher)
  have "concat (map span_text (concat (map (highlight_line R matcher) ls))) = concat ls" for ls
    using highlight_line_text [OF assms Some] by (induction ls) simp_all
  then show ?thesis
    using Some highlight_line_marks [of R query] by (auto simp: highlight_detail_text_def concat_split_inclusive)
qed (simp add: highlight_detail_text_def)

definition no_rx :: rx_lib where
  "no_rx = \<lparr>rx_error = \<lambda>_. Some ''no regular expressions'', rx_is_match = \<lambda>_ _. False, rx_find = \<lambda>_ _. None,
     rx_find_iter = \<lambda>_ _. [], rx_escape = \<lambda>s. s\<rparr>"

theorem highlight_keeps_text_witness:
  "highlight_detail_text no_rx ''xabxab'' '' ab '' = [Dim ''x'', Highlight ''ab'', Dim ''x'', Highlight ''ab'']
   \<and> concat (map span_text (highlight_detail_text no_rx ''xabxab'' '' ab '')) = ''xabxab''"
proof
  show "highlight_detail_text no_rx ''xabxab'' '' ab '' = [Dim ''x'', Highlight ''ab'', Dim ''x'', Highlight ''ab'']"
    by code_simp
  have "rx_laws no_rx" by (simp add: rx_laws_def no_rx_def)
  then show "concat (map span_text (highlight_detail_text no_rx ''xabxab'' '' ab '')) = ''xabxab''"
    using highlight_keeps_text by blast
qed

section \<open>The history keeps each query once\<close>

lemma remember_search_query_wf:
  assumes "distinct history" and "length history \<le> max_search_history"
  shows "distinct (remember_search_query query history) \<and> length (remember_search_query query history) \<le> max_search_history
    \<and> (trim query \<noteq> [] \<longrightarrow> last (remember_search_query query history) = trim query)"
proof -
  let ?h = "remove1 (trim query) history @ [trim query]"
  have "distinct ?h" using assms(1) by simp
  moreover have "length ?h - max_search_history < length ?h" by (simp add: max_search_history_def)
  moreover have "length ?h - (length ?h - max_search_history) \<le> max_search_history" by arith
  moreover have "length history - (length history - max_search_history) \<le> max_search_history" by arith
  ultimately show ?thesis
    using assms by (simp add: remember_search_query_def Let_def last_drop del: drop_append diff_diff_cancel length_append)
qed

end
