(* ===== verification/Spec2Isabelle.thy ===== *)
theory Spec2Isabelle
  imports Dispatcher EditedFilter FilterFiles TextSearch
begin

text \<open>
  A verification library for \<^bold>\<open>inspect\<close>, an intercepting HTTP proxy whose traffic is inspected and
  rewritten by filters written in the Roto scripting language.

  \<^bold>\<open>The program.\<close> A connection reaches the proxy, connect filters may refuse it, and every request is
  given to the filters whose trigger selects it. Their actions are merged into one action, which
  patches the request, answers it synthetically or drops the response; the response takes the same
  way back. Scripts keep state between runs in a bounded store, slow scripts are put into
  quarantine, and what went over the wire is captured on disk, event by event where the response is
  a stream of server-sent events. A captured exchange can be edited as a document; the difference
  becomes a generated filter, which is saved and put into service.

  \<^bold>\<open>The theories.\<close>
  \<^item> \<open>Prelude\<close>: the standard library as the sources use it (strings as their bytes, searching,
    splitting, trimming, numbers, UTF-8, hash maps) and the interfaces \<open>invariant_system\<close> (a
    component whose steps keep an invariant) and \<open>shared_store\<close> (a store with several
    owners, whose entries only their owner or expiry can change).
  \<^item> \<open>Paths\<close>: \<open>std::path\<close> on Unix, with the order of paths as a \<open>linorder\<close> instance.
  \<^item> \<open>StateStore\<close>: \<open>src/src/mitm/flow/state_store.rs\<close>. \<open>filter_state_store\<close> is the struct; \<open>store_get\<close>,
    \<open>store_put\<close>, \<open>store_delete\<close> and \<open>sweep_expired\<close> are its methods with the time as an argument.
    \<open>store_put_checked\<close> is the put with its additions at the width of \<open>usize\<close>.
    Shown: the limits hold in every reachable store, no addition of a put overflows, a stored value
    can be read back, a rejected put stores nothing, a sweep removes exactly what has expired, and the
    accounts are exact until a value shrinks, after which allowance is lost.
  \<^item> \<open>RuntimeState\<close>: \<open>src/src/filters/runtime_state.rs\<close>. The thread-local slot holds an address of a
    heap of contexts; \<open>roto_prog\<close> is a script as a tree of state calls. Shown: a script changes
    no entry of another owner, unless the entry has expired, and a guarded run restores the slot and
    has the result and the statistics of \<open>script_calls\<close>, the script run without slot and contexts.
  \<^item> \<open>SseCapture\<close>: \<open>src/src/mitm/flow/sse_capture.rs\<close>. Shown: the capture is a function of the whole
    stream however it was cut into frames, its size is bounded, its files have distinct names.
  \<^item> \<open>FilterTypes\<close>: \<open>src/src/filters/types.rs\<close>. Shown: the glob matcher is sound, exact on the patterns
    that end with a wildcard or have none, and incomplete on the others; triggers ignore case.
  \<^item> \<open>Http\<close>: the interface of the \<open>http\<close> crate as the record \<open>http_lib\<close> with its documented laws
    \<open>http_laws\<close>, and \<open>src/src/mitm/flow/body_encoding.rs\<close>. Shown: decoding never loses a body.
  \<^item> \<open>FilterBridge\<close>: \<open>src/src/mitm/flow/filter_bridge.rs\<close>. The contract of merging is the locale
    \<open>action_merge\<close>, interpreted for connect, request and response actions. Shown: the result of a
    header patch, and that a body patch leaves no header that described the old body.
  \<^item> \<open>RotoAction\<close>: the data and functions of \<open>src/src/filters/runtime.rs\<close> that scripts use, the
    rewriting of bodies, the conversion to actions, and \<open>src/src/filters/roto_api.rs\<close>. Shown: what
    replacing everywhere does, when a body is rewritten at all, what a script's action can change.
  \<^item> \<open>RotoRuntime\<close>: compiled filters and the ordered filter set of \<open>src/src/filters/runtime.rs\<close>. Shown:
    which filters match in which order, and when a script is taken into service.
  \<^item> \<open>FilterRuntime\<close>: \<open>src/src/mitm/flow/filter_runtime.rs\<close>. \<open>flow_filter_runtime\<close> is the state of the
    runtime, \<open>runtime_step\<close> one run of a phase. Shown: a phase is the chain of its matching filters
    up to the first that stops, and over any sequence of runs a file is quarantined at most once
    and only if it is a generated one.
  \<^item> \<open>FilterManager\<close>: \<open>src/src/filters/manager.rs\<close>. The file system is an argument. Shown: a reload
    puts exactly the loadable files outside the quarantine into service, in their order; front
    matter survives printing and reading; every rejected file is reported; a fresh name is fresh.

  \<^item> \<open>JsonValue\<close>: the values of \<open>serde_json\<close>, whose printer and parser are the record \<open>json_lib\<close>.
  \<^item> \<open>CaptureService\<close>: \<open>src/src/mitm/flow/capture_service.rs\<close>. The store of flows and of files is explicit
    state, \<open>commit_request\<close> and its siblings are the commits. Shown: a commit stores its flow and
    nothing else, the stored metadata agree with the stored body, and a body cut at its limit is
    given the name of a complete one.
  \<^item> \<open>Channels\<close>: the bounded channels of \<open>tokio\<close> as the record \<open>mpsc\<close> with its documented laws (locale
    \<open>tokio_channel\<close>), and the locale \<open>lossy_queue\<close> of a sender that never waits.
  \<^item> \<open>FlowEvents\<close>: \<open>flow_event.rs\<close>, \<open>event_bridge.rs\<close> and \<open>tui_sink.rs\<close> of \<open>src/src/mitm/flow\<close>. Shown: an
    event carries the fields of the record it announces, each sink is given each event in order, and
    the terminal interface is sent the packets of an event.
  \<^item> \<open>HttpTypes\<close> and \<open>OutboundHttp\<close>: \<open>src/src/filters/http_types.rs\<close> and \<open>http_client.rs\<close>. Shown: the jobs in
    flight are bounded and belong to configured clients, and arrive while they fit; an absolute path
    leaves its client.
  \<^item> \<open>StreamBody\<close>: the bodies of \<open>dispatcher.rs\<close> as sources of frames (locale \<open>body_source\<close>, with an
    interpretation per wrapper). Shown: probing a body does not change it, the capturing wrapper
    sees the stream it forwards, and a streamed flow is finalized once.
  \<^item> \<open>Dispatcher\<close>: \<open>src/src/mitm/flow/dispatcher.rs\<close>, the way of a request through filters, capture and
    upstream and back. Shown: the upstream is called exactly when the request was committed and not
    answered, an untouched response passes unchanged, flow keys are distinct, every answer leaves a
    record, and observers are told of exactly the records.
  \<^item> \<open>JsonPatch\<close>, \<open>CompactJson\<close>: \<open>src/src/filters/engine/json/patch.rs\<close> with the interface of the crate that
    applies patches, and a complete printer, parser and patch application, which show that the laws
    assumed of these crates can hold.
  \<^item> \<open>JsonDiff\<close>: \<open>engine/diff.rs\<close> and \<open>engine/json/capture.rs\<close>. Shown: the patch generated from the diff
    of two bodies validates when no array loses more than one item.
  \<^item> \<open>Generator\<close>: \<open>src/src/filters/generator.rs\<close>. Shown: no text leaves the literal it is quoted into, the filter
    manager reads back the front matter that was written, and triggers and conditions hold for the
    exchange a filter was made from.
  \<^item> \<open>BodyRewrite\<close>: \<open>engine/semantic/body_tree_sitter.rs\<close>, with the parsers as a parameter: from two texts
    to the passage that changed.
  \<^item> \<open>Editor\<close>: \<open>src/src/filters/editor.rs\<close>. Shown: a printed document reads back, and when an unedited
    session counts as changed.
  \<^item> \<open>EditedFilter\<close>: the chain of calls a generated filter consists of, run on the action library.
    Shown: header and body edits take effect on the exchange they were made from.
  \<^item> \<open>FilterFiles\<close>: a disk whose operations may fail anywhere; \<open>src/src/mitm/capture.rs\<close>,
    \<open>src/src/filters/generated.rs\<close>, and the parts of the filter manager that move files or watch
    directories. Shown: a saved filter is loaded by the manager it is saved with, a filter that fails is set aside and nothing
    else changes, a name cannot lead out of the directory, and the filters follow a disk that has
    come to rest.
  \<^item> \<open>TextSearch\<close>: \<open>src/src/tui/search.rs\<close> and the highlighting of \<open>src/src/tui/mod.rs\<close>. Shown: a preview is
    no longer than asked for and shows its match, and highlighting keeps the text.

  \<^bold>\<open>Conventions.\<close> A \<open>str\<close>, a \<open>String\<close> and a byte vector are the list of their bytes. Code of other crates
  is an argument: \<open>http_lib\<close>, \<open>body_decoders\<close>, \<open>script_lib\<close>, \<open>json_lib\<close>, \<open>tree_sitter_lib\<close>, \<open>rx_lib\<close>,
  \<open>grep_lib\<close>, \<open>mpsc\<close> and the Roto compiler. The clock is a sequence of readings; for the filter runtime, files
  moved and directories reloaded are outcomes in \<open>runtime_env\<close>. Errors
  are values of a sum or option type. Logging is left out. Every definition computes; the
  loops terminate, with the length of the remaining input as the measure where the recursion is not
  structural, so no fuel is used, except in the search for a free
  file name, whose bound, one more than the files there are, is shown to suffice.

  \<^bold>\<open>Not modelled.\<close> The proxy server, the WebSocket relay, the upstream client and TLS: sockets and tasks
  around other crates. The metadata database and the HAR export: SQL statements and JSON building.
  The terminal interface apart from the full text search, and the program entry with its options:
  widgets, layout and configuration.
\<close>

end
